(* ===== verification/Prelude.thy ===== *)
theory Prelude
  imports
    Main
    "HOL-Library.List_Lexorder"
    "HOL-Library.Char_ord"
    "HOL-Library.Product_Lexorder"
    "HOL-Library.Sublist"
    "HOL-Library.AList"
    "HOL-Library.Multiset"
    "HOL-Library.Word"
begin

text \<open>
  Shared vocabulary of the development: Python exceptions as values of a sum type, the
  fragment of Python's \<open>str\<close>, \<open>dict\<close> and \<open>sorted\<close> that the program uses, and the
  generic lemmas on them that the component theories share.

  A Python \<open>str\<close> is a \<^typ>\<open>string\<close>, one character per code point; the character type
  covers the code points U+0000 to U+00FF.  The order on strings is the lexicographic order
  by code point, which is Python's.  A \<open>dict\<close> whose iteration order the code uses is an
  association list with distinct keys, in insertion order.
\<close>

named_theorems result_simps \<open>elimination of the error monad\<close>
named_theorems dict_simps \<open>association lists as Python dictionaries\<close>
named_theorems string_simps \<open>Python string functions\<close>

section \<open>Exceptions as values\<close>

datatype exn =
    ValueError
  | KeyError
  | IndexError
  | TypeError
  | AssertionError
  | OverflowError
  | RuntimeError
  | ValidationError          \<comment> \<open>pydantic\<close>
  | EventTagValidationError
  | IntegrityError           \<comment> \<open>raised by a constraint of the database\<close>
  | NoResultFound            \<comment> \<open>\<open>scalar_one\<close> on an empty result\<close>
  | DatabaseError            \<comment> \<open>raised by the evaluation of a statement\<close>
  | TaskSubmissionError
  | InvalidAuditCursorError
  | PluginException
  | AttributeError
  | OSError
  | SystemExit               \<comment> \<open>\<open>argparse\<close> ends the program for \<open>--help\<close>\<close>

type_synonym 'a result = "exn + 'a"

definition rbind :: "'a result \<Rightarrow> ('a \<Rightarrow> 'b result) \<Rightarrow> 'b result" where
  "rbind m f = (case m of Inl e \<Rightarrow> Inl e | Inr x \<Rightarrow> f x)"

definition rguard :: "bool \<Rightarrow> exn \<Rightarrow> unit result" where
  "rguard b e = (if b then Inr () else Inl e)"

lemma rbind_Inl [simp]: "rbind (Inl e) f = Inl e"
  by (simp add: rbind_def)

lemma rbind_Inr [simp]: "rbind (Inr x) f = f x"
  by (simp add: rbind_def)

lemma rguard_True [simp]: "rguard True e = Inr ()"
  by (simp add: rguard_def)

lemma rguard_False [simp]: "rguard False e = Inl e"
  by (simp add: rguard_def)

lemma rbind_eq_Inr [result_simps]: "rbind m f = Inr y \<longleftrightarrow> (\<exists>x. m = Inr x \<and> f x = Inr y)"
  by (cases m) (auto simp: rbind_def)

lemma rguard_eq_Inr [result_simps]: "rguard b e = Inr u \<longleftrightarrow> b"
  by (simp add: rguard_def)

lemma rbind_eq_Inl:
  "rbind m f = Inl e \<longleftrightarrow> m = Inl e \<or> (\<exists>x. m = Inr x \<and> f x = Inl e)"
  by (cases m) (auto simp: rbind_def)

text \<open>A loop that may raise, collecting its results: the first error wins.\<close>

fun rmapM :: "('a \<Rightarrow> 'b result) \<Rightarrow> 'a list \<Rightarrow> 'b list result" where
  "rmapM f [] = Inr []"
| "rmapM f (x # xs) = rbind (f x) (\<lambda>y. rbind (rmapM f xs) (\<lambda>ys. Inr (y # ys)))"

fun rall :: "('a \<Rightarrow> unit result) \<Rightarrow> 'a list \<Rightarrow> unit result" where
  "rall f [] = Inr ()"
| "rall f (x # xs) = rbind (f x) (\<lambda>_. rall f xs)"

lemma rall_eq_Inr [result_simps]: "rall f xs = Inr u \<longleftrightarrow> (\<forall>x \<in> set xs. f x = Inr ())"
  by (induction xs) (auto simp: result_simps)

lemma rmapM_eq_Inr_length: "rmapM f xs = Inr ys \<Longrightarrow> length ys = length xs"
  by (induction xs arbitrary: ys) (auto simp: result_simps)

lemma rmapM_eq_Inr: "rmapM f xs = Inr ys \<longleftrightarrow> list_all2 (\<lambda>x y. f x = Inr y) xs ys"
  by (induction xs arbitrary: ys) (auto simp: result_simps list_all2_Cons1)

lemma rmapM_map_eq:
  "rmapM f xs = Inr ys \<Longrightarrow> (\<And>x y. f x = Inr y \<Longrightarrow> h y = g x) \<Longrightarrow> map h ys = map g xs"
  by (induction xs arbitrary: ys) (auto simp: result_simps)

lemma rmapM_origin: "rmapM f xs = Inr ys \<Longrightarrow> y \<in> set ys \<Longrightarrow> \<exists>x \<in> set xs. f x = Inr y"
  by (induction xs arbitrary: ys) (auto simp: result_simps)

text \<open>
  A loop that threads a state and may raise; an iteration that ends in \<open>continue\<close> adds no
  result.
\<close>

fun rloop :: "('a \<Rightarrow> 's \<Rightarrow> ('s \<times> 'b option) result) \<Rightarrow> 'a list \<Rightarrow> 's \<Rightarrow> ('s \<times> 'b list) result" where
  "rloop f [] s = Inr (s, [])"
| "rloop f (x # xs) s =
     rbind (f x s) (\<lambda>(s', y).
     rbind (rloop f xs s') (\<lambda>(s'', ys).
     Inr (s'', case y of None \<Rightarrow> ys | Some y \<Rightarrow> y # ys)))"

lemma rloop_Cons_eq_Inr:
  "rloop f (x # xs) s = Inr (s'', zs) \<longleftrightarrow>
     (\<exists>s' y ys. f x s = Inr (s', y) \<and> rloop f xs s' = Inr (s'', ys) \<and>
        zs = (case y of None \<Rightarrow> ys | Some y \<Rightarrow> y # ys))"
  by (auto simp: result_simps)

text \<open>A relation that is reflexive and transitive holds along a loop when it holds along its body.\<close>

lemma rloop_induct [consumes 1, case_names refl step]:
  assumes "rloop f xs s = Inr (s', ys)"
    and "\<And>s. R s s"
    and "\<And>x s s' s'' y. x \<in> set xs \<Longrightarrow> f x s = Inr (s', y) \<Longrightarrow> R s' s'' \<Longrightarrow> R s s''"
  shows "R s s'"
  using assms
proof (induction xs arbitrary: s ys)
  case (Cons x xs)
  from Cons.prems(1) obtain s1 y ys' where
    *: "f x s = Inr (s1, y)" "rloop f xs s1 = Inr (s', ys')"
    unfolding rloop_Cons_eq_Inr by blast
  have "R s1 s'"
    by (rule Cons.IH [OF *(2) Cons.prems(2)]) (rule Cons.prems(3), simp_all)
  then show ?case by (rule Cons.prems(3) [OF list.set_intros(1) *(1)])
qed simp

text \<open>The outcome of an HTTP request: a status with a body, or an error status.\<close>

datatype 'a response = Response int 'a | Http_error int

section \<open>Strings\<close>

definition char_code :: "char \<Rightarrow> nat" where
  "char_code c = of_char c"

text \<open>\<open>str.lower\<close> on U+0000 to U+00FF: the ASCII and the Latin-1 capital letters.\<close>

definition lower_char :: "char \<Rightarrow> char" where
  "lower_char c =
     (let n = char_code c
      in if (65 \<le> n \<and> n \<le> 90) \<or> (192 \<le> n \<and> n \<le> 222 \<and> n \<noteq> 215) then char_of (n + 32) else c)"

definition str_lower :: "string \<Rightarrow> string" where
  "str_lower s = map lower_char s"

definition is_space :: "char \<Rightarrow> bool" where
  "is_space c =
     (let n = char_code c
      in (9 \<le> n \<and> n \<le> 13) \<or> (28 \<le> n \<and> n \<le> 32) \<or> n = 133 \<or> n = 160)"

definition str_strip :: "string \<Rightarrow> string" where
  "str_strip s = rev (dropWhile is_space (rev (dropWhile is_space s)))"

fun str_join :: "string \<Rightarrow> string list \<Rightarrow> string" where
  "str_join sep [] = []"
| "str_join sep [s] = s"
| "str_join sep (s # t # ts) = s @ sep @ str_join sep (t # ts)"

text \<open>\<open>s.replace(old, new)\<close> for a non-empty \<open>old\<close>, scanning from the left.\<close>

function str_replace :: "string \<Rightarrow> string \<Rightarrow> string \<Rightarrow> string" where
  "str_replace old new s =
     (case s of
        [] \<Rightarrow> []
      | c # cs \<Rightarrow>
          if old \<noteq> [] \<and> prefix old s then new @ str_replace old new (drop (length old) s)
          else c # str_replace old new cs)"
  by pat_completeness auto
termination
  by (relation "measure (\<lambda>(old, new, s). length s)") auto

declare str_replace.simps [simp del]

definition digit_char :: "nat \<Rightarrow> char" where
  "digit_char d = ''0123456789'' ! d"

text \<open>The decimal digits of a non-negative number.\<close>

function int_digits :: "int \<Rightarrow> string" where
  "int_digits n =
     (if n < 10 then [digit_char (nat n)] else int_digits (n div 10) @ [digit_char (nat (n mod 10))])"
  by pat_completeness auto
termination
  by (relation "measure nat") auto

declare int_digits.simps [simp del]

definition int_str :: "int \<Rightarrow> string" where
  "int_str i = (if i < 0 then CHR ''-'' # int_digits (- i) else int_digits i)"

abbreviation nat_str :: "nat \<Rightarrow> string" where
  "nat_str n \<equiv> int_str (int n)"

text \<open>A number in decimal, padded with zeros on the left to a width.\<close>

definition pad_int :: "nat \<Rightarrow> int \<Rightarrow> string" where
  "pad_int w n = (let s = int_digits n in replicate (w - length s) (CHR ''0'') @ s)"

lemma str_lower_length [string_simps]: "length (str_lower s) = length s"
  by (simp add: str_lower_def)

lemma str_lower_append [string_simps]: "str_lower (s @ t) = str_lower s @ str_lower t"
  by (simp add: str_lower_def)

lemma int_digits_not_Nil [simp]: "int_digits n \<noteq> []"
  by (subst int_digits.simps) simp

lemma int_str_not_Nil [simp]: "int_str n \<noteq> []"
  by (simp add: int_str_def)

lemma str_replace_absent:
  assumes "\<not> sublist old s"
  shows "str_replace old new s = s"
  using assms
proof (induction s)
  case Nil
  then show ?case by (subst str_replace.simps) simp
next
  case (Cons c cs)
  have "\<not> prefix old (c # cs)" using Cons.prems by (meson prefix_imp_sublist)
  moreover have "\<not> sublist old cs" using Cons.prems by (meson sublist_Cons_right)
  ultimately show ?case using Cons.IH by (subst str_replace.simps) simp
qed

section \<open>Sorting, sets and slices\<close>

text \<open>\<open>sorted(set(xs))\<close>.\<close>

definition sorted_set :: "'a::linorder list \<Rightarrow> 'a list" where
  "sorted_set xs = sort (remdups xs)"

lemma set_sorted_set [simp]: "set (sorted_set xs) = set xs"
  by (simp add: sorted_set_def)

lemma distinct_sorted_set [simp]: "distinct (sorted_set xs)"
  by (simp add: sorted_set_def)

lemma sorted_sorted_set [simp]: "sorted (sorted_set xs)"
  by (simp add: sorted_set_def)

lemma sorted_set_Nil_iff [simp]: "sorted_set xs = [] \<longleftrightarrow> xs = []"
  by (metis set_empty set_sorted_set)

lemma length_sorted_set: "length (sorted_set xs) = card (set xs)"
  by (metis distinct_card distinct_sorted_set set_sorted_set)

text \<open>\<open>xs[-n:]\<close>: the last \<open>n\<close> elements, but all of them when \<open>n\<close> is 0.\<close>

definition slice_last :: "nat \<Rightarrow> 'a list \<Rightarrow> 'a list" where
  "slice_last n xs = (if n = 0 then xs else drop (length xs - n) xs)"

lemma length_slice_last: "0 < n \<Longrightarrow> length (slice_last n xs) \<le> n"
  by (simp add: slice_last_def)

lemma set_slice_last: "set (slice_last n xs) \<subseteq> set xs"
  by (simp add: slice_last_def set_drop_subset)

section \<open>Dictionaries\<close>

type_synonym ('k, 'v) dict = "('k \<times> 'v) list"

abbreviation dict_keys :: "('k, 'v) dict \<Rightarrow> 'k list" where
  "dict_keys d \<equiv> map fst d"

definition dict_wf :: "('k, 'v) dict \<Rightarrow> bool" where
  "dict_wf d \<longleftrightarrow> distinct (dict_keys d)"

text \<open>\<open>d[k] = v\<close> keeps the position of a key that is already there.\<close>

abbreviation dict_set :: "'k \<Rightarrow> 'v \<Rightarrow> ('k, 'v) dict \<Rightarrow> ('k, 'v) dict" where
  "dict_set \<equiv> AList.update"

text \<open>\<open>{**d, **e}\<close>.\<close>

definition dict_merge :: "('k, 'v) dict \<Rightarrow> ('k, 'v) dict \<Rightarrow> ('k, 'v) dict" where
  "dict_merge d e = fold (\<lambda>(k, v) acc. dict_set k v acc) e d"

lemma dict_wf_Nil [simp]: "dict_wf []"
  by (simp add: dict_wf_def)

lemma dict_wf_set [simp]: "dict_wf d \<Longrightarrow> dict_wf (dict_set k v d)"
  by (simp add: dict_wf_def distinct_update)

lemma map_of_dict_set [dict_simps]: "map_of (dict_set k v d) = (map_of d)(k \<mapsto> v)"
  by (rule update_conv')

lemma keys_dict_set [dict_simps]: "set (dict_keys (dict_set k v d)) = insert k (set (dict_keys d))"
  by (metis dom_map_of_conv_image_fst list.set_map map_of_dict_set dom_fun_upd option.discI)

lemma keys_dict_merge [dict_simps]:
  "set (dict_keys (dict_merge d e)) = set (dict_keys d) \<union> set (dict_keys e)"
proof (induction e arbitrary: d)
  case (Cons kv e)
  obtain k v where "kv = (k, v)" by (cases kv)
  with Cons [of "dict_set k v d"] show ?case
    by (simp add: dict_merge_def keys_dict_set del: set_map)
qed (simp add: dict_merge_def)

lemma dict_wf_merge: "dict_wf d \<Longrightarrow> dict_wf (dict_merge d e)"
  unfolding dict_merge_def by (induction e arbitrary: d) auto

lemma map_of_dict_merge:
  assumes "dict_wf e"
  shows "map_of (dict_merge d e) = map_of d ++ map_of e"
  using assms
proof (induction e arbitrary: d)
  case Nil
  then show ?case by (simp add: dict_merge_def)
next
  case (Cons kv e)
  obtain k v where kv: "kv = (k, v)" by (cases kv)
  from Cons.prems have e: "dict_wf e" and k: "k \<notin> set (dict_keys e)"
    by (auto simp: dict_wf_def kv)
  have "map_of (dict_merge d (kv # e)) = map_of (dict_merge (dict_set k v d) e)"
    by (simp add: dict_merge_def kv)
  also have "\<dots> = (map_of d)(k \<mapsto> v) ++ map_of e"
    using Cons.IH [OF e, of "dict_set k v d"] by (simp only: map_of_dict_set)
  also have "\<dots> = map_of d ++ map_of (kv # e)"
  proof
    fix x
    show "((map_of d)(k \<mapsto> v) ++ map_of e) x = (map_of d ++ map_of (kv # e)) x"
    proof (cases "x = k")
      case True
      have "map_of e k = None" using k by (simp add: map_of_eq_None_iff)
      with True show ?thesis by (simp add: kv map_add_def)
    next
      case False
      then show ?thesis by (simp add: kv map_add_def split: option.split)
    qed
  qed
  finally show ?case .
qed

lemma dict_wf_filter: "dict_wf d \<Longrightarrow> dict_wf (filter P d)"
  by (simp add: dict_wf_def distinct_map_filter)

lemma dict_wf_sort [simp]: "dict_wf (sort_key f d) = dict_wf d"
proof -
  have "mset (dict_keys (sort_key f d)) = mset (dict_keys d)"
    by (simp add: mset_map)
  then show ?thesis unfolding dict_wf_def by (metis mset_eq_imp_distinct_iff)
qed

lemma dict_wf_take_rev_sort: "dict_wf d \<Longrightarrow> dict_wf (take n (rev (sort_key f d)))"
proof -
  assume "dict_wf d"
  then have "distinct (map fst (sort_key f d))" using dict_wf_sort unfolding dict_wf_def by blast
  then show ?thesis by (simp add: dict_wf_def rev_map [symmetric] take_map [symmetric])
qed

lemma map_of_same_set:
  assumes "dict_wf d" "dict_wf e" "set d = set e"
  shows "map_of d = map_of e"
proof
  fix k
  show "map_of d k = map_of e k"
  proof (cases "map_of d k")
    case None
    then have "k \<notin> fst ` set e" using assms(3) by (metis map_of_eq_None_iff)
    with None show ?thesis by (metis map_of_eq_None_iff)
  next
    case (Some v)
    then have "(k, v) \<in> set e" using assms(3) by (metis map_of_SomeD)
    with assms(2) Some show ?thesis by (simp add: dict_wf_def)
  qed
qed

lemma map_of_sort_key: "dict_wf d \<Longrightarrow> map_of (sort_key f d) = map_of d"
  by (rule map_of_same_set) simp_all

lemma map_of_filter_value:
  assumes "dict_wf d"
  shows "map_of (filter (\<lambda>(k, v). P v) d) =
    (\<lambda>k. case map_of d k of None \<Rightarrow> None | Some v \<Rightarrow> if P v then Some v else None)"
  using assms
proof (induction d)
  case (Cons kv d)
  obtain k v where kv: "kv = (k, v)" by (cases kv)
  with Cons.prems have d: "dict_wf d" "map_of d k = None"
    by (auto simp: dict_wf_def map_of_eq_None_iff)
  show ?case
    using Cons.IH [OF d(1)] d(2) kv by (auto simp: fun_eq_iff split: option.split)
qed simp

lemma length_dict: "dict_wf d \<Longrightarrow> length d = card (dom (map_of d))"
  by (metis dict_wf_def distinct_card dom_map_of_conv_image_fst length_map list.set_map)

section \<open>Association lists in sorted order\<close>

lemma sort_key_Cons_insort: "sort_key f (x # xs) = insort_key f x (sort_key f xs)"
  by simp

lemma set_take_sort_subset: "set (take n (rev (sort_key f xs))) \<subseteq> set xs"
  by (metis set_rev set_sort set_take_subset)

lemma distinct_take_rev_sort: "distinct xs \<Longrightarrow> distinct (take n (rev (sort_key f xs)))"
  by (simp add: distinct_take)

end
