(* ===== verification/PyJson.thy ===== *)
theory PyJson
  imports Prelude
begin

text \<open>
  The standard library's JSON serialiser as the program calls it:
  \<open>json.dumps(value, sort_keys=True, separators=(",", ":"), ensure_ascii=False)\<close> followed by
  \<open>.encode("utf-8")\<close>.  The lemmas give the byte length of an encoded object as a sum over
  its fields, which is what the incremental size accounting of the program relies on.
\<close>

section \<open>JSON values\<close>

text \<open>A float is carried as the text \<open>repr\<close> gives it.\<close>

datatype json =
    JNull
  | JBool bool
  | JInt int
  | JFloat string
  | JStr string
  | JList "json list"
  | JObj "(string \<times> json) list"

section \<open>Serialisation\<close>

definition hex_digit :: "nat \<Rightarrow> char" where
  "hex_digit d = ''0123456789abcdef'' ! d"

text \<open>The escapes of \<open>json.dumps\<close> without \<open>ensure_ascii\<close>.\<close>

definition json_escape_char :: "char \<Rightarrow> string" where
  "json_escape_char c =
     (let n = char_code c in
      if n = 34 then [CHR 0x5C, CHR 0x22]
      else if n = 92 then [CHR 0x5C, CHR 0x5C]
      else if n = 10 then [CHR 0x5C, CHR ''n'']
      else if n = 13 then [CHR 0x5C, CHR ''r'']
      else if n = 9 then [CHR 0x5C, CHR ''t'']
      else if n = 12 then [CHR 0x5C, CHR ''f'']
      else if n = 8 then [CHR 0x5C, CHR ''b'']
      else if n < 32 then [CHR 0x5C, CHR ''u'', CHR ''0'', CHR ''0'', hex_digit (n div 16), hex_digit (n mod 16)]
      else [c])"

definition json_quote :: "string \<Rightarrow> string" where
  "json_quote s = CHR 0x22 # concat (map json_escape_char s) @ [CHR 0x22]"

definition json_pair :: "string \<times> string \<Rightarrow> string" where
  "json_pair p = json_quote (fst p) @ '':'' @ snd p"

fun json_dumps :: "json \<Rightarrow> string" where
  "json_dumps JNull = ''null''"
| "json_dumps (JBool b) = (if b then ''true'' else ''false'')"
| "json_dumps (JInt i) = int_str i"
| "json_dumps (JFloat r) = r"
| "json_dumps (JStr s) = json_quote s"
| "json_dumps (JList xs) = ''['' @ str_join '','' (map json_dumps xs) @ '']''"
| "json_dumps (JObj kvs) =
     ''{'' @ str_join '','' (map json_pair (sort_key fst (map (\<lambda>(k, v). (k, json_dumps v)) kvs))) @ ''}''"

type_synonym bytes = "8 word list"

definition utf8_char :: "char \<Rightarrow> bytes" where
  "utf8_char c =
     (let n = char_code c
      in if n < 128 then [word_of_nat n] else [word_of_nat (192 + n div 64), word_of_nat (128 + n mod 64)])"

definition utf8_encode :: "string \<Rightarrow> bytes" where
  "utf8_encode s = concat (map utf8_char s)"

definition canonical_json_bytes :: "json \<Rightarrow> bytes" where
  "canonical_json_bytes v = utf8_encode (json_dumps v)"

section \<open>Byte lengths\<close>

definition byte_length :: "string \<Rightarrow> nat" where
  "byte_length s = length (utf8_encode s)"

lemma byte_length_Nil [simp]: "byte_length [] = 0"
  by (simp add: byte_length_def utf8_encode_def)

lemma byte_length_append [simp]: "byte_length (s @ t) = byte_length s + byte_length t"
  by (simp add: byte_length_def utf8_encode_def)

lemma byte_length_Cons: "byte_length (c # s) = length (utf8_char c) + byte_length s"
  by (simp add: byte_length_def utf8_encode_def)

lemma byte_length_ascii [simp]: "char_code c < 128 \<Longrightarrow> byte_length (c # s) = Suc (byte_length s)"
  by (simp add: byte_length_Cons utf8_char_def)

lemma length_canonical_json_bytes: "length (canonical_json_bytes v) = byte_length (json_dumps v)"
  by (simp add: canonical_json_bytes_def byte_length_def)

lemma byte_length_ge_length: "length s \<le> byte_length s"
proof (induction s)
  case (Cons c s)
  have "1 \<le> length (utf8_char c)" by (simp add: utf8_char_def Let_def)
  with Cons show ?case by (simp add: byte_length_Cons)
qed simp

lemma byte_length_join:
  "byte_length (str_join '','' ts) = sum_list (map byte_length ts) + (length ts - 1)"
proof (induction "'',''" ts rule: str_join.induct)
  case (3 s t ts)
  then show ?case by (simp add: char_code_def)
qed auto

text \<open>The size one field contributes to its object, without commas.\<close>

definition field_bytes :: "string \<Rightarrow> json \<Rightarrow> nat" where
  "field_bytes k v = byte_length (json_quote k) + 1 + byte_length (json_dumps v)"

lemma byte_length_json_pair [simp]:
  "byte_length (json_pair (k, json_dumps v)) = field_bytes k v"
  by (simp add: json_pair_def field_bytes_def char_code_def)

lemma sum_list_sort_key:
  fixes g :: "'a \<Rightarrow> 'b::comm_monoid_add"
  shows "sum_list (map g (sort_key f xs)) = sum_list (map g xs)"
proof -
  have "mset (map g (sort_key f xs)) = mset (map g xs)" by simp
  then show ?thesis by (metis sum_mset_sum_list)
qed

lemma byte_length_JObj:
  "byte_length (json_dumps (JObj kvs)) =
     2 + (\<Sum>(k, v) \<leftarrow> kvs. field_bytes k v) + (length kvs - 1)"
proof -
  let ?ps = "map (\<lambda>(k, v). (k, json_dumps v)) kvs"
  have "sum_list (map byte_length (map json_pair (sort_key fst ?ps)))
        = sum_list (map (byte_length \<circ> json_pair) ?ps)"
    by (simp only: map_map sum_list_sort_key)
  also have "\<dots> = (\<Sum>(k, v) \<leftarrow> kvs. field_bytes k v)"
    by (induction kvs) auto
  finally show ?thesis
    by (simp add: byte_length_join char_code_def)
qed

lemma byte_length_JObj_single: "byte_length (json_dumps (JObj [(k, v)])) - 2 = field_bytes k v"
  by (simp add: byte_length_JObj del: json_dumps.simps)

lemma field_bytes_pos [simp]: "0 < field_bytes k v"
  by (simp add: field_bytes_def)

end
