(* ===== verification/PyTime.thy ===== *)
theory PyTime
  imports Prelude
begin

text \<open>
  Python's \<open>datetime\<close>: a wall-clock time in microseconds from 1970-01-01T00:00:00 and, when
  it is timezone-aware, its offset from UTC in microseconds.  Comparison of aware values is by
  the instant they denote.  The database stores instants; the driver returns them as aware
  datetimes in UTC.
\<close>

record datetime =
  dt_local :: int
  dt_offset :: "int option"

definition is_aware :: "datetime \<Rightarrow> bool" where
  "is_aware d \<longleftrightarrow> dt_offset d \<noteq> None"

definition instant :: "datetime \<Rightarrow> int" where
  "instant d = dt_local d - (case dt_offset d of None \<Rightarrow> 0 | Some off \<Rightarrow> off)"

definition utc_datetime :: "int \<Rightarrow> datetime" where
  "utc_datetime i = \<lparr>dt_local = i, dt_offset = Some 0\<rparr>"

abbreviation second :: int where
  "second \<equiv> 1000000"

text \<open>The wall clock of a \<open>datetime\<close> lies in the years 1 to 9999.\<close>

definition min_local :: int where
  "min_local = - 62135596800 * 1000000"

definition max_local :: int where
  "max_local = 253402300799 * 1000000 + 999999"

text \<open>\<open>d - timedelta(seconds=n)\<close>: both the \<open>timedelta\<close> and the result may overflow.\<close>

definition minus_seconds :: "datetime \<Rightarrow> int \<Rightarrow> datetime result" where
  "minus_seconds d n =
     (if \<bar>n div 86400\<bar> > 999999999 then Inl OverflowError
      else if dt_local d - n * second < min_local \<or> max_local < dt_local d - n * second
        then Inl OverflowError
      else Inr (d\<lparr>dt_local := dt_local d - n * second\<rparr>))"

text \<open>\<open>max(a, b)\<close> of two aware values: the first where they denote the same instant.\<close>

definition max_datetime :: "datetime \<Rightarrow> datetime \<Rightarrow> datetime" where
  "max_datetime a b = (if instant a \<ge> instant b then a else b)"

text \<open>The calendar: days from 1970-01-01 to year, month and day.\<close>

definition civil_from_days :: "int \<Rightarrow> int \<times> int \<times> int" where
  "civil_from_days days =
     (let z = days + 719468;
          era = z div 146097;
          doe = z mod 146097;
          yoe = (doe - doe div 1460 + doe div 36524 - doe div 146096) div 365;
          doy = doe - (365 * yoe + yoe div 4 - yoe div 100);
          mp = (5 * doy + 2) div 153;
          d = doy - (153 * mp + 2) div 5 + 1;
          m = (if mp < 10 then mp + 3 else mp - 9);
          y = yoe + era * 400 + (if m \<le> 2 then 1 else 0)
      in (y, m, d))"

definition clock_str :: "int \<Rightarrow> string" where
  "clock_str us =
     (let s = us div second; f = us mod second
      in pad_int 2 (s div 3600) @ '':'' @ pad_int 2 (s div 60 mod 60) @ '':'' @
         pad_int 2 (s mod 60) @ (if f = 0 then [] else ''.'' @ pad_int 6 f))"

definition offset_str :: "int \<Rightarrow> string" where
  "offset_str off =
     (let a = \<bar>off\<bar>; s = a div second; f = a mod second
      in (if off < 0 then ''-'' else ''+'') @
         pad_int 2 (s div 3600) @ '':'' @ pad_int 2 (s div 60 mod 60) @
         (if s mod 60 = 0 \<and> f = 0 then []
          else '':'' @ pad_int 2 (s mod 60) @ (if f = 0 then [] else ''.'' @ pad_int 6 f)))"

definition isoformat :: "datetime \<Rightarrow> string" where
  "isoformat d =
     (let day = 86400 * second;
          (y, m, dd) = civil_from_days (dt_local d div day)
      in pad_int 4 y @ ''-'' @ pad_int 2 m @ ''-'' @ pad_int 2 dd @ ''T'' @
         clock_str (dt_local d mod day) @
         (case dt_offset d of None \<Rightarrow> [] | Some off \<Rightarrow> offset_str off))"

lemma instant_utc [simp]: "instant (utc_datetime i) = i"
  by (simp add: instant_def utc_datetime_def)

lemma is_aware_utc [simp]: "is_aware (utc_datetime i)"
  by (simp add: is_aware_def utc_datetime_def)

lemma minus_seconds_instant:
  "minus_seconds d n = Inr d' \<Longrightarrow> instant d' = instant d - n * second"
  by (auto simp: minus_seconds_def instant_def split: if_splits)

lemma instant_max_datetime [simp]: "instant (max_datetime a b) = max (instant a) (instant b)"
  by (simp add: max_datetime_def)

lemma minus_seconds_aware: "minus_seconds d n = Inr d' \<Longrightarrow> is_aware d' = is_aware d"
  by (auto simp: minus_seconds_def is_aware_def split: if_splits)

end
