(* ===== verification/Events.thy ===== *)
theory Events
  imports PyJson PyTime
begin

text \<open>
  \<open>app/domain/events.py\<close>: event types, severities and their rank, the acceptance check of
  an event's tag map, and the normalized event with the constraints of its model class.
\<close>

section \<open>Event types and severities\<close>

datatype event_type = PROBLEM | RECOVERY

datatype severity = OK | WARNING | UNKNOWN | CRITICAL

fun event_type_value :: "event_type \<Rightarrow> string" where
  "event_type_value PROBLEM = ''PROBLEM''"
| "event_type_value RECOVERY = ''RECOVERY''"

fun severity_value :: "severity \<Rightarrow> string" where
  "severity_value OK = ''OK''"
| "severity_value WARNING = ''WARNING''"
| "severity_value UNKNOWN = ''UNKNOWN''"
| "severity_value CRITICAL = ''CRITICAL''"

fun severity_rank :: "severity \<Rightarrow> nat" where
  "severity_rank OK = 0"
| "severity_rank WARNING = 1"
| "severity_rank UNKNOWN = 2"
| "severity_rank CRITICAL = 3"

definition max_severity :: "severity \<Rightarrow> severity \<Rightarrow> severity" where
  "max_severity l r = (if severity_rank l \<ge> severity_rank r then l else r)"

text \<open>\<open>Severity(s)\<close>: the enumeration's constructor from its value.\<close>

definition severity_of :: "string \<Rightarrow> severity result" where
  "severity_of s =
     (if s = ''OK'' then Inr OK else if s = ''WARNING'' then Inr WARNING
      else if s = ''UNKNOWN'' then Inr UNKNOWN else if s = ''CRITICAL'' then Inr CRITICAL
      else Inl ValueError)"

text \<open>Severities are ordered by their rank.\<close>

instantiation severity :: linorder
begin

definition less_eq_severity :: "severity \<Rightarrow> severity \<Rightarrow> bool" where
  "less_eq_severity a b \<longleftrightarrow> severity_rank a \<le> severity_rank b"

definition less_severity :: "severity \<Rightarrow> severity \<Rightarrow> bool" where
  "less_severity a b \<longleftrightarrow> severity_rank a < severity_rank b"

lemma severity_rank_inj: "severity_rank a = severity_rank b \<Longrightarrow> a = b"
  by (cases a; cases b) auto

instance
  by standard (auto simp: less_eq_severity_def less_severity_def intro: severity_rank_inj)

end

lemma max_severity_eq_max: "max_severity a b = max a b"
  by (auto simp: max_severity_def max_def less_eq_severity_def intro: severity_rank_inj)

lemma severity_of_value [simp]: "severity_of (severity_value s) = Inr s"
  by (cases s) (auto simp: severity_of_def)

lemma severity_of_eq_Inr: "severity_of t = Inr s \<longleftrightarrow> t = severity_value s"
  by (cases s) (auto simp: severity_of_def split: if_splits)

section \<open>Event tags\<close>

type_synonym tags = "(string, string) dict"

definition event_tag_max_key_bytes :: nat where "event_tag_max_key_bytes = 64"

definition event_tag_max_entries :: nat where "event_tag_max_entries = 128"

definition event_tag_max_bytes :: nat where "event_tag_max_bytes = 16384"

definition is_tag_head :: "char \<Rightarrow> bool" where
  "is_tag_head c \<longleftrightarrow> CHR ''a'' \<le> c \<and> c \<le> CHR ''z''"

definition is_tag_char :: "char \<Rightarrow> bool" where
  "is_tag_char c \<longleftrightarrow>
     is_tag_head c \<or> CHR ''0'' \<le> c \<and> c \<le> CHR ''9'' \<or> c = CHR ''_'' \<or> c = CHR ''.'' \<or> c = CHR ''-''"

text \<open>\<open>[a-z][a-z0-9_.-]*\<close>, matched against the whole key.\<close>

fun tag_key_pattern :: "string \<Rightarrow> bool" where
  "tag_key_pattern [] = False"
| "tag_key_pattern (c # cs) = (is_tag_head c \<and> list_all is_tag_char cs)"

definition event_tag_key_ok :: "string \<Rightarrow> bool" where
  "event_tag_key_ok key \<longleftrightarrow> tag_key_pattern key \<and> length key \<le> event_tag_max_key_bytes"

definition event_tag_value_ok :: "string \<Rightarrow> bool" where
  "event_tag_value_ok v \<longleftrightarrow> 1 \<le> length v \<and> length v \<le> 256 \<and> CHR 0x00 \<notin> set v"

text \<open>The body of \<open>validate_event_tags\<close>: \<open>index\<close> and \<open>encoded_bytes\<close> run along the keys.\<close>

fun tag_loop :: "tags \<Rightarrow> nat \<Rightarrow> nat \<Rightarrow> string list \<Rightarrow> unit result" where
  "tag_loop tags index encoded [] = Inr ()"
| "tag_loop tags index encoded (key # keys) =
     (if \<not> event_tag_key_ok key then Inl EventTagValidationError
      else case map_of tags key of
        None \<Rightarrow> Inl KeyError
      | Some v \<Rightarrow>
          if \<not> event_tag_value_ok v then Inl EventTagValidationError
          else
            let encoded' = encoded + byte_length (json_quote key) + 1 + byte_length (json_quote v)
                           + (if index \<noteq> 0 then 1 else 0)
            in if encoded' > event_tag_max_bytes then Inl EventTagValidationError
               else tag_loop tags (Suc index) encoded' keys)"

definition validate_event_tags :: "tags \<Rightarrow> unit result" where
  "validate_event_tags tags =
     (if length tags > event_tag_max_entries then Inl EventTagValidationError
      else tag_loop tags 0 2 (sort (dict_keys tags)))"

definition tags_json :: "tags \<Rightarrow> json" where
  "tags_json tags = JObj (map (\<lambda>(k, v). (k, JStr v)) tags)"

text \<open>
  What the loop computes: it accepts when every visited entry is well formed and the running
  total, one comma before each entry but the first included, stays within the limit.
\<close>

lemma tag_loop_eq_Inr:
  assumes "set keys \<subseteq> set (dict_keys tags)" "encoded \<le> event_tag_max_bytes"
  shows "tag_loop tags index encoded keys = Inr () \<longleftrightarrow>
    (\<forall>k \<in> set keys. event_tag_key_ok k \<and> event_tag_value_ok (the (map_of tags k))) \<and>
    encoded + (\<Sum>k \<leftarrow> keys. field_bytes k (JStr (the (map_of tags k))))
      + (if index = 0 then length keys - 1 else length keys) \<le> event_tag_max_bytes"
  using assms
proof (induction keys arbitrary: index encoded)
  case Nil
  then show ?case by simp
next
  case (Cons key keys)
  from Cons.prems have "key \<in> fst ` set tags" by simp
  then obtain v where v: "map_of tags key = Some v"
    by (metis map_of_eq_None_iff option.exhaust)
  let ?e = "encoded + field_bytes key (JStr v) + (if index \<noteq> 0 then 1 else 0)"
  have sub: "set keys \<subseteq> set (dict_keys tags)" using Cons.prems by simp
  show ?case
  proof (cases "?e \<le> event_tag_max_bytes")
    case True
    from Cons.IH [OF sub True, of "Suc index"] True v show ?thesis
      by (auto simp: field_bytes_def Let_def algebra_simps)
  next
    case False
    with v show ?thesis by (auto simp: field_bytes_def Let_def)
  qed
qed

lemma sum_list_dict_keys:
  assumes "dict_wf d"
  shows "(\<Sum>k \<leftarrow> dict_keys d. f k (the (map_of d k))) = (\<Sum>(k, v) \<leftarrow> d. f k v)"
proof -
  have "map (\<lambda>p. f (fst p) (the (map_of d (fst p)))) d = map (\<lambda>(k, v). f k v) d"
    using assms by (auto simp: dict_wf_def)
  then show ?thesis by (simp only: map_map comp_def)
qed

lemma byte_length_tags_json:
  assumes "dict_wf tags"
  shows "length (canonical_json_bytes (tags_json tags)) =
    2 + (\<Sum>k \<leftarrow> sort (dict_keys tags). field_bytes k (JStr (the (map_of tags k)))) + (length tags - 1)"
proof -
  have "(\<Sum>(k, v) \<leftarrow> map (\<lambda>(k, v). (k, JStr v)) tags. field_bytes k v)
        = (\<Sum>(k, v) \<leftarrow> tags. field_bytes k (JStr v))"
    by (induction tags) auto
  also have "\<dots> = (\<Sum>k \<leftarrow> dict_keys tags. field_bytes k (JStr (the (map_of tags k))))"
    using sum_list_dict_keys [OF assms, of "\<lambda>k v. field_bytes k (JStr v)"] by simp
  also have "\<dots> = (\<Sum>k \<leftarrow> sort (dict_keys tags). field_bytes k (JStr (the (map_of tags k))))"
    by (simp only: sum_list_sort_key)
  finally show ?thesis
    by (simp add: length_canonical_json_bytes tags_json_def byte_length_JObj del: json_dumps.simps)
qed

lemma validate_event_tags_iff:
  assumes "dict_wf tags"
  shows "validate_event_tags tags = Inr () \<longleftrightarrow>
    length tags \<le> event_tag_max_entries \<and>
    (\<forall>(k, v) \<in> set tags. event_tag_key_ok k \<and> event_tag_value_ok v) \<and>
    length (canonical_json_bytes (tags_json tags)) \<le> event_tag_max_bytes"
proof -
  have entries: "(\<forall>k \<in> set (dict_keys tags). P k (the (map_of tags k))) \<longleftrightarrow>
      (\<forall>(k, v) \<in> set tags. P k v)" for P
    using assms by (auto simp: dict_wf_def)
  show ?thesis
    using tag_loop_eq_Inr [of "sort (dict_keys tags)" tags 2 0]
      entries [of "\<lambda>k v. event_tag_key_ok k \<and> event_tag_value_ok v"]
    by (simp add: validate_event_tags_def byte_length_tags_json [OF assms] event_tag_max_bytes_def not_less)
qed

text \<open>
  The acceptance check of a tag map decides exactly its specification: at most 128
  entries, every key and value well formed, and the canonical JSON encoding of the whole map at
  most 16384 bytes long.  The incremental byte accounting with its early exit is exact.
\<close>

lemma validate_event_tags_spec:
  assumes "dict_wf tags"
  shows "validate_event_tags tags = Inr () \<longleftrightarrow>
    length tags \<le> event_tag_max_entries \<and>
    (\<forall>(k, v) \<in> set tags. event_tag_key_ok k \<and> event_tag_value_ok v) \<and>
    length (canonical_json_bytes (tags_json tags)) \<le> event_tag_max_bytes"
  by (rule validate_event_tags_iff [OF assms])

lemma validate_event_tags_error:
  assumes "dict_wf tags" "validate_event_tags tags = Inl e"
  shows "e = EventTagValidationError"
proof -
  have "tag_loop tags i n ks = Inl e \<Longrightarrow> set ks \<subseteq> set (dict_keys tags) \<Longrightarrow> e = EventTagValidationError"
    for i n ks
  proof (induction ks arbitrary: i n)
    case (Cons k ks)
    then have "map_of tags k \<noteq> None" by (auto simp: map_of_eq_None_iff)
    with Cons show ?case by (auto simp: Let_def split: if_splits option.splits)
  qed simp
  with assms(2) show ?thesis
    by (fastforce simp: validate_event_tags_def split: if_splits)
qed

section \<open>The normalized event\<close>

record normalized_event =
  ev_fingerprint :: string
  ev_source_id :: string
  ev_host :: string
  ev_service :: "string option"
  ev_severity :: severity
  ev_event_type :: event_type
  ev_timestamp :: datetime
  ev_tags :: tags
  ev_message :: string
  ev_ip_address :: "string option"

definition validate_normalized_event :: "normalized_event \<Rightarrow> normalized_event result" where
  "validate_normalized_event e =
     (if ev_fingerprint e \<noteq> [] \<and> ev_source_id e \<noteq> [] \<and> ev_host e \<noteq> [] \<and>
         ev_service e \<noteq> Some [] \<and> is_aware (ev_timestamp e) \<and>
         validate_event_tags (ev_tags e) = Inr () \<and>
         1 \<le> length (ev_message e) \<and> length (ev_message e) \<le> 4096 \<and>
         ev_ip_address e \<noteq> Some []
      then Inr e else Inl ValidationError)"

end
