(* ===== verification/IncidentDomain.thy ===== *)
theory IncidentDomain
  imports Events
begin

text \<open>
  \<open>app/domain/incidents.py\<close> and \<open>app/domain/notifications.py\<close>: the status machine, the
  bounded documents stored with an incident (decision context, window state), the request
  bodies of the operator actions, and the check that keeps secrets out of notes.

  Validation of a model class is a function into \<open>result\<close>: pydantic's \<open>model_validate\<close>
  with the constraints the class declares.  A validator that raises \<open>ValueError\<close> surfaces as
  \<^const>\<open>ValidationError\<close>.
\<close>

section \<open>Status\<close>

datatype incident_status = OPEN | RESOLVED | CLOSED

datatype incident_status_filter = F_OPEN | F_ACKNOWLEDGED | F_RESOLVED | F_CLOSED

fun incident_status_value :: "incident_status \<Rightarrow> string" where
  "incident_status_value OPEN = ''OPEN''"
| "incident_status_value RESOLVED = ''RESOLVED''"
| "incident_status_value CLOSED = ''CLOSED''"

definition is_terminal_status :: "incident_status \<Rightarrow> bool" where
  "is_terminal_status s \<longleftrightarrow> s \<in> {RESOLVED, CLOSED}"

definition validate_incident_transition ::
  "incident_status \<Rightarrow> incident_status \<Rightarrow> incident_status result" where
  "validate_incident_transition current target =
     (if current = OPEN \<and> target \<in> {RESOLVED, CLOSED} then Inr target else Inl ValueError)"

lemma validate_incident_transition_eq_Inr [result_simps]:
  "validate_incident_transition c t = Inr t' \<longleftrightarrow> c = OPEN \<and> is_terminal_status t \<and> t' = t"
  by (auto simp: validate_incident_transition_def is_terminal_status_def)

lemma not_terminal_iff_open: "\<not> is_terminal_status s \<longleftrightarrow> s = OPEN"
  by (cases s) (auto simp: is_terminal_status_def)

section \<open>Bounded strings and notes\<close>

definition bounded_string :: "string \<Rightarrow> bool" where
  "bounded_string s \<longleftrightarrow> 1 \<le> length s \<and> length s \<le> 256"

definition opt_bounded :: "string option \<Rightarrow> bool" where
  "opt_bounded x \<longleftrightarrow> (case x of None \<Rightarrow> True | Some s \<Rightarrow> bounded_string s)"

definition bounded_string_tuple :: "string list \<Rightarrow> bool" where
  "bounded_string_tuple xs \<longleftrightarrow> length xs \<le> 20 \<and> list_all bounded_string xs"

definition max_window_fingerprints :: nat where
  "max_window_fingerprints = 100"

definition forbidden_note_fragments :: "string list" where
  "forbidden_note_fragments =
     [''raw_payload'', ''payload'', ''credential'', ''password'', ''token'', ''secret'', ''plugin_config'']"

definition has_forbidden_fragment :: "string \<Rightarrow> bool" where
  "has_forbidden_fragment s \<longleftrightarrow>
     list_ex (\<lambda>fragment. sublist fragment (str_lower s)) forbidden_note_fragments"

definition reject_secret_note_content :: "(string, string) dict \<Rightarrow> unit result" where
  "reject_secret_note_content notes =
     rall (\<lambda>(k, v). rguard (\<not> has_forbidden_fragment k \<and> \<not> has_forbidden_fragment v) ValueError) notes"

definition reject_operator_action_text :: "string \<Rightarrow> unit result" where
  "reject_operator_action_text v = reject_secret_note_content [(''operator_action'', v)]"

lemma reject_secret_note_content_eq_Inr [result_simps]:
  "reject_secret_note_content notes = Inr u \<longleftrightarrow>
     (\<forall>(k, v) \<in> set notes. \<not> has_forbidden_fragment k \<and> \<not> has_forbidden_fragment v)"
  by (auto simp: reject_secret_note_content_def result_simps)

section \<open>Notification results\<close>

datatype notification_category =
    Dispatched | Missing_plugin | Missing_incident | Plugin_exception | Dispatch_failed

record notification_result =
  nr_success :: bool
  nr_category :: notification_category
  nr_message :: string

record delivery_record =
  dr_plugin_name :: string
  dr_result :: notification_result

section \<open>Decision context\<close>

text \<open>
  A stored document may lack the key \<open>notification_delivery_results\<close> (the first write of an
  incident drops it); a validated instance always carries it.  The document \<open>{}\<close> is
  \<open>empty_context\<close>.
\<close>

record decision_context =
  dc_fingerprint :: "string option"
  dc_source_id :: "string option"
  dc_rule_name :: "string option"
  dc_group_key :: "string option"
  dc_matched_rule_names :: "string list"
  dc_enrichment_refs :: "string list"
  dc_event_count :: "int option"
  dc_config_hash :: "string option"
  dc_notes :: "(string, string) dict"
  dc_threshold_count :: "int option"
  dc_counted_count :: "int option"
  dc_threshold_crossed :: "bool option"
  dc_first_threshold_transition :: "bool option"
  dc_replay :: "bool option"
  dc_action_names :: "string list"
  dc_results :: "delivery_record list option"

definition empty_context :: decision_context where
  "empty_context = \<lparr>dc_fingerprint = None, dc_source_id = None, dc_rule_name = None,
     dc_group_key = None, dc_matched_rule_names = [], dc_enrichment_refs = [],
     dc_event_count = None, dc_config_hash = None, dc_notes = [], dc_threshold_count = None,
     dc_counted_count = None, dc_threshold_crossed = None, dc_first_threshold_transition = None,
     dc_replay = None, dc_action_names = [], dc_results = None\<rparr>"

definition results_list :: "decision_context \<Rightarrow> delivery_record list" where
  "results_list d = (case dc_results d of None \<Rightarrow> [] | Some rs \<Rightarrow> rs)"

definition delivery_record_ok :: "delivery_record \<Rightarrow> bool" where
  "delivery_record_ok r \<longleftrightarrow> bounded_string (dr_plugin_name r) \<and> bounded_string (nr_message (dr_result r))"

definition delivery_results_ok :: "delivery_record list \<Rightarrow> bool" where
  "delivery_results_ok rs \<longleftrightarrow>
     length rs \<le> 20 \<and> list_all delivery_record_ok rs \<and> distinct (map dr_plugin_name rs)"

definition note_entry_ok :: "string \<times> string \<Rightarrow> bool" where
  "note_entry_ok = (\<lambda>(k, v). tag_key_pattern k \<and> 1 \<le> length v \<and> length v \<le> 256)"

definition notes_ok :: "(string, string) dict \<Rightarrow> bool" where
  "notes_ok notes \<longleftrightarrow>
     length notes \<le> 20 \<and> list_all note_entry_ok notes \<and>
     reject_secret_note_content notes = Inr ()"

definition opt_ge :: "int \<Rightarrow> int option \<Rightarrow> bool" where
  "opt_ge n x \<longleftrightarrow> (case x of None \<Rightarrow> True | Some i \<Rightarrow> n \<le> i)"

definition decision_context_ok :: "decision_context \<Rightarrow> bool" where
  "decision_context_ok d \<longleftrightarrow>
     opt_bounded (dc_fingerprint d) \<and> opt_bounded (dc_source_id d) \<and>
     opt_bounded (dc_rule_name d) \<and> opt_bounded (dc_group_key d) \<and>
     bounded_string_tuple (dc_matched_rule_names d) \<and>
     bounded_string_tuple (dc_enrichment_refs d) \<and>
     opt_ge 0 (dc_event_count d) \<and>
     (case dc_config_hash d of None \<Rightarrow> True | Some h \<Rightarrow> length h \<le> 128) \<and>
     notes_ok (dc_notes d) \<and>
     opt_ge 1 (dc_threshold_count d) \<and> opt_ge 0 (dc_counted_count d) \<and>
     bounded_string_tuple (dc_action_names d) \<and>
     delivery_results_ok (results_list d)"

definition decision_context_validate :: "decision_context \<Rightarrow> decision_context result" where
  "decision_context_validate d =
     (if decision_context_ok d then Inr (d\<lparr>dc_results := Some (results_list d)\<rparr>)
      else Inl ValidationError)"

lemma results_list_Some [simp]: "results_list (d\<lparr>dc_results := Some rs\<rparr>) = rs"
  by (simp add: results_list_def)

lemma decision_context_validate_eq_Inr [result_simps]:
  "decision_context_validate d = Inr d' \<longleftrightarrow>
     decision_context_ok d \<and> d' = d\<lparr>dc_results := Some (results_list d)\<rparr>"
  by (auto simp: decision_context_validate_def)

lemma decision_context_validate_ok:
  assumes "decision_context_validate d = Inr d'"
  shows "decision_context_ok d'"
proof -
  from assms have "decision_context_ok d" "d' = d\<lparr>dc_results := Some (results_list d)\<rparr>"
    by (auto simp: result_simps)
  then show ?thesis by (simp add: decision_context_ok_def)
qed

section \<open>Lifecycle outcome\<close>

datatype lifecycle_effect =
    Affected_set_shrunk | Resolved_effect | Noop | Closed_effect | Acknowledged | Expired

record lifecycle_outcome =
  lo_effect :: lifecycle_effect
  lo_reason :: string
  lo_previous_host_count :: int
  lo_previous_service_count :: int
  lo_affected_object_removed :: bool
  lo_notes :: "(string, string) dict"

text \<open>The constructor validates the fields, then adds the reason note when it is absent.\<close>

definition lifecycle_outcome_validate :: "lifecycle_outcome \<Rightarrow> lifecycle_outcome result" where
  "lifecycle_outcome_validate x =
     (if bounded_string (lo_reason x) \<and> 0 \<le> lo_previous_host_count x \<and>
         0 \<le> lo_previous_service_count x \<and> notes_ok (lo_notes x)
      then Inr (if ''lifecycle.reason'' \<in> set (dict_keys (lo_notes x)) then x
                else x\<lparr>lo_notes := dict_set ''lifecycle.reason'' (lo_reason x) (lo_notes x)\<rparr>)
      else Inl ValidationError)"

section \<open>Monitored objects and the threshold window\<close>

datatype incident_object = IncidentObject (io_host: string) (io_service: "string option")

definition incident_object_ok :: "incident_object \<Rightarrow> bool" where
  "incident_object_ok obj \<longleftrightarrow> bounded_string (io_host obj) \<and> opt_bounded (io_service obj)"

text \<open>Timestamps of the window are aware; they are represented by their instant.\<close>

record window_state =
  ws_window_started_at :: int
  ws_window_ended_at :: int
  ws_window_seconds :: int
  ws_threshold_count :: int
  ws_counted :: "(string, int) dict"
  ws_counted_count :: int
  ws_max_size :: int
  ws_active_objects :: "incident_object list"

definition window_state_ok :: "window_state \<Rightarrow> bool" where
  "window_state_ok w \<longleftrightarrow>
     1 \<le> ws_window_seconds w \<and> 1 \<le> ws_threshold_count w \<and>
     length (ws_counted w) \<le> max_window_fingerprints \<and>
     list_all bounded_string (dict_keys (ws_counted w)) \<and>
     0 \<le> ws_counted_count w \<and>
     1 \<le> ws_max_size w \<and> ws_max_size w \<le> int max_window_fingerprints \<and>
     list_all incident_object_ok (ws_active_objects w)"

definition window_state_validate :: "window_state \<Rightarrow> window_state result" where
  "window_state_validate w = (if window_state_ok w then Inr w else Inl ValidationError)"

lemma window_state_validate_eq_Inr [result_simps]:
  "window_state_validate w = Inr w' \<longleftrightarrow> window_state_ok w \<and> w' = w"
  by (auto simp: window_state_validate_def)

section \<open>Requests of the operator API\<close>

definition ack_request_validate :: "string \<Rightarrow> string result" where
  "ack_request_validate operator =
     (if 1 \<le> length operator \<and> length operator \<le> 128 \<and>
         reject_operator_action_text operator = Inr ()
      then Inr operator else Inl ValidationError)"

definition close_request_validate :: "string \<Rightarrow> string \<Rightarrow> (string \<times> string) result" where
  "close_request_validate operator reason =
     (if 1 \<le> length operator \<and> length operator \<le> 128 \<and>
         1 \<le> length reason \<and> length reason \<le> 256 \<and>
         reject_operator_action_text operator = Inr () \<and>
         reject_operator_action_text reason = Inr ()
      then Inr (operator, reason) else Inl ValidationError)"

record incident_list_filters =
  lf_status :: "incident_status_filter option"
  lf_severity :: "severity option"
  lf_rule_name :: "string option"
  lf_host :: "string option"
  lf_service :: "string option"
  lf_updated_since :: "datetime option"
  lf_limit :: int
  lf_cursor :: "string option"
  lf_offset :: "int option"

definition incident_list_filters_ok :: "incident_list_filters \<Rightarrow> bool" where
  "incident_list_filters_ok f \<longleftrightarrow>
     opt_bounded (lf_rule_name f) \<and> opt_bounded (lf_host f) \<and> opt_bounded (lf_service f) \<and>
     (case lf_updated_since f of None \<Rightarrow> True | Some t \<Rightarrow> is_aware t) \<and>
     1 \<le> lf_limit f \<and> lf_limit f \<le> 200 \<and>
     (case lf_cursor f of None \<Rightarrow> True | Some c \<Rightarrow> 1 \<le> length c \<and> length c \<le> 512) \<and>
     opt_ge 0 (lf_offset f)"

end
