(* ===== verification/IncidentTable.thy ===== *)
theory IncidentTable
  imports IncidentDomain
begin

text \<open>
  The table \<open>incidents\<close> (\<open>app/persistence/models.py\<close> and the first two migrations): its row
  type, the statements the repository issues against it, and the interface
  \<open>open_table\<close> that the repository's uniqueness arguments rest on.

  A table is the list of its rows.  \<open>SELECT ... WHERE\<close> is a filter, \<open>UPDATE ... WHERE\<close> a
  map, and \<open>INSERT ... ON CONFLICT DO NOTHING\<close> consults the partial unique index
  \<open>incidents_one_open_per_rule_group\<close> on \<open>(rule_name, group_key) WHERE status = 'OPEN'\<close>.
  Timestamp columns hold instants in microseconds.
\<close>

section \<open>Rows\<close>

type_synonym uuid = "128 word"

record incident =
  inc_id :: uuid
  inc_rule_name :: string
  inc_group_key :: string
  inc_status :: incident_status
  inc_severity :: string
  inc_summary :: string
  inc_event_count :: int
  inc_affected_hosts :: "string list"
  inc_affected_services :: "string list"
  inc_decision_context :: decision_context
  inc_window_state :: "window_state option"  \<comment> \<open>\<open>None\<close>: the column default \<open>{}\<close>\<close>
  inc_threshold_crossed :: bool
  inc_notified_at :: "int option"
  inc_start_time :: int
  inc_last_update_time :: int
  inc_acknowledged_at :: "int option"
  inc_acknowledged_by :: "string option"
  inc_resolved_at :: "int option"
  inc_closed_at :: "int option"
  inc_created_at :: int
  inc_updated_at :: int

type_synonym incident_table = "incident list"

abbreviation inc_key :: "incident \<Rightarrow> string \<times> string" where
  "inc_key r \<equiv> (inc_rule_name r, inc_group_key r)"

abbreviation inc_open :: "incident \<Rightarrow> bool" where
  "inc_open r \<equiv> inc_status r = OPEN"

section \<open>Statements\<close>

definition select_where :: "('r \<Rightarrow> bool) \<Rightarrow> 'r list \<Rightarrow> 'r list" where
  "select_where P t = filter P t"

definition update_where :: "('r \<Rightarrow> bool) \<Rightarrow> ('r \<Rightarrow> 'r) \<Rightarrow> 'r list \<Rightarrow> 'r list" where
  "update_where P f t = map (\<lambda>r. if P r then f r else r) t"

text \<open>\<open>UPDATE ... RETURNING\<close>: the rows written.\<close>

definition update_returning :: "('r \<Rightarrow> bool) \<Rightarrow> ('r \<Rightarrow> 'r) \<Rightarrow> 'r list \<Rightarrow> 'r list" where
  "update_returning P f t = map f (filter P t)"

text \<open>
  \<open>INSERT ... ON CONFLICT (rule_name, group_key) WHERE status = 'OPEN' DO NOTHING RETURNING\<close>:
  a conflict on the partial index inserts nothing; a duplicate primary key raises.
\<close>

definition insert_on_conflict_do_nothing ::
  "incident \<Rightarrow> incident_table \<Rightarrow> (incident_table \<times> incident option) result" where
  "insert_on_conflict_do_nothing r t =
     (if inc_open r \<and> list_ex (\<lambda>x. inc_open x \<and> inc_key x = inc_key r) t then Inr (t, None)
      else if list_ex (\<lambda>x. inc_id x = inc_id r) t then Inl IntegrityError
      else Inr (t @ [r], Some r))"

section \<open>At most one open row per key\<close>

definition unique_open ::
  "('r \<Rightarrow> 'i) \<Rightarrow> ('r \<Rightarrow> 'k) \<Rightarrow> ('r \<Rightarrow> bool) \<Rightarrow> 'r list \<Rightarrow> bool" where
  "unique_open ident key is_open rs \<longleftrightarrow>
     distinct (map ident rs) \<and> distinct (map key (filter is_open rs))"

text \<open>
  The interface of a table with a primary key and a partial unique index: an update maps
  the rows it selects, an insertion either appends a row that is fresh in both indexes or,
  on a conflict with an open row, changes nothing.
\<close>

locale open_table =
  fixes ident :: "'r \<Rightarrow> 'i"
    and key :: "'r \<Rightarrow> 'k"
    and is_open :: "'r \<Rightarrow> bool"
    and insert_row :: "'r \<Rightarrow> 'r list \<Rightarrow> ('r list \<times> 'r option) result"
    and update_rows :: "('r \<Rightarrow> bool) \<Rightarrow> ('r \<Rightarrow> 'r) \<Rightarrow> 'r list \<Rightarrow> 'r list"
  assumes update_rows_map: "update_rows P f t = map (\<lambda>r. if P r then f r else r) t"
    and insert_row_Some: "insert_row r t = Inr (t', Some r') \<Longrightarrow>
      r' = r \<and> t' = t @ [r] \<and> ident r \<notin> ident ` set t \<and>
      (is_open r \<longrightarrow> key r \<notin> key ` {x \<in> set t. is_open x})"
    and insert_row_None: "insert_row r t = Inr (t', None) \<Longrightarrow>
      t' = t \<and> (\<exists>x \<in> set t. is_open x \<and> key x = key r)"
begin

lemma insert_unique_open:
  assumes "unique_open ident key is_open t" "insert_row r t = Inr (t', res)"
  shows "unique_open ident key is_open t'"
proof (cases res)
  case None
  with assms insert_row_None show ?thesis by blast
next
  case (Some r')
  with assms(2) have "t' = t @ [r]" "ident r \<notin> ident ` set t"
    "is_open r \<longrightarrow> key r \<notin> key ` {x \<in> set t. is_open x}"
    using insert_row_Some by blast+
  with assms(1) show ?thesis by (auto simp: unique_open_def)
qed

text \<open>
  An update keeps the invariant when it keeps identity and key and never opens a row.
\<close>

lemma update_unique_open:
  assumes inv: "unique_open ident key is_open t"
    and keep: "\<And>r. r \<in> set t \<Longrightarrow> P r \<Longrightarrow> ident (f r) = ident r \<and> key (f r) = key r"
    and closed: "\<And>r. r \<in> set t \<Longrightarrow> P r \<Longrightarrow> is_open (f r) \<Longrightarrow> is_open r"
  shows "unique_open ident key is_open (update_rows P f t)"
proof -
  let ?g = "\<lambda>r. if P r then f r else r"
  have ids: "map ident (map ?g t) = map ident t"
    using keep by (auto simp: comp_def)
  have "distinct (map key (filter is_open (map ?g t)))"
    using inv keep closed
  proof (induction t)
    case (Cons r t)
    then have IH: "distinct (map key (filter is_open (map ?g t)))"
      by (auto simp: unique_open_def split: if_splits)
    have sub: "key ` set (filter is_open (map ?g t)) \<subseteq> key ` set (filter is_open t)"
    proof
      fix k assume "k \<in> key ` set (filter is_open (map ?g t))"
      then obtain x where "x \<in> set t" "is_open (?g x)" "k = key (?g x)" by auto
      with Cons.prems(2,3) [of x] show "k \<in> key ` set (filter is_open t)"
        by (auto split: if_splits)
    qed
    have "is_open (?g r) \<Longrightarrow> key (?g r) \<notin> key ` set (filter is_open (map ?g t))"
    proof -
      assume "is_open (?g r)"
      with Cons.prems(2,3) [of r] have "is_open r" "key (?g r) = key r"
        by (auto split: if_splits)
      with Cons.prems(1) sub show ?thesis by (auto simp: unique_open_def)
    qed
    with IH show ?case by auto
  qed simp
  with inv ids show ?thesis
    unfolding unique_open_def update_rows_map by (simp del: map_map)
qed

lemma open_row_unique:
  assumes "unique_open ident key is_open t"
    and "r \<in> set t" "is_open r" "s \<in> set t" "is_open s" "key r = key s"
  shows "r = s"
proof -
  have "r \<in> set (filter is_open t)" "s \<in> set (filter is_open t)" using assms by auto
  moreover have "inj_on key (set (filter is_open t))"
    using assms(1) by (simp add: unique_open_def distinct_map)
  ultimately show ?thesis using assms(6) by (auto dest: inj_onD)
qed

lemma update_other_rows:
  assumes "r \<in> set t" "\<not> P r"
  shows "r \<in> set (update_rows P f t)"
proof -
  have "(if P r then f r else r) \<in> (\<lambda>r. if P r then f r else r) ` set t"
    using assms(1) by (rule imageI)
  with assms(2) show ?thesis by (simp add: update_rows_map)
qed

end

abbreviation incidents_unique :: "incident_table \<Rightarrow> bool" where
  "incidents_unique \<equiv> unique_open inc_id inc_key inc_open"

interpretation incidents: open_table inc_id inc_key inc_open
  insert_on_conflict_do_nothing update_where
  by unfold_locales
    (auto simp: update_where_def insert_on_conflict_do_nothing_def list_ex_iff split: if_splits)

lemma incidents_unique_Nil [simp]: "incidents_unique []"
  by (simp add: unique_open_def)

lemma update_where_id:
  assumes "distinct (map inc_id t)" "r \<in> set t"
  shows "update_returning (\<lambda>x. inc_id x = inc_id r) f t = [f r]"
proof -
  have "filter (\<lambda>x. inc_id x = inc_id r) t = [r]"
    using assms
  proof (induction t)
    case (Cons a t)
    then show ?case
      by (cases "a = r") (auto simp: filter_empty_conv image_iff)
  qed simp
  then show ?thesis by (simp add: update_returning_def)
qed

end
