(* ===== verification/Aggregation.thy ===== *)
theory Aggregation
  imports IncidentTable
begin

text \<open>
  The problem half of \<open>app/persistence/incidents.py\<close>: the validated upsert input, the
  sliding threshold window, the insert-or-update of the one open incident of a rule and group,
  and what the write reports.  A repository call runs inside its caller's transaction: it takes
  the transaction timestamp, the identifier \<open>uuid4()\<close> draws and the table, and returns the new
  table, or the exception that makes the caller roll back.
\<close>

section \<open>Severity of a stored row\<close>

definition severity_rank_str :: "string \<Rightarrow> nat" where
  "severity_rank_str v =
     (if v = ''OK'' then 0 else if v = ''WARNING'' then 1
      else if v = ''UNKNOWN'' then 2 else if v = ''CRITICAL'' then 3 else 0)"

definition max_severity_str :: "string \<Rightarrow> severity \<Rightarrow> string" where
  "max_severity_str existing incoming =
     (if severity_rank_str (severity_value incoming) > severity_rank_str existing
      then severity_value incoming else existing)"

lemma severity_rank_str_value [simp]: "severity_rank_str (severity_value s) = severity_rank s"
  by (cases s) (auto simp: severity_rank_str_def)

lemma max_severity_str_value: "max_severity_str (severity_value a) b = severity_value (max a b)"
  by (auto simp: max_severity_str_def max_def less_eq_severity_def dest: severity_rank_inj)

section \<open>The upsert input\<close>

record upsert_input =
  up_rule_name :: string
  up_group_key :: string
  up_severity :: severity
  up_event_time :: datetime
  up_summary :: string
  up_affected_hosts :: "string list"
  up_affected_services :: "string list"
  up_decision_context :: "decision_context option"
  up_fingerprint :: "string option"
  up_threshold_count :: int
  up_window_seconds :: int
  up_max_window_fingerprints :: int

definition nonblank :: "string \<Rightarrow> bool" where
  "nonblank s \<longleftrightarrow> s \<noteq> [] \<and> str_strip s \<noteq> []"

text \<open>\<open>IncidentUpsertInput.__post_init__\<close>; every check raises \<open>ValueError\<close>.\<close>

definition default_fingerprint :: "upsert_input \<Rightarrow> string" where
  "default_fingerprint i =
     up_rule_name i @ '':'' @ up_group_key i @ '':'' @ isoformat (up_event_time i) @ '':'' @ up_summary i"

definition upsert_input_init :: "upsert_input \<Rightarrow> upsert_input result" where
  "upsert_input_init i =
     rbind (rall (\<lambda>b. rguard b ValueError)
       [nonblank (up_rule_name i), nonblank (up_group_key i), nonblank (up_summary i),
        is_aware (up_event_time i), 1 \<le> up_threshold_count i, 1 \<le> up_window_seconds i,
        1 \<le> up_max_window_fingerprints i \<and>
          up_max_window_fingerprints i \<le> int max_window_fingerprints,
        up_threshold_count i \<le> up_max_window_fingerprints i]) (\<lambda>_.
     let hosts = sorted_set (up_affected_hosts i); services = sorted_set (up_affected_services i)
     in rbind (rall (\<lambda>b. rguard b ValueError)
          [hosts \<noteq> [], list_all nonblank hosts, list_all nonblank services]) (\<lambda>_.
        let fp = (case up_fingerprint i of None \<Rightarrow> default_fingerprint i | Some f \<Rightarrow> f)
        in rbind (rguard (nonblank fp) ValueError) (\<lambda>_.
           Inr (i\<lparr>up_affected_hosts := hosts, up_affected_services := services,
                  up_fingerprint := Some fp\<rparr>))))"

text \<open>What an initialised input satisfies.\<close>

definition upsert_input_ok :: "upsert_input \<Rightarrow> bool" where
  "upsert_input_ok i \<longleftrightarrow>
     is_aware (up_event_time i) \<and> 1 \<le> up_threshold_count i \<and> 1 \<le> up_window_seconds i \<and>
     1 \<le> up_max_window_fingerprints i \<and>
     up_max_window_fingerprints i \<le> int max_window_fingerprints \<and>
     up_threshold_count i \<le> up_max_window_fingerprints i \<and>
     up_affected_hosts i \<noteq> [] \<and> distinct (up_affected_hosts i) \<and>
     distinct (up_affected_services i) \<and>
     (\<exists>f. up_fingerprint i = Some f \<and> nonblank f)"

lemma upsert_input_init_ok: "upsert_input_init i = Inr i' \<Longrightarrow> upsert_input_ok i'"
  by (auto simp: upsert_input_init_def upsert_input_ok_def result_simps Let_def)

section \<open>Active objects\<close>

definition active_objects_from_input :: "upsert_input \<Rightarrow> incident_object list" where
  "active_objects_from_input i =
     concat (map (\<lambda>host. map (IncidentObject host)
       (if up_affected_services i = [] then [None] else map Some (up_affected_services i)))
       (up_affected_hosts i))"

definition object_services :: "incident_object list \<Rightarrow> string list" where
  "object_services objs = List.map_filter io_service objs"

definition active_object_counts :: "incident_object list \<Rightarrow> int \<times> int" where
  "active_object_counts objs =
     (int (card (set (map io_host objs))), int (card (set (object_services objs))))"

definition max_affected_hosts :: nat where "max_affected_hosts = 100"

definition max_affected_services :: nat where "max_affected_services = 100"

definition affected_sets_from_objects :: "incident_object list \<Rightarrow> string list \<times> string list" where
  "affected_sets_from_objects objs =
     (take max_affected_hosts (sorted_set (map io_host objs)),
      take max_affected_services (sorted_set (object_services objs)))"

definition object_sort_key :: "incident_object \<Rightarrow> string \<times> string" where
  "object_sort_key obj = (io_host obj, case io_service obj of None \<Rightarrow> [] | Some s \<Rightarrow> s)"

lemma active_objects_from_input_not_Nil:
  "up_affected_hosts i \<noteq> [] \<Longrightarrow> active_objects_from_input i \<noteq> []"
  by (cases "up_affected_hosts i") (auto simp: active_objects_from_input_def)

lemma distinct_active_objects_from_input:
  assumes "distinct (up_affected_hosts i)" "distinct (up_affected_services i)"
  shows "distinct (active_objects_from_input i)"
proof -
  let ?ss = "if up_affected_services i = [] then [None] else map Some (up_affected_services i)"
  have ss: "distinct ?ss" using assms(2) by (simp add: distinct_map)
  have "distinct (concat (map (\<lambda>h. map (IncidentObject h) ?ss) hs))" if "distinct hs" for hs
    using that ss by (induction hs) (auto simp: distinct_map inj_on_def)
  then show ?thesis using assms(1) unfolding active_objects_from_input_def by blast
qed

section \<open>The threshold window\<close>

definition window_state_from_json :: "window_state option \<Rightarrow> window_state result" where
  "window_state_from_json doc =
     (case doc of None \<Rightarrow> Inl KeyError | Some w \<Rightarrow> window_state_validate w)"

lemma window_state_from_json_eq_Inr [result_simps]:
  "window_state_from_json doc = Inr w \<longleftrightarrow> doc = Some w \<and> window_state_ok w"
  by (auto simp: window_state_from_json_def result_simps split: option.splits)

definition input_fingerprint :: "upsert_input \<Rightarrow> string result" where
  "input_fingerprint i = (case up_fingerprint i of None \<Rightarrow> Inl AssertionError | Some f \<Rightarrow> Inr f)"

definition initial_window_state :: "upsert_input \<Rightarrow> window_state result" where
  "initial_window_state i =
     rbind (input_fingerprint i) (\<lambda>fp.
     rbind (minus_seconds (up_event_time i) (up_window_seconds i)) (\<lambda>start.
     window_state_validate
       \<lparr>ws_window_started_at = instant start,
        ws_window_ended_at = instant (up_event_time i),
        ws_window_seconds = up_window_seconds i,
        ws_threshold_count = up_threshold_count i,
        ws_counted = [(fp, instant (up_event_time i))],
        ws_counted_count = 1,
        ws_max_size = up_max_window_fingerprints i,
        ws_active_objects = active_objects_from_input i\<rparr>))"

text \<open>The newest entries of an overfull window, by timestamp and then fingerprint.\<close>

definition newest_entries :: "int \<Rightarrow> (string, int) dict \<Rightarrow> (string, int) dict" where
  "newest_entries n retained =
     (if int (length retained) > n
      then take (nat n) (rev (sort_key (\<lambda>(f, t). (t, f)) retained))
      else retained)"

text \<open>
  The pure part of \<open>_next_window_state\<close>: from the stored window, the bounds of the new one
  and the fingerprint, the new window and whether the event is a replay, lies inside the window
  and is counted.
\<close>

definition retained_entries :: "window_state \<Rightarrow> int \<Rightarrow> int \<Rightarrow> (string, int) dict" where
  "retained_entries state window_start window_end =
     filter (\<lambda>(f, t). window_start \<le> t \<and> t \<le> window_end) (ws_counted state)"

definition slide_window ::
  "window_state \<Rightarrow> int \<Rightarrow> int \<Rightarrow> string \<Rightarrow> upsert_input \<Rightarrow> window_state \<times> bool \<times> bool \<times> bool" where
  "slide_window state window_start window_end fp i =
     (let event_time = instant (up_event_time i);
          retained0 = retained_entries state window_start window_end;
          inside_window = (window_start \<le> event_time \<and> event_time \<le> window_end);
          replay = (fp \<in> set (dict_keys retained0));
          counted = (inside_window \<and> \<not> replay);
          retained1 = (if counted then dict_set fp event_time retained0 else retained0);
          retained = sort (newest_entries (up_max_window_fingerprints i) retained1);
          active_objects = sort_key object_sort_key
            (remdups (ws_active_objects state @ active_objects_from_input i))
      in (\<lparr>ws_window_started_at = window_start,
           ws_window_ended_at = window_end,
           ws_window_seconds = up_window_seconds i,
           ws_threshold_count = up_threshold_count i,
           ws_counted = retained,
           ws_counted_count = int (length retained),
           ws_max_size = up_max_window_fingerprints i,
           ws_active_objects = active_objects\<rparr>,
          replay, inside_window, counted))"

definition next_window_state ::
  "incident \<Rightarrow> upsert_input \<Rightarrow> (window_state \<times> bool \<times> bool \<times> bool) result" where
  "next_window_state existing i =
     (let window_end = max_datetime (utc_datetime (inc_last_update_time existing)) (up_event_time i)
      in rbind (minus_seconds window_end (up_window_seconds i)) (\<lambda>window_start.
         rbind (window_state_from_json (inc_window_state existing)) (\<lambda>state.
         rbind (input_fingerprint i) (\<lambda>fp.
         case slide_window state (instant window_start) (instant window_end) fp i of
           (w, replay, inside_window, counted) \<Rightarrow>
             rbind (window_state_validate w) (\<lambda>w. Inr (w, replay, inside_window, counted))))))"

section \<open>Decision context of a problem write\<close>

definition decision_context_dump :: "upsert_input \<Rightarrow> decision_context" where
  "decision_context_dump i =
     (case up_decision_context i of
        None \<Rightarrow> empty_context
      | Some d \<Rightarrow> if results_list d = [] then d\<lparr>dc_results := None\<rparr> else d)"

definition preserve_notification_delivery_results ::
  "decision_context \<Rightarrow> decision_context \<Rightarrow> decision_context result" where
  "preserve_notification_delivery_results existing incoming =
     (case dc_results existing of
        None \<Rightarrow> Inr incoming
      | Some records \<Rightarrow> decision_context_validate (incoming\<lparr>dc_results := Some records\<rparr>))"

section \<open>Insert or update\<close>

datatype aggregation_effect = Inserted | Updated

fun aggregation_effect_value :: "aggregation_effect \<Rightarrow> string" where
  "aggregation_effect_value Inserted = ''inserted''"
| "aggregation_effect_value Updated = ''updated''"

record write_result =
  wr_incident :: incident
  wr_effect :: aggregation_effect
  wr_replay :: bool
  wr_inside_window :: bool
  wr_counted :: bool
  wr_threshold_count :: int
  wr_window_started_at :: int
  wr_window_ended_at :: int
  wr_window_crossed :: bool
  wr_threshold_crossed :: bool
  wr_first_threshold_transition :: bool
  wr_counted_count :: int
  wr_counted_fingerprints :: "string list"

text \<open>The values \<open>_insert_problem_incident\<close> inserts; the server fills in the two timestamps.\<close>

definition problem_row :: "int \<Rightarrow> uuid \<Rightarrow> upsert_input \<Rightarrow> window_state \<Rightarrow> incident" where
  "problem_row now new_id i w =
     \<lparr>inc_id = new_id, inc_rule_name = up_rule_name i, inc_group_key = up_group_key i,
      inc_status = OPEN, inc_severity = severity_value (up_severity i),
      inc_summary = up_summary i, inc_event_count = 1,
      inc_affected_hosts = fst (affected_sets_from_objects (ws_active_objects w)),
      inc_affected_services = snd (affected_sets_from_objects (ws_active_objects w)),
      inc_decision_context = decision_context_dump i, inc_window_state = Some w,
      inc_threshold_crossed = (ws_counted_count w \<ge> up_threshold_count i),
      inc_notified_at = None, inc_start_time = instant (up_event_time i),
      inc_last_update_time = instant (up_event_time i),
      inc_acknowledged_at = None, inc_acknowledged_by = None, inc_resolved_at = None,
      inc_closed_at = None, inc_created_at = now, inc_updated_at = now\<rparr>"

definition insert_problem_incident ::
  "int \<Rightarrow> uuid \<Rightarrow> upsert_input \<Rightarrow> incident_table \<Rightarrow> (incident_table \<times> incident option) result" where
  "insert_problem_incident now new_id i t =
     rbind (initial_window_state i) (\<lambda>w. insert_on_conflict_do_nothing (problem_row now new_id i w) t)"

text \<open>What \<open>record_problem_incident\<close> reports for a row it inserted.\<close>

definition inserted_result :: "incident \<Rightarrow> write_result result" where
  "inserted_result r =
     rbind (window_state_from_json (inc_window_state r)) (\<lambda>w.
     Inr \<lparr>wr_incident = r, wr_effect = Inserted, wr_replay = False, wr_inside_window = True,
          wr_counted = True, wr_threshold_count = ws_threshold_count w,
          wr_window_started_at = ws_window_started_at w,
          wr_window_ended_at = ws_window_ended_at w,
          wr_window_crossed = (ws_counted_count w \<ge> ws_threshold_count w),
          wr_threshold_crossed = inc_threshold_crossed r,
          wr_first_threshold_transition = inc_threshold_crossed r,
          wr_counted_count = ws_counted_count w,
          wr_counted_fingerprints = dict_keys (ws_counted w)\<rparr>)"

text \<open>The column values of the update of an existing open row.\<close>

definition problem_update ::
  "int \<Rightarrow> incident \<Rightarrow> upsert_input \<Rightarrow> window_state \<Rightarrow> bool \<Rightarrow> decision_context \<Rightarrow> incident \<Rightarrow> incident" where
  "problem_update now existing i w counted ctx r =
     r\<lparr>inc_event_count := inc_event_count r + (if counted then 1 else 0),
       inc_last_update_time := max (inc_last_update_time r) (instant (up_event_time i)),
       inc_severity := max_severity_str (inc_severity existing) (up_severity i),
       inc_summary := (if counted then up_summary i else inc_summary existing),
       inc_affected_hosts := fst (affected_sets_from_objects (ws_active_objects w)),
       inc_affected_services := snd (affected_sets_from_objects (ws_active_objects w)),
       inc_decision_context := ctx,
       inc_window_state := Some w,
       inc_threshold_crossed :=
         (inc_threshold_crossed existing \<or> ws_counted_count w \<ge> ws_threshold_count w),
       inc_updated_at := now\<rparr>"

definition update_problem_incident ::
  "int \<Rightarrow> upsert_input \<Rightarrow> incident_table \<Rightarrow> (incident_table \<times> write_result) result" where
  "update_problem_incident now i t =
     (case select_where (\<lambda>r. inc_rule_name r = up_rule_name i \<and>
             inc_group_key r = up_group_key i \<and> inc_status r = OPEN) t of
        [existing] \<Rightarrow>
          rbind (next_window_state existing i) (\<lambda>(w, replay, inside_window, counted).
          rbind (preserve_notification_delivery_results
                   (inc_decision_context existing) (decision_context_dump i)) (\<lambda>ctx.
          let window_crossed = (ws_counted_count w \<ge> ws_threshold_count w);
              threshold_crossed = (inc_threshold_crossed existing \<or> window_crossed);
              f = problem_update now existing i w counted ctx;
              is_existing = (\<lambda>r. inc_id r = inc_id existing)
          in case update_returning is_existing f t of
               [updated] \<Rightarrow>
                 Inr (update_where is_existing f t,
                   \<lparr>wr_incident = updated, wr_effect = Updated, wr_replay = replay,
                    wr_inside_window = inside_window, wr_counted = counted,
                    wr_threshold_count = ws_threshold_count w,
                    wr_window_started_at = ws_window_started_at w,
                    wr_window_ended_at = ws_window_ended_at w,
                    wr_window_crossed = window_crossed,
                    wr_threshold_crossed = threshold_crossed,
                    wr_first_threshold_transition =
                      (\<not> inc_threshold_crossed existing \<and> threshold_crossed),
                    wr_counted_count = ws_counted_count w,
                    wr_counted_fingerprints = dict_keys (ws_counted w)\<rparr>)
             | _ \<Rightarrow> Inl NoResultFound))
      | _ \<Rightarrow> Inl NoResultFound)"

definition record_problem_incident ::
  "int \<Rightarrow> uuid \<Rightarrow> upsert_input \<Rightarrow> incident_table \<Rightarrow> (incident_table \<times> write_result) result" where
  "record_problem_incident now new_id i t =
     rbind (insert_problem_incident now new_id i t) (\<lambda>(t', inserted).
     case inserted of
       Some r \<Rightarrow> rbind (inserted_result r) (\<lambda>wr. Inr (t', wr))
     | None \<Rightarrow> update_problem_incident now i t')"

definition upsert_open_incident ::
  "int \<Rightarrow> uuid \<Rightarrow> upsert_input \<Rightarrow> incident_table \<Rightarrow> (incident_table \<times> incident) result" where
  "upsert_open_incident now new_id i t =
     rbind (record_problem_incident now new_id i t) (\<lambda>(t', wr). Inr (t', wr_incident wr))"

end
