(* ===== verification/AggregationFacts.thy ===== *)
theory AggregationFacts
  imports Aggregation
begin

text \<open>
  Correctness of the problem half of the repository: the well-formedness invariant of a
  threshold window and of a stored incident, and what one problem write does to the table.
\<close>

section \<open>The invariant of a window\<close>

definition window_inv :: "window_state \<Rightarrow> bool" where
  "window_inv w \<longleftrightarrow>
     window_state_ok w \<and> dict_wf (ws_counted w) \<and>
     ws_counted_count w = int (length (ws_counted w)) \<and>
     ws_counted_count w \<le> ws_max_size w \<and>
     ws_window_started_at w = ws_window_ended_at w - ws_window_seconds w * second \<and>
     (\<forall>(f, t) \<in> set (ws_counted w). ws_window_started_at w \<le> t \<and> t \<le> ws_window_ended_at w) \<and>
     distinct (ws_active_objects w)"

lemma window_invD:
  assumes "window_inv w"
  shows "window_state_ok w" "dict_wf (ws_counted w)"
    "ws_counted_count w = int (length (ws_counted w))" "distinct (ws_active_objects w)"
  using assms by (auto simp: window_inv_def)

lemma initial_window_state_inv:
  assumes "initial_window_state i = Inr w" "upsert_input_ok i"
  shows "window_inv w" "ws_window_ended_at w = instant (up_event_time i)"
    "ws_active_objects w = active_objects_from_input i" "ws_counted_count w = 1"
    "ws_threshold_count w = up_threshold_count i"
proof -
  from assms(1) obtain fp start where
    start: "minus_seconds (up_event_time i) (up_window_seconds i) = Inr start" and
    w: "w = \<lparr>ws_window_started_at = instant start,
        ws_window_ended_at = instant (up_event_time i),
        ws_window_seconds = up_window_seconds i,
        ws_threshold_count = up_threshold_count i,
        ws_counted = [(fp, instant (up_event_time i))],
        ws_counted_count = 1,
        ws_max_size = up_max_window_fingerprints i,
        ws_active_objects = active_objects_from_input i\<rparr>" and ok: "window_state_ok w"
    by (auto simp: initial_window_state_def result_simps)
  have "distinct (active_objects_from_input i)"
    using assms(2) by (auto simp: upsert_input_ok_def intro: distinct_active_objects_from_input)
  moreover have "dict_wf (ws_counted w)" by (simp add: w dict_wf_def)
  ultimately show "window_inv w"
    using assms(2) ok minus_seconds_instant [OF start]
    by (auto simp: window_inv_def upsert_input_ok_def w)
qed (use assms(1) in \<open>auto simp: initial_window_state_def result_simps\<close>)

section \<open>The overfull window\<close>

lemma set_newest_entries: "set (newest_entries n xs) \<subseteq> set xs"
  by (auto simp: newest_entries_def dest: set_take_sort_subset [THEN subsetD])

lemma length_newest_entries: "0 \<le> n \<Longrightarrow> int (length (newest_entries n xs)) \<le> n"
  by (auto simp: newest_entries_def)

lemma dict_wf_newest_entries: "dict_wf xs \<Longrightarrow> dict_wf (newest_entries n xs)"
  by (simp add: newest_entries_def dict_wf_take_rev_sort)

lemma newest_entries_all: "int (length xs) \<le> n \<Longrightarrow> newest_entries n xs = xs"
  by (simp add: newest_entries_def)

text \<open>No entry that is dropped is newer than one that is kept.\<close>

lemma newest_entries_newest:
  assumes "(f, t) \<in> set (newest_entries n xs)" "(g, u) \<in> set xs" "(g, u) \<notin> set (newest_entries n xs)"
  shows "(u, g) \<le> (t, f)"
proof -
  let ?k = "\<lambda>(f::string, t::int). (t, f)"
  let ?s = "rev (sort_key ?k xs)"
  from assms(2,3) have full: "newest_entries n xs = take (nat n) ?s"
    by (auto simp: newest_entries_def)
  have "sorted_wrt (\<lambda>x y. ?k y \<le> ?k x) ?s"
    unfolding sorted_wrt_rev using sorted_sort_key [of ?k xs] by (simp add: sorted_map)
  then have "sorted_wrt (\<lambda>x y. ?k y \<le> ?k x) (take (nat n) ?s @ drop (nat n) ?s)" by simp
  then have *: "\<forall>x \<in> set (take (nat n) ?s). \<forall>y \<in> set (drop (nat n) ?s). ?k y \<le> ?k x"
    unfolding sorted_wrt_append by blast
  have "(g, u) \<in> set (take (nat n) ?s @ drop (nat n) ?s)" using assms(2) by simp
  then have "(g, u) \<in> set (drop (nat n) ?s)"
    using assms(3) full by (metis Un_iff set_append)
  with * assms(1) full show ?thesis by fastforce
qed

section \<open>One step of the window\<close>

lemma next_window_stateD:
  assumes "next_window_state r i = Inr (w, replay, inside, counted)"
  obtains old fp where
    "inc_window_state r = Some old" "window_state_ok old" "up_fingerprint i = Some fp"
    "slide_window old
       (max (inc_last_update_time r) (instant (up_event_time i)) - up_window_seconds i * second)
       (max (inc_last_update_time r) (instant (up_event_time i))) fp i = (w, replay, inside, counted)"
    "window_state_ok w"
proof -
  let ?e = "instant (up_event_time i)"
  let ?stop = "max_datetime (utc_datetime (inc_last_update_time r)) (up_event_time i)"
  from assms obtain start old fp where
    start: "minus_seconds ?stop (up_window_seconds i) = Inr start" and
    old: "inc_window_state r = Some old" "window_state_ok old" and
    fp: "up_fingerprint i = Some fp"
    by (auto simp: next_window_state_def result_simps Let_def input_fingerprint_def
        split: option.splits)
  obtain w' r' a' b' where
    w': "slide_window old (instant start) (instant ?stop) fp i = (w', r', a', b')"
    by (cases "slide_window old (instant start) (instant ?stop) fp i")
  with assms start old fp have
    w: "slide_window old (instant start) (instant ?stop) fp i = (w, replay, inside, counted)"
       "window_state_ok w"
    by (auto simp: next_window_state_def result_simps Let_def input_fingerprint_def
        window_state_from_json_def window_state_validate_def split: if_splits)
  have "instant start = max (inc_last_update_time r) ?e - up_window_seconds i * second"
    using minus_seconds_instant [OF start] by simp
  with w old fp that show ?thesis by simp
qed

text \<open>Entries of a dictionary that has been filtered and then updated once.\<close>

lemma entries_dict_set:
  assumes "dict_wf d" "(f, t) \<in> set (dict_set k v d)"
  shows "(f = k \<and> t = v) \<or> (f, t) \<in> set d"
proof -
  have "map_of (dict_set k v d) f = Some t" using assms by (simp add: dict_wf_def distinct_update)
  then show ?thesis by (auto simp: map_of_dict_set split: if_splits dest: map_of_SomeD)
qed

lemma slide_window_entries:
  assumes slide: "slide_window old start stop fp i = (w, replay, inside, counted)" and wf: "window_inv old"
  shows "dict_wf (ws_counted w)"
    and "\<forall>(f, t) \<in> set (ws_counted w). start \<le> t \<and> t \<le> stop"
proof -
  let ?ret = "retained_entries old start stop"
  let ?new = "if counted then dict_set fp (instant (up_event_time i)) ?ret else ?ret"
  from slide [symmetric]
  have w: "ws_counted w = sort (newest_entries (up_max_window_fingerprints i) ?new)"
    and inside: "counted \<Longrightarrow> start \<le> instant (up_event_time i) \<and> instant (up_event_time i) \<le> stop"
    by (simp_all add: slide_window_def Let_def)
  have ret: "dict_wf ?ret"
    using wf by (auto simp: retained_entries_def window_inv_def intro: dict_wf_filter)
  then show "dict_wf (ws_counted w)"
    using w by (auto intro: dict_wf_newest_entries)
  have "start \<le> t \<and> t \<le> stop" if "(f, t) \<in> set ?new" for f t
    using that entries_dict_set [OF ret] inside
    by (auto simp: retained_entries_def split: if_splits)
  moreover have "set (ws_counted w) \<subseteq> set ?new" using w set_newest_entries by auto
  ultimately show "\<forall>(f, t) \<in> set (ws_counted w). start \<le> t \<and> t \<le> stop" by blast
qed

lemma slide_window_fields:
  assumes "slide_window old start stop fp i = (w, replay, inside, counted)"
  shows "ws_window_started_at w = start" "ws_window_ended_at w = stop"
    "ws_window_seconds w = up_window_seconds i" "ws_threshold_count w = up_threshold_count i"
    "ws_counted_count w = int (length (ws_counted w))" "ws_max_size w = up_max_window_fingerprints i"
    "set (ws_active_objects w) = set (ws_active_objects old) \<union> set (active_objects_from_input i)"
    "distinct (ws_active_objects w)"
    "inside \<longleftrightarrow> start \<le> instant (up_event_time i) \<and> instant (up_event_time i) \<le> stop"
    "replay \<longleftrightarrow> fp \<in> set (dict_keys (retained_entries old start stop))"
    "counted \<longleftrightarrow> inside \<and> \<not> replay"
  using assms by (auto simp: slide_window_def Let_def)

lemma next_window_state_inv:
  assumes step: "next_window_state r i = Inr (w, replay, inside, counted)"
    and old: "inc_window_state r = Some old" "window_inv old" and i: "upsert_input_ok i"
  shows "window_inv w"
    "ws_window_ended_at w = max (inc_last_update_time r) (instant (up_event_time i))"
    "set (ws_active_objects w) = set (ws_active_objects old) \<union> set (active_objects_from_input i)"
proof -
  let ?stop = "max (inc_last_update_time r) (instant (up_event_time i))"
  let ?start = "?stop - up_window_seconds i * second"
  from step old(1) obtain fp where
    slide: "slide_window old ?start ?stop fp i = (w, replay, inside, counted)" and ok: "window_state_ok w"
    by (auto elim: next_window_stateD)
  note f = slide_window_fields [OF slide] and e = slide_window_entries [OF slide old(2)]
  have "int (length (ws_counted w)) \<le> up_max_window_fingerprints i"
    using slide [symmetric] i length_newest_entries [of "up_max_window_fingerprints i"]
    by (simp add: slide_window_def Let_def upsert_input_ok_def)
  with f e ok show "window_inv w" by (auto simp: window_inv_def)
  show "ws_window_ended_at w = ?stop"
    "set (ws_active_objects w) = set (ws_active_objects old) \<union> set (active_objects_from_input i)"
    using f by auto
qed

section \<open>The invariant of a stored incident\<close>

definition severity_known :: "string \<Rightarrow> bool" where
  "severity_known v \<longleftrightarrow> v \<in> {''OK'', ''WARNING'', ''UNKNOWN'', ''CRITICAL''}"

definition incident_inv :: "incident \<Rightarrow> bool" where
  "incident_inv r \<longleftrightarrow>
     (case inc_window_state r of
        None \<Rightarrow> False
      | Some w \<Rightarrow>
          window_inv w \<and> ws_window_ended_at w = inc_last_update_time r \<and>
          inc_affected_hosts r = fst (affected_sets_from_objects (ws_active_objects w)) \<and>
          inc_affected_services r = snd (affected_sets_from_objects (ws_active_objects w)) \<and>
          (inc_open r \<longrightarrow> ws_active_objects w \<noteq> []) \<and>
          (ws_threshold_count w \<le> ws_counted_count w \<longrightarrow> inc_threshold_crossed r)) \<and>
     1 \<le> inc_event_count r \<and> severity_known (inc_severity r) \<and>
     decision_context_ok (inc_decision_context r) \<and>
     (inc_resolved_at r \<noteq> None \<longleftrightarrow> inc_status r = RESOLVED) \<and>
     (inc_closed_at r \<noteq> None \<longleftrightarrow> inc_status r = CLOSED) \<and>
     (inc_acknowledged_at r = None \<longleftrightarrow> inc_acknowledged_by r = None)"

definition table_inv :: "incident_table \<Rightarrow> bool" where
  "table_inv t \<longleftrightarrow> incidents_unique t \<and> list_all incident_inv t"

definition input_context_ok :: "upsert_input \<Rightarrow> bool" where
  "input_context_ok i \<longleftrightarrow>
     (case up_decision_context i of None \<Rightarrow> True | Some d \<Rightarrow> decision_context_ok d)"

lemma severity_known_value [simp]: "severity_known (severity_value s)"
  by (cases s) (auto simp: severity_known_def)

lemma severity_known_max: "severity_known v \<Longrightarrow> severity_known (max_severity_str v s)"
  by (simp add: max_severity_str_def)

lemma incident_invD:
  assumes "incident_inv r"
  obtains w where "inc_window_state r = Some w" "window_inv w"
    "ws_window_ended_at w = inc_last_update_time r"
    "inc_open r \<Longrightarrow> ws_active_objects w \<noteq> []"
    "ws_threshold_count w \<le> ws_counted_count w \<Longrightarrow> inc_threshold_crossed r"
  using assms by (auto simp: incident_inv_def split: option.splits)

lemma table_inv_Nil [simp]: "table_inv []"
  by (simp add: table_inv_def)

lemma table_inv_unique: "table_inv t \<Longrightarrow> incidents_unique t"
  by (simp add: table_inv_def)

lemma table_inv_ids: "table_inv t \<Longrightarrow> distinct (map inc_id t)"
  by (simp add: table_inv_def unique_open_def)

lemma table_inv_row: "table_inv t \<Longrightarrow> r \<in> set t \<Longrightarrow> incident_inv r"
  by (simp add: table_inv_def list_all_iff)

lemma table_inv_update:
  assumes "table_inv t"
    and "\<And>r. r \<in> set t \<Longrightarrow> P r \<Longrightarrow> inc_id (f r) = inc_id r \<and> inc_key (f r) = inc_key r"
    and "\<And>r. r \<in> set t \<Longrightarrow> P r \<Longrightarrow> inc_open (f r) \<Longrightarrow> inc_open r"
    and "\<And>r. r \<in> set t \<Longrightarrow> P r \<Longrightarrow> incident_inv (f r)"
  shows "table_inv (update_where P f t)"
  using assms incidents.update_unique_open [of t P f]
  by (auto simp: table_inv_def update_where_def list_all_iff)

lemma decision_context_ok_empty [simp]: "decision_context_ok empty_context"
  by (simp add: decision_context_ok_def empty_context_def opt_bounded_def opt_ge_def
      bounded_string_tuple_def notes_ok_def reject_secret_note_content_def
      delivery_results_ok_def results_list_def)

lemma decision_context_ok_drop_results:
  "decision_context_ok d \<Longrightarrow> decision_context_ok (d\<lparr>dc_results := None\<rparr>)"
  by (simp add: decision_context_ok_def results_list_def delivery_results_ok_def)

lemma decision_context_dump_ok: "input_context_ok i \<Longrightarrow> decision_context_ok (decision_context_dump i)"
  by (auto simp: input_context_ok_def decision_context_dump_def decision_context_ok_drop_results
      split: option.splits)

lemma preserve_results_ok:
  assumes "preserve_notification_delivery_results e d = Inr c" "decision_context_ok d"
  shows "decision_context_ok c"
  using assms decision_context_validate_ok
  by (fastforce simp: preserve_notification_delivery_results_def split: option.splits)

section \<open>What a problem write does\<close>

lemma inserted_result_problem_row:
  assumes "window_state_ok w"
  shows "\<exists>wr. inserted_result (problem_row now new_id i w) = Inr wr \<and>
    wr_incident wr = problem_row now new_id i w \<and> wr_effect wr = Inserted \<and>
    \<not> wr_replay wr \<and> wr_inside_window wr \<and> wr_counted wr \<and>
    wr_threshold_crossed wr = inc_threshold_crossed (problem_row now new_id i w) \<and>
    wr_first_threshold_transition wr = inc_threshold_crossed (problem_row now new_id i w) \<and>
    wr_counted_count wr = ws_counted_count w \<and> wr_threshold_count wr = ws_threshold_count w"
  using assms
  by (simp add: inserted_result_def problem_row_def window_state_from_json_def window_state_validate_def)

lemma record_problem_incident_cases [consumes 2]:
  assumes "record_problem_incident now new_id i t = Inr (t', wr)" "incidents_unique t"
  obtains
    (inserted) w where "initial_window_state i = Inr w" "window_state_ok w"
      "t' = t @ [problem_row now new_id i w]"
      "new_id \<notin> inc_id ` set t"
      "\<forall>r \<in> set t. inc_open r \<longrightarrow> inc_key r \<noteq> (up_rule_name i, up_group_key i)"
      "wr_incident wr = problem_row now new_id i w" "wr_effect wr = Inserted"
      "\<not> wr_replay wr" "wr_inside_window wr" "wr_counted wr"
      "wr_threshold_crossed wr = inc_threshold_crossed (wr_incident wr)"
      "wr_first_threshold_transition wr = inc_threshold_crossed (wr_incident wr)"
  | (updated) r w replay inside counted ctx where "r \<in> set t" "inc_open r"
      "inc_key r = (up_rule_name i, up_group_key i)"
      "next_window_state r i = Inr (w, replay, inside, counted)"
      "preserve_notification_delivery_results (inc_decision_context r) (decision_context_dump i) = Inr ctx"
      "t' = update_where (\<lambda>x. inc_id x = inc_id r) (problem_update now r i w counted ctx) t"
      "wr_incident wr = problem_update now r i w counted ctx r" "wr_effect wr = Updated"
      "wr_replay wr = replay" "wr_inside_window wr = inside" "wr_counted wr = counted"
      "wr_threshold_crossed wr = inc_threshold_crossed (wr_incident wr)"
      "wr_first_threshold_transition wr \<longleftrightarrow>
         \<not> inc_threshold_crossed r \<and> inc_threshold_crossed (wr_incident wr)"
proof -
  from assms(1) obtain t1 ins where ins: "insert_problem_incident now new_id i t = Inr (t1, ins)"
    by (auto simp: record_problem_incident_def result_simps)
  then obtain w where w: "initial_window_state i = Inr w" "window_state_ok w"
    and row: "insert_on_conflict_do_nothing (problem_row now new_id i w) t = Inr (t1, ins)"
    by (auto simp: insert_problem_incident_def initial_window_state_def result_simps)
  show thesis
  proof (cases ins)
    case (Some r')
    from row [unfolded Some] have r': "r' = problem_row now new_id i w" "t1 = t @ [problem_row now new_id i w]"
      "inc_id (problem_row now new_id i w) \<notin> inc_id ` set t"
      "inc_key (problem_row now new_id i w) \<notin> inc_key ` {x \<in> set t. inc_open x}"
      using incidents.insert_row_Some [of "problem_row now new_id i w" t t1 r']
      by (auto simp: problem_row_def)
    have fresh: "new_id \<notin> inc_id ` set t"
      using r'(3) by (auto simp: problem_row_def)
    have nokey: "\<forall>r \<in> set t. inc_open r \<longrightarrow> inc_key r \<noteq> (up_rule_name i, up_group_key i)"
    proof (intro ballI impI notI)
      fix r assume "r \<in> set t" "inc_open r" "inc_key r = (up_rule_name i, up_group_key i)"
      then have "inc_key (problem_row now new_id i w) \<in> inc_key ` {x \<in> set t. inc_open x}"
        by (intro image_eqI [of _ _ r]) (simp_all add: problem_row_def)
      with r'(4) show False by blast
    qed
    obtain wr' where wr': "inserted_result (problem_row now new_id i w) = Inr wr'"
      "wr_incident wr' = problem_row now new_id i w" "wr_effect wr' = Inserted"
      "\<not> wr_replay wr'" "wr_inside_window wr'" "wr_counted wr'"
      "wr_threshold_crossed wr' = inc_threshold_crossed (problem_row now new_id i w)"
      "wr_first_threshold_transition wr' = inc_threshold_crossed (problem_row now new_id i w)"
      using inserted_result_problem_row [OF w(2), of now new_id i] by blast
    have "t' = t1" "wr = wr'"
      using assms(1) ins Some r'(1) wr'(1) by (simp_all add: record_problem_incident_def)
    with r'(2) wr' show ?thesis
      by (intro that(1) [OF w _ fresh nokey]) simp_all
  next
    case None
    with row have t1: "t1 = t" and ex: "\<exists>x \<in> set t. inc_open x \<and> inc_key x = (up_rule_name i, up_group_key i)"
      using incidents.insert_row_None [of "problem_row now new_id i w" t t1]
      by (auto simp: problem_row_def)
    let ?P = "\<lambda>r. inc_rule_name r = up_rule_name i \<and> inc_group_key r = up_group_key i \<and> inc_status r = OPEN"
    from assms(1) ins None t1 have upd: "update_problem_incident now i t = Inr (t', wr)"
      by (simp add: record_problem_incident_def)
    then obtain r where sel: "select_where ?P t = [r]"
      by (auto simp: update_problem_incident_def split: list.splits)
    then have "r \<in> set (filter ?P t)" by (simp add: select_where_def)
    then have r: "r \<in> set t" "inc_open r" "inc_key r = (up_rule_name i, up_group_key i)"
      by auto
    from upd sel obtain w replay inside counted ctx where
      nw: "next_window_state r i = Inr (w, replay, inside, counted)" and
      ctx: "preserve_notification_delivery_results (inc_decision_context r) (decision_context_dump i) = Inr ctx"
      by (auto simp: update_problem_incident_def result_simps)
    have ret: "update_returning (\<lambda>x. inc_id x = inc_id r) (problem_update now r i w counted ctx) t
        = [problem_update now r i w counted ctx r]"
      using assms(2) r(1) by (intro update_where_id) (simp_all add: unique_open_def)
    from upd sel nw ctx ret show ?thesis
      by (intro that(2) [OF r nw ctx]) (auto simp: update_problem_incident_def Let_def problem_update_def)
  qed
qed

lemma problem_row_inv:
  assumes "initial_window_state i = Inr w" "upsert_input_ok i" "input_context_ok i"
  shows "incident_inv (problem_row now new_id i w)"
proof -
  note w = initial_window_state_inv [OF assms(1,2)]
  have "active_objects_from_input i \<noteq> []"
    using assms(2) active_objects_from_input_not_Nil [of i] by (simp add: upsert_input_ok_def)
  with w show ?thesis
    by (simp add: incident_inv_def problem_row_def decision_context_dump_ok [OF assms(3)])
qed

lemma problem_update_inv:
  assumes "incident_inv r" "inc_open r"
    and "next_window_state r i = Inr (w, replay, inside, counted)"
    and "preserve_notification_delivery_results (inc_decision_context r) (decision_context_dump i) = Inr ctx"
    and "upsert_input_ok i" "input_context_ok i"
  shows "incident_inv (problem_update now r i w counted ctx r)"
proof -
  from assms(1) obtain old where old: "inc_window_state r = Some old" "window_inv old"
    "ws_active_objects old \<noteq> []"
    using assms(2) by (auto elim: incident_invD)
  note w = next_window_state_inv [OF assms(3) old(1,2) assms(5)]
  have "decision_context_ok ctx"
    using preserve_results_ok [OF assms(4)] decision_context_dump_ok [OF assms(6)] by simp
  moreover have "ws_active_objects w \<noteq> []" using w(3) old(3) by auto
  ultimately show ?thesis
    using assms(1,2) w by (auto simp: incident_inv_def problem_update_def severity_known_max)
qed

lemma record_problem_table_inv:
  assumes "record_problem_incident now new_id i t = Inr (t', wr)"
    and "table_inv t" "upsert_input_ok i" "input_context_ok i"
  shows "table_inv t'"
  using assms(1) table_inv_unique [OF assms(2)]
proof (cases rule: record_problem_incident_cases)
  case (inserted w)
  have "incidents_unique t'"
    using inserted(3-5) table_inv_unique [OF assms(2)] by (auto simp: unique_open_def problem_row_def)
  with inserted(3) problem_row_inv [OF inserted(1) assms(3,4)] assms(2) show ?thesis
    by (simp add: table_inv_def)
next
  case (updated r w replay inside counted ctx)
  have one: "x = r" if "x \<in> set t" "inc_id x = inc_id r" for x
    using table_inv_ids [OF assms(2)] that updated(1) by (auto simp: distinct_map inj_on_def)
  show ?thesis
    unfolding updated(6)
  proof (rule table_inv_update [OF assms(2)])
    fix x assume "x \<in> set t" "inc_id x = inc_id r"
    then have "x = r" by (rule one)
    then show "incident_inv (problem_update now r i w counted ctx x)"
      using problem_update_inv [OF table_inv_row [OF assms(2) updated(1)] updated(2,4,5) assms(3,4)] by simp
  qed (simp_all add: problem_update_def)
qed

section \<open>Properties\<close>

text \<open>
  The abstract window is a map from fingerprints to the timestamps they were first counted
  at: a step forgets the entries the new interval does not cover, then counts the event when it
  lies inside the interval and its fingerprint is not already there.
\<close>

definition abstract_window ::
  "(string \<rightharpoonup> int) \<Rightarrow> int \<Rightarrow> int \<Rightarrow> string \<Rightarrow> int \<Rightarrow> (string \<rightharpoonup> int)" where
  "abstract_window m start stop fp e =
     (let m' = (\<lambda>f. case m f of None \<Rightarrow> None
                     | Some t \<Rightarrow> if start \<le> t \<and> t \<le> stop then Some t else None)
      in if start \<le> e \<and> e \<le> stop \<and> m' fp = None then m'(fp \<mapsto> e) else m')"

lemma map_of_retained_entries:
  "dict_wf (ws_counted old) \<Longrightarrow>
   map_of (retained_entries old start stop) =
     (\<lambda>f. case map_of (ws_counted old) f of None \<Rightarrow> None
          | Some t \<Rightarrow> if start \<le> t \<and> t \<le> stop then Some t else None)"
  unfolding retained_entries_def
  by (rule map_of_filter_value [of _ "\<lambda>t. start \<le> t \<and> t \<le> stop"])

lemma slide_window_abstract:
  assumes slide: "slide_window old start stop fp i = (w, replay, inside, counted)"
    and wf: "dict_wf (ws_counted old)"
  obtains new where "dict_wf new"
    "map_of new = abstract_window (map_of (ws_counted old)) start stop fp (instant (up_event_time i))"
    "ws_counted w = sort (newest_entries (up_max_window_fingerprints i) new)"
proof -
  let ?ret = "retained_entries old start stop"
  let ?new = "if counted then dict_set fp (instant (up_event_time i)) ?ret else ?ret"
  have ret: "dict_wf ?ret" using wf by (simp add: retained_entries_def dict_wf_filter)
  note f = slide_window_fields [OF slide]
  have replay: "\<not> replay \<longleftrightarrow> map_of ?ret fp = None"
    using f(10) by (simp add: map_of_eq_None_iff)
  have "map_of ?new = abstract_window (map_of (ws_counted old)) start stop fp (instant (up_event_time i))"
    using f(9,11) replay map_of_retained_entries [OF wf, of start stop]
    by (simp add: abstract_window_def map_of_dict_set Let_def)
  moreover have "ws_counted w = sort (newest_entries (up_max_window_fingerprints i) ?new)"
    using slide [symmetric] by (simp add: slide_window_def Let_def)
  moreover have "dict_wf ?new" using ret by simp
  ultimately show thesis using that by blast
qed

text \<open>
  C28: one aggregation step implements the abstract sliding window.  While the fingerprints
  fit, the stored counts are exactly the abstract window after the step, so a replayed
  fingerprint keeps its first timestamp and is not counted again; when they do not fit, the
  stored entries are the configured number of newest ones.  The reported flags say whether the
  event lies inside the window and is a replay, and the stored count is the number of entries.
\<close>

theorem next_window_state_refines:
  assumes step: "next_window_state r i = Inr (w, replay, inside, counted)"
    and old: "inc_window_state r = Some old" "window_inv old"
    and i: "upsert_input_ok i" "up_fingerprint i = Some fp"
  shows "let e = instant (up_event_time i);
             stop = max (inc_last_update_time r) e;
             start = stop - up_window_seconds i * second;
             spec = abstract_window (map_of (ws_counted old)) start stop fp e
         in (inside \<longleftrightarrow> start \<le> e) \<and>
            (replay \<longleftrightarrow> (\<exists>t. map_of (ws_counted old) fp = Some t \<and> start \<le> t \<and> t \<le> stop)) \<and>
            (counted \<longleftrightarrow> inside \<and> \<not> replay) \<and>
            ws_counted_count w = int (card (dom (map_of (ws_counted w)))) \<and>
            (if int (card (dom spec)) \<le> up_max_window_fingerprints i
             then map_of (ws_counted w) = spec
             else map_of (ws_counted w) \<subseteq>\<^sub>m spec \<and>
                  ws_counted_count w = up_max_window_fingerprints i \<and>
                  (\<forall>f t g u. map_of (ws_counted w) f = Some t \<longrightarrow> spec g = Some u \<longrightarrow>
                     map_of (ws_counted w) g = None \<longrightarrow> (u, g) \<le> (t, f)))"
proof -
  let ?e = "instant (up_event_time i)"
  let ?stop = "max (inc_last_update_time r) ?e"
  let ?start = "?stop - up_window_seconds i * second"
  let ?max = "up_max_window_fingerprints i"
  let ?spec = "abstract_window (map_of (ws_counted old)) ?start ?stop fp ?e"
  from step old(1) i(2) have slide: "slide_window old ?start ?stop fp i = (w, replay, inside, counted)"
    by (auto elim!: next_window_stateD)
  note f = slide_window_fields [OF slide] and wf = window_invD(2) [OF old(2)]
  have wfw: "dict_wf (ws_counted w)" using slide_window_entries(1) [OF slide old(2)] .
  obtain new where new: "dict_wf new" "map_of new = ?spec" "ws_counted w = sort (newest_entries ?max new)"
    using slide_window_abstract [OF slide wf] by blast
  have size: "card (dom ?spec) = length new" using new(1,2) length_dict by metis
  have replay: "replay \<longleftrightarrow> (\<exists>t. map_of (ws_counted old) fp = Some t \<and> ?start \<le> t \<and> t \<le> ?stop)"
    using wf by (auto simp: f(10) retained_entries_def dict_wf_def image_iff)
  have small: "map_of (ws_counted w) = ?spec" if "int (card (dom ?spec)) \<le> ?max"
    using that new newest_entries_all [of new ?max] map_of_sort_key [OF new(1)] by (simp add: size)
  have sub: "map_of (ws_counted w) \<subseteq>\<^sub>m ?spec"
  proof -
    have "set (ws_counted w) \<subseteq> set new" using new(3) set_newest_entries by auto
    then show ?thesis using new(1) wfw unfolding map_le_def new(2) [symmetric]
      by (fastforce simp: dict_wf_def dest: map_of_SomeD)
  qed
  have newest: "(u, g) \<le> (t, h)"
    if "map_of (ws_counted w) h = Some t" "?spec g = Some u" "map_of (ws_counted w) g = None" for h t g u
  proof (rule newest_entries_newest)
    show "(h, t) \<in> set (newest_entries ?max new)" using map_of_SomeD [OF that(1)] new(3) by simp
    show "(g, u) \<in> set new" using that(2) new(2) map_of_SomeD by metis
    show "(g, u) \<notin> set (newest_entries ?max new)" using that(3) new(3) by (force simp: map_of_eq_None_iff)
  qed
  have full: "ws_counted_count w = ?max" if "\<not> int (card (dom ?spec)) \<le> ?max"
    using that i(1) by (auto simp: f(5) new(3) newest_entries_def size upsert_input_ok_def)
  show ?thesis
    using f(5,9,11) replay small sub newest full length_dict [OF wfw]
    by (simp add: Let_def)
qed

text \<open>
  A problem write keeps the invariant of the table: unique identifiers, at most one open
  incident per rule and group key, every window within its bounds, the count equal to the number
  of distinct fingerprints retained, the affected sets derived from the active objects, and a
  window that reached its threshold marked as crossed.
\<close>

lemma record_problem_incident_preserves_inv:
  assumes "record_problem_incident now new_id i t = Inr (t', wr)"
    and "table_inv t" "upsert_input_ok i" "input_context_ok i"
  shows "table_inv t'"
  by (rule record_problem_table_inv [OF assms])

text \<open>
  A problem write leaves the event's incident as the one open incident of its rule and
  group key, and every other row of the table as it was.  A row is inserted exactly when the key
  had no open incident; an update never changes the identity, the start time or the
  acknowledgement, never moves the last update backwards, never lowers the severity, and counts
  the event at most once.
\<close>

lemma record_problem_incident_effect:
  assumes "record_problem_incident now new_id i t = Inr (t', wr)" "table_inv t"
  shows "let r' = wr_incident wr in
    r' \<in> set t' \<and> inc_open r' \<and> inc_key r' = (up_rule_name i, up_group_key i) \<and>
    {r \<in> set t'. inc_id r \<noteq> inc_id r'} = {r \<in> set t. inc_id r \<noteq> inc_id r'} \<and>
    (wr_effect wr = Inserted \<longleftrightarrow>
      (\<forall>r \<in> set t. inc_open r \<longrightarrow> inc_key r \<noteq> (up_rule_name i, up_group_key i))) \<and>
    (wr_effect wr = Updated \<longrightarrow> (\<exists>r \<in> set t.
      inc_id r = inc_id r' \<and> inc_open r \<and> inc_start_time r = inc_start_time r' \<and>
      inc_acknowledged_at r = inc_acknowledged_at r' \<and>
      inc_acknowledged_by r = inc_acknowledged_by r' \<and>
      inc_last_update_time r' = max (inc_last_update_time r) (instant (up_event_time i)) \<and>
      severity_rank_str (inc_severity r) \<le> severity_rank_str (inc_severity r') \<and>
      inc_event_count r' = inc_event_count r + (if wr_counted wr then 1 else 0)))"
  using assms(1) table_inv_unique [OF assms(2)]
proof (cases rule: record_problem_incident_cases)
  case (inserted w)
  then show ?thesis by (auto simp: problem_row_def Let_def)
next
  case (updated r w replay inside counted ctx)
  let ?f = "problem_update now r i w counted ctx"
  have id: "inc_id (?f x) = inc_id x" for x by (simp add: problem_update_def)
  have mem: "?f r \<in> set t'" using updated(1,6) by (auto simp: update_where_def)
  have others: "{x \<in> set t'. inc_id x \<noteq> inc_id r} = {x \<in> set t. inc_id x \<noteq> inc_id r}"
    unfolding updated(6) update_where_def using id by auto
  have f: "inc_open (?f r)" "inc_key (?f r) = inc_key r" "inc_start_time (?f r) = inc_start_time r"
    "inc_acknowledged_at (?f r) = inc_acknowledged_at r"
    "inc_acknowledged_by (?f r) = inc_acknowledged_by r"
    "inc_last_update_time (?f r) = max (inc_last_update_time r) (instant (up_event_time i))"
    "severity_rank_str (inc_severity r) \<le> severity_rank_str (inc_severity (?f r))"
    "inc_event_count (?f r) = inc_event_count r + (if counted then 1 else 0)"
    using updated(2) by (simp_all add: problem_update_def max_severity_str_def)
  have ex: "\<exists>r0 \<in> set t. inc_id r0 = inc_id (?f r) \<and> inc_open r0 \<and> inc_start_time r0 = inc_start_time (?f r) \<and>
      inc_acknowledged_at r0 = inc_acknowledged_at (?f r) \<and>
      inc_acknowledged_by r0 = inc_acknowledged_by (?f r) \<and>
      inc_last_update_time (?f r) = max (inc_last_update_time r0) (instant (up_event_time i)) \<and>
      severity_rank_str (inc_severity r0) \<le> severity_rank_str (inc_severity (?f r)) \<and>
      inc_event_count (?f r) = inc_event_count r0 + (if counted then 1 else 0)"
    using updated(1,2) f id by (intro bexI [of _ r]) simp_all
  have no: "\<not> (\<forall>x \<in> set t. inc_open x \<longrightarrow> inc_key x \<noteq> (up_rule_name i, up_group_key i))"
    using updated(1-3) by blast
  show ?thesis
    unfolding Let_def updated(7) updated(8) updated(11) id
    using mem others f(1,2) updated(3) no ex id by simp
qed

end
