(* ===== verification/LifecycleRepo.thy ===== *)
theory LifecycleRepo
  imports AggregationFacts
begin

text \<open>
  The lifecycle half of \<open>app/persistence/incidents.py\<close>: notification results, source
  recovery, acknowledgement, manual close and the expiration of stale incidents.  Every
  operation runs inside its caller's transaction and takes the transaction timestamp \<open>now\<close>.
  A \<open>SELECT\<close> without \<open>ORDER BY\<close> returns the rows in table order.
\<close>

section \<open>Results of a lifecycle write\<close>

record lifecycle_write_result =
  lw_incident :: incident
  lw_effect :: lifecycle_effect
  lw_transitioned_to :: "incident_status option"
  lw_previous_host_count :: int
  lw_previous_service_count :: int
  lw_affected_object_removed :: bool

text \<open>\<open>UPDATE ... RETURNING\<close> followed by \<open>.one()\<close>.\<close>

definition update_one ::
  "(incident \<Rightarrow> bool) \<Rightarrow> (incident \<Rightarrow> incident) \<Rightarrow> incident_table \<Rightarrow> (incident_table \<times> incident) result" where
  "update_one P f t =
     (case update_returning P f t of
        [r] \<Rightarrow> Inr (update_where P f t, r)
      | _ \<Rightarrow> Inl NoResultFound)"

section \<open>Notification results\<close>

definition safe_notification_messages :: "string list" where
  "safe_notification_messages =
     [''configured output plugin is missing'', ''notification dispatched'',
      ''notification plugin failed'', ''notification result redacted'',
      ''notification task runner is unavailable'', ''notification task submission failed'',
      ''stale plugin configuration'']"

definition safe_delivery_result :: "notification_result \<Rightarrow> notification_result" where
  "safe_delivery_result r =
     (if nr_message r \<in> set safe_notification_messages then r
      else r\<lparr>nr_message := ''notification result redacted''\<rparr>)"

definition delivery_record_validate :: "delivery_record \<Rightarrow> delivery_record result" where
  "delivery_record_validate r = (if delivery_record_ok r then Inr r else Inl ValidationError)"

definition validated_notification_context ::
  "decision_context \<Rightarrow> string \<Rightarrow> notification_result \<Rightarrow> decision_context result" where
  "validated_notification_context ctx plugin res =
     rbind (decision_context_validate ctx) (\<lambda>existing.
     rbind (delivery_record_validate
              \<lparr>dr_plugin_name = plugin, dr_result = safe_delivery_result res\<rparr>) (\<lambda>rec.
     let by_plugin = dict_set plugin rec
           (map (\<lambda>r. (dr_plugin_name r, r)) (results_list existing))
     in decision_context_validate
          (existing\<lparr>dc_results :=
             Some (map (\<lambda>n. the (map_of by_plugin n)) (sort (dict_keys by_plugin)))\<rparr>)))"

definition record_notification_result ::
  "int \<Rightarrow> uuid \<Rightarrow> string \<Rightarrow> notification_result \<Rightarrow> incident_table \<Rightarrow> (incident_table \<times> bool) result" where
  "record_notification_result now ident plugin res t =
     (case select_where (\<lambda>r. inc_id r = ident) t of
        [] \<Rightarrow> Inr (t, False)
      | incident # _ \<Rightarrow>
          rbind (validated_notification_context (inc_decision_context incident) plugin res) (\<lambda>ctx.
          Inr (update_where (\<lambda>r. inc_id r = ident)
                 (\<lambda>r. r\<lparr>inc_decision_context := ctx, inc_updated_at := now,
                        inc_notified_at := (if nr_success res then Some now else inc_notified_at r)\<rparr>) t,
               True)))"

section \<open>Lifecycle notes and context\<close>

text \<open>The keyword arguments of \<open>_lifecycle_notes\<close> and \<open>_lifecycle_context\<close>.\<close>

record lifecycle_args =
  la_reason :: string
  la_fingerprint :: "string option"
  la_source_id :: "string option"
  la_host :: "string option"
  la_service :: "string option"
  la_recovery_time :: "datetime option"
  la_operator :: "string option"
  la_detail :: "string option"
  la_rule_name :: "string option"
  la_window_seconds :: "int option"
  la_last_update_time :: "datetime option"
  la_expiration_time :: "datetime option"
  la_previous_host_count :: int
  la_previous_service_count :: int

definition default_args :: "string \<Rightarrow> int \<times> int \<Rightarrow> lifecycle_args" where
  "default_args reason counts =
     \<lparr>la_reason = reason, la_fingerprint = None, la_source_id = None, la_host = None,
      la_service = None, la_recovery_time = None, la_operator = None, la_detail = None,
      la_rule_name = None, la_window_seconds = None, la_last_update_time = None,
      la_expiration_time = None, la_previous_host_count = fst counts,
      la_previous_service_count = snd counts\<rparr>"

definition note_field :: "string \<Rightarrow> string option \<Rightarrow> (string, string) dict" where
  "note_field key v = (case v of None \<Rightarrow> [] | Some s \<Rightarrow> [(key, take 256 s)])"

definition lifecycle_notes :: "lifecycle_args \<Rightarrow> (string, string) dict" where
  "lifecycle_notes a =
     [(''lifecycle.reason'', la_reason a),
      (''lifecycle.previous_host_count'', int_str (la_previous_host_count a)),
      (''lifecycle.previous_service_count'', int_str (la_previous_service_count a))] @
     note_field ''lifecycle.fingerprint'' (la_fingerprint a) @
     note_field ''lifecycle.source_id'' (la_source_id a) @
     note_field ''lifecycle.host'' (la_host a) @
     note_field ''lifecycle.service'' (la_service a) @
     note_field ''lifecycle.recovery_timestamp'' (map_option isoformat (la_recovery_time a)) @
     note_field ''lifecycle.operator'' (la_operator a) @
     note_field ''lifecycle.detail'' (la_detail a) @
     note_field ''lifecycle.rule_name'' (la_rule_name a) @
     (case la_window_seconds a of None \<Rightarrow> [] | Some n \<Rightarrow> [(''lifecycle.window_seconds'', int_str n)]) @
     note_field ''lifecycle.last_update_time'' (map_option isoformat (la_last_update_time a)) @
     note_field ''lifecycle.expired_at'' (map_option isoformat (la_expiration_time a))"

text \<open>\<open>x or y\<close> on optional strings: the first unless it is \<open>None\<close> or empty.\<close>

definition or_else :: "string option \<Rightarrow> string option \<Rightarrow> string option" where
  "or_else x y = (if x = None \<or> x = Some [] then y else x)"

definition lifecycle_context :: "incident \<Rightarrow> lifecycle_args \<Rightarrow> decision_context result" where
  "lifecycle_context r a =
     (let candidate = inc_decision_context r;
          notes = lifecycle_notes a;
          remaining = 20 - length notes;
          kept = filter (\<lambda>(k, v). \<not> prefix ''lifecycle.'' k) (dc_notes candidate)
      in decision_context_validate
           (candidate\<lparr>dc_notes := dict_merge (slice_last remaining kept) notes,
                      dc_fingerprint := or_else (la_fingerprint a) (dc_fingerprint candidate),
                      dc_source_id := or_else (la_source_id a) (dc_source_id candidate),
                      dc_event_count := Some (inc_event_count r)\<rparr>))"

section \<open>Source recovery\<close>

definition window_state_with_active_objects ::
  "incident \<Rightarrow> incident_object list \<Rightarrow> window_state result" where
  "window_state_with_active_objects r objs =
     rbind (window_state_from_json (inc_window_state r)) (\<lambda>w.
     Inr (w\<lparr>ws_active_objects := sort_key object_sort_key objs\<rparr>))"

definition shrink_affected_sets ::
  "int \<Rightarrow> incident \<Rightarrow> incident_object list \<Rightarrow> decision_context \<Rightarrow> incident_table \<Rightarrow>
     (incident_table \<times> incident) result" where
  "shrink_affected_sets now incident objs ctx t =
     (let (hosts, services) = affected_sets_from_objects objs
      in rbind (window_state_with_active_objects incident objs) (\<lambda>w.
         update_one (\<lambda>r. inc_id r = inc_id incident \<and> inc_open r)
           (\<lambda>r. r\<lparr>inc_affected_hosts := hosts, inc_affected_services := services,
                  inc_decision_context := ctx, inc_window_state := Some w,
                  inc_updated_at := now\<rparr>) t))"

definition resolve_to_resolved ::
  "int \<Rightarrow> incident \<Rightarrow> decision_context \<Rightarrow> incident_table \<Rightarrow> (incident_table \<times> incident) result" where
  "resolve_to_resolved now incident ctx t =
     rbind (window_state_with_active_objects incident []) (\<lambda>w.
     rbind (validate_incident_transition OPEN RESOLVED) (\<lambda>target.
     update_one (\<lambda>r. inc_id r = inc_id incident \<and> inc_open r)
       (\<lambda>r. r\<lparr>inc_status := target, inc_affected_hosts := [], inc_affected_services := [],
              inc_decision_context := ctx, inc_window_state := Some w,
              inc_resolved_at := Some now, inc_updated_at := now\<rparr>) t))"

text \<open>The end of both recovery loops, once the remaining objects and the context are known.\<close>

definition apply_recovery ::
  "int \<Rightarrow> incident \<Rightarrow> int \<times> int \<Rightarrow> incident_object list \<Rightarrow> decision_context \<Rightarrow> incident_table \<Rightarrow>
     (incident_table \<times> lifecycle_write_result option) result" where
  "apply_recovery now incident counts new_objs ctx t =
     (if new_objs = [] then
        rbind (resolve_to_resolved now incident ctx t) (\<lambda>(t', updated).
        Inr (t', Some \<lparr>lw_incident = updated, lw_effect = Resolved_effect,
                       lw_transitioned_to = Some RESOLVED,
                       lw_previous_host_count = fst counts, lw_previous_service_count = snd counts,
                       lw_affected_object_removed = True\<rparr>))
      else
        rbind (shrink_affected_sets now incident new_objs ctx t) (\<lambda>(t', updated).
        Inr (t', Some \<lparr>lw_incident = updated, lw_effect = Affected_set_shrunk,
                       lw_transitioned_to = None,
                       lw_previous_host_count = fst counts, lw_previous_service_count = snd counts,
                       lw_affected_object_removed = True\<rparr>)))"

text \<open>\<open>window_state->'active_objects' @> ...\<close>: containment of one partial object.\<close>

definition active_objects_contain :: "(incident_object \<Rightarrow> bool) \<Rightarrow> incident \<Rightarrow> bool" where
  "active_objects_contain P r =
     (case inc_window_state r of None \<Rightarrow> False | Some w \<Rightarrow> list_ex P (ws_active_objects w))"

definition recover_host ::
  "int \<Rightarrow> string \<Rightarrow> datetime \<Rightarrow> string \<Rightarrow> string \<Rightarrow> incident \<Rightarrow> incident_table \<Rightarrow>
     (incident_table \<times> lifecycle_write_result option) result" where
  "recover_host now host recovery_time fp source incident t =
     rbind (window_state_from_json (inc_window_state incident)) (\<lambda>w.
     let objs = ws_active_objects w;
         counts = active_object_counts objs;
         new_objs = filter (\<lambda>obj. io_host obj \<noteq> host) objs
     in if length new_objs = length objs then Inr (t, None)
        else rbind (lifecycle_context incident
               ((default_args ''source_recovery'' counts)
                  \<lparr>la_fingerprint := Some fp, la_source_id := Some source, la_host := Some host,
                   la_recovery_time := Some recovery_time\<rparr>)) (\<lambda>ctx.
             apply_recovery now incident counts new_objs ctx t))"

definition resolve_host_recovery ::
  "int \<Rightarrow> string \<Rightarrow> datetime \<Rightarrow> string \<Rightarrow> string \<Rightarrow> incident_table \<Rightarrow>
     (incident_table \<times> lifecycle_write_result list) result" where
  "resolve_host_recovery now host recovery_time fp source t =
     rloop (recover_host now host recovery_time fp source)
       (select_where (\<lambda>r. inc_open r \<and> active_objects_contain (\<lambda>obj. io_host obj = host) r) t) t"

definition recover_service ::
  "int \<Rightarrow> string \<Rightarrow> string \<Rightarrow> datetime \<Rightarrow> string \<Rightarrow> string \<Rightarrow> incident \<Rightarrow> incident_table \<Rightarrow>
     (incident_table \<times> lifecycle_write_result option) result" where
  "recover_service now host service recovery_time fp source incident t =
     rbind (window_state_from_json (inc_window_state incident)) (\<lambda>w.
     let objs = ws_active_objects w;
         counts = active_object_counts objs;
         recovered = IncidentObject host (Some service)
     in if recovered \<notin> set objs then Inr (t, None)
        else
          let new_objs = filter (\<lambda>obj. obj \<noteq> recovered) objs
          in rbind (lifecycle_context incident
               ((default_args ''source_recovery'' counts)
                  \<lparr>la_fingerprint := Some fp, la_source_id := Some source, la_host := Some host,
                   la_service := Some service, la_recovery_time := Some recovery_time\<rparr>)) (\<lambda>ctx.
             apply_recovery now incident counts new_objs ctx t))"

definition resolve_service_recovery ::
  "int \<Rightarrow> string \<Rightarrow> string \<Rightarrow> datetime \<Rightarrow> string \<Rightarrow> string \<Rightarrow> incident_table \<Rightarrow>
     (incident_table \<times> lifecycle_write_result list) result" where
  "resolve_service_recovery now host service recovery_time fp source t =
     rloop (recover_service now host service recovery_time fp source)
       (select_where (\<lambda>r. inc_open r \<and>
          active_objects_contain (\<lambda>obj. io_host obj = host \<and> io_service obj = Some service) r) t) t"

section \<open>Operator actions\<close>

definition noop_result :: "incident \<Rightarrow> lifecycle_write_result result" where
  "noop_result row =
     rbind (window_state_from_json (inc_window_state row)) (\<lambda>w.
     let counts = active_object_counts (ws_active_objects w)
     in Inr \<lparr>lw_incident = row, lw_effect = Noop, lw_transitioned_to = None,
             lw_previous_host_count = fst counts, lw_previous_service_count = snd counts,
             lw_affected_object_removed = False\<rparr>)"

definition ack_open_incident ::
  "int \<Rightarrow> uuid \<Rightarrow> string \<Rightarrow> incident_table \<Rightarrow>
     (incident_table \<times> lifecycle_write_result option) result" where
  "ack_open_incident now ident operator t =
     (case select_where (\<lambda>r. inc_id r = ident \<and> inc_open r) t of
        [] \<Rightarrow>
          (case select_where (\<lambda>r. inc_id r = ident) t of
             [] \<Rightarrow> Inr (t, None)
           | row # _ \<Rightarrow> rbind (noop_result row) (\<lambda>res. Inr (t, Some res)))
      | incident # _ \<Rightarrow>
          rbind (window_state_from_json (inc_window_state incident)) (\<lambda>w.
          let counts = active_object_counts (ws_active_objects w)
          in rbind (lifecycle_context incident
               ((default_args ''acknowledged'' counts)\<lparr>la_operator := Some operator\<rparr>)) (\<lambda>ctx.
             rbind (update_one (\<lambda>r. inc_id r = ident \<and> inc_open r)
               (\<lambda>r. r\<lparr>inc_acknowledged_at :=
                        (case inc_acknowledged_at r of None \<Rightarrow> Some now | Some a \<Rightarrow> Some a),
                      inc_acknowledged_by := Some operator,
                      inc_decision_context := ctx, inc_updated_at := now\<rparr>) t) (\<lambda>(t', updated).
             Inr (t', Some \<lparr>lw_incident = updated, lw_effect = Acknowledged,
                            lw_transitioned_to = None,
                            lw_previous_host_count = fst counts,
                            lw_previous_service_count = snd counts,
                            lw_affected_object_removed = False\<rparr>)))))"

definition close_row :: "int \<Rightarrow> incident_status \<Rightarrow> decision_context \<Rightarrow> incident \<Rightarrow> incident" where
  "close_row now target ctx r =
     r\<lparr>inc_status := target, inc_decision_context := ctx, inc_closed_at := Some now,
       inc_updated_at := now\<rparr>"

definition close_open_incident ::
  "int \<Rightarrow> uuid \<Rightarrow> string \<Rightarrow> string \<Rightarrow> incident_table \<Rightarrow>
     (incident_table \<times> lifecycle_write_result option) result" where
  "close_open_incident now ident operator reason t =
     (case select_where (\<lambda>r. inc_id r = ident \<and> inc_open r) t of
        [] \<Rightarrow>
          (case select_where (\<lambda>r. inc_id r = ident) t of
             [] \<Rightarrow> Inr (t, None)
           | row # _ \<Rightarrow> rbind (noop_result row) (\<lambda>res. Inr (t, Some res)))
      | incident # _ \<Rightarrow>
          rbind (window_state_from_json (inc_window_state incident)) (\<lambda>w.
          let counts = active_object_counts (ws_active_objects w)
          in rbind (lifecycle_context incident
               ((default_args ''manual_close'' counts)
                  \<lparr>la_operator := Some operator, la_detail := Some reason\<rparr>)) (\<lambda>ctx.
             rbind (validate_incident_transition OPEN CLOSED) (\<lambda>target.
             rbind (update_one (\<lambda>r. inc_id r = ident \<and> inc_open r) (close_row now target ctx) t)
               (\<lambda>(t', updated).
             Inr (t', Some \<lparr>lw_incident = updated, lw_effect = Closed_effect,
                            lw_transitioned_to = Some CLOSED,
                            lw_previous_host_count = fst counts,
                            lw_previous_service_count = snd counts,
                            lw_affected_object_removed = False\<rparr>))))))"

section \<open>Expiration\<close>

text \<open>
  The query's cut-off casts \<open>window_seconds\<close> to \<open>integer\<close>, 32 bits wide: a wider value fails
  the statement.  A row whose window state lacks the key compares as unknown and is not stale.
\<close>

definition int4_ok :: "int \<Rightarrow> bool" where
  "int4_ok n \<longleftrightarrow> - (2 ^ 31) \<le> n \<and> n < 2 ^ 31"

definition is_stale :: "int \<Rightarrow> incident \<Rightarrow> bool" where
  "is_stale now r =
     (case inc_window_state r of
        None \<Rightarrow> False
      | Some w \<Rightarrow> now > inc_last_update_time r + ws_window_seconds w * second)"

definition stale_candidates :: "int \<Rightarrow> int \<Rightarrow> incident_table \<Rightarrow> incident list result" where
  "stale_candidates now limit t =
     (let open_rows = select_where inc_open t
      in if list_all (\<lambda>r. case inc_window_state r of None \<Rightarrow> True | Some w \<Rightarrow> int4_ok (ws_window_seconds w)) open_rows
         then Inr (take (nat limit) (sort_key inc_id (filter (is_stale now) open_rows)))
         else Inl DatabaseError)"

definition expire_incident ::
  "int \<Rightarrow> incident \<Rightarrow> incident_table \<Rightarrow> (incident_table \<times> incident option) result" where
  "expire_incident now incident t =
     rbind (window_state_from_json (inc_window_state incident)) (\<lambda>w.
     let counts = active_object_counts (ws_active_objects w)
     in rbind (lifecycle_context incident
          ((default_args ''expired'' counts)
             \<lparr>la_rule_name := Some (inc_rule_name incident),
              la_window_seconds := Some (ws_window_seconds w),
              la_last_update_time := Some (utc_datetime (inc_last_update_time incident)),
              la_expiration_time := Some (utc_datetime now)\<rparr>)) (\<lambda>ctx.
        rbind (validate_incident_transition OPEN CLOSED) (\<lambda>target.
        let P = (\<lambda>r. inc_id r = inc_id incident \<and> inc_open r)
        in case update_returning P (close_row now target ctx) t of
             [] \<Rightarrow> Inr (t, None)
           | [updated] \<Rightarrow> Inr (update_where P (close_row now target ctx) t, Some updated)
           | _ \<Rightarrow> Inl DatabaseError)))"

definition expire_stale_incidents ::
  "int \<Rightarrow> int \<Rightarrow> incident_table \<Rightarrow> (incident_table \<times> incident list) result" where
  "expire_stale_incidents now limit t =
     (if limit < 1 then Inr (t, [])
      else rbind (stale_candidates now limit t) (\<lambda>candidates.
           rloop (expire_incident now) candidates t))"

end
