(* ===== verification/Metrics.thy ===== *)
theory Metrics
  imports LifecycleRepo Aggregation
begin

text \<open>
  The counters of \<open>app/processing/metrics.py\<close>.  A counter state is the sequence of increments
  made so far: the counters live in the process, so a database rollback does not undo them.
\<close>

datatype incident_effect =
    Aggregation_effect aggregation_effect
  | Lifecycle_effect lifecycle_effect

datatype submission_outcome = Accepted | Missing_runner | Missing_plugin_outcome | Submit_failed

datatype compatibility_operation = Patch | Patch_acknowledge | Patch_close | Delete_close

datatype compatibility_outcome = Mutation_success | Not_found | Invalid_status | Invalid_transition

datatype metric =
    Compatibility_mutations compatibility_operation compatibility_outcome
  | Audit_writes bool                                    \<comment> \<open>success or failure\<close>
  | Events_accepted event_type
  | Events_rejected
  | Matched_rules
  | Incident_effects incident_effect
  | Notification_submissions submission_outcome
  | Notification_deliveries bool notification_category   \<comment> \<open>success or failure\<close>
  | Task_failures

type_synonym metrics = "metric list"

definition inc :: "metric \<Rightarrow> metrics \<Rightarrow> metrics" where
  "inc m ms = ms @ [m]"

definition counter :: "metrics \<Rightarrow> metric \<Rightarrow> nat" where
  "counter ms m = count_list ms m"

definition record_compatibility_mutation ::
  "compatibility_operation \<Rightarrow> compatibility_outcome \<Rightarrow> metrics \<Rightarrow> metrics" where
  "record_compatibility_mutation op res = inc (Compatibility_mutations op res)"

definition record_audit_write :: "bool \<Rightarrow> metrics \<Rightarrow> metrics" where
  "record_audit_write ok = inc (Audit_writes ok)"

definition record_event_accepted :: "event_type \<Rightarrow> metrics \<Rightarrow> metrics" where
  "record_event_accepted ty = inc (Events_accepted ty)"

definition record_event_rejected :: "metrics \<Rightarrow> metrics" where
  "record_event_rejected = inc Events_rejected"

definition record_rule_matched :: "metrics \<Rightarrow> metrics" where
  "record_rule_matched = inc Matched_rules"

definition record_incident_effect :: "incident_effect \<Rightarrow> metrics \<Rightarrow> metrics" where
  "record_incident_effect e = inc (Incident_effects e)"

definition record_notification_submission :: "submission_outcome \<Rightarrow> metrics \<Rightarrow> metrics" where
  "record_notification_submission res = inc (Notification_submissions res)"

definition record_notification_delivery :: "bool \<Rightarrow> notification_category \<Rightarrow> metrics \<Rightarrow> metrics" where
  "record_notification_delivery ok cat = inc (Notification_deliveries ok cat)"

definition record_task_failure :: "metrics \<Rightarrow> metrics" where
  "record_task_failure = inc Task_failures"

lemma counter_inc [simp]: "counter (inc m ms) m' = counter ms m' + (if m' = m then 1 else 0)"
  by (simp add: counter_def inc_def)

end
