(* ===== verification/Rules.thy ===== *)
theory Rules
  imports IncidentDomain
begin

text \<open>
  \<open>app/domain/rules.py\<close>, \<open>app/config/rules.py\<close> and \<open>app/processing/rule_engine.py\<close>: rule
  definitions, their validation when a configuration is loaded, and the evaluation of one event.

  A compiled regular expression is the pair of what the program uses of it: the anchored match of
  a subject, with its capture groups, and the number of groups.  The regular-expression
  compiler, the YAML parser and the hash are arguments.
\<close>

section \<open>Rule definitions\<close>

record pattern =
  pat_match :: "string \<Rightarrow> string option list option"
  pat_groups :: nat

definition matches :: "pattern \<Rightarrow> string \<Rightarrow> bool" where
  "matches p s \<longleftrightarrow> pat_match p s \<noteq> None"

record match_criteria =
  mc_severities :: "severity list"
  mc_host_pattern :: string
  mc_service_pattern :: "string option"
  mc_tags :: tags

record rule_action =
  ra_name :: string
  ra_plugin :: string

record rule_window =
  rw_duration_seconds :: int
  rw_group_by :: "string list"
  rw_trigger_threshold :: int

record rule_definition =
  rd_name :: string
  rd_priority :: int
  rd_match :: match_criteria
  rd_window :: rule_window
  rd_output_summary :: string
  rd_actions :: "rule_action list"

text \<open>\<open>TagKey\<close> and \<open>TagValue\<close>, the constraints of a tag of a rule.\<close>

definition rule_tag_ok :: "string \<times> string \<Rightarrow> bool" where
  "rule_tag_ok = (\<lambda>(k, v). tag_key_pattern k \<and> 1 \<le> length v \<and> length v \<le> 256)"

definition match_criteria_ok :: "match_criteria \<Rightarrow> bool" where
  "match_criteria_ok m \<longleftrightarrow>
     bounded_string (mc_host_pattern m) \<and> opt_bounded (mc_service_pattern m) \<and>
     list_all rule_tag_ok (mc_tags m)"

definition rule_window_ok :: "rule_window \<Rightarrow> bool" where
  "rule_window_ok w \<longleftrightarrow>
     1 \<le> rw_duration_seconds w \<and> rw_group_by w \<noteq> [] \<and> list_all bounded_string (rw_group_by w) \<and>
     1 \<le> rw_trigger_threshold w \<and> rw_trigger_threshold w \<le> int max_window_fingerprints"

definition rule_definition_ok :: "rule_definition \<Rightarrow> bool" where
  "rule_definition_ok r \<longleftrightarrow>
     bounded_string (rd_name r) \<and> match_criteria_ok (rd_match r) \<and> rule_window_ok (rd_window r) \<and>
     bounded_string (rd_output_summary r) \<and>
     1 \<le> length (rd_actions r) \<and> length (rd_actions r) \<le> 20 \<and>
     list_all (\<lambda>a. bounded_string (ra_name a) \<and> bounded_string (ra_plugin a)) (rd_actions r) \<and>
     card (set (map ra_plugin (rd_actions r))) = length (rd_actions r)"

record rule_match =
  rm_rule_name :: string
  rm_priority :: int
  rm_matched_rules :: "string list"
  rm_group_key :: string
  rm_window :: rule_window
  rm_summary :: string
  rm_actions :: "string list"

definition rule_match_validate :: "rule_match \<Rightarrow> rule_match result" where
  "rule_match_validate m =
     (if bounded_string (rm_rule_name m) \<and> list_all bounded_string (rm_matched_rules m) \<and>
         bounded_string (rm_group_key m) \<and> bounded_string (rm_summary m) \<and>
         list_all bounded_string (rm_actions m)
      then Inr m else Inl ValidationError)"

datatype engine_decision = Match rule_match | NoOp string

section \<open>Evaluation\<close>

record compiled_rule =
  cr_definition :: rule_definition
  cr_host_pattern :: pattern
  cr_service_pattern :: "pattern option"

definition rule_engine :: "compiled_rule list \<Rightarrow> compiled_rule list" where
  "rule_engine rules = sort_key (\<lambda>r. rd_priority (cr_definition r)) rules"

definition matches_rule :: "compiled_rule \<Rightarrow> normalized_event \<Rightarrow> bool" where
  "matches_rule c e \<longleftrightarrow>
     ev_severity e \<in> set (mc_severities (rd_match (cr_definition c))) \<and>
     matches (cr_host_pattern c) (ev_host e) \<and>
     (case cr_service_pattern c of
        None \<Rightarrow> True
      | Some p \<Rightarrow> (case ev_service e of None \<Rightarrow> False | Some s \<Rightarrow> matches p s)) \<and>
     list_all (\<lambda>(k, v). map_of (ev_tags e) k = Some v) (mc_tags (rd_match (cr_definition c)))"

text \<open>The normalized fields of an event, in the order of the summary's context.\<close>

definition normalized_fields :: "normalized_event \<Rightarrow> (string, string option) dict" where
  "normalized_fields e =
     [(''host'', Some (ev_host e)), (''service'', ev_service e), (''message'', Some (ev_message e)),
      (''severity'', Some (severity_value (ev_severity e))),
      (''event_type'', Some (event_type_value (ev_event_type e))),
      (''fingerprint'', Some (ev_fingerprint e)), (''source_id'', Some (ev_source_id e)),
      (''timestamp'', Some (isoformat (ev_timestamp e))), (''ip_address'', ev_ip_address e)]"

definition resolve_field :: "string \<Rightarrow> normalized_event \<Rightarrow> string option" where
  "resolve_field field e =
     (if field = ''host'' then Some (ev_host e)
      else if field = ''service'' then ev_service e
      else if field = ''message'' then Some (ev_message e)
      else if field = ''severity'' then Some (severity_value (ev_severity e))
      else if field = ''event_type'' then Some (event_type_value (ev_event_type e))
      else if field = ''fingerprint'' then Some (ev_fingerprint e)
      else if field = ''source_id'' then Some (ev_source_id e)
      else if field = ''timestamp'' then Some (isoformat (ev_timestamp e))
      else if field = ''ip_address'' then ev_ip_address e
      else map_of (ev_tags e) field)"

fun group_segments :: "string list \<Rightarrow> normalized_event \<Rightarrow> string list option" where
  "group_segments [] e = Some []"
| "group_segments (f # fs) e =
     (case resolve_field f e of
        None \<Rightarrow> None
      | Some v \<Rightarrow> map_option (\<lambda>segs. (f @ ''='' @ v) # segs) (group_segments fs e))"

definition build_group_key :: "compiled_rule \<Rightarrow> normalized_event \<Rightarrow> string option" where
  "build_group_key c e =
     map_option (str_join ''|'') (group_segments (rw_group_by (rd_window (cr_definition c))) e)"

fun first_missing_field :: "string list \<Rightarrow> normalized_event \<Rightarrow> string" where
  "first_missing_field [] e = ''unknown''"
| "first_missing_field (f # fs) e =
     (if resolve_field f e = None then f else first_missing_field fs e)"

definition find_missing_group_field :: "compiled_rule \<Rightarrow> normalized_event \<Rightarrow> string" where
  "find_missing_group_field c e = first_missing_field (rw_group_by (rd_window (cr_definition c))) e"

text \<open>Tags first, then the normalized fields, which replace a tag of the same name in place.\<close>

definition summary_context :: "normalized_event \<Rightarrow> (string, string option) dict" where
  "summary_context e = dict_merge (map (\<lambda>(k, v). (k, Some v)) (ev_tags e)) (normalized_fields e)"

definition render_summary :: "string \<Rightarrow> normalized_event \<Rightarrow> string" where
  "render_summary template e =
     fold (\<lambda>(k, v) res. case v of None \<Rightarrow> res | Some s \<Rightarrow> str_replace (''{'' @ k @ ''}'') s res)
       (summary_context e) template"

fun evaluate_rules :: "compiled_rule list \<Rightarrow> normalized_event \<Rightarrow> engine_decision result" where
  "evaluate_rules [] e = Inr (NoOp ''no matching rule'')"
| "evaluate_rules (c # cs) e =
     (if matches_rule c e then
        (case build_group_key c e of
           None \<Rightarrow> Inr (NoOp (''missing required group-by field: '' @ find_missing_group_field c e))
         | Some group_key \<Rightarrow>
             let d = cr_definition c
             in rbind (rule_match_validate
                  \<lparr>rm_rule_name = rd_name d, rm_priority = rd_priority d,
                   rm_matched_rules = [rd_name d], rm_group_key = group_key,
                   rm_window = rd_window d, rm_summary = render_summary (rd_output_summary d) e,
                   rm_actions = map ra_plugin (rd_actions d)\<rparr>) (\<lambda>m. Inr (Match m)))
      else evaluate_rules cs e)"

definition evaluate :: "compiled_rule list \<Rightarrow> normalized_event \<Rightarrow> engine_decision result" where
  "evaluate rules e =
     (if ev_event_type e = RECOVERY then Inr (NoOp ''recovery events bypass rule aggregation'')
      else evaluate_rules (rule_engine rules) e)"

section \<open>Loading a configuration\<close>

text \<open>A parsed configuration, of the shape its model class accepts.\<close>

record match_config =
  mcc_severities :: "string list"
  mcc_host_pattern :: string
  mcc_service_pattern :: "string option"
  mcc_tags :: tags

record rule_config =
  rc_name :: string
  rc_priority :: int
  rc_match :: match_config
  rc_window :: rule_window
  rc_output_summary :: string
  rc_actions :: "rule_action list"

definition rule_config_ok :: "rule_config \<Rightarrow> bool" where
  "rule_config_ok r \<longleftrightarrow>
     rc_name r \<noteq> [] \<and>
     list_all (\<lambda>s. s \<in> {''OK'', ''WARNING'', ''UNKNOWN'', ''CRITICAL''}) (mcc_severities (rc_match r)) \<and>
     mcc_host_pattern (rc_match r) \<noteq> [] \<and>
     1 \<le> rw_duration_seconds (rc_window r) \<and> rw_group_by (rc_window r) \<noteq> [] \<and>
     1 \<le> rw_trigger_threshold (rc_window r) \<and>
     rw_trigger_threshold (rc_window r) \<le> int max_window_fingerprints \<and>
     rc_output_summary r \<noteq> [] \<and>
     1 \<le> length (rc_actions r) \<and> length (rc_actions r) \<le> 20 \<and>
     list_all (\<lambda>a. ra_name a \<noteq> [] \<and> ra_plugin a \<noteq> []) (rc_actions r) \<and>
     card (set (map ra_plugin (rc_actions r))) = length (rc_actions r)"

definition known_normalized_fields :: "string list" where
  "known_normalized_fields =
     [''host'', ''service'', ''message'', ''severity'', ''event_type'', ''fingerprint'', ''source_id'',
      ''timestamp'', ''ip_address'']"

text \<open>The matches of \<open>\{[^}]*\}\<close> from the left, without their braces.\<close>

function brace_matches :: "string \<Rightarrow> string list" where
  "brace_matches s =
     (case dropWhile (\<lambda>c. c \<noteq> CHR ''{'') s of
        [] \<Rightarrow> []
      | _ # rest \<Rightarrow>
          if CHR ''}'' \<in> set rest
          then takeWhile (\<lambda>c. c \<noteq> CHR ''}'') rest # brace_matches (tl (dropWhile (\<lambda>c. c \<noteq> CHR ''}'') rest))
          else [])"
  by pat_completeness auto
termination
proof (relation "measure length", simp_all)
  fix s c rest assume "dropWhile (\<lambda>c. c \<noteq> CHR ''{'') s = c # rest"
  then have "length (c # rest) \<le> length s" by (metis length_dropWhile_le)
  moreover have "length (dropWhile (\<lambda>c. c \<noteq> CHR ''}'') rest) \<le> length rest" by (rule length_dropWhile_le)
  ultimately show "length (dropWhile (\<lambda>c. c \<noteq> CHR ''}'') rest) - Suc 0 < length s" by simp
qed

declare brace_matches.simps [simp del]

definition summary_var_char :: "char \<Rightarrow> bool" where
  "summary_var_char c \<longleftrightarrow>
     is_tag_char c \<or> CHR ''A'' \<le> c \<and> c \<le> CHR ''Z''"

definition summary_variable_ok :: "string \<Rightarrow> bool" where
  "summary_variable_ok inner \<longleftrightarrow>
     inner \<noteq> [] \<and> list_all summary_var_char inner \<and>
     (inner \<in> set known_normalized_fields \<or> tag_key_pattern inner)"

definition validate_summary_variables :: "string \<Rightarrow> unit result" where
  "validate_summary_variables summary =
     rall (\<lambda>inner. rguard (summary_variable_ok inner) ValueError) (brace_matches summary)"

definition compile_rule_config ::
  "(string \<Rightarrow> pattern option) \<Rightarrow> rule_config \<Rightarrow> compiled_rule result" where
  "compile_rule_config re_compile r =
     (case re_compile (mcc_host_pattern (rc_match r)) of
        None \<Rightarrow> Inl ValueError
      | Some host \<Rightarrow>
          rbind (case mcc_service_pattern (rc_match r) of
                   None \<Rightarrow> Inr None
                 | Some s \<Rightarrow> (case re_compile s of None \<Rightarrow> Inl ValueError | Some p \<Rightarrow> Inr (Some p))) (\<lambda>service.
          rbind (rmapM severity_of (mcc_severities (rc_match r))) (\<lambda>severities.
          let d = \<lparr>rd_name = rc_name r, rd_priority = rc_priority r,
                   rd_match = \<lparr>mc_severities = severities, mc_host_pattern = mcc_host_pattern (rc_match r),
                               mc_service_pattern = mcc_service_pattern (rc_match r),
                               mc_tags = mcc_tags (rc_match r)\<rparr>,
                   rd_window = rc_window r, rd_output_summary = rc_output_summary r,
                   rd_actions = rc_actions r\<rparr>
          in if rule_definition_ok d
             then Inr \<lparr>cr_definition = d, cr_host_pattern = host, cr_service_pattern = service\<rparr>
             else Inl ValidationError)))"

text \<open>The semantic checks of one rule, given the priorities and names seen before it.\<close>

definition check_rule_config ::
  "string list \<Rightarrow> string list \<Rightarrow> int list \<Rightarrow> string list \<Rightarrow> rule_config \<Rightarrow> unit result" where
  "check_rule_config known_actions known_plugins priorities names r =
     rbind (rguard (rc_priority r \<notin> set priorities) ValueError) (\<lambda>_.
     rbind (rguard (rc_name r \<notin> set names) ValueError) (\<lambda>_.
     rbind (rall (\<lambda>a. rguard (ra_name a \<in> set known_actions \<and>
                             (known_plugins = [] \<or> ra_plugin a \<in> set known_plugins)) ValueError)
                 (rc_actions r)) (\<lambda>_.
     validate_summary_variables (rc_output_summary r))))"

fun check_rule_configs ::
  "string list \<Rightarrow> string list \<Rightarrow> int list \<Rightarrow> string list \<Rightarrow> rule_config list \<Rightarrow> unit result" where
  "check_rule_configs ka kp priorities names [] = Inr ()"
| "check_rule_configs ka kp priorities names (r # rs) =
     rbind (check_rule_config ka kp priorities names r) (\<lambda>_.
     check_rule_configs ka kp (rc_priority r # priorities) (rc_name r # names) rs)"

definition load_rules_config ::
  "(string \<Rightarrow> pattern option) \<Rightarrow> (rule_config list \<Rightarrow> string) \<Rightarrow> string list \<Rightarrow> string list \<Rightarrow>
     rule_config list \<Rightarrow> (compiled_rule list \<times> string) result" where
  "load_rules_config re_compile config_hash known_actions known_plugins config =
     rbind (rguard (list_all rule_config_ok config) ValidationError) (\<lambda>_.
     rbind (check_rule_configs known_actions known_plugins [] [] config) (\<lambda>_.
     rbind (rmapM (compile_rule_config re_compile) config) (\<lambda>compiled.
     Inr (compiled, config_hash config))))"

end
