(* ===== verification/Manager.thy ===== *)
theory Manager
  imports Metrics Rules
begin

text \<open>
  \<open>app/processing/incident_manager.py\<close> and \<open>app/processing/lifecycle.py\<close>: the services that
  apply one accepted event to the incident table inside the caller's transaction, and the
  operator and worker services that own theirs.  A service returns the counters, which survive
  a rollback, beside the table and its result, which do not: \<open>(metrics, Inl e)\<close> leaves the
  caller with the table it had.
\<close>

type_synonym 'a service = "metrics \<times> (incident_table \<times> 'a) result"

section \<open>Problem aggregation\<close>

datatype dispatch_refusal = Below_threshold | Replay | Already_notified

fun no_dispatch_reason_value :: "dispatch_refusal \<Rightarrow> string" where
  "no_dispatch_reason_value Below_threshold = ''below_threshold''"
| "no_dispatch_reason_value Replay = ''replay''"
| "no_dispatch_reason_value Already_notified = ''already_notified''"

definition no_dispatch_reason :: "write_result \<Rightarrow> dispatch_refusal option" where
  "no_dispatch_reason w =
     (if wr_replay w then Some Replay
      else if wr_first_threshold_transition w then None
      else if wr_threshold_crossed w then Some Already_notified
      else Some Below_threshold)"

record threshold_decision =
  td_rule_name :: string
  td_group_key :: string
  td_window_start :: int
  td_window_end :: int
  td_threshold :: int
  td_counted_fingerprints :: "string list"
  td_counted :: int
  td_crossed :: bool
  td_reasons :: "string list"

definition threshold_decision_validate :: "threshold_decision \<Rightarrow> threshold_decision result" where
  "threshold_decision_validate d =
     (if bounded_string (td_rule_name d) \<and> bounded_string (td_group_key d) \<and> 1 \<le> td_threshold d \<and>
         list_all bounded_string (td_counted_fingerprints d) \<and> 0 \<le> td_counted d
      then Inr d else Inl ValidationError)"

record aggregation_result =
  ar_incident_id :: uuid
  ar_effect :: aggregation_effect
  ar_status :: incident_status
  ar_replay :: bool
  ar_inside_window :: bool
  ar_counted :: bool
  ar_counted_count :: int
  ar_threshold_decision :: threshold_decision
  ar_threshold_crossed :: bool
  ar_first_threshold_transition :: bool
  ar_dispatch_planned :: bool          \<comment> \<open>\<open>notification_intent\<close>\<close>
  ar_no_dispatch_reason :: "dispatch_refusal option"

definition manager_decision_context ::
  "string option \<Rightarrow> normalized_event \<Rightarrow> rule_match \<Rightarrow> write_result option \<Rightarrow> dispatch_refusal option \<Rightarrow>
     decision_context result" where
  "manager_decision_context config_hash e d wr reason =
     rbind (case wr of
              None \<Rightarrow> Inr []
            | Some w \<Rightarrow>
                rbind (decision_context_validate
                         (empty_context\<lparr>dc_results := Some (results_list (inc_decision_context (wr_incident w)))\<rparr>))
                  (\<lambda>c. Inr (results_list c))) (\<lambda>results.
     decision_context_validate
       \<lparr>dc_fingerprint = Some (ev_fingerprint e), dc_source_id = Some (ev_source_id e),
        dc_rule_name = Some (rm_rule_name d), dc_group_key = Some (rm_group_key d),
        dc_matched_rule_names = rm_matched_rules d, dc_enrichment_refs = [],
        dc_event_count = map_option (\<lambda>w. inc_event_count (wr_incident w)) wr,
        dc_config_hash = config_hash,
        dc_notes = [(''event.type'', event_type_value (ev_event_type e)),
                    (''event.severity'', severity_value (ev_severity e))] @
                   (case reason of None \<Rightarrow> [] | Some r \<Rightarrow> [(''dispatch.reason'', no_dispatch_reason_value r)]),
        dc_threshold_count = Some (case wr of None \<Rightarrow> rw_trigger_threshold (rm_window d)
                                             | Some w \<Rightarrow> wr_threshold_count w),
        dc_counted_count = map_option wr_counted_count wr,
        dc_threshold_crossed = map_option wr_threshold_crossed wr,
        dc_first_threshold_transition = map_option wr_first_threshold_transition wr,
        dc_replay = map_option wr_replay wr,
        dc_action_names = rm_actions d,
        dc_results = Some results\<rparr>)"

definition problem_input :: "normalized_event \<Rightarrow> rule_match \<Rightarrow> decision_context \<Rightarrow> upsert_input result" where
  "problem_input e d ctx =
     upsert_input_init
       \<lparr>up_rule_name = rm_rule_name d, up_group_key = rm_group_key d, up_severity = ev_severity e,
        up_event_time = ev_timestamp e, up_summary = rm_summary d, up_affected_hosts = [ev_host e],
        up_affected_services = (case ev_service e of None \<Rightarrow> [] | Some s \<Rightarrow> [s]),
        up_decision_context = Some ctx, up_fingerprint = Some (ev_fingerprint e),
        up_threshold_count = rw_trigger_threshold (rm_window d),
        up_window_seconds = rw_duration_seconds (rm_window d),
        up_max_window_fingerprints = int max_window_fingerprints\<rparr>"

definition threshold_decision_of ::
  "normalized_event \<Rightarrow> rule_match \<Rightarrow> write_result \<Rightarrow> threshold_decision result" where
  "threshold_decision_of e d wr =
     threshold_decision_validate
       \<lparr>td_rule_name = rm_rule_name d, td_group_key = rm_group_key d,
        td_window_start = wr_window_started_at wr, td_window_end = wr_window_ended_at wr,
        td_threshold = wr_threshold_count wr, td_counted_fingerprints = wr_counted_fingerprints wr,
        td_counted = wr_counted_count wr, td_crossed = wr_window_crossed wr,
        td_reasons =
          (if wr_replay wr
           then [''replay: fingerprint '' @ ev_fingerprint e @ '' already counted in window''] else []) @
          (if \<not> wr_inside_window wr then [''outside window: event timestamp not counted''] else [])\<rparr>"

text \<open>The part of \<open>apply_problem\<close> before the effect is counted.\<close>

definition write_problem ::
  "int \<Rightarrow> uuid \<Rightarrow> string option \<Rightarrow> normalized_event \<Rightarrow> rule_match \<Rightarrow> incident_table \<Rightarrow>
     (incident_table \<times> write_result \<times> threshold_decision) result" where
  "write_problem now new_id config_hash e d t =
     rbind (rguard (ev_event_type e = PROBLEM) ValueError) (\<lambda>_.
     rbind (manager_decision_context config_hash e d None None) (\<lambda>ctx.
     rbind (problem_input e d ctx) (\<lambda>i.
     rbind (record_problem_incident now new_id i t) (\<lambda>(t', wr).
     rbind (threshold_decision_of e d wr) (\<lambda>td.
     Inr (t', wr, td))))))"

definition finish_problem ::
  "string option \<Rightarrow> normalized_event \<Rightarrow> rule_match \<Rightarrow> incident_table \<Rightarrow> write_result \<Rightarrow> threshold_decision \<Rightarrow>
     (incident_table \<times> aggregation_result) result" where
  "finish_problem config_hash e d t wr td =
     (let reason = no_dispatch_reason wr
      in rbind (manager_decision_context config_hash e d (Some wr) reason) (\<lambda>ctx.
         Inr (update_where (\<lambda>r. inc_id r = inc_id (wr_incident wr)) (\<lambda>r. r\<lparr>inc_decision_context := ctx\<rparr>) t,
              \<lparr>ar_incident_id = inc_id (wr_incident wr), ar_effect = wr_effect wr,
               ar_status = inc_status (wr_incident wr), ar_replay = wr_replay wr,
               ar_inside_window = wr_inside_window wr, ar_counted = wr_counted wr,
               ar_counted_count = wr_counted_count wr, ar_threshold_decision = td,
               ar_threshold_crossed = wr_threshold_crossed wr,
               ar_first_threshold_transition = wr_first_threshold_transition wr,
               ar_dispatch_planned = (reason = None), ar_no_dispatch_reason = reason\<rparr>)))"

definition apply_problem ::
  "int \<Rightarrow> uuid \<Rightarrow> string option \<Rightarrow> normalized_event \<Rightarrow> rule_match \<Rightarrow> metrics \<Rightarrow> incident_table \<Rightarrow>
     aggregation_result service" where
  "apply_problem now new_id config_hash e d ms t =
     (case write_problem now new_id config_hash e d t of
        Inl err \<Rightarrow> (ms, Inl err)
      | Inr (t', wr, td) \<Rightarrow>
          (record_incident_effect (Aggregation_effect (wr_effect wr)) ms,
           finish_problem config_hash e d t' wr td))"

section \<open>Lifecycle results\<close>

record lifecycle_result =
  lr_incident_ids :: "uuid list"
  lr_effect :: lifecycle_effect
  lr_transitioned_to :: "incident_status option"
  lr_previous_host_count :: int
  lr_previous_service_count :: int
  lr_affected_object_removed :: bool

definition lr_incident_id :: "lifecycle_result \<Rightarrow> uuid option" where
  "lr_incident_id r = (case lr_incident_ids r of [] \<Rightarrow> None | i # _ \<Rightarrow> Some i)"

definition lr_resolved_count :: "lifecycle_result \<Rightarrow> int" where
  "lr_resolved_count r = (if lr_effect r = Resolved_effect then 1 else 0)"

definition empty_result :: lifecycle_result where
  "empty_result = \<lparr>lr_incident_ids = [], lr_effect = Noop, lr_transitioned_to = None,
     lr_previous_host_count = 0, lr_previous_service_count = 0, lr_affected_object_removed = False\<rparr>"

definition result_from_writes :: "lifecycle_write_result list \<Rightarrow> lifecycle_result" where
  "result_from_writes ws =
     (case ws of
        [] \<Rightarrow> empty_result
      | w # _ \<Rightarrow>
          let resolved = filter (\<lambda>w. lw_effect w = Resolved_effect) ws;
              shrunk = filter (\<lambda>w. lw_effect w = Affected_set_shrunk) ws;
              (effect, target) =
                (if resolved \<noteq> [] then (Resolved_effect, lw_transitioned_to (hd resolved))
                 else if shrunk \<noteq> [] then (Affected_set_shrunk, None)
                 else (lw_effect w, lw_transitioned_to w))
          in \<lparr>lr_incident_ids = map (\<lambda>w. inc_id (lw_incident w)) ws, lr_effect = effect,
              lr_transitioned_to = target,
              lr_previous_host_count = sum_list (map lw_previous_host_count ws),
              lr_previous_service_count = sum_list (map lw_previous_service_count ws),
              lr_affected_object_removed = list_ex lw_affected_object_removed ws\<rparr>)"

section \<open>Recovery\<close>

definition recovery_writes ::
  "int \<Rightarrow> normalized_event \<Rightarrow> incident_table \<Rightarrow> (incident_table \<times> lifecycle_write_result list) result" where
  "recovery_writes now e t =
     (case ev_service e of
        Some service \<Rightarrow>
          resolve_service_recovery now (ev_host e) service (ev_timestamp e) (ev_fingerprint e) (ev_source_id e) t
      | None \<Rightarrow>
          resolve_host_recovery now (ev_host e) (ev_timestamp e) (ev_fingerprint e) (ev_source_id e) t)"

definition resolve_for_event ::
  "int \<Rightarrow> normalized_event \<Rightarrow> metrics \<Rightarrow> incident_table \<Rightarrow> lifecycle_result service" where
  "resolve_for_event now e ms t =
     (if ev_event_type e \<noteq> RECOVERY then (ms, Inl ValueError)
      else case recovery_writes now e t of
        Inl err \<Rightarrow> (ms, Inl err)
      | Inr (t', ws) \<Rightarrow>
          (fold (\<lambda>w. record_incident_effect (Lifecycle_effect (lw_effect w))) ws ms,
           Inr (t', result_from_writes ws)))"

section \<open>Operator actions and expiration\<close>

text \<open>
  These services commit themselves; \<open>commit_ok\<close> tells whether the database accepts the commit,
  and the effect is counted after it.
\<close>

definition finish_action ::
  "bool \<Rightarrow> metrics \<Rightarrow> (incident_table \<times> lifecycle_write_result option) result \<Rightarrow> lifecycle_result service" where
  "finish_action commit_ok ms write =
     (case write of
        Inl err \<Rightarrow> (ms, Inl err)
      | Inr (t', res) \<Rightarrow>
          if \<not> commit_ok then (ms, Inl DatabaseError)
          else (case res of
                  None \<Rightarrow> (ms, Inr (t', empty_result))
                | Some w \<Rightarrow> (record_incident_effect (Lifecycle_effect (lw_effect w)) ms,
                            Inr (t', result_from_writes [w]))))"

definition acknowledge ::
  "bool \<Rightarrow> int \<Rightarrow> uuid \<Rightarrow> string \<Rightarrow> metrics \<Rightarrow> incident_table \<Rightarrow> lifecycle_result service" where
  "acknowledge commit_ok now ident operator ms t =
     finish_action commit_ok ms (ack_open_incident now ident operator t)"

definition manual_close ::
  "bool \<Rightarrow> int \<Rightarrow> uuid \<Rightarrow> string \<Rightarrow> string \<Rightarrow> metrics \<Rightarrow> incident_table \<Rightarrow> lifecycle_result service" where
  "manual_close commit_ok now ident operator reason ms t =
     finish_action commit_ok ms (close_open_incident now ident operator reason t)"

text \<open>The batch counts its effects before it commits.\<close>

definition expire_stale_batch :: "bool \<Rightarrow> int \<Rightarrow> int \<Rightarrow> metrics \<Rightarrow> incident_table \<Rightarrow> int service" where
  "expire_stale_batch commit_ok now limit ms t =
     (case expire_stale_incidents now limit t of
        Inl err \<Rightarrow> (ms, Inl err)
      | Inr (t', expired) \<Rightarrow>
          (fold (\<lambda>_. record_incident_effect (Lifecycle_effect Expired)) expired ms,
           if commit_ok then Inr (t', int (length expired)) else Inl DatabaseError))"

end
