(* ===== verification/LifecycleFacts.thy ===== *)
theory LifecycleFacts
  imports LifecycleRepo
begin

text \<open>
  Correctness of the lifecycle half of the repository.  The loops over candidate rows
  (host recovery, service recovery, expiration) share one contract, the locale \<open>row_loop\<close>:
  one iteration replaces its row and nothing else, so the whole loop is a map over the table.
\<close>

section \<open>One row is replaced\<close>

definition replace_row :: "incident \<Rightarrow> incident \<Rightarrow> incident_table \<Rightarrow> incident_table" where
  "replace_row x x' t = map (\<lambda>r. if r = x then x' else r) t"

lemma same_id_same_row:
  "incidents_unique t \<Longrightarrow> x \<in> set t \<Longrightarrow> y \<in> set t \<Longrightarrow> inc_id x = inc_id y \<Longrightarrow> x = y"
  by (auto simp: unique_open_def distinct_map dest: inj_onD)

lemma open_id_iff:
  assumes "incidents_unique t" "x \<in> set t" "inc_open x" "y \<in> set t"
  shows "inc_id y = inc_id x \<and> inc_open y \<longleftrightarrow> y = x"
  using same_id_same_row [OF assms(1,4,2)] assms(3) by blast

lemma update_where_replace:
  assumes "incidents_unique t" "x \<in> set t" "inc_open x"
  shows "update_where (\<lambda>r. inc_id r = inc_id x \<and> inc_open r) f t = replace_row x (f x) t"
  using open_id_iff [OF assms] by (simp add: update_where_def replace_row_def)

lemma update_returning_row:
  assumes "incidents_unique t" "x \<in> set t" "inc_open x"
  shows "update_returning (\<lambda>r. inc_id r = inc_id x \<and> inc_open r) f t = [f x]"
proof -
  have "filter (\<lambda>r. inc_id r = inc_id x \<and> inc_open r) t = filter (\<lambda>r. inc_id r = inc_id x) t"
    using same_id_same_row [OF assms(1,2)] assms(3) by (intro filter_cong) metis+
  moreover have "update_returning (\<lambda>r. inc_id r = inc_id x) f t = [f x]"
    using assms by (intro update_where_id) (simp_all add: unique_open_def)
  ultimately show ?thesis by (simp add: update_returning_def)
qed

lemma update_one_row:
  assumes "incidents_unique t" "x \<in> set t" "inc_open x"
  shows "update_one (\<lambda>r. inc_id r = inc_id x \<and> inc_open r) f t = Inr (replace_row x (f x) t, f x)"
  using assms by (simp add: update_one_def update_returning_row update_where_replace)

text \<open>A key or primary-key lookup of a row that is in the table.\<close>

lemma select_by_id:
  assumes "incidents_unique t" "select_where (\<lambda>r. inc_id r = ident) t = r # rs"
  shows "r \<in> set t" "inc_id r = ident"
proof -
  have "r \<in> set (select_where (\<lambda>r. inc_id r = ident) t)" using assms(2) by simp
  then show "r \<in> set t" "inc_id r = ident" by (simp_all add: select_where_def)
qed

lemma select_open_by_id:
  assumes "select_where (\<lambda>r. inc_id r = ident \<and> inc_open r) t = r # rs"
  shows "r \<in> set t" "inc_id r = ident" "inc_open r"
proof -
  have "r \<in> set (select_where (\<lambda>r. inc_id r = ident \<and> inc_open r) t)" using assms by simp
  then show "r \<in> set t" "inc_id r = ident" "inc_open r" by (simp_all add: select_where_def)
qed

lemma table_inv_map:
  assumes "table_inv t"
    and "\<And>r. r \<in> set t \<Longrightarrow> inc_id (g r) = inc_id r \<and> inc_key (g r) = inc_key r \<and>
      (inc_open (g r) \<longrightarrow> inc_open r) \<and> incident_inv (g r)"
  shows "table_inv (map g t)"
  using table_inv_update [OF assms(1), of "\<lambda>_. True" g] assms(2) by (simp add: update_where_def)

lemma table_inv_replace:
  assumes "table_inv t"
    and "inc_id x' = inc_id x" "inc_key x' = inc_key x" "inc_open x' \<Longrightarrow> inc_open x" "incident_inv x'"
  shows "table_inv (replace_row x x' t)"
  unfolding replace_row_def
  by (rule table_inv_map [OF assms(1)]) (use assms in \<open>auto simp: table_inv_row\<close>)

section \<open>The contract of the candidate loops\<close>

locale row_loop =
  fixes body :: "incident \<Rightarrow> incident_table \<Rightarrow> (incident_table \<times> 'b option) result"
    and step :: "incident \<Rightarrow> incident \<Rightarrow> 'b option \<Rightarrow> bool"
  assumes body_step: "incidents_unique t \<Longrightarrow> x \<in> set t \<Longrightarrow> inc_open x \<Longrightarrow>
      body x t = Inr (t', y) \<Longrightarrow> \<exists>x'. step x x' y \<and> t' = replace_row x x' t"
    and step_row: "step x x' y \<Longrightarrow>
      inc_id x' = inc_id x \<and> inc_key x' = inc_key x \<and> (inc_open x' \<longrightarrow> inc_open x)"
begin

lemma step_unique:
  assumes "incidents_unique t" "step x x' y"
  shows "incidents_unique (replace_row x x' t)"
proof -
  have "incidents_unique (update_where (\<lambda>r. r = x) (\<lambda>_. x') t)"
    using step_row [OF assms(2)] by (intro incidents.update_unique_open [OF assms(1)]) auto
  then show ?thesis by (simp add: update_where_def replace_row_def)
qed

lemma loop_map:
  assumes "rloop body xs t = Inr (t', ys)" "incidents_unique t" "distinct xs"
    and "set xs \<subseteq> {r \<in> set t. inc_open r}"
  shows "\<exists>h out. (\<forall>x \<in> set xs. step x (h x) (out x)) \<and>
    t' = map (\<lambda>r. if r \<in> set xs then h r else r) t \<and> ys = List.map_filter out xs"
  using assms
proof (induction xs arbitrary: t ys)
  case Nil
  then show ?case by (auto simp: map_filter_simps)
next
  case (Cons x xs)
  from Cons.prems(1) obtain t1 y ys' where
    b: "body x t = Inr (t1, y)" and loop: "rloop body xs t1 = Inr (t', ys')"
    and ys: "ys = (case y of None \<Rightarrow> ys' | Some z \<Rightarrow> z # ys')"
    unfolding rloop_Cons_eq_Inr by blast
  from Cons.prems have x: "x \<in> set t" "inc_open x" "x \<notin> set xs" by auto
  obtain x' where st: "step x x' y" and t1: "t1 = replace_row x x' t"
    using body_step [OF Cons.prems(2) x(1,2) b] by blast
  have uniq: "incidents_unique t1" using step_unique [OF Cons.prems(2) st] t1 by simp
  have sub: "set xs \<subseteq> {r \<in> set t1. inc_open r}"
    using Cons.prems(4) x(3) by (force simp: t1 replace_row_def)
  have x'_new: "x' \<notin> set xs"
  proof
    assume "x' \<in> set xs"
    then have "x' \<in> set t" using Cons.prems(4) by auto
    then have "x' = x" using same_id_same_row [OF Cons.prems(2) _ x(1)] step_row [OF st] by blast
    with \<open>x' \<in> set xs\<close> x(3) show False by simp
  qed
  from Cons.IH [OF loop uniq _ sub] Cons.prems(3) obtain h out where
    h: "\<forall>z \<in> set xs. step z (h z) (out z)" "t' = map (\<lambda>r. if r \<in> set xs then h r else r) t1"
      "ys' = List.map_filter out xs" by auto
  let ?h = "h(x := x')" and ?o = "out(x := y)"
  have "\<forall>z \<in> set (x # xs). step z (?h z) (?o z)" using h(1) st by auto
  moreover have "t' = map (\<lambda>r. if r \<in> set (x # xs) then ?h r else r) t"
    using x(3) x'_new by (auto simp: h(2) t1 replace_row_def)
  moreover have "List.map_filter ?o xs = List.map_filter out xs"
    using x(3) unfolding List.map_filter_def by (auto intro!: map_cong filter_cong)
  then have "ys = List.map_filter ?o (x # xs)"
    unfolding ys h(3) by (simp only: map_filter_simps fun_upd_same)
  ultimately show ?case by blast
qed

text \<open>The loop ends normally when every iteration does on the tables it can meet.\<close>

lemma loop_total:
  assumes "incidents_unique t" "distinct xs" "set xs \<subseteq> {r \<in> set t. inc_open r}"
    and "\<And>x t. x \<in> set xs \<Longrightarrow> incidents_unique t \<Longrightarrow> x \<in> set t \<Longrightarrow> \<exists>res. body x t = Inr res"
  shows "\<exists>res. rloop body xs t = Inr res"
  using assms
proof (induction xs arbitrary: t)
  case (Cons x xs)
  then have x: "x \<in> set t" "inc_open x" "x \<notin> set xs" by auto
  obtain t1 y where b: "body x t = Inr (t1, y)"
    using Cons.prems(4) [OF _ Cons.prems(1) x(1)] by fastforce
  obtain x' where st: "step x x' y" and t1: "t1 = replace_row x x' t"
    using body_step [OF Cons.prems(1) x(1,2) b] by blast
  have "incidents_unique t1" using step_unique [OF Cons.prems(1) st] t1 by simp
  moreover have "set xs \<subseteq> {r \<in> set t1. inc_open r}"
    using Cons.prems(3) x(3) by (force simp: t1 replace_row_def)
  ultimately obtain t2 ys where "rloop body xs t1 = Inr (t2, ys)"
    using Cons.IH [of t1] Cons.prems(2,4) by fastforce
  with b show ?case by simp
qed simp

lemma loop_inv:
  assumes "rloop body xs t = Inr (t', ys)" "table_inv t" "distinct xs"
    and "set xs \<subseteq> {r \<in> set t. inc_open r}"
    and keep: "\<And>x x' y. x \<in> set xs \<Longrightarrow> step x x' y \<Longrightarrow> incident_inv x \<Longrightarrow> incident_inv x'"
  shows "table_inv t'"
proof -
  obtain h out where h: "\<forall>x \<in> set xs. step x (h x) (out x)"
    "t' = map (\<lambda>r. if r \<in> set xs then h r else r) t"
    using loop_map [OF assms(1) table_inv_unique [OF assms(2)] assms(3,4)] by blast
  show ?thesis
    unfolding h(2)
  proof (rule table_inv_map [OF assms(2)])
    fix r assume "r \<in> set t"
    with table_inv_row [OF assms(2)] h(1) step_row keep
    show "inc_id (if r \<in> set xs then h r else r) = inc_id r \<and>
      inc_key (if r \<in> set xs then h r else r) = inc_key r \<and>
      (inc_open (if r \<in> set xs then h r else r) \<longrightarrow> inc_open r) \<and>
      incident_inv (if r \<in> set xs then h r else r)"
      by (cases "r \<in> set xs") (simp, metis, simp)
  qed
qed

end

section \<open>Recovery of one incident\<close>

lemma lifecycle_context_result:
  "lifecycle_context r a = Inr ctx \<Longrightarrow> decision_context_ok ctx"
  unfolding lifecycle_context_def Let_def by (rule decision_context_validate_ok)

text \<open>The row recovery leaves when it removes the objects \<open>P\<close>.\<close>

definition recovered_row ::
  "int \<Rightarrow> (incident_object \<Rightarrow> bool) \<Rightarrow> window_state \<Rightarrow> decision_context \<Rightarrow> incident \<Rightarrow> incident" where
  "recovered_row now P w ctx r =
     (let objs = filter (\<lambda>obj. \<not> P obj) (ws_active_objects w);
          w' = w\<lparr>ws_active_objects := sort_key object_sort_key objs\<rparr>
      in if objs = []
         then r\<lparr>inc_status := RESOLVED, inc_affected_hosts := [], inc_affected_services := [],
                inc_decision_context := ctx, inc_window_state := Some w',
                inc_resolved_at := Some now, inc_updated_at := now\<rparr>
         else r\<lparr>inc_affected_hosts := fst (affected_sets_from_objects objs),
                inc_affected_services := snd (affected_sets_from_objects objs),
                inc_decision_context := ctx, inc_window_state := Some w', inc_updated_at := now\<rparr>)"

definition recovery_result ::
  "(incident_object \<Rightarrow> bool) \<Rightarrow> window_state \<Rightarrow> incident \<Rightarrow> lifecycle_write_result" where
  "recovery_result P w r' =
     (let counts = active_object_counts (ws_active_objects w);
          resolved = list_all P (ws_active_objects w)
      in \<lparr>lw_incident = r', lw_effect = (if resolved then Resolved_effect else Affected_set_shrunk),
          lw_transitioned_to = (if resolved then Some RESOLVED else None),
          lw_previous_host_count = fst counts, lw_previous_service_count = snd counts,
          lw_affected_object_removed = True\<rparr>)"

definition recovery_step ::
  "int \<Rightarrow> (incident_object \<Rightarrow> bool) \<Rightarrow> incident \<Rightarrow> incident \<Rightarrow> lifecycle_write_result option \<Rightarrow> bool" where
  "recovery_step now P x x' y \<longleftrightarrow>
     (\<exists>w. inc_window_state x = Some w \<and> window_state_ok w \<and>
        (if list_ex P (ws_active_objects w)
         then \<exists>ctx. decision_context_ok ctx \<and> x' = recovered_row now P w ctx x \<and>
                    y = Some (recovery_result P w x')
         else x' = x \<and> y = None))"

lemma recovery_step_cases:
  assumes "recovery_step now P x x' y"
  obtains (kept) w where "inc_window_state x = Some w" "\<not> list_ex P (ws_active_objects w)" "x' = x" "y = None"
    | (recovered) w ctx where "inc_window_state x = Some w" "window_state_ok w" "list_ex P (ws_active_objects w)"
      "decision_context_ok ctx" "x' = recovered_row now P w ctx x" "y = Some (recovery_result P w x')"
proof -
  from assms obtain w where w: "inc_window_state x = Some w" "window_state_ok w"
    and step: "if list_ex P (ws_active_objects w)
       then \<exists>ctx. decision_context_ok ctx \<and> x' = recovered_row now P w ctx x \<and> y = Some (recovery_result P w x')
       else x' = x \<and> y = None"
    unfolding recovery_step_def by (elim exE conjE)
  show thesis
  proof (cases "list_ex P (ws_active_objects w)")
    case True
    then have "\<exists>ctx. decision_context_ok ctx \<and> x' = recovered_row now P w ctx x \<and> y = Some (recovery_result P w x')"
      using step by (simp only: if_True)
    then show thesis by (elim exE conjE) (rule recovered [OF w True])
  next
    case False
    with step kept [OF w(1)] show thesis by simp
  qed
qed

lemma affected_sets_Nil [simp]: "affected_sets_from_objects [] = ([], [])"
  by (simp add: affected_sets_from_objects_def sorted_set_def object_services_def map_filter_simps)

lemma filter_not_Nil_iff: "filter (\<lambda>x. \<not> P x) xs = [] \<longleftrightarrow> list_all P xs"
  by (auto simp: filter_empty_conv list_all_iff)

lemma apply_recovery_row:
  assumes "incidents_unique t" "x \<in> set t" "inc_open x"
    and "inc_window_state x = Some w" "window_state_ok w"
  shows "apply_recovery now x (active_object_counts (ws_active_objects w))
      (filter (\<lambda>obj. \<not> P obj) (ws_active_objects w)) ctx t =
    Inr (replace_row x (recovered_row now P w ctx x) t, Some (recovery_result P w (recovered_row now P w ctx x)))"
proof (cases "list_all P (ws_active_objects w)")
  case True
  then have "filter (\<lambda>obj. \<not> P obj) (ws_active_objects w) = []" by (simp add: filter_not_Nil_iff)
  with True assms show ?thesis
    by (simp add: apply_recovery_def resolve_to_resolved_def window_state_with_active_objects_def
        window_state_from_json_def window_state_validate_def validate_incident_transition_def
        update_one_row recovered_row_def recovery_result_def Let_def)
next
  case False
  then have "filter (\<lambda>obj. \<not> P obj) (ws_active_objects w) \<noteq> []" by (simp add: filter_not_Nil_iff)
  with False assms show ?thesis
    by (simp add: apply_recovery_def shrink_affected_sets_def window_state_with_active_objects_def
        window_state_from_json_def window_state_validate_def update_one_row recovered_row_def
        recovery_result_def split_beta Let_def)
qed

lemma recovery_step_row:
  "recovery_step now P x x' y \<Longrightarrow>
     inc_id x' = inc_id x \<and> inc_key x' = inc_key x \<and> (inc_open x' \<longrightarrow> inc_open x)"
  by (erule recovery_step_cases) (simp_all add: recovered_row_def Let_def)

lemma length_filter_eq_iff: "length (filter P xs) = length xs \<longleftrightarrow> list_all P xs"
  by (induction xs) (auto simp: le_imp_less_Suc less_imp_neq)

lemma not_list_all_not: "\<not> list_all (\<lambda>x. \<not> P x) xs \<longleftrightarrow> list_ex P xs"
  by (auto simp: list_all_iff list_ex_iff)

lemma replace_row_self [simp]: "replace_row x x t = t"
  by (auto simp: replace_row_def intro: map_idI)

interpretation host_recovery: row_loop "recover_host now host recovery_time fp source"
  "recovery_step now (\<lambda>obj. io_host obj = host)" for now host recovery_time fp source
proof
  fix t x t' y
  assume *: "incidents_unique t" "x \<in> set t" "inc_open x"
    "recover_host now host recovery_time fp source x t = Inr (t', y)"
  then obtain w where w: "inc_window_state x = Some w" "window_state_ok w"
    by (auto simp: recover_host_def result_simps)
  show "\<exists>x'. recovery_step now (\<lambda>obj. io_host obj = host) x x' y \<and> t' = replace_row x x' t"
  proof (cases "list_ex (\<lambda>obj. io_host obj = host) (ws_active_objects w)")
    case False
    with *(4) w show ?thesis
      by (auto simp: recover_host_def recovery_step_def window_state_from_json_def
          window_state_validate_def length_filter_eq_iff not_list_all_not [symmetric])
  next
    case True
    then have "length (filter (\<lambda>obj. io_host obj \<noteq> host) (ws_active_objects w)) \<noteq> length (ws_active_objects w)"
      by (simp add: length_filter_eq_iff not_list_all_not)
    with *(4) w obtain ctx a where "lifecycle_context x a = Inr ctx"
      "apply_recovery now x (active_object_counts (ws_active_objects w))
        (filter (\<lambda>obj. io_host obj \<noteq> host) (ws_active_objects w)) ctx t = Inr (t', y)"
      by (auto simp: recover_host_def result_simps Let_def)
    then have "decision_context_ok ctx" "y = Some (recovery_result (\<lambda>obj. io_host obj = host) w
          (recovered_row now (\<lambda>obj. io_host obj = host) w ctx x))"
      "t' = replace_row x (recovered_row now (\<lambda>obj. io_host obj = host) w ctx x) t"
      using apply_recovery_row [OF *(1-3) w] by (auto dest: lifecycle_context_result)
    with True w show ?thesis
      unfolding recovery_step_def by auto
  qed
qed (rule recovery_step_row)

interpretation service_recovery: row_loop "recover_service now host service recovery_time fp source"
  "recovery_step now (\<lambda>obj. obj = IncidentObject host (Some service))"
  for now host service recovery_time fp source
proof
  fix t x t' y
  assume *: "incidents_unique t" "x \<in> set t" "inc_open x"
    "recover_service now host service recovery_time fp source x t = Inr (t', y)"
  let ?obj = "IncidentObject host (Some service)"
  from *(4) obtain w where w: "inc_window_state x = Some w" "window_state_ok w"
    by (auto simp: recover_service_def result_simps)
  show "\<exists>x'. recovery_step now (\<lambda>obj. obj = ?obj) x x' y \<and> t' = replace_row x x' t"
  proof (cases "?obj \<in> set (ws_active_objects w)")
    case False
    with *(4) w show ?thesis
      by (auto simp: recover_service_def recovery_step_def window_state_from_json_def
          window_state_validate_def list_ex_iff)
  next
    case True
    with *(4) w obtain ctx a where "lifecycle_context x a = Inr ctx"
      "apply_recovery now x (active_object_counts (ws_active_objects w))
        (filter (\<lambda>obj. obj \<noteq> ?obj) (ws_active_objects w)) ctx t = Inr (t', y)"
      by (auto simp: recover_service_def result_simps Let_def)
    then have "decision_context_ok ctx" "y = Some (recovery_result (\<lambda>obj. obj = ?obj) w
          (recovered_row now (\<lambda>obj. obj = ?obj) w ctx x))"
      "t' = replace_row x (recovered_row now (\<lambda>obj. obj = ?obj) w ctx x) t"
      using apply_recovery_row [OF *(1-3) w] by (auto dest: lifecycle_context_result)
    with True w show ?thesis
      unfolding recovery_step_def by (auto simp: list_ex_iff)
  qed
qed (rule recovery_step_row)

lemma sorted_set_cong: "set xs = set ys \<Longrightarrow> sorted_set xs = sorted_set ys"
  by (rule sorted_distinct_set_unique) simp_all

lemma set_object_services: "set (object_services objs) = {s. \<exists>obj \<in> set objs. io_service obj = Some s}"
  by (force simp: object_services_def List.map_filter_def)

lemma affected_sets_cong:
  assumes "set xs = set ys"
  shows "affected_sets_from_objects xs = affected_sets_from_objects ys"
  unfolding affected_sets_from_objects_def
  using assms sorted_set_cong [of "map io_host xs" "map io_host ys"]
    sorted_set_cong [of "object_services xs" "object_services ys"]
  by (simp add: set_object_services)

lemma window_inv_active_objects:
  assumes "window_inv w" "set objs \<subseteq> set (ws_active_objects w)" "distinct objs"
  shows "window_inv (w\<lparr>ws_active_objects := objs\<rparr>)"
  using assms by (auto simp: window_inv_def window_state_ok_def list_all_iff)

lemma recovery_step_inv:
  assumes "recovery_step now P x x' y" "incident_inv x" "inc_open x"
  shows "incident_inv x'"
proof -
  from assms(1) obtain w where w: "inc_window_state x = Some w" "window_state_ok w"
    and st: "if list_ex P (ws_active_objects w)
         then \<exists>ctx. decision_context_ok ctx \<and> x' = recovered_row now P w ctx x \<and>
                    y = Some (recovery_result P w x')
         else x' = x \<and> y = None" by (auto simp: recovery_step_def)
  let ?objs = "filter (\<lambda>obj. \<not> P obj) (ws_active_objects w)"
  have inv: "window_inv w" using assms(2) w by (auto elim: incident_invD)
  then have w': "window_inv (w\<lparr>ws_active_objects := sort_key object_sort_key ?objs\<rparr>)"
    by (intro window_inv_active_objects) (auto simp: window_inv_def)
  have aff: "affected_sets_from_objects (sort_key object_sort_key ?objs) = affected_sets_from_objects ?objs"
    by (rule affected_sets_cong) simp
  show ?thesis
  proof (cases "list_ex P (ws_active_objects w)")
    case True
    with st obtain ctx where ctx: "decision_context_ok ctx" "x' = recovered_row now P w ctx x" by auto
    show ?thesis
    proof (cases "?objs = []")
      case True
      then show ?thesis
        using assms(2,3) ctx w' w(1) by (simp add: incident_inv_def recovered_row_def)
    next
      case False
      then have "sort_key object_sort_key ?objs \<noteq> []" by (metis set_empty set_sort)
      with False show ?thesis
        using assms(2,3) ctx w' w(1) aff by (simp add: incident_inv_def recovered_row_def Let_def)
    qed
  qed (use st assms(2) in simp)
qed

section \<open>The other lifecycle writes\<close>

definition acknowledged_row :: "int \<Rightarrow> string \<Rightarrow> decision_context \<Rightarrow> incident \<Rightarrow> incident" where
  "acknowledged_row now operator ctx r =
     r\<lparr>inc_acknowledged_at := (case inc_acknowledged_at r of None \<Rightarrow> Some now | Some a \<Rightarrow> Some a),
       inc_acknowledged_by := Some operator, inc_decision_context := ctx, inc_updated_at := now\<rparr>"

definition expire_step :: "int \<Rightarrow> incident \<Rightarrow> incident \<Rightarrow> incident option \<Rightarrow> bool" where
  "expire_step now x x' y \<longleftrightarrow>
     y = Some x' \<and> (\<exists>ctx. decision_context_ok ctx \<and> x' = close_row now CLOSED ctx x)"

interpretation expiration: row_loop "expire_incident now" "expire_step now" for now
proof
  fix t x t' y
  assume *: "incidents_unique t" "x \<in> set t" "inc_open x" "expire_incident now x t = Inr (t', y)"
  from *(4) obtain w a ctx where "lifecycle_context x a = Inr ctx"
    "(case update_returning (\<lambda>r. inc_id r = inc_id x \<and> inc_open r) (close_row now CLOSED ctx) t of
             [] \<Rightarrow> Inr (t, None)
           | [updated] \<Rightarrow>
               Inr (update_where (\<lambda>r. inc_id r = inc_id x \<and> inc_open r) (close_row now CLOSED ctx) t, Some updated)
           | _ \<Rightarrow> Inl DatabaseError) = Inr (t', y)"
    by (auto simp: expire_incident_def result_simps Let_def)
  then show "\<exists>x'. expire_step now x x' y \<and> t' = replace_row x x' t"
    using *(1-3) by (auto simp: update_returning_row update_where_replace expire_step_def
        dest: lifecycle_context_result)
qed (auto simp: expire_step_def close_row_def)

lemma acknowledged_row_inv:
  "incident_inv r \<Longrightarrow> decision_context_ok ctx \<Longrightarrow> incident_inv (acknowledged_row now op ctx r)"
  by (cases "inc_window_state r") (auto simp: incident_inv_def acknowledged_row_def split: option.split)

lemma close_row_inv:
  "incident_inv r \<Longrightarrow> inc_open r \<Longrightarrow> decision_context_ok ctx \<Longrightarrow> incident_inv (close_row now CLOSED ctx r)"
  by (cases "inc_window_state r") (auto simp: incident_inv_def close_row_def)

text \<open>What the two operator actions do, by case.\<close>

lemma ack_open_incident_cases:
  assumes "ack_open_incident now ident operator t = Inr (t', res)" "incidents_unique t"
  obtains
    (acked) r ctx where "r \<in> set t" "inc_id r = ident" "inc_open r" "decision_context_ok ctx"
      "t' = replace_row r (acknowledged_row now operator ctx r) t"
      "map_option lw_incident res = Some (acknowledged_row now operator ctx r)"
      "map_option lw_effect res = Some Acknowledged"
  | (noop) r where "r \<in> set t" "inc_id r = ident" "\<not> inc_open r" "t' = t"
      "map_option lw_incident res = Some r" "map_option lw_effect res = Some Noop"
  | (missing) "ident \<notin> inc_id ` set t" "t' = t" "res = None"
proof (cases "select_where (\<lambda>r. inc_id r = ident \<and> inc_open r) t")
  case (Cons r rs)
  note r = select_open_by_id [OF Cons]
  from assms(1) Cons r obtain ctx a where ctx: "lifecycle_context r a = Inr ctx"
    and upd: "(\<exists>c. rbind (update_one (\<lambda>x. inc_id x = ident \<and> inc_open x)
               (acknowledged_row now operator ctx) t) (\<lambda>(t', updated).
             Inr (t', Some \<lparr>lw_incident = updated, lw_effect = Acknowledged,
                            lw_transitioned_to = None,
                            lw_previous_host_count = fst c, lw_previous_service_count = snd c,
                            lw_affected_object_removed = False\<rparr>)) = Inr (t', res))"
    unfolding acknowledged_row_def
    by (auto simp: ack_open_incident_def rbind_eq_Inr [of "window_state_from_json _"]
        rbind_eq_Inr [of "lifecycle_context _ _"] Let_def simp del: rbind_Inr)
  from upd update_one_row [OF assms(2) r(1,3)] r(2) show ?thesis
    by (intro that(1) [OF r lifecycle_context_result [OF ctx]]) auto
next
  case Nil
  show ?thesis
  proof (cases "select_where (\<lambda>r. inc_id r = ident) t")
    case (Cons r rs)
    note r = select_by_id [OF assms(2) Cons]
    have "\<not> inc_open r" using Nil r by (auto simp: select_where_def filter_empty_conv)
    with assms(1) Nil Cons show ?thesis
      by (intro that(2) [OF r]) (auto simp: ack_open_incident_def noop_result_def result_simps Let_def)
  next
    case empty: Nil
    with assms(1) Nil show ?thesis
      by (intro that(3)) (auto simp: ack_open_incident_def select_where_def filter_empty_conv)
  qed
qed

lemma close_open_incident_cases:
  assumes "close_open_incident now ident operator reason t = Inr (t', res)" "incidents_unique t"
  obtains
    (closed) r ctx where "r \<in> set t" "inc_id r = ident" "inc_open r" "decision_context_ok ctx"
      "t' = replace_row r (close_row now CLOSED ctx r) t"
      "map_option lw_incident res = Some (close_row now CLOSED ctx r)"
      "map_option lw_effect res = Some Closed_effect"
  | (noop) r where "r \<in> set t" "inc_id r = ident" "\<not> inc_open r" "t' = t"
      "map_option lw_incident res = Some r" "map_option lw_effect res = Some Noop"
  | (missing) "ident \<notin> inc_id ` set t" "t' = t" "res = None"
proof (cases "select_where (\<lambda>r. inc_id r = ident \<and> inc_open r) t")
  case (Cons r rs)
  note r = select_open_by_id [OF Cons]
  from assms(1) Cons r obtain ctx a where ctx: "lifecycle_context r a = Inr ctx"
    and upd: "(\<exists>c. rbind (update_one (\<lambda>x. inc_id x = ident \<and> inc_open x)
               (close_row now CLOSED ctx) t) (\<lambda>(t', updated).
             Inr (t', Some \<lparr>lw_incident = updated, lw_effect = Closed_effect,
                            lw_transitioned_to = Some CLOSED,
                            lw_previous_host_count = fst c, lw_previous_service_count = snd c,
                            lw_affected_object_removed = False\<rparr>)) = Inr (t', res))"
    by (auto simp: close_open_incident_def rbind_eq_Inr [of "window_state_from_json _"]
        validate_incident_transition_def
        rbind_eq_Inr [of "lifecycle_context _ _"] Let_def)
  from upd update_one_row [OF assms(2) r(1,3)] r(2) show ?thesis
    by (intro that(1) [OF r lifecycle_context_result [OF ctx]]) auto
next
  case Nil
  show ?thesis
  proof (cases "select_where (\<lambda>r. inc_id r = ident) t")
    case (Cons r rs)
    note r = select_by_id [OF assms(2) Cons]
    have "\<not> inc_open r" using Nil r by (auto simp: select_where_def filter_empty_conv)
    with assms(1) Nil Cons show ?thesis
      by (intro that(2) [OF r]) (auto simp: close_open_incident_def noop_result_def result_simps Let_def)
  next
    case empty: Nil
    with assms(1) Nil show ?thesis
      by (intro that(3)) (auto simp: close_open_incident_def select_where_def filter_empty_conv)
  qed
qed

section \<open>Properties\<close>

text \<open>
  The abstract incident: its identifier, its status and the set of monitored objects that are
  still in trouble.  Recovery of the objects \<open>P\<close> removes them from every open incident and
  resolves an incident when it removes its last object.
\<close>

definition objects_of :: "incident \<Rightarrow> incident_object set" where
  "objects_of r = (case inc_window_state r of None \<Rightarrow> {} | Some w \<Rightarrow> set (ws_active_objects w))"

type_synonym abstract_incident = "uuid \<times> incident_status \<times> incident_object set"

definition abs_incident :: "incident \<Rightarrow> abstract_incident" where
  "abs_incident r = (inc_id r, inc_status r, objects_of r)"

definition abs_recover :: "incident_object set \<Rightarrow> abstract_incident \<Rightarrow> abstract_incident" where
  "abs_recover gone = (\<lambda>(ident, status, objs).
     if status = OPEN \<and> objs \<inter> gone \<noteq> {}
     then (ident, if objs \<subseteq> gone then RESOLVED else OPEN, objs - gone)
     else (ident, status, objs))"

lemma abs_recovered_row:
  "abs_incident (recovered_row now P w ctx r) =
     (inc_id r, if list_all P (ws_active_objects w) then RESOLVED else inc_status r,
      {obj \<in> set (ws_active_objects w). \<not> P obj})"
  by (auto simp: abs_incident_def objects_of_def recovered_row_def Let_def filter_not_Nil_iff)

lemma recovery_step_abs:
  assumes "recovery_step now P x x' y" "inc_open x"
  shows "abs_incident x' = abs_recover (Collect P) (abs_incident x)"
proof -
  from assms(1) obtain w where w: "inc_window_state x = Some w"
    and st: "if list_ex P (ws_active_objects w)
         then \<exists>ctx. decision_context_ok ctx \<and> x' = recovered_row now P w ctx x \<and>
                    y = Some (recovery_result P w x')
         else x' = x \<and> y = None"
    unfolding recovery_step_def by blast
  have x: "abs_incident x = (inc_id x, OPEN, set (ws_active_objects w))"
    using w assms(2) by (simp add: abs_incident_def objects_of_def)
  show ?thesis
  proof (cases "list_ex P (ws_active_objects w)")
    case True
    have "set (ws_active_objects w) \<inter> Collect P \<noteq> {}" using True by (auto simp: list_ex_iff)
    moreover have "set (ws_active_objects w) \<subseteq> Collect P \<longleftrightarrow> list_all P (ws_active_objects w)"
      by (auto simp: list_all_iff)
    moreover have "set (ws_active_objects w) - Collect P = {obj \<in> set (ws_active_objects w). \<not> P obj}"
      by auto
    moreover from True st obtain ctx where "x' = recovered_row now P w ctx x" by auto
    ultimately show ?thesis
      using assms(2) by (simp add: abs_recovered_row x abs_recover_def)
  next
    case False
    with st show ?thesis by (auto simp: x abs_recover_def list_ex_iff)
  qed
qed

lemma distinct_candidates: "incidents_unique t \<Longrightarrow> distinct (select_where P t)"
  by (auto simp: unique_open_def select_where_def distinct_map)

lemma active_objects_contain_iff: "active_objects_contain P r \<longleftrightarrow> (\<exists>obj \<in> objects_of r. P obj)"
  by (auto simp: active_objects_contain_def objects_of_def list_ex_iff split: option.split)

lemma abs_recover_other:
  "\<not> (inc_open r \<and> active_objects_contain P r) \<Longrightarrow>
     abs_recover (Collect P) (abs_incident r) = abs_incident r"
  by (auto simp: abs_recover_def abs_incident_def active_objects_contain_iff)

lemma recovery_step_out:
  assumes "recovery_step now P x x' y" "active_objects_contain P x"
  shows "\<exists>res. y = Some res \<and> lw_incident res = x' \<and> inc_id x' = inc_id x"
  using assms(1)
proof (cases rule: recovery_step_cases)
  case (kept w)
  with assms(2) show ?thesis by (simp add: active_objects_contain_def)
next
  case (recovered w ctx)
  then show ?thesis using recovery_step_row [OF assms(1)] by (simp add: recovery_result_def Let_def)
qed

lemma map_filter_all_Some:
  "(\<And>x. x \<in> set xs \<Longrightarrow> \<exists>y. f x = Some y) \<Longrightarrow> List.map_filter f xs = map (the \<circ> f) xs"
  by (induction xs) (fastforce simp: map_filter_simps)+

text \<open>Both recoveries, once their loop is known to be a map over the candidates.\<close>

lemma recovery_loop_spec:
  assumes h: "\<forall>x \<in> set xs. recovery_step now P x (h x) (out x)"
    and xs: "xs = select_where (\<lambda>r. inc_open r \<and> active_objects_contain P r) t"
    and t': "t' = map (\<lambda>r. if r \<in> set xs then h r else r) t"
    and results: "results = List.map_filter out xs"
  shows "map abs_incident t' = map (abs_recover (Collect P) \<circ> abs_incident) t"
    and "map (inc_id \<circ> lw_incident) results =
      map inc_id (filter (\<lambda>r. inc_open r \<and> (\<exists>obj \<in> objects_of r. P obj)) t)"
    and "set (map lw_incident results) \<subseteq> set t'"
proof -
  have sel: "r \<in> set xs \<longleftrightarrow> r \<in> set t \<and> inc_open r \<and> active_objects_contain P r" for r
    by (auto simp: xs select_where_def)
  show "map abs_incident t' = map (abs_recover (Collect P) \<circ> abs_incident) t"
    using h recovery_step_abs abs_recover_other by (fastforce simp: t' sel)
  have out: "\<exists>res. out x = Some res \<and> lw_incident res = h x \<and> inc_id (h x) = inc_id x" if "x \<in> set xs" for x
    using that h sel recovery_step_out by blast
  then have "results = map (the \<circ> out) xs"
    unfolding results by (intro map_filter_all_Some) blast
  then show "map (inc_id \<circ> lw_incident) results =
      map inc_id (filter (\<lambda>r. inc_open r \<and> (\<exists>obj \<in> objects_of r. P obj)) t)"
    and "set (map lw_incident results) \<subseteq> set t'"
    using out by (force simp: xs select_where_def active_objects_contain_iff, force simp: t' sel)
qed

text \<open>
  C29: host recovery.  On the abstract incidents it removes every object of the host from every
  open incident, resolves exactly the open incidents left with no object, and leaves all other
  rows of the table alone; it reports one result per changed incident, in table order, and it
  keeps the invariant of the table.
\<close>

theorem host_recovery_refines:
  assumes "resolve_host_recovery now host recovery_time fp source t = Inr (t', results)" "table_inv t"
  shows "table_inv t' \<and>
    map abs_incident t' = map (abs_recover {obj. io_host obj = host} \<circ> abs_incident) t \<and>
    map (inc_id \<circ> lw_incident) results =
      map inc_id (filter (\<lambda>r. inc_open r \<and> (\<exists>obj \<in> objects_of r. io_host obj = host)) t) \<and>
    set (map lw_incident results) \<subseteq> set t'"
proof -
  let ?xs = "select_where (\<lambda>r. inc_open r \<and> active_objects_contain (\<lambda>obj. io_host obj = host) r) t"
  note loop = assms(1) [unfolded resolve_host_recovery_def]
  note uniq = table_inv_unique [OF assms(2)]
  have xs: "distinct ?xs" "set ?xs \<subseteq> {r \<in> set t. inc_open r}"
    using distinct_candidates [OF uniq] by (auto simp: select_where_def)
  have "table_inv t'"
    by (rule host_recovery.loop_inv [OF loop assms(2) xs])
      (use xs(2) recovery_step_inv in \<open>auto simp: subset_iff\<close>)
  moreover obtain h out where "\<forall>x \<in> set ?xs. recovery_step now (\<lambda>obj. io_host obj = host) x (h x) (out x)"
    "t' = map (\<lambda>r. if r \<in> set ?xs then h r else r) t" "results = List.map_filter out ?xs"
    using host_recovery.loop_map [OF loop uniq xs] by blast
  note recovery_loop_spec [OF this(1) refl this(2,3)]
  ultimately show ?thesis by simp
qed

text \<open>
  Service recovery is the same refinement for the one object it names: the service on the
  host leaves every open incident that lists it, other services and the bare host stay.
\<close>

lemma service_recovery_refines:
  assumes "resolve_service_recovery now host service recovery_time fp source t = Inr (t', results)"
    and "table_inv t"
  shows "table_inv t' \<and>
    map abs_incident t' = map (abs_recover {IncidentObject host (Some service)} \<circ> abs_incident) t \<and>
    map (inc_id \<circ> lw_incident) results =
      map inc_id (filter (\<lambda>r. inc_open r \<and> IncidentObject host (Some service) \<in> objects_of r) t) \<and>
    set (map lw_incident results) \<subseteq> set t'"
proof -
  let ?obj = "IncidentObject host (Some service)"
  let ?xs = "select_where (\<lambda>r. inc_open r \<and> active_objects_contain (\<lambda>obj. obj = ?obj) r) t"
  have "(\<lambda>obj. io_host obj = host \<and> io_service obj = Some service) = (\<lambda>obj. obj = ?obj)"
    by (auto simp: fun_eq_iff incident_object.expand)
  with assms(1) have loop: "rloop (recover_service now host service recovery_time fp source) ?xs t = Inr (t', results)"
    by (simp add: resolve_service_recovery_def)
  note uniq = table_inv_unique [OF assms(2)]
  have xs: "distinct ?xs" "set ?xs \<subseteq> {r \<in> set t. inc_open r}"
    using distinct_candidates [OF uniq] by (auto simp: select_where_def)
  have "table_inv t'"
    by (rule service_recovery.loop_inv [OF loop assms(2) xs])
      (use xs(2) recovery_step_inv in \<open>auto simp: subset_iff\<close>)
  moreover obtain h out where "\<forall>x \<in> set ?xs. recovery_step now (\<lambda>obj. obj = ?obj) x (h x) (out x)"
    "t' = map (\<lambda>r. if r \<in> set ?xs then h r else r) t" "results = List.map_filter out ?xs"
    using service_recovery.loop_map [OF loop uniq xs] by blast
  from recovery_loop_spec [OF this(1) refl this(2,3)]
  have "map abs_incident t' = map (abs_recover {?obj} \<circ> abs_incident) t"
    "map (inc_id \<circ> lw_incident) results = map inc_id (filter (\<lambda>r. inc_open r \<and> ?obj \<in> objects_of r) t)"
    "set (map lw_incident results) \<subseteq> set t'" by simp_all
  ultimately show ?thesis by blast
qed

end
