(* ===== verification/LifecycleProps.thy ===== *)
theory LifecycleProps
  imports LifecycleFacts
begin

text \<open>
  Properties of the operator actions and of expiration, and when they succeed: the notes the
  lifecycle writes are accepted unless a caller-supplied text carries a forbidden fragment.
\<close>

section \<open>Texts without forbidden fragments\<close>

text \<open>Every forbidden fragment contains one of the letters a, e and o.\<close>

lemma no_forbidden_without_vowel:
  assumes "CHR ''a'' \<notin> set (str_lower s)" "CHR ''e'' \<notin> set (str_lower s)" "CHR ''o'' \<notin> set (str_lower s)"
  shows "\<not> has_forbidden_fragment s"
proof
  assume "has_forbidden_fragment s"
  then obtain f where f: "f \<in> set forbidden_note_fragments" "sublist f (str_lower s)"
    by (auto simp: has_forbidden_fragment_def list_ex_iff)
  then have "set f \<subseteq> set (str_lower s)" by (metis set_mono_sublist)
  with f(1) assms show False by (auto simp: forbidden_note_fragments_def)
qed

definition plain_text :: "string \<Rightarrow> bool" where
  "plain_text s \<longleftrightarrow> set s \<subseteq> set ''0123456789-:.+T''"

lemma plain_text_append [simp]: "plain_text (s @ t) \<longleftrightarrow> plain_text s \<and> plain_text t"
  by (auto simp: plain_text_def)

lemma plain_text_Nil [simp]: "plain_text []"
  by (simp add: plain_text_def)

lemma lower_plain: "c \<in> set ''0123456789-:.+T'' \<Longrightarrow> lower_char c \<in> set ''0123456789-:.+t''"
  by (elim set_ConsD [elim_format] disjE)
    (auto simp: lower_char_def char_code_def char_of_def bit_iff_odd)

lemma plain_text_allowed: "plain_text s \<Longrightarrow> \<not> has_forbidden_fragment s"
proof (rule no_forbidden_without_vowel)
  assume "plain_text s"
  then have "set (str_lower s) \<subseteq> set ''0123456789-:.+t''"
    using lower_plain by (auto simp: plain_text_def str_lower_def)
  then show "CHR ''a'' \<notin> set (str_lower s)" "CHR ''e'' \<notin> set (str_lower s)" "CHR ''o'' \<notin> set (str_lower s)"
    by auto
qed

lemma digit_char_plain: "n < 10 \<Longrightarrow> digit_char n \<in> set ''0123456789''"
  unfolding digit_char_def by (rule nth_mem) simp

lemma plain_int_digits [simp]: "plain_text (int_digits n)"
proof (induction n rule: int_digits.induct)
  case (1 n)
  have "plain_text [digit_char k]" if "k < 10" for k
    using digit_char_plain [OF that] by (auto simp: plain_text_def)
  with 1 show ?case by (subst int_digits.simps) auto
qed

lemma plain_int_str [simp]: "plain_text (int_str n)"
  by (simp add: int_str_def plain_text_def [of "_ # _"] plain_text_def [symmetric])
    (use plain_int_digits in \<open>simp add: plain_text_def\<close>)

lemma plain_pad_int [simp]: "plain_text (pad_int w n)"
  by (simp add: pad_int_def Let_def) (auto simp: plain_text_def)

lemma plain_text_Cons: "plain_text (c # s) \<longleftrightarrow> c \<in> set ''0123456789-:.+T'' \<and> plain_text s"
  by (auto simp: plain_text_def)

lemma plain_clock_str [simp]: "plain_text (clock_str us)"
  by (simp add: clock_str_def Let_def plain_text_Cons)

lemma plain_offset_str [simp]: "plain_text (offset_str off)"
  by (simp add: offset_str_def Let_def plain_text_Cons)

lemma plain_isoformat [simp]: "plain_text (isoformat d)"
  by (simp add: isoformat_def Let_def plain_text_Cons split_beta split: option.split)

lemma forbidden_take: "has_forbidden_fragment (take n s) \<Longrightarrow> has_forbidden_fragment s"
proof -
  have "sublist (str_lower (take n s)) (str_lower s)"
    by (metis str_lower_append append_take_drop_id sublist_append_rightI)
  then show "has_forbidden_fragment (take n s) \<Longrightarrow> has_forbidden_fragment s"
    by (auto simp: has_forbidden_fragment_def list_ex_iff intro: sublist_order.order.trans)
qed

section \<open>Notes of a lifecycle write\<close>

definition lifecycle_note_keys :: "string list" where
  "lifecycle_note_keys =
     [''lifecycle.reason'', ''lifecycle.previous_host_count'', ''lifecycle.previous_service_count'',
      ''lifecycle.fingerprint'', ''lifecycle.source_id'', ''lifecycle.host'', ''lifecycle.service'',
      ''lifecycle.recovery_timestamp'', ''lifecycle.operator'', ''lifecycle.detail'',
      ''lifecycle.rule_name'', ''lifecycle.window_seconds'', ''lifecycle.last_update_time'',
      ''lifecycle.expired_at'']"

lemma keys_note_field: "subseq (dict_keys (note_field k v)) [k]"
  by (cases v) (simp_all add: note_field_def)

lemma keys_int_field: "subseq (dict_keys (case v of None \<Rightarrow> [] | Some n \<Rightarrow> [(k, f n)])) [k]"
  by (cases v) simp_all

lemma keys_lifecycle_notes: "subseq (dict_keys (lifecycle_notes a)) lifecycle_note_keys"
proof -
  have split: "lifecycle_note_keys =
     [''lifecycle.reason'', ''lifecycle.previous_host_count'', ''lifecycle.previous_service_count''] @
      [''lifecycle.fingerprint''] @ [''lifecycle.source_id''] @ [''lifecycle.host''] @
      [''lifecycle.service''] @ [''lifecycle.recovery_timestamp''] @ [''lifecycle.operator''] @
      [''lifecycle.detail''] @ [''lifecycle.rule_name''] @ [''lifecycle.window_seconds''] @
      [''lifecycle.last_update_time''] @ [''lifecycle.expired_at'']"
    by (simp add: lifecycle_note_keys_def)
  show ?thesis
    unfolding lifecycle_notes_def map_append split
    by (intro list_emb_append_mono keys_note_field keys_int_field) simp
qed

lemma dict_wf_lifecycle_notes [simp]: "dict_wf (lifecycle_notes a)"
proof -
  have "distinct lifecycle_note_keys" by (simp add: lifecycle_note_keys_def)
  then show ?thesis
    unfolding dict_wf_def using keys_lifecycle_notes [of a] by (auto simp: subseq_conv_nths)
qed

lemma length_lifecycle_notes: "length (lifecycle_notes a) \<le> 14"
proof -
  have "length (dict_keys (lifecycle_notes a)) \<le> length lifecycle_note_keys"
    using keys_lifecycle_notes by (rule list_emb_length)
  then show ?thesis by (simp add: lifecycle_note_keys_def)
qed

lemma lifecycle_keys_ok:
  "k \<in> set lifecycle_note_keys \<Longrightarrow> tag_key_pattern k \<and> \<not> has_forbidden_fragment k"
proof -
  have "list_all (\<lambda>k. tag_key_pattern k \<and> \<not> has_forbidden_fragment k) lifecycle_note_keys" by code_simp
  then show "k \<in> set lifecycle_note_keys \<Longrightarrow> tag_key_pattern k \<and> \<not> has_forbidden_fragment k"
    by (simp add: list_all_iff)
qed

text \<open>The values a lifecycle write notes, and when they are all accepted.\<close>

definition safe_text :: "string option \<Rightarrow> bool" where
  "safe_text v \<longleftrightarrow> (case v of None \<Rightarrow> True | Some s \<Rightarrow> s \<noteq> [] \<and> \<not> has_forbidden_fragment s)"

definition safe_args :: "lifecycle_args \<Rightarrow> bool" where
  "safe_args a \<longleftrightarrow>
     bounded_string (la_reason a) \<and> \<not> has_forbidden_fragment (la_reason a) \<and>
     safe_text (la_fingerprint a) \<and> safe_text (la_source_id a) \<and> safe_text (la_host a) \<and>
     safe_text (la_service a) \<and> safe_text (la_operator a) \<and> safe_text (la_detail a) \<and>
     safe_text (la_rule_name a) \<and>
     length (int_str (la_previous_host_count a)) \<le> 256 \<and>
     length (int_str (la_previous_service_count a)) \<le> 256 \<and>
     (case la_window_seconds a of None \<Rightarrow> True | Some n \<Rightarrow> length (int_str n) \<le> 256)"

definition note_value_ok :: "string \<Rightarrow> bool" where
  "note_value_ok v \<longleftrightarrow> 1 \<le> length v \<and> length v \<le> 256 \<and> \<not> has_forbidden_fragment v"

lemma note_field_ok: "safe_text v \<Longrightarrow> \<forall>(k', s) \<in> set (note_field k v). note_value_ok s"
  by (cases v) (auto simp: note_field_def safe_text_def note_value_ok_def Suc_le_eq dest: forbidden_take)

lemma isoformat_not_Nil: "isoformat d \<noteq> []"
  by (simp add: isoformat_def Let_def split_beta)

lemma safe_time: "safe_text (map_option isoformat d)"
  by (cases d) (simp_all add: safe_text_def isoformat_not_Nil plain_text_allowed)

lemma int_note_ok: "length (int_str n) \<le> 256 \<Longrightarrow> note_value_ok (int_str n)"
  by (simp add: note_value_ok_def plain_text_allowed Suc_le_eq)

lemma lifecycle_note_values:
  assumes "safe_args a"
  shows "\<forall>(k, v) \<in> set (lifecycle_notes a). note_value_ok v"
proof -
  have base: "\<forall>(k, v) \<in> set [(''lifecycle.reason'', la_reason a),
      (''lifecycle.previous_host_count'', int_str (la_previous_host_count a)),
      (''lifecycle.previous_service_count'', int_str (la_previous_service_count a))]. note_value_ok v"
    using assms by (simp add: safe_args_def int_note_ok)
      (simp add: note_value_ok_def bounded_string_def)
  have win: "\<forall>(k, v) \<in> set (case la_window_seconds a of None \<Rightarrow> []
      | Some n \<Rightarrow> [(''lifecycle.window_seconds'', int_str n)]). note_value_ok v"
    using assms by (cases "la_window_seconds a") (simp_all add: safe_args_def int_note_ok)
  have un: "(\<forall>p \<in> set (xs @ ys). P p) \<longleftrightarrow> (\<forall>p \<in> set xs. P p) \<and> (\<forall>p \<in> set ys. P p)" for xs ys :: "(string, string) dict" and P
    by auto
  show ?thesis
    unfolding lifecycle_notes_def un
    by (intro conjI base win note_field_ok safe_time) (use assms in \<open>simp_all add: safe_args_def\<close>)
qed

section \<open>The merged notes\<close>

lemma set_dict_set: "set (dict_set k v d) \<subseteq> insert (k, v) (set d)"
  by (induction d) auto

lemma set_dict_merge: "set (dict_merge d e) \<subseteq> set d \<union> set e"
  unfolding dict_merge_def
proof (induction e arbitrary: d)
  case (Cons kv e)
  obtain k v where kv: "kv = (k, v)" by (cases kv)
  from Cons.IH [of "dict_set k v d"] set_dict_set [of k v d] show ?case by (auto simp: kv)
qed simp

lemma length_dict_merge: "length (dict_merge d e) \<le> length d + length e"
  unfolding dict_merge_def
proof (induction e arbitrary: d)
  case (Cons kv e)
  obtain k v where kv: "kv = (k, v)" by (cases kv)
  have "length (dict_set k v d) \<le> Suc (length d)" by (induction d) auto
  with Cons.IH [of "dict_set k v d"] show ?case by (simp add: kv)
qed simp

lemma notes_ok_iff:
  "notes_ok notes \<longleftrightarrow> length notes \<le> 20 \<and>
     (\<forall>(k, v) \<in> set notes. tag_key_pattern k \<and> \<not> has_forbidden_fragment k \<and> note_value_ok v)"
  by (auto simp: notes_ok_def note_entry_ok_def note_value_ok_def list_all_iff result_simps)

lemma lifecycle_merged_notes_ok:
  assumes "notes_ok old" "safe_args a"
  shows "notes_ok (dict_merge (slice_last (20 - length (lifecycle_notes a))
    (filter (\<lambda>(k, v). \<not> prefix ''lifecycle.'' k) old)) (lifecycle_notes a))"
    (is "notes_ok (dict_merge (slice_last ?n ?kept) ?new)")
proof -
  have n: "0 < ?n" "?n + length ?new = 20" using length_lifecycle_notes [of a] by simp_all
  then have "length (dict_merge (slice_last ?n ?kept) ?new) \<le> 20"
    using length_dict_merge [of "slice_last ?n ?kept" ?new] length_slice_last [of ?n ?kept] by simp
  moreover have "set (dict_merge (slice_last ?n ?kept) ?new) \<subseteq> set old \<union> set ?new"
    using set_dict_merge [of "slice_last ?n ?kept" ?new] set_slice_last [of ?n ?kept] by auto
  moreover have "k \<in> set lifecycle_note_keys" if "(k, v) \<in> set ?new" for k v
  proof -
    have "k \<in> set (dict_keys ?new)" using that by force
    moreover obtain N where "dict_keys ?new = nths lifecycle_note_keys N"
      using keys_lifecycle_notes [of a] by (auto simp: subseq_conv_nths)
    ultimately show ?thesis by (metis in_set_nthsD)
  qed
  ultimately show ?thesis
    using assms(1) lifecycle_keys_ok lifecycle_note_values [OF assms(2)]
    unfolding notes_ok_iff by blast
qed

text \<open>The write of a lifecycle context succeeds on a stored context that is valid.\<close>

lemma lifecycle_context_succeeds:
  assumes "decision_context_ok (inc_decision_context r)" "0 \<le> inc_event_count r" "safe_args a"
    and "opt_bounded (la_fingerprint a)" "opt_bounded (la_source_id a)"
  shows "\<exists>ctx. lifecycle_context r a = Inr ctx"
proof -
  let ?d = "inc_decision_context r"
  have "opt_bounded (or_else x y)" if "opt_bounded x" "opt_bounded y" for x y
    using that by (simp add: or_else_def)
  with assms lifecycle_merged_notes_ok [of "dc_notes ?d" a] show ?thesis
    by (simp add: lifecycle_context_def Let_def decision_context_validate_def decision_context_ok_def
        results_list_def opt_ge_def)
qed

text \<open>A forbidden fragment in a noted value makes it fail.\<close>

lemma lifecycle_context_forbidden:
  assumes "(k, v) \<in> set (lifecycle_notes a)" "has_forbidden_fragment v"
  shows "lifecycle_context r a = Inl ValidationError"
proof -
  let ?kept = "slice_last (20 - length (lifecycle_notes a))
    (filter (\<lambda>(k, v). \<not> prefix ''lifecycle.'' k) (dc_notes (inc_decision_context r)))"
  have "map_of (lifecycle_notes a) k = Some v"
    using assms(1) dict_wf_lifecycle_notes [of a] by (simp add: dict_wf_def)
  then have "map_of (dict_merge ?kept (lifecycle_notes a)) k = Some v"
    by (simp add: map_of_dict_merge)
  then have "(k, v) \<in> set (dict_merge ?kept (lifecycle_notes a))" by (rule map_of_SomeD)
  then have "\<not> notes_ok (dict_merge ?kept (lifecycle_notes a))"
    using assms(2) unfolding notes_ok_iff note_value_ok_def by blast
  then show ?thesis
    by (simp add: lifecycle_context_def Let_def decision_context_validate_def decision_context_ok_def)
qed

section \<open>Properties\<close>

lemma abs_acknowledged_row [simp]: "abs_incident (acknowledged_row now op ctx r) = abs_incident r"
  by (simp add: abs_incident_def objects_of_def acknowledged_row_def)

lemma abs_close_row [simp]:
  "abs_incident (close_row now CLOSED ctx r) = (inc_id r, CLOSED, objects_of r)"
  by (simp add: abs_incident_def objects_of_def close_row_def)

lemma other_rows_replace:
  "inc_id x' = inc_id x \<Longrightarrow> incidents_unique t \<Longrightarrow> x \<in> set t \<Longrightarrow>
     {r \<in> set (replace_row x x' t). inc_id r \<noteq> inc_id x} = {r \<in> set t. inc_id r \<noteq> inc_id x}"
  by (auto simp: replace_row_def)

text \<open>
  Acknowledging.  An unknown identifier reports nothing and a terminal incident is left
  alone; an open incident keeps the time of its first acknowledgement, records the latest
  operator, and keeps its status, its objects, its counts and its last update, so a second
  acknowledgement changes only who acknowledged.
\<close>

lemma ack_open_incident_spec:
  assumes "ack_open_incident now ident operator t = Inr (t', res)" "table_inv t"
  shows "table_inv t' \<and> map abs_incident t' = map abs_incident t \<and>
    {r \<in> set t'. inc_id r \<noteq> ident} = {r \<in> set t. inc_id r \<noteq> ident} \<and>
    (res = None \<longleftrightarrow> ident \<notin> inc_id ` set t) \<and>
    (\<forall>w. res = Some w \<longrightarrow> lw_incident w \<in> set t' \<and> inc_id (lw_incident w) = ident \<and>
      (lw_effect w = Acknowledged \<or> lw_effect w = Noop) \<and>
      (lw_effect w = Noop \<longrightarrow> t' = t \<and> \<not> inc_open (lw_incident w)) \<and>
      (lw_effect w = Acknowledged \<longrightarrow> (\<exists>r \<in> set t. inc_id r = ident \<and> inc_open r \<and>
         (\<exists>ctx. lw_incident w = r\<lparr>inc_acknowledged_at :=
               Some (case inc_acknowledged_at r of None \<Rightarrow> now | Some a \<Rightarrow> a),
             inc_acknowledged_by := Some operator, inc_decision_context := ctx, inc_updated_at := now\<rparr>))))"
  using assms(1) table_inv_unique [OF assms(2)]
proof (cases rule: ack_open_incident_cases)
  case (acked r ctx)
  let ?r' = "acknowledged_row now operator ctx r"
  have r': "inc_id ?r' = inc_id r" "inc_key ?r' = inc_key r" "inc_open ?r'"
    using acked(3) by (simp_all add: acknowledged_row_def)
  have "table_inv t'"
    unfolding acked(5) using acked r' table_inv_row [OF assms(2) acked(1)]
    by (intro table_inv_replace [OF assms(2)]) (simp_all add: acknowledged_row_inv)
  moreover have "map abs_incident t' = map abs_incident t"
    by (simp add: acked(5) replace_row_def)
  moreover have "{x \<in> set t'. inc_id x \<noteq> ident} = {x \<in> set t. inc_id x \<noteq> ident}"
    using other_rows_replace [OF r'(1) table_inv_unique [OF assms(2)] acked(1)] acked(2,5) by simp
  moreover have "?r' \<in> set t'" using acked(1) by (auto simp: acked(5) replace_row_def)
  moreover have "?r' = r\<lparr>inc_acknowledged_at := Some (case inc_acknowledged_at r of None \<Rightarrow> now | Some a \<Rightarrow> a),
     inc_acknowledged_by := Some operator, inc_decision_context := ctx, inc_updated_at := now\<rparr>"
    by (simp add: acknowledged_row_def split: option.split)
  then have "\<exists>x \<in> set t. inc_id x = ident \<and> inc_open x \<and> (\<exists>ctx. ?r' = x\<lparr>inc_acknowledged_at :=
      Some (case inc_acknowledged_at x of None \<Rightarrow> now | Some a \<Rightarrow> a),
     inc_acknowledged_by := Some operator, inc_decision_context := ctx, inc_updated_at := now\<rparr>)"
    using acked(1-3) by blast
  moreover have "ident \<in> inc_id ` set t" using acked(1,2) by auto
  moreover obtain w where "res = Some w" "lw_incident w = ?r'" "lw_effect w = Acknowledged"
    using acked(6,7) by auto
  ultimately show ?thesis using acked(2) r'(1) by simp
next
  case (noop r)
  moreover obtain w where "res = Some w" "lw_incident w = r" "lw_effect w = Noop"
    using noop(5,6) by auto
  moreover have "ident \<in> inc_id ` set t" using noop(1,2) by auto
  ultimately show ?thesis using assms(2) by simp
next
  case missing
  then show ?thesis using assms(2) by simp
qed

definition abs_close :: "uuid \<Rightarrow> abstract_incident \<Rightarrow> abstract_incident" where
  "abs_close ident = (\<lambda>(i, status, objs). (i, if i = ident \<and> status = OPEN then CLOSED else status, objs))"

lemma abs_close_incident:
  "abs_close ident (abs_incident r) =
     (if inc_id r = ident \<and> inc_open r then (inc_id r, CLOSED, objects_of r) else abs_incident r)"
  by (simp add: abs_close_def abs_incident_def)

text \<open>
  Closing by hand.  An open incident becomes closed at the transaction's time with its
  objects kept; a terminal incident and every other row stay exactly as they were, so a second
  close has no effect.
\<close>

lemma close_open_incident_spec:
  assumes "close_open_incident now ident operator reason t = Inr (t', res)" "table_inv t"
  shows "table_inv t' \<and>
    map abs_incident t' = map (abs_close ident \<circ> abs_incident) t \<and>
    {r \<in> set t'. inc_id r \<noteq> ident} = {r \<in> set t. inc_id r \<noteq> ident} \<and>
    (res = None \<longleftrightarrow> ident \<notin> inc_id ` set t) \<and>
    (\<forall>w. res = Some w \<longrightarrow> lw_incident w \<in> set t' \<and> inc_id (lw_incident w) = ident \<and>
      is_terminal_status (inc_status (lw_incident w)) \<and>
      (lw_effect w = Closed_effect \<or> lw_effect w = Noop) \<and>
      (lw_effect w = Noop \<longrightarrow> t' = t) \<and>
      (lw_effect w = Closed_effect \<longrightarrow> inc_closed_at (lw_incident w) = Some now))"
  using assms(1) table_inv_unique [OF assms(2)]
proof (cases rule: close_open_incident_cases)
  case (closed r ctx)
  let ?r' = "close_row now CLOSED ctx r"
  have r': "inc_id ?r' = inc_id r" "inc_key ?r' = inc_key r" "inc_status ?r' = CLOSED" "inc_closed_at ?r' = Some now"
    by (simp_all add: close_row_def)
  have "table_inv t'"
    unfolding closed(5) using closed r' table_inv_row [OF assms(2) closed(1)]
    by (intro table_inv_replace [OF assms(2)]) (simp_all add: close_row_inv)
  moreover have "map abs_incident t' =
      map (abs_close ident \<circ> abs_incident) t"
    using open_id_iff [OF table_inv_unique [OF assms(2)] closed(1,3)] closed(2)
    by (simp add: closed(5) replace_row_def abs_close_incident)
  moreover have "{x \<in> set t'. inc_id x \<noteq> ident} = {x \<in> set t. inc_id x \<noteq> ident}"
    using other_rows_replace [OF r'(1) table_inv_unique [OF assms(2)] closed(1)] closed(2,5) by simp
  moreover have "?r' \<in> set t'" using closed(1) by (auto simp: closed(5) replace_row_def)
  moreover have "ident \<in> inc_id ` set t" using closed(1,2) by auto
  moreover obtain w where "res = Some w" "lw_incident w = ?r'" "lw_effect w = Closed_effect"
    using closed(6,7) by auto
  ultimately show ?thesis using closed(2) r' by (simp add: is_terminal_status_def)
next
  case (noop r)
  have "map abs_incident t' =
      map (abs_close ident \<circ> abs_incident) t"
    unfolding noop(4) using same_id_same_row [OF table_inv_unique [OF assms(2)] noop(1)] noop(2,3)
    by (intro map_cong) (simp, metis abs_close_incident comp_apply)
  moreover obtain w where "res = Some w" "lw_incident w = r" "lw_effect w = Noop"
    using noop(5,6) by auto
  moreover have "ident \<in> inc_id ` set t" using noop(1,2) by auto
  moreover have "is_terminal_status (inc_status r)" using noop(3) not_terminal_iff_open by blast
  ultimately show ?thesis using assms(2) noop(1,2,4) by simp
next
  case missing
  then have "map abs_incident t' =
      map (abs_close ident \<circ> abs_incident) t"
    by (auto simp: abs_close_incident image_iff)
  with missing assms(2) show ?thesis by simp
qed

section \<open>Expiration\<close>

lemma map_insort_key: "map f (insort_key f x xs) = insort (f x) (map f xs)"
  by (induction xs) auto

lemma map_sort_key: "map f (sort_key f xs) = sort (map f xs)"
  by (induction xs) (auto simp: map_insort_key)

definition stale_rows :: "int \<Rightarrow> incident_table \<Rightarrow> incident list" where
  "stale_rows now t = filter (\<lambda>r. inc_open r \<and> is_stale now r) t"

lemma stale_candidates_eq_Inr:
  "stale_candidates now limit t = Inr xs \<Longrightarrow> xs = take (nat limit) (sort_key inc_id (stale_rows now t))"
  by (simp add: stale_candidates_def select_where_def Let_def stale_rows_def conj_commute split: if_splits)

lemma stale_candidates_open:
  assumes "incidents_unique t" "stale_candidates now limit t = Inr xs"
  shows "distinct xs" "set xs \<subseteq> {r \<in> set t. inc_open r}" "set xs \<subseteq> set (stale_rows now t)"
proof -
  have "distinct (stale_rows now t)"
    using distinct_candidates [OF assms(1)] by (simp add: stale_rows_def select_where_def)
  then show "distinct xs" using stale_candidates_eq_Inr [OF assms(2)] by (simp add: distinct_take)
  show "set xs \<subseteq> set (stale_rows now t)"
    using stale_candidates_eq_Inr [OF assms(2)] by (metis set_sort set_take_subset)
  then show "set xs \<subseteq> {r \<in> set t. inc_open r}" by (auto simp: stale_rows_def)
qed

lemma expire_stale_facts:
  assumes "expire_stale_incidents now limit t = Inr (t', expired)" "table_inv t"
  shows "table_inv t' \<and>
    map inc_id expired = take (nat limit) (sort (map inc_id (stale_rows now t))) \<and>
    (\<forall>r \<in> set expired. inc_status r = CLOSED \<and> inc_closed_at r = Some now) \<and>
    set t' = {r \<in> set t. inc_id r \<notin> inc_id ` set expired} \<union> set expired \<and>
    map abs_incident t' =
      map (\<lambda>r. if inc_id r \<in> inc_id ` set expired then (inc_id r, CLOSED, objects_of r) else abs_incident r) t"
proof (cases "limit < 1")
  case True
  with assms show ?thesis by (simp add: expire_stale_incidents_def)
next
  case False
  with assms(1) obtain xs where xs: "stale_candidates now limit t = Inr xs"
    and loop: "rloop (expire_incident now) xs t = Inr (t', expired)"
    by (auto simp: expire_stale_incidents_def result_simps)
  note uniq = table_inv_unique [OF assms(2)] and c = stale_candidates_open [OF table_inv_unique [OF assms(2)] xs]
  have inv: "table_inv t'"
    by (rule expiration.loop_inv [OF loop assms(2) c(1,2)])
      (use c(2) in \<open>auto simp: expire_step_def close_row_inv subset_iff\<close>)
  obtain h out where h: "\<forall>x \<in> set xs. expire_step now x (h x) (out x)"
    "t' = map (\<lambda>r. if r \<in> set xs then h r else r) t" "expired = List.map_filter out xs"
    using expiration.loop_map [OF loop uniq c(1,2)] by blast
  have row: "out x = Some (h x)" "inc_id (h x) = inc_id x" "inc_status (h x) = CLOSED"
    "inc_closed_at (h x) = Some now" "abs_incident (h x) = (inc_id x, CLOSED, objects_of x)" if "x \<in> set xs" for x
    using h(1) that by (auto simp: expire_step_def close_row_def abs_incident_def objects_of_def)
  have "expired = map (the \<circ> out) xs"
    unfolding h(3) by (intro map_filter_all_Some) (use row(1) in blast)
  then have expired: "expired = map h xs" using row(1) by auto
  have ids: "map inc_id expired = map inc_id xs" using row(2) by (auto simp: expired)
  then have idset: "inc_id ` set expired = inc_id ` set xs" by (metis list.set_map)
  have mem: "inc_id r \<in> inc_id ` set expired \<longleftrightarrow> r \<in> set xs" if "r \<in> set t" for r
    unfolding idset using same_id_same_row [OF uniq that] c(2) by blast
  have "map inc_id expired = take (nat limit) (sort (map inc_id (stale_rows now t)))"
    unfolding ids stale_candidates_eq_Inr [OF xs] by (simp add: take_map [symmetric] map_sort_key)
  moreover have "set t' = {r \<in> set t. inc_id r \<notin> inc_id ` set expired} \<union> set expired"
    using mem c(2) by (auto simp: h(2) expired)
  moreover have "map abs_incident t' =
      map (\<lambda>r. if inc_id r \<in> inc_id ` set expired then (inc_id r, CLOSED, objects_of r) else abs_incident r) t"
    using mem row(5) by (simp add: h(2))
  ultimately show ?thesis using inv row(3,4) by (auto simp: expired)
qed

text \<open>
  Expiration closes, at the transaction's time, the open incidents whose window has passed
  entirely, the first \<open>limit\<close> of them in the order of their identifiers, and touches no other
  row; it returns the closed rows.
\<close>

lemma expire_stale_incidents_spec:
  assumes "expire_stale_incidents now limit t = Inr (t', expired)" "table_inv t"
  shows "table_inv t' \<and>
    map inc_id expired = take (nat limit) (sort (map inc_id (stale_rows now t))) \<and>
    (\<forall>r \<in> set expired. inc_status r = CLOSED \<and> inc_closed_at r = Some now) \<and>
    set t' = {r \<in> set t. inc_id r \<notin> inc_id ` set expired} \<union> set expired \<and>
    map abs_incident t' =
      map (\<lambda>r. if inc_id r \<in> inc_id ` set expired then (inc_id r, CLOSED, objects_of r) else abs_incident r) t"
  by (rule expire_stale_facts [OF assms])

text \<open>A number below a power of ten has few digits.\<close>

lemma length_int_digits: "n < 10 ^ k \<Longrightarrow> 0 < k \<Longrightarrow> length (int_digits n) \<le> k"
proof (induction k arbitrary: n)
  case (Suc k)
  show ?case
  proof (cases "n < 10")
    case True
    then show ?thesis by (subst int_digits.simps) simp
  next
    case False
    then have k: "0 < k" using Suc.prems(1) by (cases k) auto
    have "n div 10 < 10 ^ k" using Suc.prems(1) by simp
    from Suc.IH [OF this k] False show ?thesis by (subst int_digits.simps) simp
  qed
qed simp

lemma length_int_str: "0 \<le> n \<Longrightarrow> n < 2 ^ 31 \<Longrightarrow> length (int_str n) \<le> 256"
  using length_int_digits [of n 10] by (simp add: int_str_def)

lemma lifecycle_reasons_safe:
  "reason \<in> {''source_recovery'', ''acknowledged'', ''manual_close'', ''expired''} \<Longrightarrow>
     bounded_string reason \<and> \<not> has_forbidden_fragment reason"
proof -
  have "list_all (\<lambda>r. bounded_string r \<and> \<not> has_forbidden_fragment r)
    [''source_recovery'', ''acknowledged'', ''manual_close'', ''expired'']" by code_simp
  then show "reason \<in> {''source_recovery'', ''acknowledged'', ''manual_close'', ''expired''} \<Longrightarrow>
     bounded_string reason \<and> \<not> has_forbidden_fragment reason" by (auto simp: list_all_iff)
qed

lemma object_counts_bounds:
  "0 \<le> fst (active_object_counts objs)" "fst (active_object_counts objs) \<le> int (length objs)"
  "0 \<le> snd (active_object_counts objs)" "snd (active_object_counts objs) \<le> int (length objs)"
proof -
  have "card (set (map io_host objs)) \<le> length objs" by (metis card_length length_map)
  moreover have "length (object_services objs) \<le> length objs"
    by (simp add: object_services_def List.map_filter_def)
  then have "card (set (object_services objs)) \<le> length objs" using card_length le_trans by blast
  ultimately show "0 \<le> fst (active_object_counts objs)" "fst (active_object_counts objs) \<le> int (length objs)"
    "0 \<le> snd (active_object_counts objs)" "snd (active_object_counts objs) \<le> int (length objs)"
    by (simp_all add: active_object_counts_def)
qed

lemma expire_stale_total:
  assumes "table_inv t"
    and "\<forall>r \<in> set t. inc_open r \<longrightarrow> safe_text (Some (inc_rule_name r)) \<and>
      (\<forall>w. inc_window_state r = Some w \<longrightarrow>
        int4_ok (ws_window_seconds w) \<and> int (length (ws_active_objects w)) < 2 ^ 31)"
  shows "\<exists>t' expired. expire_stale_incidents now limit t = Inr (t', expired)"
proof (cases "limit < 1")
  case True
  then show ?thesis by (simp add: expire_stale_incidents_def)
next
  case False
  have "\<exists>xs. stale_candidates now limit t = Inr xs"
    using assms(2) by (auto simp: stale_candidates_def select_where_def list_all_iff split: option.split)
  then obtain xs where xs: "stale_candidates now limit t = Inr xs" ..
  note c = stale_candidates_open [OF table_inv_unique [OF assms(1)] xs]
  have "\<exists>res. rloop (expire_incident now) xs t = Inr res"
  proof (rule expiration.loop_total [OF table_inv_unique [OF assms(1)] c(1,2)])
    fix x t0 assume x: "x \<in> set xs" "incidents_unique t0" "x \<in> set t0"
    have xt: "x \<in> set t" "inc_open x" using c(2) x(1) by auto
    have inv: "incident_inv x" using table_inv_row [OF assms(1) xt(1)] .
    then obtain w where w: "inc_window_state x = Some w" "window_inv w" by (rule incident_invD)
    let ?a = "(default_args ''expired'' (active_object_counts (ws_active_objects w)))
             \<lparr>la_rule_name := Some (inc_rule_name x),
              la_window_seconds := Some (ws_window_seconds w),
              la_last_update_time := Some (utc_datetime (inc_last_update_time x)),
              la_expiration_time := Some (utc_datetime now)\<rparr>"
    have len: "int (length (ws_active_objects w)) < 2 ^ 31" and sec: "ws_window_seconds w < 2 ^ 31" "0 \<le> ws_window_seconds w"
      using assms(2) xt w window_invD(1) [OF w(2)] by (auto simp: int4_ok_def window_state_ok_def)
    have counts: "length (int_str (fst (active_object_counts (ws_active_objects w)))) \<le> 256"
      "length (int_str (snd (active_object_counts (ws_active_objects w)))) \<le> 256"
      using object_counts_bounds [of "ws_active_objects w"] len by (auto intro!: length_int_str)
    have name: "safe_text (Some (inc_rule_name x))" using assms(2) xt by blast
    have "safe_args ?a"
      using counts name sec lifecycle_reasons_safe [of "''expired''"] length_int_str [of "ws_window_seconds w"]
      by (simp add: safe_args_def default_args_def safe_text_def [of None])
    then obtain ctx where "lifecycle_context x ?a = Inr ctx"
      using lifecycle_context_succeeds [of x ?a] inv
      by (auto simp: incident_inv_def default_args_def opt_bounded_def)
    then show "\<exists>res. expire_incident now x t0 = Inr res"
      using w window_invD(1) [OF w(2)] update_returning_row [OF x(2,3) xt(2)]
      by (simp add: expire_incident_def window_state_from_json_def window_state_validate_def
          Let_def validate_incident_transition_def)
  qed
  then show ?thesis using False xs by (auto simp: expire_stale_incidents_def)
qed

text \<open>
  C30: expiration succeeds.  On a table that keeps its invariant the worker's call returns,
  whatever is stale, as long as window lengths fit the 32-bit cast of the query and no open
  incident's rule name carries a forbidden fragment.
\<close>

theorem expire_stale_incidents_succeeds:
  assumes "table_inv t"
    and "\<forall>r \<in> set t. inc_open r \<longrightarrow> safe_text (Some (inc_rule_name r)) \<and>
      (\<forall>w. inc_window_state r = Some w \<longrightarrow>
        int4_ok (ws_window_seconds w) \<and> int (length (ws_active_objects w)) < 2 ^ 31)"
  shows "\<exists>t' expired. expire_stale_incidents now limit t = Inr (t', expired)"
  by (rule expire_stale_total [OF assms])

text \<open>
  C31: a stale incident whose rule name carries a forbidden fragment, such as \<open>token\<close>, blocks
  expiration once it is first in identifier order: the call raises for every batch size, so
  the worker closes nothing, also none of the other stale incidents.
\<close>

theorem expire_stale_incidents_blocked:
  assumes "table_inv t" "r \<in> set (stale_rows now t)" "\<forall>x \<in> set (stale_rows now t). inc_id r \<le> inc_id x"
    and "has_forbidden_fragment (take 256 (inc_rule_name r))" "1 \<le> limit"
  shows "\<exists>e. expire_stale_incidents now limit t = Inl e"
proof (cases "stale_candidates now limit t")
  case (Inl e)
  with assms(5) show ?thesis by (simp add: expire_stale_incidents_def)
next
  case (Inr xs)
  obtain y ys where s: "sort_key inc_id (stale_rows now t) = y # ys"
    using assms(2) by (metis neq_Nil_conv set_sort empty_iff list.set(1))
  have "y \<in> set (stale_rows now t)" using s by (metis list.set_intros(1) set_sort)
  moreover have "\<forall>x \<in> set (stale_rows now t). inc_id y \<le> inc_id x"
  proof
    fix x assume "x \<in> set (stale_rows now t)"
    then have "x \<in> set (y # ys)" using s by (metis set_sort)
    moreover have "sorted (map inc_id (y # ys))"
      using sorted_sort_key [of inc_id "stale_rows now t"] s by simp
    ultimately show "inc_id y \<le> inc_id x" by auto
  qed
  ultimately have "y = r"
    using assms(2,3) same_id_same_row [OF table_inv_unique [OF assms(1)], of y r]
    by (simp add: stale_rows_def order_antisym)
  then have xs: "\<exists>zs. xs = r # zs"
    using stale_candidates_eq_Inr [OF Inr] s assms(5) by (cases "nat limit") auto
  have "\<exists>e. expire_incident now r t = Inl e"
  proof (cases "window_state_from_json (inc_window_state r)")
    case (Inr w)
    have "lifecycle_context r ((default_args ''expired'' (active_object_counts (ws_active_objects w)))
             \<lparr>la_rule_name := Some (inc_rule_name r),
              la_window_seconds := Some (ws_window_seconds w),
              la_last_update_time := Some (utc_datetime (inc_last_update_time r)),
              la_expiration_time := Some (utc_datetime now)\<rparr>) = Inl ValidationError"
      by (rule lifecycle_context_forbidden [OF _ assms(4), of "''lifecycle.rule_name''"])
        (simp add: lifecycle_notes_def note_field_def)
    with Inr show ?thesis by (simp add: expire_incident_def Let_def)
  qed (simp add: expire_incident_def)
  with xs Inr assms(5) show ?thesis by (auto simp: expire_stale_incidents_def)
qed

end
