(* ===== verification/ManagerFacts.thy ===== *)
theory ManagerFacts
  imports Manager LifecycleProps
begin

text \<open>
  Correctness of the services: what one aggregation of a problem event does to the table,
  which result a recovery reports, and which effects are counted.
\<close>

section \<open>Aggregation of a problem\<close>

lemma manager_context_ok: "manager_decision_context h e d wr reason = Inr ctx \<Longrightarrow> decision_context_ok ctx"
  unfolding manager_decision_context_def rbind_eq_Inr using decision_context_validate_ok by blast

lemma problem_input_ok:
  assumes "problem_input e d ctx = Inr i" "decision_context_ok ctx"
  shows "upsert_input_ok i" "input_context_ok i"
    "up_rule_name i = rm_rule_name d" "up_group_key i = rm_group_key d"
    "up_fingerprint i = Some (ev_fingerprint e)" "up_event_time i = ev_timestamp e"
    "up_threshold_count i = rw_trigger_threshold (rm_window d)"
proof -
  show "upsert_input_ok i"
    using assms(1) unfolding problem_input_def by (rule upsert_input_init_ok)
qed (use assms in \<open>auto simp: problem_input_def upsert_input_init_def input_context_ok_def result_simps Let_def\<close>)

lemma write_problemD:
  assumes "write_problem now new_id h e d t = Inr (t', wr, td)"
  obtains i where "upsert_input_ok i" "input_context_ok i" "ev_event_type e = PROBLEM"
    "up_rule_name i = rm_rule_name d" "up_group_key i = rm_group_key d"
    "up_fingerprint i = Some (ev_fingerprint e)" "up_event_time i = ev_timestamp e"
    "up_threshold_count i = rw_trigger_threshold (rm_window d)"
    "record_problem_incident now new_id i t = Inr (t', wr)"
proof -
  from assms obtain ctx i where *: "manager_decision_context h e d None None = Inr ctx"
    "problem_input e d ctx = Inr i" "record_problem_incident now new_id i t = Inr (t', wr)"
    "ev_event_type e = PROBLEM"
    by (auto simp: write_problem_def result_simps)
  show thesis
    by (rule that [OF _ _ *(4)]) (use * problem_input_ok [OF *(2) manager_context_ok [OF *(1)]] in auto)
qed

lemma apply_problemD:
  assumes "apply_problem now new_id h e d ms t = (ms', Inr (t', r))"
  obtains t1 wr td ctx where "write_problem now new_id h e d t = Inr (t1, wr, td)"
    "manager_decision_context h e d (Some wr) (no_dispatch_reason wr) = Inr ctx"
    "t' = update_where (\<lambda>r. inc_id r = inc_id (wr_incident wr)) (\<lambda>r. r\<lparr>inc_decision_context := ctx\<rparr>) t1"
    "ar_incident_id r = inc_id (wr_incident wr)" "ar_dispatch_planned r = (no_dispatch_reason wr = None)"
    "ar_first_threshold_transition r = wr_first_threshold_transition wr"
    "ar_no_dispatch_reason r = no_dispatch_reason wr" "ar_effect r = wr_effect wr"
    "ar_replay r = wr_replay wr" "ar_threshold_crossed r = wr_threshold_crossed wr"
    "ms' = record_incident_effect (Aggregation_effect (wr_effect wr)) ms"
  using assms
  by (auto simp: apply_problem_def finish_problem_def Let_def result_simps split: sum.splits)

lemma no_dispatch_reason_None:
  "no_dispatch_reason w = None \<longleftrightarrow> \<not> wr_replay w \<and> wr_first_threshold_transition w"
  by (simp add: no_dispatch_reason_def)

lemma context_update_inv:
  assumes "table_inv t" "decision_context_ok ctx"
  shows "table_inv (update_where (\<lambda>r. inc_id r = i) (\<lambda>r. r\<lparr>inc_decision_context := ctx\<rparr>) t)"
proof (rule table_inv_update [OF assms(1)])
  fix r assume "r \<in> set t"
  then have "incident_inv r" by (rule table_inv_row [OF assms(1)])
  then show "incident_inv (r\<lparr>inc_decision_context := ctx\<rparr>)"
    using assms(2) by (cases "inc_window_state r") (auto simp: incident_inv_def)
qed simp_all

section \<open>What survives a write\<close>

text \<open>
  One row against the row it becomes: identity and start are fixed, the threshold mark and a
  first acknowledgement are never taken back, counts and the last update never decrease, and a
  terminal row keeps everything but the notification results written to it later.
\<close>

definition row_le :: "incident \<Rightarrow> incident \<Rightarrow> bool" where
  "row_le r r' \<longleftrightarrow>
     inc_id r' = inc_id r \<and> inc_key r' = inc_key r \<and> inc_start_time r' = inc_start_time r \<and>
     inc_created_at r' = inc_created_at r \<and>
     (inc_threshold_crossed r \<longrightarrow> inc_threshold_crossed r') \<and>
     inc_event_count r \<le> inc_event_count r' \<and> inc_last_update_time r \<le> inc_last_update_time r' \<and>
     (inc_acknowledged_at r \<noteq> None \<longrightarrow> inc_acknowledged_at r' = inc_acknowledged_at r) \<and>
     severity_rank_str (inc_severity r) \<le> severity_rank_str (inc_severity r') \<and>
     (\<not> inc_open r \<longrightarrow> (\<exists>ctx updated notified.
        r' = r\<lparr>inc_decision_context := ctx, inc_updated_at := updated, inc_notified_at := notified\<rparr>))"

definition table_le :: "incident_table \<Rightarrow> incident_table \<Rightarrow> bool" where
  "table_le t t' \<longleftrightarrow> (\<forall>r \<in> set t. \<exists>r' \<in> set t'. row_le r r')"

lemma row_le_refl [simp]: "row_le r r"
proof -
  have "\<exists>ctx updated notified.
      r = r\<lparr>inc_decision_context := ctx, inc_updated_at := updated, inc_notified_at := notified\<rparr>"
    by (intro exI [of _ "inc_decision_context r"] exI [of _ "inc_updated_at r"] exI [of _ "inc_notified_at r"]) simp
  then show ?thesis unfolding row_le_def by blast
qed

lemma row_le_open: "row_le r r' \<Longrightarrow> inc_open r' \<Longrightarrow> inc_open r"
  by (rule ccontr) (auto simp: row_le_def)

lemma row_le_trans:
  assumes "row_le a b" "row_le b c"
  shows "row_le a c"
proof (cases "inc_open a")
  case True
  with assms show ?thesis by (auto simp: row_le_def)
next
  case False
  with assms(1) have b: "\<not> inc_open b" using row_le_open by blast
  from assms(1) False obtain d1 u1 n1 where
    eb: "b = a\<lparr>inc_decision_context := d1, inc_updated_at := u1, inc_notified_at := n1\<rparr>"
    unfolding row_le_def by blast
  from assms(2) b obtain d2 u2 n2 where
    ec: "c = b\<lparr>inc_decision_context := d2, inc_updated_at := u2, inc_notified_at := n2\<rparr>"
    unfolding row_le_def by blast
  have "c = a\<lparr>inc_decision_context := d2, inc_updated_at := u2, inc_notified_at := n2\<rparr>"
    unfolding ec eb by simp
  then show ?thesis unfolding row_le_def by auto
qed

lemma table_le_refl [simp]: "table_le t t"
  by (auto simp: table_le_def intro: row_le_refl)

lemma table_le_trans: "table_le a b \<Longrightarrow> table_le b c \<Longrightarrow> table_le a c"
  unfolding table_le_def by (meson row_le_trans)

lemma table_le_map: "(\<And>r. r \<in> set t \<Longrightarrow> row_le r (g r)) \<Longrightarrow> table_le t (map g t)"
  by (auto simp: table_le_def)

lemma table_le_update: "(\<And>r. r \<in> set t \<Longrightarrow> P r \<Longrightarrow> row_le r (f r)) \<Longrightarrow> table_le t (update_where P f t)"
  unfolding update_where_def by (rule table_le_map) simp

lemma table_le_replace: "row_le x x' \<Longrightarrow> table_le t (replace_row x x' t)"
  unfolding replace_row_def by (rule table_le_map) auto

lemma table_le_append: "table_le t (t @ rs)"
  by (auto simp: table_le_def intro: row_le_refl)

lemma row_le_annotate:
  "row_le r (r\<lparr>inc_decision_context := ctx, inc_updated_at := updated, inc_notified_at := notified\<rparr>)"
  by (auto simp: row_le_def)

lemma row_le_context: "row_le r (r\<lparr>inc_decision_context := ctx\<rparr>)"
  using row_le_annotate [where r = r and ctx = ctx and updated = "inc_updated_at r" and notified = "inc_notified_at r"]
  by simp

lemma record_problem_incident_le:
  assumes "record_problem_incident now new_id i t = Inr (t', wr)" "table_inv t"
  shows "table_le t t'"
  using assms(1) table_inv_unique [OF assms(2)]
proof (cases rule: record_problem_incident_cases)
  case (inserted w)
  then show ?thesis by (simp add: table_le_append)
next
  case (updated r w replay inside counted ctx)
  show ?thesis
    unfolding updated(6)
  proof (rule table_le_update)
    fix x assume "x \<in> set t" "inc_id x = inc_id r"
    then have "x = r" using same_id_same_row [OF table_inv_unique [OF assms(2)] _ updated(1)] by blast
    with updated(2) show "row_le x (problem_update now r i w counted ctx x)"
      by (simp add: row_le_def problem_update_def max_severity_str_def)
  qed
qed

lemma recovery_step_le:
  assumes "recovery_step now P x x' y" "inc_open x"
  shows "row_le x x'"
  using assms(1)
proof (cases rule: recovery_step_cases)
  case (recovered w ctx)
  have "row_le x (recovered_row now P w ctx x)"
    using assms(2) by (simp add: recovered_row_def row_le_def Let_def)
  with recovered show ?thesis by simp
qed (simp add: row_le_def)

lemma expire_step_le: "expire_step now x x' y \<Longrightarrow> inc_open x \<Longrightarrow> row_le x x'"
  by (auto simp: expire_step_def close_row_def row_le_def)

lemma acknowledged_row_le: "inc_open x \<Longrightarrow> row_le x (acknowledged_row now op ctx x)"
  by (auto simp: acknowledged_row_def row_le_def)

lemma close_row_le: "inc_open x \<Longrightarrow> row_le x (close_row now s ctx x)"
  by (simp add: close_row_def row_le_def)

lemma loop_table_le:
  assumes "t' = map (\<lambda>r. if r \<in> set xs then h r else r) t" "\<forall>x \<in> set xs. row_le x (h x)"
  shows "table_le t t'"
  unfolding assms(1) using assms(2) by (intro table_le_map) simp

end
