(* ===== verification/System.thy ===== *)
theory System
  imports ManagerFacts
begin

text \<open>
  The incident table as a state machine: every committed transaction of the services is a
  step, a transaction that raises leaves the table as it was, and the histories of the system
  are the runs of steps from an empty table.  The label of a step is the incident for which the
  caller plans a notification dispatch.
\<close>

section \<open>Steps\<close>

definition planned_dispatch :: "aggregation_result \<Rightarrow> uuid option" where
  "planned_dispatch r = (if ar_dispatch_planned r then Some (ar_incident_id r) else None)"

inductive db_step :: "incident_table \<Rightarrow> uuid option \<Rightarrow> incident_table \<Rightarrow> bool" where
  problem: "apply_problem now new_id h e d ms t = (ms', Inr (t', r)) \<Longrightarrow>
    db_step t (planned_dispatch r) t'"
| recovery: "resolve_for_event now e ms t = (ms', Inr (t', lr)) \<Longrightarrow> db_step t None t'"
| acknowledged: "acknowledge ok now ident operator ms t = (ms', Inr (t', lr)) \<Longrightarrow> db_step t None t'"
| closed: "manual_close ok now ident operator reason ms t = (ms', Inr (t', lr)) \<Longrightarrow> db_step t None t'"
| expired: "expire_stale_batch ok now limit ms t = (ms', Inr (t', n)) \<Longrightarrow> db_step t None t'"
| delivery: "record_notification_result now ident plugin res t = Inr (t', b) \<Longrightarrow> db_step t None t'"
| rolled_back: "db_step t None t"

inductive db_run :: "incident_table \<Rightarrow> uuid list \<Rightarrow> incident_table \<Rightarrow> bool" where
  start: "db_run t [] t"
| step: "db_run t ds t1 \<Longrightarrow> db_step t1 l t2 \<Longrightarrow>
    db_run t (case l of None \<Rightarrow> ds | Some d \<Rightarrow> ds @ [d]) t2"

section \<open>One step\<close>

lemma ack_le: "ack_open_incident now ident op t = Inr (t', res) \<Longrightarrow> table_inv t \<Longrightarrow> table_le t t'"
  by (erule ack_open_incident_cases) (auto simp: table_inv_unique intro: table_le_replace acknowledged_row_le)

lemma close_le: "close_open_incident now ident op reason t = Inr (t', res) \<Longrightarrow> table_inv t \<Longrightarrow> table_le t t'"
  by (erule close_open_incident_cases) (auto simp: table_inv_unique intro: table_le_replace close_row_le)

lemma ack_inv:
  assumes "ack_open_incident now ident op t = Inr (t', res)" "table_inv t"
  shows "table_inv t'"
  using assms(1) table_inv_unique [OF assms(2)]
proof (cases rule: ack_open_incident_cases)
  case (acked r ctx)
  show ?thesis
    unfolding acked(5) using acked(3,4) table_inv_row [OF assms(2) acked(1)]
    by (intro table_inv_replace [OF assms(2)] acknowledged_row_inv) (simp_all add: acknowledged_row_def)
qed (use assms(2) in simp_all)

lemma close_inv:
  assumes "close_open_incident now ident op reason t = Inr (t', res)" "table_inv t"
  shows "table_inv t'"
  using assms(1) table_inv_unique [OF assms(2)]
proof (cases rule: close_open_incident_cases)
  case (closed r ctx)
  show ?thesis
    unfolding closed(5) using closed(3,4) table_inv_row [OF assms(2) closed(1)]
    by (intro table_inv_replace [OF assms(2)] close_row_inv) (simp_all add: close_row_def)
qed (use assms(2) in simp_all)

lemma recovery_loop_facts:
  assumes "rloop body xs t = Inr (t', ys)" "table_inv t"
    and "row_loop body (recovery_step now P)"
    and "xs = select_where (\<lambda>r. inc_open r \<and> Q r) t"
  shows "table_inv t' \<and> table_le t t'"
proof -
  note uniq = table_inv_unique [OF assms(2)]
  have xs: "distinct xs" "set xs \<subseteq> {r \<in> set t. inc_open r}"
    using distinct_candidates [OF uniq] by (auto simp: assms(4) select_where_def)
  have "table_inv t'"
    by (rule row_loop.loop_inv [OF assms(3,1,2) xs]) (use xs(2) recovery_step_inv in \<open>auto simp: subset_iff\<close>)
  moreover obtain h out where h: "\<forall>x \<in> set xs. recovery_step now P x (h x) (out x)"
    "t' = map (\<lambda>r. if r \<in> set xs then h r else r) t"
    using row_loop.loop_map [OF assms(3,1) uniq xs] by blast
  have "table_le t t'"
    by (rule loop_table_le [OF h(2)]) (use h(1) xs(2) recovery_step_le in blast)
  ultimately show ?thesis by simp
qed

lemma recovery_writes_facts:
  assumes "recovery_writes now e t = Inr (t', ws)" "table_inv t"
  shows "table_inv t' \<and> table_le t t'"
proof (cases "ev_service e")
  case None
  with assms(1) show ?thesis
    by (intro recovery_loop_facts [OF _ assms(2) host_recovery.row_loop_axioms])
      (auto simp: recovery_writes_def resolve_host_recovery_def)
next
  case (Some s)
  with assms(1) show ?thesis
    by (intro recovery_loop_facts [OF _ assms(2) service_recovery.row_loop_axioms])
      (auto simp: recovery_writes_def resolve_service_recovery_def)
qed

lemma expire_facts:
  assumes "expire_stale_incidents now limit t = Inr (t', es)" "table_inv t"
  shows "table_inv t' \<and> table_le t t'"
proof (cases "limit < 1")
  case True
  with assms show ?thesis by (simp add: expire_stale_incidents_def)
next
  case False
  with assms(1) obtain xs where xs: "stale_candidates now limit t = Inr xs"
    and loop: "rloop (expire_incident now) xs t = Inr (t', es)"
    by (auto simp: expire_stale_incidents_def result_simps)
  note uniq = table_inv_unique [OF assms(2)] and c = stale_candidates_open [OF table_inv_unique [OF assms(2)] xs]
  have "table_inv t'"
    by (rule expiration.loop_inv [OF loop assms(2) c(1,2)])
      (use c(2) in \<open>auto simp: expire_step_def close_row_inv subset_iff\<close>)
  moreover obtain h out where h: "\<forall>x \<in> set xs. expire_step now x (h x) (out x)"
    "t' = map (\<lambda>r. if r \<in> set xs then h r else r) t"
    using expiration.loop_map [OF loop uniq c(1,2)] by blast
  have "table_le t t'"
    by (rule loop_table_le [OF h(2)]) (use h(1) c(2) expire_step_le in blast)
  ultimately show ?thesis by simp
qed

lemma validated_notification_context_ok:
  "validated_notification_context ctx plugin res = Inr ctx' \<Longrightarrow> decision_context_ok ctx'"
  unfolding validated_notification_context_def Let_def rbind_eq_Inr using decision_context_validate_ok by blast

lemma notification_facts:
  assumes "record_notification_result now ident plugin res t = Inr (t', b)" "table_inv t"
  shows "table_inv t' \<and> table_le t t'"
proof (cases "select_where (\<lambda>r. inc_id r = ident) t")
  case Nil
  with assms show ?thesis by (simp add: record_notification_result_def)
next
  case (Cons r rs)
  with assms(1) obtain ctx where ctx: "decision_context_ok ctx"
    and t': "t' = update_where (\<lambda>r. inc_id r = ident)
                 (\<lambda>r. r\<lparr>inc_decision_context := ctx, inc_updated_at := now,
                        inc_notified_at := (if nr_success res then Some now else inc_notified_at r)\<rparr>) t"
    by (auto simp: record_notification_result_def result_simps dest: validated_notification_context_ok)
  have "table_inv t'"
    unfolding t'
  proof (rule table_inv_update [OF assms(2)])
    fix r assume "r \<in> set t"
    then have "incident_inv r" by (rule table_inv_row [OF assms(2)])
    then show "incident_inv (r\<lparr>inc_decision_context := ctx, inc_updated_at := now,
                        inc_notified_at := (if nr_success res then Some now else inc_notified_at r)\<rparr>)"
      using ctx by (cases "inc_window_state r") (auto simp: incident_inv_def)
  qed simp_all
  moreover have "table_le t t'" unfolding t' by (rule table_le_update) (rule row_le_annotate)
  ultimately show ?thesis by simp
qed

lemma apply_problem_facts:
  assumes "apply_problem now new_id h e d ms t = (ms', Inr (t', r))" "table_inv t"
  shows "table_inv t'" "table_le t t'"
    "\<exists>x \<in> set t'. inc_id x = ar_incident_id r \<and> (ar_dispatch_planned r \<longrightarrow> inc_threshold_crossed x)"
    "ar_dispatch_planned r \<Longrightarrow> x \<in> set t \<Longrightarrow> inc_id x = ar_incident_id r \<Longrightarrow> \<not> inc_threshold_crossed x"
proof -
  from assms(1) obtain t1 wr td ctx where w: "write_problem now new_id h e d t = Inr (t1, wr, td)"
    and ctx: "manager_decision_context h e d (Some wr) (no_dispatch_reason wr) = Inr ctx"
    and t': "t' = update_where (\<lambda>r. inc_id r = inc_id (wr_incident wr)) (\<lambda>r. r\<lparr>inc_decision_context := ctx\<rparr>) t1"
    and r: "ar_incident_id r = inc_id (wr_incident wr)" "ar_dispatch_planned r = (no_dispatch_reason wr = None)"
    by (rule apply_problemD)
  from w obtain i where i: "upsert_input_ok i" "input_context_ok i"
    and rp: "record_problem_incident now new_id i t = Inr (t1, wr)"
    by (rule write_problemD)
  have inv1: "table_inv t1" and le1: "table_le t t1"
    and mem: "wr_incident wr \<in> set t1"
    and crossed: "wr_first_threshold_transition wr \<Longrightarrow> inc_threshold_crossed (wr_incident wr)"
    and first: "wr_first_threshold_transition wr \<Longrightarrow> x \<in> set t \<Longrightarrow> inc_id x = inc_id (wr_incident wr) \<Longrightarrow>
        \<not> inc_threshold_crossed x"
  proof -
    show "table_le t t1" using record_problem_incident_le [OF rp assms(2)] .
    from rp table_inv_unique [OF assms(2)]
    have "table_inv t1 \<and> wr_incident wr \<in> set t1 \<and>
      (wr_first_threshold_transition wr \<longrightarrow> inc_threshold_crossed (wr_incident wr) \<and>
       (\<forall>x \<in> set t. inc_id x = inc_id (wr_incident wr) \<longrightarrow> \<not> inc_threshold_crossed x))"
    proof (cases rule: record_problem_incident_cases)
      case (inserted w)
      have "table_inv t1"
        using record_problem_table_inv [OF rp assms(2) i] .
      with inserted show ?thesis by (auto simp: problem_row_def)
    next
      case (updated r w replay inside counted ctx)
      have id: "inc_id (problem_update now r i w counted ctx x) = inc_id x" for x by (simp add: problem_update_def)
      have "wr_incident wr \<in> set t1" using updated(1,6,7) by (auto simp: update_where_def)
      moreover have "x = r" if "x \<in> set t" "inc_id x = inc_id r" for x
        using same_id_same_row [OF table_inv_unique [OF assms(2)] that(1) updated(1) that(2)] .
      moreover have "table_inv t1"
        using record_problem_table_inv [OF rp assms(2) i] .
      ultimately show ?thesis using updated(7,13) id by auto
    qed
    then show "table_inv t1" "wr_incident wr \<in> set t1"
      "wr_first_threshold_transition wr \<Longrightarrow> inc_threshold_crossed (wr_incident wr)"
      "wr_first_threshold_transition wr \<Longrightarrow> x \<in> set t \<Longrightarrow> inc_id x = inc_id (wr_incident wr) \<Longrightarrow>
        \<not> inc_threshold_crossed x" by blast+
  qed
  show "table_inv t'" unfolding t' by (rule context_update_inv [OF inv1 manager_context_ok [OF ctx]])
  show "table_le t t'"
    using le1 unfolding t' by (rule table_le_trans) (rule table_le_update, rule row_le_context)
  show "\<exists>x \<in> set t'. inc_id x = ar_incident_id r \<and> (ar_dispatch_planned r \<longrightarrow> inc_threshold_crossed x)"
    using mem crossed by (intro bexI [of _ "(wr_incident wr)\<lparr>inc_decision_context := ctx\<rparr>"])
      (auto simp: t' r update_where_def no_dispatch_reason_None intro!: image_eqI [of _ _ "wr_incident wr"])
  show "ar_dispatch_planned r \<Longrightarrow> x \<in> set t \<Longrightarrow> inc_id x = ar_incident_id r \<Longrightarrow> \<not> inc_threshold_crossed x"
    using first by (auto simp: r no_dispatch_reason_None)
qed

lemma db_step_facts:
  assumes "db_step t l t'" "table_inv t"
  shows "table_inv t' \<and> table_le t t' \<and>
    (\<forall>d. l = Some d \<longrightarrow> (\<exists>x \<in> set t'. inc_id x = d \<and> inc_threshold_crossed x) \<and>
       (\<forall>x \<in> set t. inc_id x = d \<longrightarrow> \<not> inc_threshold_crossed x))"
  using assms
proof (cases rule: db_step.cases)
  case (problem now new_id h e d ms ms' r)
  note f = apply_problem_facts [OF problem(2) assms(2)]
  show ?thesis
    unfolding problem(1) planned_dispatch_def using f by auto
next
  case (recovery now e ms ms' lr)
  then obtain ws where "recovery_writes now e t = Inr (t', ws)"
    by (auto simp: resolve_for_event_def split: if_splits sum.splits)
  with recovery(1) recovery_writes_facts [OF _ assms(2)] show ?thesis by simp
next
  case (acknowledged ok now ident operator ms ms' lr)
  then obtain res where "ack_open_incident now ident operator t = Inr (t', res)"
    by (auto simp: acknowledge_def finish_action_def split: if_splits sum.splits option.splits)
  with acknowledged(1) ack_le ack_inv assms(2) show ?thesis by blast
next
  case (closed ok now ident operator reason ms ms' lr)
  then obtain res where "close_open_incident now ident operator reason t = Inr (t', res)"
    by (auto simp: manual_close_def finish_action_def split: if_splits sum.splits option.splits)
  with closed(1) close_le close_inv assms(2) show ?thesis by blast
next
  case (expired ok now limit ms ms' n)
  then obtain es where "expire_stale_incidents now limit t = Inr (t', es)"
    by (auto simp: expire_stale_batch_def split: if_splits sum.splits)
  with expired(1) expire_facts [OF _ assms(2)] show ?thesis by simp
next
  case (delivery now ident plugin res b)
  with notification_facts [OF delivery(2) assms(2)] show ?thesis by simp
next
  case rolled_back
  with assms(2) show ?thesis by simp
qed

section \<open>Properties of all histories\<close>

lemma db_run_inv: "db_run t ds t' \<Longrightarrow> table_inv t \<Longrightarrow> table_inv t'"
  by (induction rule: db_run.induct) (use db_step_facts in blast)+

lemma db_run_le: "db_run t ds t' \<Longrightarrow> table_inv t \<Longrightarrow> table_le t t'"
proof (induction rule: db_run.induct)
  case (step t ds t1 l t2)
  with db_step_facts [OF step(2)] db_run_inv [OF step(1)] show ?case by (blast intro: table_le_trans)
qed simp

text \<open>
  C1: the invariant of the incident table holds in every history of the system: whatever
  problems, recoveries, operator actions, expirations, notification results and rolled-back
  transactions happen and in whatever order, identifiers are unique, no rule and group key has two
  open incidents, and every row is well formed.
\<close>

theorem reachable_table_inv:
  assumes "db_run [] ds t"
  shows "table_inv t"
  by (rule db_run_inv [OF assms]) simp

text \<open>
  C3: history only moves forward.  No step ever removes an incident, changes its identity
  or start, lowers its event count, severity or last update, or takes back a crossed threshold or
  an acknowledgement; a resolved or closed incident never changes again, its notification record
  apart.
\<close>

theorem history_monotone:
  assumes "db_run [] ds t1" "db_run t1 ds' t2" "r \<in> set t1"
  shows "\<exists>r' \<in> set t2. row_le r r'"
proof -
  have "table_inv t1" by (rule db_run_inv [OF assms(1)]) simp
  with db_run_le [OF assms(2)] assms(3) show ?thesis by (auto simp: table_le_def)
qed

lemma not_dispatched_again:
  assumes "db_run t ds t'" "table_inv t" "x \<in> set t" "inc_threshold_crossed x"
  shows "inc_id x \<notin> set ds"
  using assms
proof (induction rule: db_run.induct)
  case (step t ds t1 l t2)
  have inv: "table_inv t1" and le: "table_le t t1"
    using db_run_inv [OF step(1)] db_run_le [OF step(1)] step(4) by blast+
  from le step(5,6) obtain x' where "x' \<in> set t1" "inc_id x' = inc_id x" "inc_threshold_crossed x'"
    by (auto simp: table_le_def row_le_def)
  with db_step_facts [OF step(2) inv] have "l \<noteq> Some (inc_id x)" by metis
  with step show ?case by (auto split: option.split)
qed simp

lemma dispatched_once:
  assumes "db_run t ds t'" "table_inv t" "\<forall>r \<in> set t. \<not> inc_threshold_crossed r"
  shows "distinct ds \<and> (\<forall>d \<in> set ds. \<exists>r \<in> set t'. inc_id r = d \<and> inc_threshold_crossed r)"
  using assms
proof (induction rule: db_run.induct)
  case (step t ds t1 l t2)
  have inv: "table_inv t1" using db_run_inv [OF step(1)] step(4) by blast
  note f = db_step_facts [OF step(2) inv]
  have IH: "distinct ds" "\<forall>d \<in> set ds. \<exists>r \<in> set t1. inc_id r = d \<and> inc_threshold_crossed r"
    using step by blast+
  have keep: "\<forall>d \<in> set ds. \<exists>r \<in> set t2. inc_id r = d \<and> inc_threshold_crossed r"
  proof
    fix d assume "d \<in> set ds"
    then obtain r where r: "r \<in> set t1" "inc_id r = d" "inc_threshold_crossed r" using IH(2) by blast
    with f obtain r' where "r' \<in> set t2" "row_le r r'" by (auto simp: table_le_def)
    with r show "\<exists>r \<in> set t2. inc_id r = d \<and> inc_threshold_crossed r" by (auto simp: row_le_def)
  qed
  show ?case
  proof (cases l)
    case (Some d)
    have "d \<notin> set ds" using f IH(2) unfolding Some by blast
    with Some IH(1) keep f show ?thesis by auto
  qed (use IH(1) keep in simp)
qed simp

text \<open>
  C2: a notification dispatch is planned at most once for an incident, over every history:
  replays, re-deliveries and late events after the threshold was crossed never plan a second one,
  and an incident with a planned dispatch has crossed its threshold for good.
\<close>

theorem dispatch_planned_at_most_once:
  assumes "db_run [] ds t"
  shows "distinct ds \<and> (\<forall>d \<in> set ds. \<exists>r \<in> set t. inc_id r = d \<and> inc_threshold_crossed r)"
  by (rule dispatched_once [OF assms]) simp_all

end
