(* ===== verification/ManagerProps.thy ===== *)
theory ManagerProps
  imports System
begin

text \<open>
  When a notification dispatch is planned, and what an aggregation keeps of the notification
  results already recorded.
\<close>

section \<open>Delivery results survive aggregation\<close>

lemma results_decision_context_dump:
  "up_decision_context i = Some d \<Longrightarrow> dc_results d = Some [] \<Longrightarrow> dc_results (decision_context_dump i) = None"
  by (simp add: decision_context_dump_def results_list_def)

lemma manager_context_results:
  assumes "manager_decision_context h e d wr reason = Inr ctx"
  shows "dc_results ctx = Some (case wr of None \<Rightarrow> [] | Some w \<Rightarrow> results_list (inc_decision_context (wr_incident w)))"
  using assms
  by (cases wr) (auto simp: manager_decision_context_def result_simps results_list_def split: option.splits)

lemma write_problem_input:
  assumes "write_problem now new_id h e d t = Inr (t', wr, td)"
  obtains ctx i where "manager_decision_context h e d None None = Inr ctx" "problem_input e d ctx = Inr i"
    "up_decision_context i = Some ctx" "record_problem_incident now new_id i t = Inr (t', wr)"
  using assms
  by (auto simp: write_problem_def problem_input_def upsert_input_init_def result_simps Let_def)

lemma preserve_results_list:
  assumes "preserve_notification_delivery_results old new = Inr c" "dc_results new = None"
  shows "results_list c = results_list old"
  using assms
  by (auto simp: preserve_notification_delivery_results_def results_list_def result_simps split: option.splits)

text \<open>
  Aggregating further events into an incident never loses a recorded notification
  result: after the service has rewritten the decision context, the results are those the row
  held before, and none for a new incident.
\<close>

lemma apply_problem_keeps_results:
  assumes "apply_problem now new_id h e d ms t = (ms', Inr (t', r))" "table_inv t"
  shows "\<exists>x' \<in> set t'. inc_id x' = ar_incident_id r \<and>
    (if ar_incident_id r \<in> inc_id ` set t
     then \<exists>x \<in> set t. inc_id x = ar_incident_id r \<and>
       results_list (inc_decision_context x') = results_list (inc_decision_context x)
     else results_list (inc_decision_context x') = [])"
proof -
  from assms(1) obtain t1 wr td ctx where w: "write_problem now new_id h e d t = Inr (t1, wr, td)"
    and ctx: "manager_decision_context h e d (Some wr) (no_dispatch_reason wr) = Inr ctx"
    and t': "t' = update_where (\<lambda>r. inc_id r = inc_id (wr_incident wr)) (\<lambda>r. r\<lparr>inc_decision_context := ctx\<rparr>) t1"
    and r: "ar_incident_id r = inc_id (wr_incident wr)"
    by (rule apply_problemD)
  from w obtain ctx0 i where c0: "manager_decision_context h e d None None = Inr ctx0"
    and i: "up_decision_context i = Some ctx0"
    and rp: "record_problem_incident now new_id i t = Inr (t1, wr)"
    by (rule write_problem_input)
  have dump: "dc_results (decision_context_dump i) = None"
    using results_decision_context_dump [OF i] manager_context_results [OF c0] by simp
  have res: "results_list ctx = results_list (inc_decision_context (wr_incident wr))"
    using manager_context_results [OF ctx] by (simp add: results_list_def)
  have key: "wr_incident wr \<in> set t1 \<and>
    (if inc_id (wr_incident wr) \<in> inc_id ` set t
     then \<exists>x \<in> set t. inc_id x = inc_id (wr_incident wr) \<and>
       results_list (inc_decision_context (wr_incident wr)) = results_list (inc_decision_context x)
     else results_list (inc_decision_context (wr_incident wr)) = [])"
    using rp table_inv_unique [OF assms(2)]
  proof (cases rule: record_problem_incident_cases)
    case (inserted w)
    then show ?thesis using dump by (simp add: problem_row_def results_list_def)
  next
    case (updated x w replay inside counted c)
    have "wr_incident wr \<in> set t1" using updated(1,6,7) by (auto simp: update_where_def)
    moreover have "inc_id (wr_incident wr) = inc_id x" "inc_decision_context (wr_incident wr) = c"
      using updated(7) by (simp_all add: problem_update_def)
    ultimately show ?thesis using updated(1) preserve_results_list [OF updated(5) dump] by auto
  qed
  let ?x' = "(wr_incident wr)\<lparr>inc_decision_context := ctx\<rparr>"
  have "?x' \<in> set t'" using key by (auto simp: t' update_where_def)
  with key res r show ?thesis by (intro bexI [of _ ?x']) (auto split: if_splits)
qed

section \<open>When a dispatch is planned\<close>

lemma replay_keeps_count:
  assumes "next_window_state r i = Inr (w, True, inside, counted)" "inc_window_state r = Some old" "window_inv old"
  shows "ws_counted_count w \<le> ws_counted_count old"
proof -
  from assms(1,2) obtain fp where
    slide: "slide_window old
       (max (inc_last_update_time r) (instant (up_event_time i)) - up_window_seconds i * second)
       (max (inc_last_update_time r) (instant (up_event_time i))) fp i = (w, True, inside, counted)"
    by (auto elim: next_window_stateD)
  note f = slide_window_fields [OF slide]
  have "\<not> counted" using f(11) by simp
  then obtain a b where w: "ws_counted w = sort (newest_entries (up_max_window_fingerprints i) (retained_entries old a b))"
    using slide [symmetric] by (simp add: slide_window_def Let_def)
  have "length (newest_entries n xs) \<le> length xs" for n xs
    by (auto simp: newest_entries_def)
  also have "length (retained_entries old a b) \<le> length (ws_counted old)"
    by (simp add: retained_entries_def)
  finally have "length (ws_counted w) \<le> length (ws_counted old)" by (simp add: w)
  then show ?thesis using f(5) window_invD(3) [OF assms(3)] by simp
qed

lemma first_transition_not_replay:
  assumes "record_problem_incident now new_id i t = Inr (t', wr)" "table_inv t"
    and "\<forall>x \<in> set t. \<forall>w. inc_open x \<longrightarrow> inc_key x = (up_rule_name i, up_group_key i) \<longrightarrow>
      inc_window_state x = Some w \<longrightarrow> ws_threshold_count w = up_threshold_count i"
    and "wr_first_threshold_transition wr"
  shows "\<not> wr_replay wr"
  using assms(1) table_inv_unique [OF assms(2)]
proof (cases rule: record_problem_incident_cases)
  case (inserted w)
  then show ?thesis by simp
next
  case (updated r w replay inside counted ctx)
  have inv: "incident_inv r" by (rule table_inv_row [OF assms(2) updated(1)])
  then obtain old where old: "inc_window_state r = Some old" "window_inv old"
    "ws_threshold_count old \<le> ws_counted_count old \<Longrightarrow> inc_threshold_crossed r"
    by (rule incident_invD) blast
  have nc: "\<not> inc_threshold_crossed r" and crossed: "inc_threshold_crossed (wr_incident wr)"
    using updated(13) assms(4) by auto
  have th: "ws_threshold_count old = up_threshold_count i"
    using assms(3) updated(1-3) old(1) by blast
  have "ws_threshold_count w = up_threshold_count i"
    using updated(4) by (elim next_window_stateD) (use slide_window_fields(4) in blast)
  with crossed nc updated(7) have "up_threshold_count i \<le> ws_counted_count w"
    by (simp add: problem_update_def)
  moreover have "ws_counted_count old < up_threshold_count i"
    using old(3) nc th by linarith
  ultimately have "\<not> ws_counted_count w \<le> ws_counted_count old" by simp
  with replay_keeps_count [OF _ old(1,2)] updated(4,9) show ?thesis by auto
qed

text \<open>
  With an unchanged rule threshold, a dispatch is planned exactly when the event makes
  its incident cross the threshold for the first time.
\<close>

lemma dispatch_planned_iff_first_transition:
  assumes "apply_problem now new_id h e d ms t = (ms', Inr (t', r))" "table_inv t"
    and "\<forall>x \<in> set t. \<forall>w. inc_open x \<longrightarrow> inc_key x = (rm_rule_name d, rm_group_key d) \<longrightarrow>
      inc_window_state x = Some w \<longrightarrow> ws_threshold_count w = rw_trigger_threshold (rm_window d)"
  shows "ar_dispatch_planned r \<longleftrightarrow> ar_first_threshold_transition r"
proof -
  from assms(1) obtain t1 wr td where w: "write_problem now new_id h e d t = Inr (t1, wr, td)"
    and r: "ar_dispatch_planned r = (no_dispatch_reason wr = None)"
      "ar_first_threshold_transition r = wr_first_threshold_transition wr"
    by (elim apply_problemD) metis
  from w obtain i where i: "up_rule_name i = rm_rule_name d" "up_group_key i = rm_group_key d"
    "up_threshold_count i = rw_trigger_threshold (rm_window d)"
    and rp: "record_problem_incident now new_id i t = Inr (t1, wr)"
    by (rule write_problemD) blast
  have "\<not> wr_replay wr" if "wr_first_threshold_transition wr"
    using first_transition_not_replay [OF rp assms(2) _ that] assms(3) i by simp
  then show ?thesis by (auto simp: r no_dispatch_reason_None)
qed

text \<open>
  C32: when the threshold of a rule was lowered, a replayed event can be the one that crosses
  it.  The service then reports \<open>replay\<close> and plans nothing, and since the mark is set, no later
  history ever plans a dispatch for that incident: its notification is lost.
\<close>

theorem replay_crossing_never_notifies:
  assumes "apply_problem now new_id h e d ms t = (ms', Inr (t', r))" "table_inv t"
    and "ar_replay r" "ar_first_threshold_transition r" "db_run t' ds t''"
  shows "\<not> ar_dispatch_planned r \<and> ar_incident_id r \<notin> set ds"
proof -
  from assms(1) obtain t1 wr td ctx where w: "write_problem now new_id h e d t = Inr (t1, wr, td)"
    and t': "t' = update_where (\<lambda>r. inc_id r = inc_id (wr_incident wr)) (\<lambda>r. r\<lparr>inc_decision_context := ctx\<rparr>) t1"
    and r: "ar_incident_id r = inc_id (wr_incident wr)" "ar_dispatch_planned r = (no_dispatch_reason wr = None)"
      "ar_first_threshold_transition r = wr_first_threshold_transition wr" "ar_replay r = wr_replay wr"
    by (elim apply_problemD) metis
  from w obtain i where rp: "record_problem_incident now new_id i t = Inr (t1, wr)"
    by (rule write_problemD) blast
  have "\<exists>x \<in> set t1. inc_id x = inc_id (wr_incident wr) \<and> inc_threshold_crossed x"
    using rp table_inv_unique [OF assms(2)]
  proof (cases rule: record_problem_incident_cases)
    case (inserted w)
    with assms(3) r(4) show ?thesis by simp
  next
    case (updated x w replay inside counted c)
    have "wr_incident wr \<in> set t1" using updated(1,6,7) by (auto simp: update_where_def)
    with updated(13) assms(4) r(3) show ?thesis by blast
  qed
  then obtain x where x: "x \<in> set t'" "inc_id x = ar_incident_id r" "inc_threshold_crossed x"
    by (force simp: t' update_where_def r(1))
  have "table_inv t'" using apply_problem_facts(1) [OF assms(1,2)] .
  from not_dispatched_again [OF assms(5) this x(1,3)] have "ar_incident_id r \<notin> set ds" by (simp add: x(2))
  then show ?thesis using assms(3) r by (simp add: no_dispatch_reason_def)
qed

end
