(* ===== verification/DemoData.thy ===== *)
theory DemoData
  imports ManagerProps
begin

text \<open>
  Concrete rows, events and rule matches: the inputs at which the properties are applied in the
  theories of witnesses.
\<close>

definition demo_start :: int where
  "demo_start = 1700000000000000"

definition demo_time :: "int \<Rightarrow> datetime" where
  "demo_time n = utc_datetime (demo_start + n * second)"

definition demo_window :: "int \<Rightarrow> window_state" where
  "demo_window threshold =
     \<lparr>ws_window_started_at = demo_start - 300 * second, ws_window_ended_at = demo_start,
      ws_window_seconds = 300, ws_threshold_count = threshold,
      ws_counted = [(''fp1'', demo_start)], ws_counted_count = 1, ws_max_size = 100,
      ws_active_objects = [IncidentObject ''web1'' None]\<rparr>"

definition demo_row :: "int \<Rightarrow> incident" where
  "demo_row threshold =
     \<lparr>inc_id = 5, inc_rule_name = ''hosts'', inc_group_key = ''host=web1'', inc_status = OPEN,
      inc_severity = ''WARNING'', inc_summary = ''host down'', inc_event_count = 1,
      inc_affected_hosts = [''web1''], inc_affected_services = [],
      inc_decision_context = empty_context, inc_window_state = Some (demo_window threshold),
      inc_threshold_crossed = (threshold \<le> 1), inc_notified_at = None,
      inc_start_time = demo_start, inc_last_update_time = demo_start, inc_acknowledged_at = None,
      inc_acknowledged_by = None, inc_resolved_at = None, inc_closed_at = None,
      inc_created_at = demo_start, inc_updated_at = demo_start\<rparr>"

definition demo_service_row :: incident where
  "demo_service_row = (demo_row 1)\<lparr>inc_window_state := Some (demo_window 1\<lparr>ws_active_objects :=
     [IncidentObject ''web1'' None, IncidentObject ''web1'' (Some ''ping'')]\<rparr>),
     inc_affected_services := [''ping'']\<rparr>"

text \<open>Two stale incidents; the rule of the first has a name that lifecycle notes reject.\<close>

definition demo_blocked_row :: incident where
  "demo_blocked_row = (demo_row 1)\<lparr>inc_rule_name := ''token-service''\<rparr>"

definition demo_second_row :: incident where
  "demo_second_row = (demo_row 1)\<lparr>inc_id := 8\<rparr>"

definition demo_input :: upsert_input where
  "demo_input =
     \<lparr>up_rule_name = ''hosts'', up_group_key = ''host=web1'', up_severity = CRITICAL,
      up_event_time = demo_time 60, up_summary = ''host down'', up_affected_hosts = [''web1''],
      up_affected_services = [], up_decision_context = None, up_fingerprint = Some ''fp2'',
      up_threshold_count = 2, up_window_seconds = 300, up_max_window_fingerprints = 100\<rparr>"

definition demo_event :: "string \<Rightarrow> int \<Rightarrow> event_type \<Rightarrow> normalized_event" where
  "demo_event fp n ty =
     \<lparr>ev_fingerprint = fp, ev_source_id = ''icinga'', ev_host = ''web1'', ev_service = None,
      ev_severity = CRITICAL, ev_event_type = ty, ev_timestamp = demo_time n, ev_tags = [],
      ev_message = ''down'', ev_ip_address = None\<rparr>"

definition demo_match :: "int \<Rightarrow> rule_match" where
  "demo_match n =
     \<lparr>rm_rule_name = ''hosts'', rm_priority = 1, rm_matched_rules = [''hosts''],
      rm_group_key = ''host=web1'',
      rm_window = \<lparr>rw_duration_seconds = 300, rw_group_by = [''host''], rw_trigger_threshold = n\<rparr>,
      rm_summary = ''host down'', rm_actions = [''mail'']\<rparr>"

lemma table_inv_demo_row: "table_inv [demo_row 1]" "table_inv [demo_row 2]"
  by code_simp+

lemma table_inv_demo_service_row: "table_inv [demo_service_row]"
  by code_simp

lemma table_inv_demo_blocked: "table_inv [demo_blocked_row, demo_second_row]"
  by code_simp

lemma table_inv_Nil_demo: "table_inv []"
  by code_simp

lemma demo_input_ok: "upsert_input_ok demo_input" "input_context_ok demo_input"
proof -
  have "nonblank ''fp2''" "is_aware (demo_time 60)" by code_simp+
  then show "upsert_input_ok demo_input"
    by (simp add: upsert_input_ok_def demo_input_def max_window_fingerprints_def)
  show "input_context_ok demo_input" by (simp add: input_context_ok_def demo_input_def)
qed

lemma not_isl_Inr: "\<not> isl x \<Longrightarrow> \<exists>y. x = Inr y"
  by (cases x) auto

definition demo_next :: window_state where
  "demo_next =
     \<lparr>ws_window_started_at = demo_start - 240 * second, ws_window_ended_at = demo_start + 60 * second,
      ws_window_seconds = 300, ws_threshold_count = 2,
      ws_counted = [(''fp1'', demo_start), (''fp2'', demo_start + 60 * second)], ws_counted_count = 2,
      ws_max_size = 100, ws_active_objects = [IncidentObject ''web1'' None]\<rparr>"

lemma demo_next_window: "next_window_state (demo_row 1) demo_input = Inr (demo_next, False, True, True)"
  by code_simp

lemma demo_record: "\<exists>x. record_problem_incident 7 6 demo_input [demo_row 1] = Inr x"
  by (rule not_isl_Inr) code_simp

lemma demo_host_recovery:
  "\<exists>x. resolve_host_recovery 7 ''web1'' (demo_time 60) ''fp2'' ''icinga'' [demo_row 1] = Inr x"
  by (rule not_isl_Inr) code_simp

lemma demo_service_recovery:
  "\<exists>x. resolve_service_recovery 7 ''web1'' ''ping'' (demo_time 60) ''fp2'' ''icinga''
     [demo_service_row] = Inr x"
  by (rule not_isl_Inr) code_simp

lemma demo_ack: "\<exists>x. ack_open_incident 7 5 ''alice'' [demo_row 1] = Inr x"
  by (rule not_isl_Inr) code_simp

lemma demo_close: "\<exists>x. close_open_incident 7 5 ''alice'' ''repaired'' [demo_row 1] = Inr x"
  by (rule not_isl_Inr) code_simp

lemma demo_expire: "\<exists>x. expire_stale_incidents (demo_start + 301 * second) 10 [demo_row 1] = Inr x"
  by (rule not_isl_Inr) code_simp

lemma demo_apply:
  "\<exists>ms t r. apply_problem 7 6 None (demo_event ''fp1'' 60 PROBLEM) (demo_match 1) [] [demo_row 2] = (ms, Inr (t, r)) \<and>
     ar_replay r \<and> ar_first_threshold_transition r"
proof -
  have "case apply_problem 7 6 None (demo_event ''fp1'' 60 PROBLEM) (demo_match 1) [] [demo_row 2] of
     (ms, Inl e) \<Rightarrow> False | (ms, Inr (t, r)) \<Rightarrow> ar_replay r \<and> ar_first_threshold_transition r"
    by code_simp
  then show ?thesis by (auto split: prod.splits sum.splits)
qed

lemma demo_apply_first:
  "\<exists>ms t r. apply_problem 7 6 None (demo_event ''fp2'' 60 PROBLEM) (demo_match 2) [] [demo_row 2] = (ms, Inr (t, r)) \<and>
     ar_dispatch_planned r"
proof -
  have "case apply_problem 7 6 None (demo_event ''fp2'' 60 PROBLEM) (demo_match 2) [] [demo_row 2] of
     (ms, Inl e) \<Rightarrow> False | (ms, Inr (t, r)) \<Rightarrow> ar_dispatch_planned r"
    by code_simp
  then show ?thesis by (auto split: prod.splits sum.splits)
qed

lemma demo_apply_empty:
  "\<exists>ms t r. apply_problem 7 6 None (demo_event ''fp1'' 0 PROBLEM) (demo_match 1) [] [] = (ms, Inr (t, r)) \<and>
     ar_dispatch_planned r \<and> ar_incident_id r = 6 \<and> map inc_id t = [6]"
proof -
  have "case apply_problem 7 6 None (demo_event ''fp1'' 0 PROBLEM) (demo_match 1) [] [] of
     (ms, Inl e) \<Rightarrow> False
     | (ms, Inr (t, r)) \<Rightarrow> ar_dispatch_planned r \<and> ar_incident_id r = 6 \<and> map inc_id t = [6]"
    by code_simp
  then show ?thesis by (auto split: prod.splits sum.splits)
qed

end
