(* ===== verification/RulesFacts.thy ===== *)
theory RulesFacts
  imports Rules
begin

text \<open>
  Correctness of the rule engine: which rule decides an event, when two events share a group,
  and what a configuration that loads guarantees.
\<close>

section \<open>The deciding rule\<close>

lemma evaluate_rules_eq_Match:
  assumes "evaluate_rules cs e = Inr (Match m)"
  obtains before c after key where "cs = before @ c # after" "matches_rule c e"
    "\<forall>c' \<in> set before. \<not> matches_rule c' e" "build_group_key c e = Some key"
    "rm_rule_name m = rd_name (cr_definition c)" "rm_matched_rules m = [rd_name (cr_definition c)]"
    "rm_priority m = rd_priority (cr_definition c)"
    "rm_group_key m = key" "rm_window m = rd_window (cr_definition c)"
    "rm_actions m = map ra_plugin (rd_actions (cr_definition c))"
    "rm_summary m = render_summary (rd_output_summary (cr_definition c)) e"
    "rule_match_validate m = Inr m"
  using assms
proof (induction cs arbitrary: thesis)
  case (Cons c cs)
  show ?case
  proof (cases "matches_rule c e")
    case True
    with Cons.prems(2) obtain key where key: "build_group_key c e = Some key"
      by (auto split: option.splits)
    with True Cons.prems(2) show ?thesis
      by (intro Cons.prems(1) [of "[]" c cs key])
        (auto simp: result_simps rule_match_validate_def Let_def split: if_splits)
  next
    case False
    with Cons.prems(2) have "evaluate_rules cs e = Inr (Match m)" by simp
    from Cons.IH [OF _ this] obtain before c' after key where
      *: "cs = before @ c' # after" "matches_rule c' e"
      "\<forall>c' \<in> set before. \<not> matches_rule c' e" "build_group_key c' e = Some key"
      "rm_rule_name m = rd_name (cr_definition c')" "rm_matched_rules m = [rd_name (cr_definition c')]"
      "rm_priority m = rd_priority (cr_definition c')"
      "rm_group_key m = key" "rm_window m = rd_window (cr_definition c')"
      "rm_actions m = map ra_plugin (rd_actions (cr_definition c'))"
      "rm_summary m = render_summary (rd_output_summary (cr_definition c')) e"
      "rule_match_validate m = Inr m" by blast
    show ?thesis
      by (rule Cons.prems(1) [of "c # before" c' after key]) (use * False in auto)
  qed
qed simp

lemma set_rule_engine [simp]: "set (rule_engine rules) = set rules"
  by (simp add: rule_engine_def)

lemma rule_engine_sorted:
  "rule_engine rules = before @ c # after \<Longrightarrow>
     \<forall>c' \<in> set after. rd_priority (cr_definition c) \<le> rd_priority (cr_definition c')"
proof -
  assume "rule_engine rules = before @ c # after"
  then have "sorted (map (\<lambda>r. rd_priority (cr_definition r)) (before @ c # after))"
    unfolding rule_engine_def by (metis sorted_sort_key)
  then show ?thesis by (auto simp: sorted_append)
qed

text \<open>
  A rule decides an event only when the event is a problem, the rule matches it, and no
  rule of smaller priority matches it; the decision carries that rule's name, window and plugins
  and the group key of the event.
\<close>

lemma evaluate_match_decides:
  assumes "evaluate rules e = Inr (Match m)"
  shows "ev_event_type e = PROBLEM \<and>
    (\<exists>c \<in> set rules. matches_rule c e \<and>
       (\<forall>c' \<in> set rules. matches_rule c' e \<longrightarrow>
          rd_priority (cr_definition c) \<le> rd_priority (cr_definition c')) \<and>
       rm_rule_name m = rd_name (cr_definition c) \<and> rm_matched_rules m = [rd_name (cr_definition c)] \<and>
       rm_window m = rd_window (cr_definition c) \<and>
       rm_actions m = map ra_plugin (rd_actions (cr_definition c)) \<and>
       build_group_key c e = Some (rm_group_key m))"
proof -
  from assms have problem: "ev_event_type e = PROBLEM" and ev: "evaluate_rules (rule_engine rules) e = Inr (Match m)"
    by (cases "ev_event_type e"; simp add: evaluate_def)+
  from ev obtain before c after where
    c: "rule_engine rules = before @ c # after" "matches_rule c e" "\<forall>c' \<in> set before. \<not> matches_rule c' e"
    and m: "rm_rule_name m = rd_name (cr_definition c)" "rm_matched_rules m = [rd_name (cr_definition c)]"
      "rm_window m = rd_window (cr_definition c)" "rm_actions m = map ra_plugin (rd_actions (cr_definition c))"
      "build_group_key c e = Some (rm_group_key m)"
    by (elim evaluate_rules_eq_Match) metis
  have "set rules = set (before @ c # after)" using c(1) by (metis set_rule_engine)
  then have "c \<in> set rules" "\<forall>c' \<in> set rules. matches_rule c' e \<longrightarrow>
      rd_priority (cr_definition c) \<le> rd_priority (cr_definition c')"
    using c(3) rule_engine_sorted [OF c(1)] by auto
  with problem c(2) m show ?thesis by blast
qed

text \<open>
  An event is reported unmatched exactly when it is a problem that no rule matches: the
  evaluation of an event that some rule matches ends at that rule, in a match, in the report of a
  missing group field, or in a validation error of the decision.
\<close>

lemma evaluate_no_match_iff:
  "evaluate rules e = Inr (NoOp ''no matching rule'') \<longleftrightarrow>
     ev_event_type e = PROBLEM \<and> (\<forall>c \<in> set rules. \<not> matches_rule c e)"
proof -
  have "evaluate_rules cs e = Inr (NoOp ''no matching rule'') \<longleftrightarrow> (\<forall>c \<in> set cs. \<not> matches_rule c e)" for cs
    by (induction cs) (auto simp: result_simps Let_def split: option.splits)
  then show ?thesis by (cases "ev_event_type e") (simp_all add: evaluate_def)
qed

section \<open>Group keys\<close>

lemma group_segments_eq_Some:
  "group_segments fs e = Some segs \<longleftrightarrow>
     list_all (\<lambda>f. resolve_field f e \<noteq> None) fs \<and>
     segs = map (\<lambda>f. f @ ''='' @ the (resolve_field f e)) fs"
  by (induction fs arbitrary: segs) (auto split: option.splits)

lemma str_join_inj:
  assumes "str_join [c] xs = str_join [c] ys" "length xs = length ys"
    and "\<forall>x \<in> set xs. c \<notin> set x" "\<forall>y \<in> set ys. c \<notin> set y"
  shows "xs = ys"
  using assms
proof (induction "[c]" xs arbitrary: ys rule: str_join.induct)
  case (2 s)
  then show ?case by (cases ys) auto
next
  case (3 s t ts)
  from 3(3) obtain u v us where ys: "ys = u # v # us"
    by (cases ys; cases "tl ys") auto
  with 3(2) have eq: "s @ c # str_join [c] (t # ts) = u @ c # str_join [c] (v # us)" by simp
  have "s = u \<and> str_join [c] (t # ts) = str_join [c] (v # us)"
  proof -
    have "takeWhile (\<lambda>x. x \<noteq> c) (s @ c # zs) = s" if "c \<notin> set s" for s zs
      using that by (induction s) auto
    with eq 3(4,5) ys have "s = u" by (metis list.set_intros(1))
    with eq show ?thesis by simp
  qed
  with 3(1) [of "v # us"] 3(3-5) ys show ?case by auto
qed auto

text \<open>
  Grouping separates.  Two events get the same group key of a rule whose fields and values
  do not contain the separator only when they agree on every group-by field.
\<close>

lemma build_group_key_inj:
  assumes "build_group_key c e1 = Some k" "build_group_key c e2 = Some k"
    and "\<forall>f \<in> set (rw_group_by (rd_window (cr_definition c))).
      CHR ''|'' \<notin> set f \<and> CHR ''|'' \<notin> set (the (resolve_field f e1)) \<and>
      CHR ''|'' \<notin> set (the (resolve_field f e2))"
  shows "\<forall>f \<in> set (rw_group_by (rd_window (cr_definition c))). resolve_field f e1 = resolve_field f e2"
proof
  fix f assume f: "f \<in> set (rw_group_by (rd_window (cr_definition c)))"
  let ?fs = "rw_group_by (rd_window (cr_definition c))"
  let ?seg = "\<lambda>e f. f @ ''='' @ the (resolve_field f e)"
  from assms(1,2) have some: "list_all (\<lambda>f. resolve_field f e1 \<noteq> None) ?fs" "list_all (\<lambda>f. resolve_field f e2 \<noteq> None) ?fs"
    and eq: "str_join ''|'' (map (?seg e1) ?fs) = str_join ''|'' (map (?seg e2) ?fs)"
    by (auto simp: build_group_key_def group_segments_eq_Some)
  from assms(3) have "map (?seg e1) ?fs = map (?seg e2) ?fs"
    by (intro str_join_inj [OF eq]) auto
  with f have "the (resolve_field f e1) = the (resolve_field f e2)" by simp
  with some f show "resolve_field f e1 = resolve_field f e2"
    by (auto simp: list_all_iff)
qed

section \<open>A configuration that loads\<close>

lemma check_rule_configs_eq_Inr:
  "check_rule_configs ka kp ps ns rs = Inr () \<longleftrightarrow>
     distinct (map rc_priority rs) \<and> set (map rc_priority rs) \<inter> set ps = {} \<and>
     distinct (map rc_name rs) \<and> set (map rc_name rs) \<inter> set ns = {} \<and>
     (\<forall>r \<in> set rs. validate_summary_variables (rc_output_summary r) = Inr () \<and>
        (\<forall>a \<in> set (rc_actions r). ra_name a \<in> set ka \<and> (kp = [] \<or> ra_plugin a \<in> set kp)))"
  by (induction rs arbitrary: ps ns) (auto simp: check_rule_config_def result_simps)

lemma compile_rule_config_fields:
  "compile_rule_config re r = Inr c \<Longrightarrow>
     rd_name (cr_definition c) = rc_name r \<and> rd_priority (cr_definition c) = rc_priority r \<and>
     rd_actions (cr_definition c) = rc_actions r \<and> rule_definition_ok (cr_definition c) \<and>
     re (mcc_host_pattern (rc_match r)) = Some (cr_host_pattern c) \<and>
     map severity_value (mc_severities (rd_match (cr_definition c))) = mcc_severities (rc_match r)"
proof -
  assume c: "compile_rule_config re r = Inr c"
  then obtain sevs where "rmapM severity_of (mcc_severities (rc_match r)) = Inr sevs"
    "mc_severities (rd_match (cr_definition c)) = sevs"
    by (auto simp: compile_rule_config_def result_simps Let_def split: option.splits if_splits)
  then have "list_all2 (\<lambda>t s. t = severity_value s) (mcc_severities (rc_match r)) sevs"
    by (simp add: rmapM_eq_Inr severity_of_eq_Inr)
  then have "map severity_value sevs = mcc_severities (rc_match r)"
    by (induction rule: list_all2_induct) auto
  with c \<open>mc_severities (rd_match (cr_definition c)) = sevs\<close> show ?thesis
    by (auto simp: compile_rule_config_def result_simps Let_def split: option.splits if_splits)
qed

lemma load_rules_facts:
  assumes "load_rules_config re_compile config_hash known_actions known_plugins config = Inr (rules, h)"
  shows "map (rd_name \<circ> cr_definition) rules = map rc_name config \<and>
    distinct (map (rd_name \<circ> cr_definition) rules) \<and>
    distinct (map (rd_priority \<circ> cr_definition) rules) \<and>
    (\<forall>c \<in> set rules. rule_definition_ok (cr_definition c) \<and>
       distinct (map ra_plugin (rd_actions (cr_definition c))) \<and>
       (\<forall>a \<in> set (rd_actions (cr_definition c)).
          ra_name a \<in> set known_actions \<and> (known_plugins = [] \<or> ra_plugin a \<in> set known_plugins)))"
proof -
  from assms have chk: "check_rule_configs known_actions known_plugins [] [] config = Inr ()"
    and rules: "rmapM (compile_rule_config re_compile) config = Inr rules"
    by (auto simp: load_rules_config_def result_simps)
  have names: "map (rd_name \<circ> cr_definition) rules = map rc_name config"
    and prios: "map (rd_priority \<circ> cr_definition) rules = map rc_priority config"
    by (rule rmapM_map_eq [OF rules]; use compile_rule_config_fields in force)+
  have each: "\<exists>r \<in> set config. compile_rule_config re_compile r = Inr c" if "c \<in> set rules" for c
    using rmapM_origin [OF rules that] .
  have "rule_definition_ok (cr_definition c) \<and>
       distinct (map ra_plugin (rd_actions (cr_definition c))) \<and>
       (\<forall>a \<in> set (rd_actions (cr_definition c)).
          ra_name a \<in> set known_actions \<and> (known_plugins = [] \<or> ra_plugin a \<in> set known_plugins))"
    if "c \<in> set rules" for c
  proof -
    from each [OF that] obtain r where r: "r \<in> set config" "compile_rule_config re_compile r = Inr c" ..
    with compile_rule_config_fields [OF r(2)] chk show ?thesis
      by (auto simp: check_rule_configs_eq_Inr rule_definition_ok_def card_distinct)
  qed
  with names prios chk show ?thesis by (simp add: check_rule_configs_eq_Inr)
qed

text \<open>
  A configuration that loads is unambiguous and usable: its rules keep their order and
  have pairwise distinct names and priorities, every definition satisfies the bounds of the rule
  model, and every action is known and uses a configured plugin, each plugin at most once a rule.
\<close>

lemma load_rules_config_sound:
  assumes "load_rules_config re_compile config_hash known_actions known_plugins config = Inr (rules, h)"
  shows "map (rd_name \<circ> cr_definition) rules = map rc_name config \<and>
    distinct (map (rd_name \<circ> cr_definition) rules) \<and>
    distinct (map (rd_priority \<circ> cr_definition) rules) \<and>
    (\<forall>c \<in> set rules. rule_definition_ok (cr_definition c) \<and>
       distinct (map ra_plugin (rd_actions (cr_definition c))) \<and>
       (\<forall>a \<in> set (rd_actions (cr_definition c)).
          ra_name a \<in> set known_actions \<and> (known_plugins = [] \<or> ra_plugin a \<in> set known_plugins)))"
  by (rule load_rules_facts [OF assms])

end
