(* ===== verification/Topology.thy ===== *)
theory Topology
  imports Rules
begin

text \<open>
  \<open>app/config/topology.py\<close> and \<open>app/processing/enrichment.py\<close>: topology rules, their
  validation, and the enrichment of an event's tags by the first rule that applies.

  Addresses and networks are those of the standard library's \<open>ipaddress\<close>: a version and an
  integer; the parsers of their texts are arguments.
\<close>

section \<open>Addresses and networks\<close>

record ip_addr =
  ip_version :: nat
  ip_value :: int

record ip_network =
  net_version :: nat
  net_address :: int
  net_prefix :: nat

definition address_bits :: "nat \<Rightarrow> nat" where
  "address_bits v = (if v = 4 then 32 else 128)"

definition host_bits :: "ip_network \<Rightarrow> nat" where
  "host_bits n = address_bits (net_version n) - net_prefix n"

definition in_block :: "int \<Rightarrow> ip_network \<Rightarrow> bool" where
  "in_block a n \<longleftrightarrow> a div 2 ^ host_bits n = net_address n div 2 ^ host_bits n"

definition in_network :: "ip_addr \<Rightarrow> ip_network \<Rightarrow> bool" where
  "in_network a n \<longleftrightarrow> ip_version a = net_version n \<and> in_block (ip_value a) n"

definition broadcast :: "ip_network \<Rightarrow> int" where
  "broadcast n = (net_address n div 2 ^ host_bits n + 1) * 2 ^ host_bits n - 1"

definition first_address :: "ip_network \<Rightarrow> int" where
  "first_address n = net_address n div 2 ^ host_bits n * 2 ^ host_bits n"

definition overlaps :: "ip_network \<Rightarrow> ip_network \<Rightarrow> bool" where
  "overlaps a b \<longleftrightarrow>
     net_version a = net_version b \<and>
     (in_block (first_address a) b \<or> in_block (broadcast a) b \<or>
      in_block (first_address b) a \<or> in_block (broadcast b) a)"

section \<open>Configuration\<close>

record hostname_rule_config =
  hc_id :: string
  hc_name :: string
  hc_pattern :: string
  hc_tags :: tags
  hc_capture_groups :: "(string, int) dict"

record subnet_rule_config =
  sc_id :: string
  sc_name :: string
  sc_subnet :: string
  sc_tags :: tags

record compiled_hostname_rule =
  ch_id :: string
  ch_name :: string
  ch_pattern :: pattern
  ch_tags :: tags
  ch_capture_groups :: "(string, int) dict"

record compiled_subnet_rule =
  cs_id :: string
  cs_name :: string
  cs_network :: ip_network
  cs_tags :: tags

definition topology_key :: "string \<Rightarrow> bool" where
  "topology_key k \<longleftrightarrow> prefix ''topology.'' k"

definition topology_tags_ok :: "tags \<Rightarrow> bool" where
  "topology_tags_ok ts \<longleftrightarrow>
     validate_event_tags ts = Inr () \<and> list_all topology_key (dict_keys ts)"

definition hostname_rule_ok :: "hostname_rule_config \<Rightarrow> bool" where
  "hostname_rule_ok r \<longleftrightarrow>
     topology_tags_ok (hc_tags r) \<and>
     length (hc_capture_groups r) \<le> event_tag_max_entries \<and>
     list_all (\<lambda>(k, g). event_tag_key_ok k \<and> topology_key k \<and> 1 \<le> g) (hc_capture_groups r)"

definition subnet_rule_ok :: "subnet_rule_config \<Rightarrow> bool" where
  "subnet_rule_ok r \<longleftrightarrow> topology_tags_ok (sc_tags r)"

text \<open>\<open>tags_a != tags_b\<close> compares dictionaries.\<close>

fun subnets_consistent :: "(ip_network \<times> tags) list \<Rightarrow> bool" where
  "subnets_consistent [] = True"
| "subnets_consistent ((na, ta) # rest) =
     (list_all (\<lambda>(nb, tb). overlaps na nb \<longrightarrow> set ta = set tb) rest \<and> subnets_consistent rest)"

definition parse_subnets ::
  "(string \<Rightarrow> ip_network option) \<Rightarrow> subnet_rule_config list \<Rightarrow> (ip_network \<times> tags) list result" where
  "parse_subnets ip_network rules =
     rmapM (\<lambda>r. case ip_network (sc_subnet r) of None \<Rightarrow> Inl ValueError | Some n \<Rightarrow> Inr (n, sc_tags r)) rules"

definition validate_topology ::
  "(string \<Rightarrow> ip_network option) \<Rightarrow> hostname_rule_config list \<Rightarrow> subnet_rule_config list \<Rightarrow> unit result" where
  "validate_topology ip_network hs ss =
     (if list_all hostname_rule_ok hs \<and> list_all subnet_rule_ok ss then
        (case parse_subnets ip_network ss of
           Inl e \<Rightarrow> Inl ValidationError
         | Inr nets \<Rightarrow> rguard (subnets_consistent nets) ValidationError)
      else Inl ValidationError)"

definition compile_hostname_rule ::
  "(string \<Rightarrow> pattern option) \<Rightarrow> hostname_rule_config \<Rightarrow> compiled_hostname_rule result" where
  "compile_hostname_rule re_compile r =
     (case re_compile (hc_pattern r) of
        None \<Rightarrow> Inl ValueError
      | Some p \<Rightarrow>
          rbind (rall (\<lambda>(k, g). rguard (g \<le> int (pat_groups p)) ValueError) (hc_capture_groups r)) (\<lambda>_.
          Inr \<lparr>ch_id = hc_id r, ch_name = hc_name r, ch_pattern = p, ch_tags = hc_tags r,
               ch_capture_groups = hc_capture_groups r\<rparr>))"

definition compile_subnet_rule ::
  "(string \<Rightarrow> ip_network option) \<Rightarrow> subnet_rule_config \<Rightarrow> compiled_subnet_rule result" where
  "compile_subnet_rule ip_network r =
     (case ip_network (sc_subnet r) of
        None \<Rightarrow> Inl ValueError
      | Some n \<Rightarrow> Inr \<lparr>cs_id = sc_id r, cs_name = sc_name r, cs_network = n, cs_tags = sc_tags r\<rparr>)"

definition load_topology_config ::
  "(string \<Rightarrow> pattern option) \<Rightarrow> (string \<Rightarrow> ip_network option) \<Rightarrow>
     hostname_rule_config list \<Rightarrow> subnet_rule_config list \<Rightarrow>
     (compiled_hostname_rule list \<times> compiled_subnet_rule list) result" where
  "load_topology_config re_compile ip_network hs ss =
     rbind (validate_topology ip_network hs ss) (\<lambda>_.
     rbind (rmapM (compile_hostname_rule re_compile) hs) (\<lambda>chs.
     rbind (rmapM (compile_subnet_rule ip_network) ss) (\<lambda>css.
     Inr (chs, css))))"

section \<open>Enrichment\<close>

record enrichment_diagnostic =
  ed_rule_id :: string
  ed_rule_name :: string
  ed_match_source :: string
  ed_tags_added :: tags
  ed_tags_overridden :: "(string \<times> string \<times> string) list"
  ed_conflicts :: "(string \<times> string \<times> string) list"

record enrichment_result =
  er_event :: normalized_event
  er_diagnostics :: "enrichment_diagnostic list"

text \<open>The loop variables of \<open>_apply_rule\<close>.\<close>

record tag_merge =
  tm_tags :: tags
  tm_added :: tags
  tm_overridden :: "(string \<times> string \<times> string) list"
  tm_conflicts :: "(string \<times> string \<times> string) list"

text \<open>
  One assignment of the literal loop, and one of the capture loop: the second also refreshes the
  value reported for a tag that the first one added.
\<close>

definition apply_literal_tag :: "string \<times> string \<Rightarrow> tag_merge \<Rightarrow> tag_merge" where
  "apply_literal_tag = (\<lambda>(k, v) s.
     (case map_of (tm_tags s) k of
        Some old \<Rightarrow>
          if old \<noteq> v then s\<lparr>tm_overridden := tm_overridden s @ [(k, old, v)],
                             tm_conflicts := tm_conflicts s @ [(k, old, v)],
                             tm_tags := dict_set k v (tm_tags s)\<rparr>
          else s\<lparr>tm_tags := dict_set k v (tm_tags s)\<rparr>
      | None \<Rightarrow> s\<lparr>tm_added := dict_set k v (tm_added s), tm_tags := dict_set k v (tm_tags s)\<rparr>))"

definition apply_captured_tag :: "string \<times> string \<Rightarrow> tag_merge \<Rightarrow> tag_merge" where
  "apply_captured_tag = (\<lambda>(k, v) s.
     (case map_of (tm_tags s) k of
        Some old \<Rightarrow>
          if old \<noteq> v then s\<lparr>tm_overridden := tm_overridden s @ [(k, old, v)],
                             tm_conflicts := tm_conflicts s @ [(k, old, v)],
                             tm_added := (if k \<in> set (dict_keys (tm_added s))
                                          then dict_set k v (tm_added s) else tm_added s),
                             tm_tags := dict_set k v (tm_tags s)\<rparr>
          else s\<lparr>tm_tags := dict_set k v (tm_tags s)\<rparr>
      | None \<Rightarrow> s\<lparr>tm_added := dict_set k v (tm_added s), tm_tags := dict_set k v (tm_tags s)\<rparr>))"

definition capture :: "string option list \<Rightarrow> int \<Rightarrow> string option result" where
  "capture groups i =
     (if 0 \<le> i \<and> i < int (length groups) then Inr (groups ! nat i) else Inl IndexError)"

fun apply_captures :: "string option list \<Rightarrow> (string, int) dict \<Rightarrow> tag_merge \<Rightarrow> tag_merge result" where
  "apply_captures groups [] s = Inr s"
| "apply_captures groups ((k, i) # rest) s =
     rbind (capture groups i) (\<lambda>captured.
       case captured of
         None \<Rightarrow> apply_captures groups rest s
       | Some v \<Rightarrow> if v = [] then apply_captures groups rest s
                   else apply_captures groups rest (apply_captured_tag (k, v) s))"

definition start_merge :: "normalized_event \<Rightarrow> tag_merge" where
  "start_merge e = \<lparr>tm_tags = ev_tags e, tm_added = [], tm_overridden = [], tm_conflicts = []\<rparr>"

definition finish_merge :: "normalized_event \<Rightarrow> string \<Rightarrow> string \<Rightarrow> string \<Rightarrow> tag_merge \<Rightarrow> enrichment_result" where
  "finish_merge e ident name source s =
     \<lparr>er_event = e\<lparr>ev_tags := tm_tags s\<rparr>,
      er_diagnostics = [\<lparr>ed_rule_id = ident, ed_rule_name = name, ed_match_source = source,
        ed_tags_added = tm_added s, ed_tags_overridden = tm_overridden s,
        ed_conflicts = tm_conflicts s\<rparr>]\<rparr>"

definition apply_hostname_rule ::
  "normalized_event \<Rightarrow> compiled_hostname_rule \<Rightarrow> string option list \<Rightarrow> enrichment_result result" where
  "apply_hostname_rule e r groups =
     rbind (apply_captures groups (ch_capture_groups r) (fold apply_literal_tag (ch_tags r) (start_merge e)))
       (\<lambda>s. Inr (finish_merge e (ch_id r) (ch_name r) ''hostname'' s))"

definition apply_subnet_rule :: "normalized_event \<Rightarrow> compiled_subnet_rule \<Rightarrow> enrichment_result" where
  "apply_subnet_rule e r =
     finish_merge e (cs_id r) (cs_name r) ''subnet'' (fold apply_literal_tag (cs_tags r) (start_merge e))"

definition no_enrichment :: "normalized_event \<Rightarrow> enrichment_result" where
  "no_enrichment e = \<lparr>er_event = e, er_diagnostics = []\<rparr>"

definition subnet_fallback ::
  "(string \<Rightarrow> ip_addr option) \<Rightarrow> compiled_subnet_rule list \<Rightarrow> normalized_event \<Rightarrow> enrichment_result" where
  "subnet_fallback ip_address subnets e =
     (case ev_ip_address e of
        None \<Rightarrow> no_enrichment e
      | Some text \<Rightarrow>
          (case ip_address text of
             None \<Rightarrow> no_enrichment e
           | Some addr \<Rightarrow>
               (case find (\<lambda>r. in_network addr (cs_network r)) subnets of
                  None \<Rightarrow> no_enrichment e
                | Some r \<Rightarrow> apply_subnet_rule e r)))"

fun enrich ::
  "(string \<Rightarrow> ip_addr option) \<Rightarrow> compiled_subnet_rule list \<Rightarrow> compiled_hostname_rule list \<Rightarrow>
     normalized_event \<Rightarrow> enrichment_result result" where
  "enrich ip_address subnets [] e = Inr (subnet_fallback ip_address subnets e)"
| "enrich ip_address subnets (r # rs) e =
     (case pat_match (ch_pattern r) (ev_host e) of
        Some groups \<Rightarrow> apply_hostname_rule e r groups
      | None \<Rightarrow> enrich ip_address subnets rs e)"

section \<open>Facts\<close>

text \<open>What the merge of one rule keeps true, whatever is assigned.\<close>

definition merge_inv :: "tags \<Rightarrow> tag_merge \<Rightarrow> bool" where
  "merge_inv tags s \<longleftrightarrow>
     dict_wf (tm_tags s) \<and> dict_wf (tm_added s) \<and>
     (\<forall>k. map_of (tm_added s) k = (if map_of tags k = None then map_of (tm_tags s) k else None)) \<and>
     (\<forall>k v. map_of tags k = Some v \<longrightarrow> map_of (tm_tags s) k \<noteq> Some v \<longrightarrow>
        (\<exists>old new. (k, old, new) \<in> set (tm_overridden s))) \<and>
     tm_conflicts s = tm_overridden s \<and> dom (map_of tags) \<subseteq> dom (map_of (tm_tags s))"

lemma merge_inv_literal:
  assumes "merge_inv tags s" "map_of (tm_added s) k = None"
  shows "merge_inv tags (apply_literal_tag (k, v) s)"
  using assms
  by (cases "map_of (tm_tags s) k")
    (auto simp: merge_inv_def apply_literal_tag_def map_of_dict_set split: if_splits)

lemma tags_literal: "map_of (tm_tags (apply_literal_tag (k, v) s)) = (map_of (tm_tags s))(k \<mapsto> v)"
  by (auto simp: apply_literal_tag_def map_of_dict_set split: option.split)

lemma added_literal: "k' \<noteq> k \<Longrightarrow> map_of (tm_added (apply_literal_tag (k, v) s)) k' = map_of (tm_added s) k'"
  by (auto simp: apply_literal_tag_def map_of_dict_set split: option.split)

lemma merge_inv_literals:
  assumes "merge_inv tags s" "dict_wf ts" "\<forall>k \<in> set (dict_keys ts). map_of (tm_added s) k = None"
  shows "merge_inv tags (fold apply_literal_tag ts s)"
  using assms
proof (induction ts arbitrary: s)
  case (Cons kv ts)
  obtain k v where kv: "kv = (k, v)" by (cases kv)
  have "merge_inv tags (apply_literal_tag (k, v) s)"
    using Cons.prems(1,3) by (intro merge_inv_literal) (simp_all add: kv)
  moreover have "\<forall>k' \<in> set (dict_keys ts). map_of (tm_added (apply_literal_tag (k, v) s)) k' = None"
  proof
    fix k' assume k': "k' \<in> set (dict_keys ts)"
    then have "k' \<noteq> k" using Cons.prems(2) by (auto simp: kv dict_wf_def)
    with k' Cons.prems(3) show "map_of (tm_added (apply_literal_tag (k, v) s)) k' = None"
      by (auto simp: added_literal kv)
  qed
  ultimately show ?case using Cons by (simp add: kv dict_wf_def)
qed simp

lemma tags_literals:
  assumes "dict_wf ts"
  shows "map_of (tm_tags (fold apply_literal_tag ts s)) = map_of (tm_tags s) ++ map_of ts"
  using assms
proof (induction ts arbitrary: s)
  case (Cons kv ts)
  obtain k v where kv: "kv = (k, v)" by (cases kv)
  have k: "map_of ts k = None" using Cons.prems by (simp add: kv dict_wf_def map_of_eq_None_iff)
  have "map_of (tm_tags (fold apply_literal_tag ts (apply_literal_tag (k, v) s)))
      = (map_of (tm_tags s))(k \<mapsto> v) ++ map_of ts"
    using Cons.IH [of "apply_literal_tag (k, v) s"] Cons.prems
    by (simp add: kv dict_wf_def tags_literal fun_upd_def)
  also have "\<dots> = map_of (tm_tags s) ++ map_of (kv # ts)"
    using k by (auto simp: kv fun_eq_iff map_add_def split: option.split)
  finally show ?case by (simp only: kv fold_simps)
qed simp

lemma merge_inv_captured:
  assumes "merge_inv tags s"
  shows "merge_inv tags (apply_captured_tag (k, v) s)"
proof -
  have "k \<in> set (dict_keys (tm_added s)) \<longleftrightarrow> map_of (tm_added s) k \<noteq> None"
    by (simp add: map_of_eq_None_iff)
  with assms show ?thesis
    by (cases "map_of (tm_tags s) k")
      (auto simp: merge_inv_def apply_captured_tag_def map_of_dict_set split: if_splits)
qed

lemma tags_captured: "map_of (tm_tags (apply_captured_tag (k, v) s)) = (map_of (tm_tags s))(k \<mapsto> v)"
  by (auto simp: apply_captured_tag_def map_of_dict_set split: option.split)

text \<open>The tags the capture groups assign: the non-empty groups of the match.\<close>

definition captured_tags :: "string option list \<Rightarrow> (string, int) dict \<Rightarrow> tags" where
  "captured_tags groups gs =
     List.map_filter (\<lambda>(k, i). case groups ! nat i of None \<Rightarrow> None
       | Some v \<Rightarrow> if v = [] then None else Some (k, v)) gs"

lemma captured_tags_Cons:
  "captured_tags groups ((k, i) # gs) =
     (case groups ! nat i of None \<Rightarrow> captured_tags groups gs
      | Some v \<Rightarrow> if v = [] then captured_tags groups gs else (k, v) # captured_tags groups gs)"
  by (simp add: captured_tags_def map_filter_simps split: option.split)

lemma captured_tags_Nil [simp]: "captured_tags groups [] = []"
  by (simp add: captured_tags_def map_filter_simps)

lemma keys_captured_tags: "fst ` set (captured_tags groups gs) \<subseteq> fst ` set gs"
proof (induction gs)
  case (Cons g gs)
  then show ?case by (cases g) (simp add: captured_tags_Cons subset_insertI2 split: option.split)
qed simp

lemma dict_wf_captured_tags: "dict_wf gs \<Longrightarrow> dict_wf (captured_tags groups gs)"
proof (induction gs)
  case (Cons g gs)
  obtain k i where g: "g = (k, i)" by (cases g)
  have "k \<notin> fst ` set (captured_tags groups gs)"
    using Cons.prems keys_captured_tags [of groups gs] by (auto simp: g dict_wf_def)
  with Cons show ?case by (simp add: g captured_tags_Cons dict_wf_def split: option.split)
qed simp

lemma apply_captures_spec:
  assumes "apply_captures groups gs s = Inr s'" "merge_inv tags s" "dict_wf gs"
  shows "merge_inv tags s' \<and> map_of (tm_tags s') = map_of (tm_tags s) ++ map_of (captured_tags groups gs)"
  using assms
proof (induction groups gs s rule: apply_captures.induct)
  case (1 groups s)
  then show ?case by simp
next
  case (2 groups k i rest s)
  from 2(4) obtain c where c: "capture groups i = Inr c" by (auto simp: result_simps)
  then have ci: "c = groups ! nat i" by (simp add: capture_def split: if_splits)
  have wf: "dict_wf rest" and kn: "k \<notin> fst ` set rest" using 2(6) by (auto simp: dict_wf_def)
  show ?case
  proof (cases "c = None \<or> c = Some []")
    case True
    then have "apply_captures groups rest s = Inr s'" using 2(4) c by auto
    with 2(1) 2(5) wf
    have "merge_inv tags s' \<and> map_of (tm_tags s') = map_of (tm_tags s) ++ map_of (captured_tags groups rest)"
      by blast
    moreover have "captured_tags groups ((k, i) # rest) = captured_tags groups rest"
      using True by (auto simp: captured_tags_Cons ci)
    ultimately show ?thesis by simp
  next
    case False
    then obtain v where v: "c = Some v" "v \<noteq> []" by auto
    let ?s = "apply_captured_tag (k, v) s"
    have ct: "captured_tags groups ((k, i) # rest) = (k, v) # captured_tags groups rest"
      using v by (simp add: captured_tags_Cons ci [symmetric])
    have "k \<notin> fst ` set (captured_tags groups rest)"
      using kn keys_captured_tags [of groups rest] by blast
    then have k: "map_of (captured_tags groups rest) k = None" by (simp add: map_of_eq_None_iff)
    have "apply_captures groups rest ?s = Inr s'" using 2(4) c v by simp
    with 2(3) [OF v(2)] merge_inv_captured [OF 2(5)] wf
    have "merge_inv tags s' \<and> map_of (tm_tags s') = map_of (tm_tags ?s) ++ map_of (captured_tags groups rest)"
      by blast
    with k show ?thesis
      unfolding ct tags_captured by (auto simp: fun_eq_iff map_add_def split: option.split)
  qed
qed

lemma merge_inv_start: "dict_wf (ev_tags e) \<Longrightarrow> merge_inv (ev_tags e) (start_merge e)"
  by (auto simp: merge_inv_def start_merge_def)

definition enrichment_faithful :: "normalized_event \<Rightarrow> tags \<Rightarrow> enrichment_result \<Rightarrow> bool" where
  "enrichment_faithful e assigned r \<longleftrightarrow>
     er_event r = e\<lparr>ev_tags := ev_tags (er_event r)\<rparr> \<and>
     dict_wf (ev_tags (er_event r)) \<and>
     map_of (ev_tags (er_event r)) = map_of (ev_tags e) ++ map_of assigned \<and>
     (\<exists>d. er_diagnostics r = [d] \<and>
        map_of (ed_tags_added d) = map_of (ev_tags (er_event r)) |` (- dom (map_of (ev_tags e))) \<and>
        ed_conflicts d = ed_tags_overridden d \<and>
        (\<forall>k v. map_of (ev_tags e) k = Some v \<longrightarrow> map_of (ev_tags (er_event r)) k \<noteq> Some v \<longrightarrow>
           k \<in> fst ` set (ed_tags_overridden d)))"

lemma finish_merge_faithful:
  assumes "merge_inv (ev_tags e) s" "map_of (tm_tags s) = map_of (ev_tags e) ++ map_of assigned"
  shows "enrichment_faithful e assigned (finish_merge e i n src s)"
proof -
  note inv = assms(1) [unfolded merge_inv_def]
  have "map_of (tm_added s) = map_of (tm_tags s) |` (- dom (map_of (ev_tags e)))"
  proof
    fix k
    show "map_of (tm_added s) k = (map_of (tm_tags s) |` (- dom (map_of (ev_tags e)))) k"
      using inv by (cases "map_of (ev_tags e) k") (auto simp: restrict_map_def)
  qed
  moreover have "k \<in> fst ` set (tm_overridden s)"
    if "map_of (ev_tags e) k = Some v" "map_of (tm_tags s) k \<noteq> Some v" for k v
  proof -
    from that inv obtain old new where "(k, old, new) \<in> set (tm_overridden s)" by blast
    then show ?thesis by (rule image_eqI [rotated]) simp
  qed
  ultimately show ?thesis
    using inv assms(2) unfolding enrichment_faithful_def finish_merge_def by simp
qed

text \<open>
  A hostname rule changes nothing but the tags.  The effective tags are the event's,
  overridden by the rule's literal tags, overridden by the non-empty groups its pattern captured;
  the diagnostic lists as added exactly the tags the event did not have, with their final
  values, and as overridden every tag of the event whose value changed.
\<close>

lemma apply_hostname_rule_faithful:
  assumes "apply_hostname_rule e r groups = Inr res"
    and "dict_wf (ev_tags e)" "dict_wf (ch_tags r)" "dict_wf (ch_capture_groups r)"
  shows "enrichment_faithful e (dict_merge (ch_tags r) (captured_tags groups (ch_capture_groups r))) res"
proof -
  let ?lit = "fold apply_literal_tag (ch_tags r) (start_merge e)"
  from assms(1) obtain s where s: "apply_captures groups (ch_capture_groups r) ?lit = Inr s"
    and res: "res = finish_merge e (ch_id r) (ch_name r) ''hostname'' s"
    by (auto simp: apply_hostname_rule_def result_simps)
  have lit: "merge_inv (ev_tags e) ?lit"
    by (rule merge_inv_literals [OF merge_inv_start [OF assms(2)] assms(3)]) (simp add: start_merge_def)
  from apply_captures_spec [OF s lit assms(4)] tags_literals [OF assms(3), of "start_merge e"]
  show ?thesis
    unfolding res
    by (intro finish_merge_faithful)
      (simp_all add: start_merge_def map_of_dict_merge [OF dict_wf_captured_tags [OF assms(4)]])
qed

text \<open>A subnet rule is faithful in the same sense, for its literal tags.\<close>

lemma apply_subnet_rule_faithful:
  assumes "dict_wf (ev_tags e)" "dict_wf (cs_tags r)"
  shows "enrichment_faithful e (cs_tags r) (apply_subnet_rule e r)"
  unfolding apply_subnet_rule_def
  by (rule finish_merge_faithful)
    (use merge_inv_literals [OF merge_inv_start [OF assms(1)] assms(2)] tags_literals [OF assms(2)]
      in \<open>simp_all add: start_merge_def\<close>)

section \<open>A configuration that loads\<close>

text \<open>Two blocks that share an address overlap.\<close>

lemma in_block_first: "in_block (first_address a) a"
  by (simp add: in_block_def first_address_def)

lemma in_block_coarser:
  assumes "in_block x a" "in_block x b" "host_bits a \<le> host_bits b"
  shows "in_block (first_address a) b"
proof -
  obtain d where d: "host_bits b = host_bits a + d" using assms(3) le_iff_add by blast
  have "first_address a div 2 ^ host_bits b = (net_address a div 2 ^ host_bits a) div 2 ^ d"
    by (simp add: first_address_def d power_add zdiv_zmult2_eq)
  also have "\<dots> = (x div 2 ^ host_bits a) div 2 ^ d" using assms(1) by (simp add: in_block_def)
  also have "\<dots> = x div 2 ^ host_bits b" by (simp add: d power_add zdiv_zmult2_eq)
  finally show ?thesis using assms(2) by (simp add: in_block_def)
qed

lemma common_address_overlaps:
  assumes "in_network x a" "in_network x b"
  shows "overlaps a b"
proof -
  from assms have "in_block (ip_value x) a" "in_block (ip_value x) b" "net_version a = net_version b"
    by (auto simp: in_network_def)
  then show ?thesis
    using in_block_coarser [of "ip_value x" a b] in_block_coarser [of "ip_value x" b a]
    unfolding overlaps_def by (meson le_cases)
qed

lemma subnets_consistentD:
  "subnets_consistent nets \<Longrightarrow> (na, ta) \<in> set nets \<Longrightarrow> (nb, tb) \<in> set nets \<Longrightarrow>
     in_network x na \<Longrightarrow> in_network x nb \<Longrightarrow> set ta = set tb"
proof (induction nets)
  case (Cons n nets)
  then show ?case
    using common_address_overlaps [of x na nb] common_address_overlaps [of x nb na]
    by (cases n) (auto simp: list_all_iff)
qed simp

lemma parse_compile_subnets:
  "parse_subnets ipn rs = Inr nets \<Longrightarrow> rmapM (compile_subnet_rule ipn) rs = Inr cs \<Longrightarrow>
     nets = map (\<lambda>c. (cs_network c, cs_tags c)) cs"
  by (induction rs arbitrary: nets cs)
    (auto simp: parse_subnets_def compile_subnet_rule_def result_simps split: option.splits)

text \<open>
  In a topology configuration that loads, the subnet fallback does not depend on the order
  of the rules: any two subnet rules that contain an address assign the same tags.  Every tag a
  rule can assign, literal or captured, has a key under \<open>topology.\<close>, and every capture
  group a hostname rule names exists in its pattern.
\<close>

lemma load_topology_config_sound:
  assumes "load_topology_config re_compile ip_network hs ss = Inr (hostnames, subnets)"
  shows "(\<forall>a \<in> set subnets. \<forall>b \<in> set subnets. \<forall>addr.
      in_network addr (cs_network a) \<longrightarrow> in_network addr (cs_network b) \<longrightarrow> set (cs_tags a) = set (cs_tags b)) \<and>
    (\<forall>a \<in> set subnets. list_all topology_key (dict_keys (cs_tags a))) \<and>
    (\<forall>h \<in> set hostnames. list_all topology_key (dict_keys (ch_tags h)) \<and>
       (\<forall>(k, g) \<in> set (ch_capture_groups h). topology_key k \<and> 1 \<le> g \<and> g \<le> int (pat_groups (ch_pattern h))))"
proof -
  from assms have ok: "validate_topology ip_network hs ss = Inr ()"
    and hn: "rmapM (compile_hostname_rule re_compile) hs = Inr hostnames"
    and sn: "rmapM (compile_subnet_rule ip_network) ss = Inr subnets"
    by (auto simp: load_topology_config_def result_simps)
  from ok obtain nets where all: "list_all hostname_rule_ok hs" "list_all subnet_rule_ok ss"
    and nets: "parse_subnets ip_network ss = Inr nets" "subnets_consistent nets"
    by (auto simp: validate_topology_def result_simps split: if_splits sum.splits)
  note eq = parse_compile_subnets [OF nets(1) sn]
  have "set (cs_tags a) = set (cs_tags b)"
    if "a \<in> set subnets" "b \<in> set subnets" "in_network x (cs_network a)" "in_network x (cs_network b)" for a b x
    using subnets_consistentD [OF nets(2) _ _ that(3,4)] that(1,2) by (auto simp: eq)
  moreover have "list_all topology_key (dict_keys (cs_tags a))" if a: "a \<in> set subnets" for a
  proof -
    from rmapM_origin [OF sn a] obtain r where "r \<in> set ss" "compile_subnet_rule ip_network r = Inr a" ..
    with all(2) show ?thesis
      by (fastforce simp: compile_subnet_rule_def list_all_iff subnet_rule_ok_def topology_tags_ok_def split: option.splits)
  qed
  moreover have "list_all topology_key (dict_keys (ch_tags h)) \<and>
       (\<forall>(k, g) \<in> set (ch_capture_groups h). topology_key k \<and> 1 \<le> g \<and> g \<le> int (pat_groups (ch_pattern h)))"
    if h: "h \<in> set hostnames" for h
  proof -
    from rmapM_origin [OF hn h] obtain r where "r \<in> set hs" "compile_hostname_rule re_compile r = Inr h" ..
    with all(1) show ?thesis
      by (fastforce simp: compile_hostname_rule_def list_all_iff hostname_rule_ok_def topology_tags_ok_def
          result_simps split: option.splits)
  qed
  ultimately show ?thesis by blast
qed

end
