(* ===== verification/Redaction.thy ===== *)
theory Redaction
  imports Events
begin

text \<open>
  The audit half of persistence, first part: redaction of a source payload, its semantic size
  cap, and the projection of a stored event's message and tags for the read surface
  (\<open>app/persistence/audit.py\<close>), with the response contract of \<open>app/domain/audit.py\<close> for tags.
  The keyed hash is an argument.
\<close>

section \<open>Redaction\<close>

definition redaction_version :: int where "redaction_version = 2"

definition audit_redaction_placeholder :: string where
  "audit_redaction_placeholder = ''[redacted]''"

definition audit_sensitive_fragments :: "string list" where
  "audit_sensitive_fragments =
     [''raw_payload'', ''payload'', ''credential'', ''password'', ''token'', ''secret'', ''plugin_config'',
      ''api_key'', ''apikey'', ''auth'']"

definition contains_sensitive_fragment :: "string \<Rightarrow> bool" where
  "contains_sensitive_fragment text \<longleftrightarrow>
     list_ex (\<lambda>fragment. sublist fragment (str_lower text)) audit_sensitive_fragments"

fun redact_value :: "json \<Rightarrow> json" where
  "redact_value (JObj kvs) =
     JObj (map (\<lambda>(k, v). (k, if contains_sensitive_fragment (str_lower k)
                              then JStr audit_redaction_placeholder else redact_value v)) kvs)"
| "redact_value (JList xs) = JList (map redact_value xs)"
| "redact_value (JStr s) =
     (if contains_sensitive_fragment s then JStr audit_redaction_placeholder else JStr s)"
| "redact_value v = v"

lemma size_json_field [termination_simp]: "(k, v) \<in> set kvs \<Longrightarrow> size v < Suc (size_list (size_prod (\<lambda>x. 0) size) kvs)"
proof (induction kvs)
  case (Cons p kvs)
  then show ?case by (cases p) auto
qed simp

lemma size_json_zip [termination_simp]: "(x, y) \<in> set (zip xs ys) \<Longrightarrow> size x < Suc (size_list size xs)"
proof -
  assume "(x, y) \<in> set (zip xs ys)"
  then have "x \<in> set xs" by (rule set_zip_leftD)
  then show ?thesis by (induction xs) auto
qed

function count_redacted_leaves :: "json \<Rightarrow> json \<Rightarrow> nat" where
  "count_redacted_leaves original redacted =
     (case (original, redacted) of
        (JObj kvs, JObj rs) \<Rightarrow>
          sum_list (map (\<lambda>(k, v).
            if contains_sensitive_fragment (str_lower k) then 1
            else count_redacted_leaves v (case map_of rs k of None \<Rightarrow> v | Some r \<Rightarrow> r)) kvs)
      | (JList xs, JList ys) \<Rightarrow>
          sum_list (map (\<lambda>(x, y). count_redacted_leaves x y) (zip xs ys))
      | _ \<Rightarrow> (if original \<noteq> redacted then 1 else 0))"
  by pat_completeness auto
termination
  by (relation "measure (\<lambda>(v, r). size v)") (auto simp: termination_simp)

declare count_redacted_leaves.simps [simp del]

section \<open>Semantic size cap\<close>

type_synonym json_dict = "(string, json) dict"

definition dict_del :: "'k \<Rightarrow> ('k, 'v) dict \<Rightarrow> ('k, 'v) dict" where
  "dict_del k d = filter (\<lambda>(k', v). k' \<noteq> k) d"

definition object_bytes :: "json_dict \<Rightarrow> int" where
  "object_bytes d = int (length (canonical_json_bytes (JObj d)))"

fun cap_loop :: "int \<Rightarrow> (int \<times> string) list \<Rightarrow> json_dict \<Rightarrow> int \<Rightarrow> json_dict" where
  "cap_loop max_bytes [] payload stored = payload"
| "cap_loop max_bytes ((bytes, key) # rest) payload stored =
     (if stored \<le> max_bytes then payload
      else cap_loop max_bytes rest (dict_del key payload)
             (stored - (bytes + (if length payload > 1 then 1 else 0))))"

definition cap_fields :: "json_dict \<Rightarrow> (int \<times> string) list" where
  "cap_fields payload =
     sort_key (\<lambda>(bytes, key). (- bytes, key)) (map (\<lambda>(k, v). (object_bytes [(k, v)] - 2, k)) payload)"

definition semantic_cap_payload :: "json_dict \<Rightarrow> int \<Rightarrow> json_dict \<times> bool \<times> int" where
  "semantic_cap_payload payload max_bytes =
     (let stored = object_bytes payload
      in if stored \<le> max_bytes then (payload, False, stored)
         else let p = cap_loop max_bytes (cap_fields payload) payload stored
              in (p, True, object_bytes p))"

record redacted_payload =
  rp_payload :: json_dict
  rp_original_byte_length :: int
  rp_stored_byte_length :: int
  rp_truncated :: bool
  rp_redaction_version :: int
  rp_redacted_path_count :: int
  rp_payload_hmac :: string

definition redact_dict :: "json_dict \<Rightarrow> json_dict" where
  "redact_dict d = (case redact_value (JObj d) of JObj r \<Rightarrow> r | _ \<Rightarrow> [])"

definition redact_payload ::
  "(string \<Rightarrow> bytes \<Rightarrow> string) \<Rightarrow> json_dict option \<Rightarrow> int \<Rightarrow> string \<Rightarrow> redacted_payload result" where
  "redact_payload hmac payload max_bytes hmac_key =
     (if max_bytes < 2 then Inl ValueError
      else
        let source = (case payload of None \<Rightarrow> [] | Some p \<Rightarrow> p);
            original = object_bytes source
        in if hmac_key = [] then Inl ValueError
           else
             let redacted = redact_dict source;
                 (capped, truncated, stored) = semantic_cap_payload redacted (min max_bytes original)
             in Inr \<lparr>rp_payload = capped, rp_original_byte_length = original,
                     rp_stored_byte_length = stored, rp_truncated = truncated,
                     rp_redaction_version = redaction_version,
                     rp_redacted_path_count = int (count_redacted_leaves (JObj source) (JObj redacted)),
                     rp_payload_hmac = hmac hmac_key (canonical_json_bytes (JObj source))\<rparr>)"

section \<open>Read-time projection\<close>

definition audit_message_max_length :: nat where "audit_message_max_length = 512"

definition audit_tag_max_entries :: nat where "audit_tag_max_entries = 32"

definition audit_tag_max_bytes :: nat where "audit_tag_max_bytes = 4096"

definition project_normalized_event_message :: "string option \<Rightarrow> string" where
  "project_normalized_event_message message =
     (let raw = (case message of None \<Rightarrow> [] | Some m \<Rightarrow> m);
          safe = (if raw \<noteq> [] \<and> contains_sensitive_fragment raw then audit_redaction_placeholder else raw)
      in take audit_message_max_length safe)"

datatype omission_reason = Size_limit | Invalid_legacy_shape | Sensitive_key

text \<open>One iteration over the sorted keys; the loop carries the projection, its encoded size
  and the reasons for omissions.\<close>

definition project_tag_step ::
  "tags \<Rightarrow> string \<Rightarrow> tags \<times> nat \<times> omission_reason set \<Rightarrow> tags \<times> nat \<times> omission_reason set" where
  "project_tag_step tags key = (\<lambda>(projected, encoded, reasons).
     let v = the (map_of tags key) in
     if validate_event_tags [(key, v)] \<noteq> Inr () then (projected, encoded, insert Invalid_legacy_shape reasons)
     else if contains_sensitive_fragment key then (projected, encoded, insert Sensitive_key reasons)
     else if length projected \<ge> audit_tag_max_entries then (projected, encoded, insert Size_limit reasons)
     else
       let safe = (if contains_sensitive_fragment v then audit_redaction_placeholder else v);
           pair_bytes = length (canonical_json_bytes (tags_json [(key, safe)])) - 2;
           additional = pair_bytes + (if projected = [] then 0 else 1)
       in if encoded + additional > audit_tag_max_bytes then (projected, encoded, insert Size_limit reasons)
          else (dict_set key safe projected, encoded + additional, reasons))"

definition project_normalized_event_tags ::
  "tags \<Rightarrow> bool \<Rightarrow> bool \<Rightarrow> tags \<times> omission_reason set" where
  "project_normalized_event_tags tags invalid_legacy_shape size_limit =
     (case fold (project_tag_step tags) (sort (dict_keys tags))
        ([], 2, (if invalid_legacy_shape then {Invalid_legacy_shape} else {}) \<union>
                (if size_limit then {Size_limit} else {})) of
        (projected, encoded, reasons) \<Rightarrow> (projected, reasons))"

text \<open>\<open>AuditEventResponse.require_bounded_response_tags\<close>.\<close>

definition response_tags_ok :: "tags \<Rightarrow> bool" where
  "response_tags_ok tags \<longleftrightarrow>
     list_all (\<lambda>(k, v). event_tag_key_ok k \<and> 1 \<le> length v \<and> length v \<le> 256) tags \<and>
     length tags \<le> audit_tag_max_entries \<and>
     validate_event_tags tags = Inr () \<and>
     length (canonical_json_bytes (tags_json tags)) \<le> audit_tag_max_bytes"

end
