(* ===== verification/RedactionFacts.thy ===== *)
theory RedactionFacts
  imports Redaction
begin

text \<open>
  Correctness of redaction, of the size cap and of the tag projection: nothing sensitive is
  stored or shown, and the incremental byte counts are exact.
\<close>

section \<open>Redaction\<close>

lemma lower_char_idem [simp]: "lower_char (lower_char c) = lower_char c"
  by (auto simp: lower_char_def char_code_def Let_def)

lemma str_lower_idem [simp]: "str_lower (str_lower s) = str_lower s"
  by (simp add: str_lower_def)

lemma contains_sensitive_lower [simp]:
  "contains_sensitive_fragment (str_lower s) = contains_sensitive_fragment s"
  by (simp add: contains_sensitive_fragment_def)

lemma placeholder_clean [simp]: "\<not> contains_sensitive_fragment audit_redaction_placeholder"
  by code_simp

text \<open>A document without sensitive content: no sensitive text, and only placeholders under a
  sensitive key.\<close>

fun clean_json :: "json \<Rightarrow> bool" where
  "clean_json (JObj kvs) \<longleftrightarrow>
     (\<forall>(k, v) \<in> set kvs. if contains_sensitive_fragment k then v = JStr audit_redaction_placeholder
                           else clean_json v)"
| "clean_json (JList xs) \<longleftrightarrow> (\<forall>x \<in> set xs. clean_json x)"
| "clean_json (JStr s) \<longleftrightarrow> \<not> contains_sensitive_fragment s"
| "clean_json v \<longleftrightarrow> True"

lemma clean_redact_value: "clean_json (redact_value v)"
proof (induction v rule: redact_value.induct)
  case (1 kvs)
  then show ?case by force
next
  case (2 xs)
  then show ?case by simp
qed simp_all

lemma redact_clean: "clean_json v \<Longrightarrow> redact_value v = v"
proof (induction v rule: clean_json.induct)
  case (1 kvs)
  have "map (\<lambda>(k, v). (k, if contains_sensitive_fragment (str_lower k)
                              then JStr audit_redaction_placeholder else redact_value v)) kvs = kvs"
    using 1 by (intro map_idI) (auto split: if_splits)
  then show ?case by simp
next
  case (2 xs)
  then show ?case by (simp add: map_idI)
qed simp_all

lemma redact_dict_eq:
  "redact_dict d = map (\<lambda>(k, v). (k, if contains_sensitive_fragment k
     then JStr audit_redaction_placeholder else redact_value v)) d"
  by (simp add: redact_dict_def)

lemma keys_redact_dict [simp]: "dict_keys (redact_dict d) = dict_keys d"
  by (simp add: redact_dict_eq comp_def split_beta)

section \<open>The size cap\<close>

lemma object_bytes_eq:
  "object_bytes d = 2 + (\<Sum>(k, v) \<leftarrow> d. int (field_bytes k v)) + int (length d - 1)"
proof -
  have "int (\<Sum>(k, v) \<leftarrow> d. field_bytes k v) = (\<Sum>(k, v) \<leftarrow> d. int (field_bytes k v))"
    by (induction d) auto
  then show ?thesis
    by (simp add: object_bytes_def length_canonical_json_bytes byte_length_JObj del: json_dumps.simps)
qed

lemma object_bytes_single [simp]: "object_bytes [(k, v)] - 2 = int (field_bytes k v)"
  by (simp add: object_bytes_eq)

lemma dict_del_absent: "k \<notin> set (dict_keys d) \<Longrightarrow> dict_del k d = d"
  unfolding dict_del_def by (rule filter_True) force

lemma length_dict_del: "dict_wf d \<Longrightarrow> (k, v) \<in> set d \<Longrightarrow> length d = Suc (length (dict_del k d))"
proof (induction d)
  case (Cons p d)
  show ?case
  proof (cases "fst p = k")
    case True
    with Cons.prems have "dict_del k d = d" by (intro dict_del_absent) (auto simp: dict_wf_def)
    with True show ?thesis by (cases p) (simp add: dict_del_def)
  next
    case False
    with Cons show ?thesis by (cases p) (auto simp: dict_del_def dict_wf_def)
  qed
qed simp

lemma sum_dict_del:
  fixes f :: "'k \<Rightarrow> 'v \<Rightarrow> int"
  shows "dict_wf d \<Longrightarrow> (k, v) \<in> set d \<Longrightarrow> (\<Sum>(k, v) \<leftarrow> d. f k v) = f k v + (\<Sum>(k, v) \<leftarrow> dict_del k d. f k v)"
proof (induction d)
  case (Cons p d)
  show ?case
  proof (cases "fst p = k")
    case True
    with Cons.prems have "dict_del k d = d" by (intro dict_del_absent) (auto simp: dict_wf_def)
    moreover have "(k, v) \<notin> set d"
    proof
      assume "(k, v) \<in> set d"
      then have "k \<in> fst ` set d" by force
      with True Cons.prems(1) show False by (simp add: dict_wf_def)
    qed
    then have "p = (k, v)" using Cons.prems(2) by auto
    ultimately show ?thesis by (simp add: dict_del_def)
  next
    case False
    with Cons show ?thesis by (cases p) (auto simp: dict_del_def dict_wf_def)
  qed
qed simp

text \<open>Removing a field changes the encoded size by what the loop subtracts.\<close>

lemma object_bytes_del:
  assumes "dict_wf d" "(k, v) \<in> set d"
  shows "object_bytes (dict_del k d) = object_bytes d - (int (field_bytes k v) + (if length d > 1 then 1 else 0))"
  using sum_dict_del [OF assms, of "\<lambda>k v. int (field_bytes k v)"] length_dict_del [OF assms]
  by (cases "dict_del k d"; simp add: object_bytes_eq)

lemma dict_wf_del: "dict_wf d \<Longrightarrow> dict_wf (dict_del k d)"
  by (simp add: dict_del_def dict_wf_filter)

text \<open>The fields still to be considered, beside the document they come from.\<close>

definition cap_inv :: "json_dict \<Rightarrow> (int \<times> string) list \<Rightarrow> bool" where
  "cap_inv d fs \<longleftrightarrow>
     dict_wf d \<and> distinct (map snd fs) \<and> set (dict_keys d) = set (map snd fs) \<and>
     (\<forall>(b, k) \<in> set fs. \<exists>v. (k, v) \<in> set d \<and> b = int (field_bytes k v))"

lemma cap_inv_step:
  assumes "cap_inv d ((b, k) # fs)"
  shows "cap_inv (dict_del k d) fs"
    and "object_bytes (dict_del k d) = object_bytes d - (b + (if length d > 1 then 1 else 0))"
proof -
  from assms obtain v where v: "(k, v) \<in> set d" "b = int (field_bytes k v)" and wf: "dict_wf d"
    by (auto simp: cap_inv_def)
  show "object_bytes (dict_del k d) = object_bytes d - (b + (if length d > 1 then 1 else 0))"
    using object_bytes_del [OF wf v(1)] v(2) by simp
  have keys: "set (dict_keys (dict_del k d)) = set (dict_keys d) - {k}"
    by (force simp: dict_del_def)
  have "k \<notin> set (map snd fs)" "distinct (map snd fs)" using assms by (simp_all add: cap_inv_def)
  moreover have "\<exists>v. (k', v) \<in> set (dict_del k d) \<and> b' = int (field_bytes k' v)" if "(b', k') \<in> set fs" for b' k'
  proof -
    have "k' \<noteq> k" using that calculation(1) by force
    with that assms show ?thesis by (fastforce simp: cap_inv_def dict_del_def)
  qed
  ultimately show "cap_inv (dict_del k d) fs"
    using assms keys dict_wf_del [OF wf] unfolding cap_inv_def by auto
qed

text \<open>
  The loop removes the first fields of its list, as few as bring the document under the cap.
\<close>

lemma cap_loop_spec:
  assumes "cap_inv d fs" "2 \<le> max_bytes"
  shows "\<exists>n \<le> length fs.
    cap_loop max_bytes fs d (object_bytes d) = filter (\<lambda>(k, v). k \<notin> set (map snd (take n fs))) d \<and>
    object_bytes (filter (\<lambda>(k, v). k \<notin> set (map snd (take n fs))) d) \<le> max_bytes \<and>
    (\<forall>m < n. max_bytes < object_bytes (filter (\<lambda>(k, v). k \<notin> set (map snd (take m fs))) d))"
  using assms
proof (induction fs arbitrary: d)
  case Nil
  then have "d = []" by (simp add: cap_inv_def)
  with Nil show ?case by (simp add: object_bytes_eq)
next
  case (Cons f fs)
  obtain b k where f: "f = (b, k)" by (cases f)
  have all: "filter (\<lambda>(k, v). k \<notin> set (map snd (take 0 (f # fs)))) d = d" by simp
  show ?case
  proof (cases "object_bytes d \<le> max_bytes")
    case True
    with all show ?thesis by (intro exI [of _ 0]) (simp add: f)
  next
    case False
    note st = cap_inv_step [OF Cons.prems(1) [unfolded f]]
    have del: "filter (\<lambda>(k, v). k \<notin> set (map snd (take m fs))) (dict_del k d)
      = filter (\<lambda>(k, v). k \<notin> set (map snd (take (Suc m) (f # fs)))) d" for m
      unfolding dict_del_def filter_filter f by (rule filter_cong) auto
    from Cons.IH [OF st(1) Cons.prems(2)] obtain n where
      n: "n \<le> length fs"
      "cap_loop max_bytes fs (dict_del k d) (object_bytes (dict_del k d)) =
        filter (\<lambda>(k, v). k \<notin> set (map snd (take (Suc n) (f # fs)))) d"
      "object_bytes (filter (\<lambda>(k, v). k \<notin> set (map snd (take (Suc n) (f # fs)))) d) \<le> max_bytes"
      "\<forall>m < n. max_bytes < object_bytes (filter (\<lambda>(k, v). k \<notin> set (map snd (take (Suc m) (f # fs)))) d)"
      unfolding del by blast
    have "max_bytes < object_bytes (filter (\<lambda>(k, v). k \<notin> set (map snd (take m (f # fs)))) d)" if "m < Suc n" for m
      using that n(4) False all by (cases m) auto
    moreover have "cap_loop max_bytes (f # fs) d (object_bytes d) =
        cap_loop max_bytes fs (dict_del k d) (object_bytes (dict_del k d))"
      using False st(2) by (simp add: f)
    ultimately show ?thesis using n(1-3) by (intro exI [of _ "Suc n"]) simp
  qed
qed

text \<open>The fields in the order the loop considers them: largest first, ties by key.\<close>

lemma cap_inv_fields: "dict_wf d \<Longrightarrow> cap_inv d (cap_fields d)"
proof -
  assume wf: "dict_wf d"
  let ?f = "map (\<lambda>(k, v). (object_bytes [(k, v)] - 2, k)) d"
  have snd: "map snd ?f = dict_keys d" by (simp add: comp_def split_beta)
  have "distinct (map snd (cap_fields d))"
  proof -
    have "mset (map snd (cap_fields d)) = mset (map snd ?f)" by (simp only: cap_fields_def mset_map mset_sort)
    then show ?thesis using wf snd unfolding dict_wf_def by (metis mset_eq_imp_distinct_iff)
  qed
  moreover have "set (map snd (cap_fields d)) = set (dict_keys d)"
    unfolding snd [symmetric] by (simp only: cap_fields_def set_map set_sort)
  moreover have "set (cap_fields d) = (\<lambda>(k, v). (int (field_bytes k v), k)) ` set d"
    by (auto simp: cap_fields_def simp del: One_nat_def)
  then have "\<forall>(b, k) \<in> set (cap_fields d). \<exists>v. (k, v) \<in> set d \<and> b = int (field_bytes k v)" by auto
  ultimately show ?thesis using wf unfolding cap_inv_def by blast
qed

lemma cap_fields_sorted:
  "cap_fields d = xs @ ys \<Longrightarrow> (b, k) \<in> set xs \<Longrightarrow> (b', k') \<in> set ys \<Longrightarrow> b' \<le> b"
proof -
  assume *: "cap_fields d = xs @ ys" "(b, k) \<in> set xs" "(b', k') \<in> set ys"
  have "sorted (map (\<lambda>(bytes, key). (- bytes, key)) (xs @ ys))"
    unfolding *(1) [symmetric] cap_fields_def by (rule sorted_sort_key)
  then have "\<forall>x \<in> set (map (\<lambda>(bytes, key). (- bytes, key)) xs).
      \<forall>y \<in> set (map (\<lambda>(bytes, key). (- bytes, key)) ys). x \<le> y"
    unfolding map_append sorted_append by blast
  with *(2,3) have "(- b, k) \<le> (- b', k')" by force
  then show ?thesis by auto
qed

lemma cap_payload_spec:
  assumes "semantic_cap_payload d max_bytes = (p, truncated, stored)" "dict_wf d" "2 \<le> max_bytes"
  shows "stored = object_bytes p \<and> stored \<le> max_bytes \<and>
    (truncated \<longleftrightarrow> max_bytes < object_bytes d) \<and> (\<not> truncated \<longrightarrow> p = d) \<and>
    (\<exists>dropped. p = filter (\<lambda>(k, v). k \<notin> set dropped) d \<and>
       (\<forall>(k, v) \<in> set d. \<forall>(k', v') \<in> set d.
          k \<in> set dropped \<longrightarrow> k' \<notin> set dropped \<longrightarrow> field_bytes k' v' \<le> field_bytes k v) \<and>
       (dropped \<noteq> [] \<longrightarrow> max_bytes < object_bytes (filter (\<lambda>(k, v). k \<notin> set (butlast dropped)) d)))"
proof (cases "object_bytes d \<le> max_bytes")
  case True
  with assms(1) have eq: "p = d" "truncated = False" "stored = object_bytes d"
    by (auto simp: semantic_cap_payload_def)
  show ?thesis unfolding eq using True by (intro conjI exI [of _ "[]"]) auto
next
  case False
  note inv = cap_inv_fields [OF assms(2)]
  obtain n where n: "n \<le> length (cap_fields d)"
    "cap_loop max_bytes (cap_fields d) d (object_bytes d) = filter (\<lambda>(k, v). k \<notin> set (map snd (take n (cap_fields d)))) d"
    "object_bytes (filter (\<lambda>(k, v). k \<notin> set (map snd (take n (cap_fields d)))) d) \<le> max_bytes"
    "\<forall>m < n. max_bytes < object_bytes (filter (\<lambda>(k, v). k \<notin> set (map snd (take m (cap_fields d)))) d)"
    using cap_loop_spec [OF inv assms(3)] by blast
  let ?dropped = "map snd (take n (cap_fields d))"
  have p: "p = filter (\<lambda>(k, v). k \<notin> set ?dropped) d" "truncated" "stored = object_bytes p"
    using assms(1) False n(2) by (auto simp: semantic_cap_payload_def Let_def)
  have entry: "\<exists>b. (b, k) \<in> set (cap_fields d) \<and> b = int (field_bytes k v)" if "(k, v) \<in> set d" for k v
    using that by (auto simp: cap_fields_def intro!: image_eqI [of _ _ "(k, v)"])
  have order: "field_bytes k' v' \<le> field_bytes k v"
    if "(k, v) \<in> set d" "(k', v') \<in> set d" "k \<in> set ?dropped" "k' \<notin> set ?dropped" for k v k' v'
  proof -
    from entry [OF that(1)] entry [OF that(2)] have e:
      "(int (field_bytes k v), k) \<in> set (cap_fields d)" "(int (field_bytes k' v'), k') \<in> set (cap_fields d)"
      by auto
    have split: "cap_fields d = take n (cap_fields d) @ drop n (cap_fields d)" by simp
    from that(3) obtain b where b: "(b, k) \<in> set (take n (cap_fields d))" by auto
    have "b = int (field_bytes k v)"
    proof -
      have "(b, k) \<in> set (cap_fields d)" using b by (meson in_set_takeD)
      with inv obtain v1 where "(k, v1) \<in> set d" "b = int (field_bytes k v1)"
        unfolding cap_inv_def by fast
      moreover from this(1) that(1) assms(2) have "v1 = v"
        by (auto simp: dict_wf_def intro: eq_key_imp_eq_value)
      ultimately show ?thesis by simp
    qed
    moreover have "(int (field_bytes k' v'), k') \<in> set (drop n (cap_fields d))"
    proof -
      have "(int (field_bytes k' v'), k') \<notin> set (take n (cap_fields d))"
        using that(4) by (metis image_eqI list.set_map snd_conv)
      then show ?thesis using e(2) by (metis append_take_drop_id Un_iff set_append)
    qed
    ultimately show ?thesis using cap_fields_sorted [OF split b] by (metis of_nat_le_iff)
  qed
  have "max_bytes < object_bytes (filter (\<lambda>(k, v). k \<notin> set (butlast ?dropped)) d)" if "?dropped \<noteq> []"
  proof -
    have "0 < n" using that by (cases n) auto
    moreover have "butlast ?dropped = map snd (take (n - 1) (cap_fields d))"
      using n(1) by (simp add: map_butlast [symmetric] butlast_take)
    ultimately show ?thesis using n(4) by simp
  qed
  moreover have "\<forall>(k, v) \<in> set d. \<forall>(k', v') \<in> set d.
      k \<in> set ?dropped \<longrightarrow> k' \<notin> set ?dropped \<longrightarrow> field_bytes k' v' \<le> field_bytes k v"
    using order by blast
  ultimately show ?thesis
    using p(1) by (intro conjI exI [of _ ?dropped]) (use p n(3) False in \<open>simp_all only: not_le\<close>, simp_all)
qed

text \<open>
  The size cap is exact and minimal.  The reported length is the length of the canonical
  encoding of what is kept and never exceeds the cap; nothing is dropped from a document that
  fits; otherwise whole fields are dropped, none of them smaller than a field that is kept, and
  without the last one dropped the document would still exceed the cap.
\<close>

lemma semantic_cap_payload_spec:
  assumes "semantic_cap_payload d max_bytes = (p, truncated, stored)" "dict_wf d" "2 \<le> max_bytes"
  shows "stored = object_bytes p \<and> stored \<le> max_bytes \<and>
    (truncated \<longleftrightarrow> max_bytes < object_bytes d) \<and> (\<not> truncated \<longrightarrow> p = d) \<and>
    (\<exists>dropped. p = filter (\<lambda>(k, v). k \<notin> set dropped) d \<and>
       (\<forall>(k, v) \<in> set d. \<forall>(k', v') \<in> set d.
          k \<in> set dropped \<longrightarrow> k' \<notin> set dropped \<longrightarrow> field_bytes k' v' \<le> field_bytes k v) \<and>
       (dropped \<noteq> [] \<longrightarrow> max_bytes < object_bytes (filter (\<lambda>(k, v). k \<notin> set (butlast dropped)) d)))"
  by (rule cap_payload_spec [OF assms])

lemma redact_payload_facts:
  assumes "redact_payload hmac (Some source) max_bytes key = Inr r" "dict_wf source"
  shows "clean_json (JObj (rp_payload r)) \<and>
    set (rp_payload r) \<subseteq> set (redact_dict source) \<and>
    rp_original_byte_length r = object_bytes source \<and>
    rp_stored_byte_length r = object_bytes (rp_payload r) \<and>
    rp_stored_byte_length r \<le> max_bytes \<and> rp_stored_byte_length r \<le> rp_original_byte_length r \<and>
    (\<not> rp_truncated r \<longrightarrow> rp_payload r = redact_dict source) \<and>
    rp_payload_hmac r = hmac key (canonical_json_bytes (JObj source))"
proof -
  let ?red = "redact_dict source" and ?cap = "min max_bytes (object_bytes source)"
  have bytes: "2 \<le> object_bytes d" for d
  proof -
    have "0 \<le> (\<Sum>(k, v) \<leftarrow> d. int (field_bytes k v))" by (induction d) auto
    then show ?thesis by (simp add: object_bytes_eq)
  qed
  obtain p tr st where cap: "semantic_cap_payload ?red ?cap = (p, tr, st)"
    by (cases "semantic_cap_payload ?red ?cap")
  from assms(1) have two: "2 \<le> max_bytes" by (simp add: redact_payload_def split: if_splits)
  from assms(1) cap have r: "rp_payload r = p" "rp_original_byte_length r = object_bytes source"
    "rp_stored_byte_length r = st" "rp_truncated r = tr"
    "rp_payload_hmac r = hmac key (canonical_json_bytes (JObj source))"
    by (auto simp: redact_payload_def Let_def split: if_splits)
  have wf: "dict_wf ?red" using assms(2) by (simp add: dict_wf_def)
  have two': "2 \<le> ?cap" using two bytes [of source] by simp
  note spec = cap_payload_spec [OF cap wf two']
  then have sub: "set p \<subseteq> set ?red" by auto
  have "clean_json (JObj ?red)" using clean_redact_value [of "JObj source"] by (simp add: redact_dict_def)
  then have "clean_json (JObj p)" using sub unfolding clean_json.simps by blast
  with spec sub r show ?thesis by auto
qed

text \<open>
  C33: redaction leaves no sensitive content.  What is stored of a payload has a placeholder
  under every sensitive key, no other string with a sensitive fragment at any depth, and only
  keys of the source; it fits both the configured cap and the length of the original, so the
  table's check constraint holds; the reported lengths are those of the encodings.
\<close>

theorem redact_payload_safe:
  assumes "redact_payload hmac (Some source) max_bytes key = Inr r" "dict_wf source"
  shows "clean_json (JObj (rp_payload r)) \<and>
    set (rp_payload r) \<subseteq> set (redact_dict source) \<and>
    rp_original_byte_length r = object_bytes source \<and>
    rp_stored_byte_length r = object_bytes (rp_payload r) \<and>
    rp_stored_byte_length r \<le> max_bytes \<and> rp_stored_byte_length r \<le> rp_original_byte_length r \<and>
    (\<not> rp_truncated r \<longrightarrow> rp_payload r = redact_dict source) \<and>
    rp_payload_hmac r = hmac key (canonical_json_bytes (JObj source))"
  by (rule redact_payload_facts [OF assms])

section \<open>The tag projection\<close>

lemma tags_bytes_eq:
  "length (canonical_json_bytes (tags_json d)) = 2 + (\<Sum>(k, v) \<leftarrow> d. field_bytes k (JStr v)) + (length d - 1)"
proof -
  have "(\<Sum>(k, v) \<leftarrow> map (\<lambda>(k, v). (k, JStr v)) d. field_bytes k v) = (\<Sum>(k, v) \<leftarrow> d. field_bytes k (JStr v))"
    by (induction d) auto
  then show ?thesis
    by (simp add: length_canonical_json_bytes tags_json_def byte_length_JObj del: json_dumps.simps)
qed

lemma dict_set_fresh: "k \<notin> set (dict_keys d) \<Longrightarrow> dict_set k v d = d @ [(k, v)]"
  by (induction d) auto

lemma validate_single:
  "validate_event_tags [(k, v)] = Inr () \<Longrightarrow> event_tag_key_ok k \<and> event_tag_value_ok v"
  using validate_event_tags_iff [of "[(k, v)]"] by (simp add: dict_wf_def)

lemma placeholder_value_ok [simp]: "event_tag_value_ok audit_redaction_placeholder"
  by code_simp

definition safe_tag_value :: "string \<Rightarrow> string" where
  "safe_tag_value v = (if contains_sensitive_fragment v then audit_redaction_placeholder else v)"

lemma safe_tag_value_clean [simp]: "\<not> contains_sensitive_fragment (safe_tag_value v)"
  by (simp add: safe_tag_value_def)

text \<open>What the projection loop keeps true of its three variables after the keys \<open>done\<close>.\<close>

definition project_inv ::
  "tags \<Rightarrow> string list \<Rightarrow> omission_reason set \<Rightarrow> tags \<times> nat \<times> omission_reason set \<Rightarrow> bool" where
  "project_inv tags visited r0 = (\<lambda>(projected, encoded, reasons).
     dict_wf projected \<and> length projected \<le> audit_tag_max_entries \<and>
     encoded = length (canonical_json_bytes (tags_json projected)) \<and> encoded \<le> audit_tag_max_bytes \<and>
     set (dict_keys projected) \<subseteq> set visited \<and> r0 \<subseteq> reasons \<and>
     (\<forall>(k, v) \<in> set projected. event_tag_key_ok k \<and> event_tag_value_ok v \<and>
        \<not> contains_sensitive_fragment k \<and> v = safe_tag_value (the (map_of tags k))) \<and>
     (reasons = r0 \<or> reasons \<noteq> {}) \<and>
     (reasons = {} \<longrightarrow> set visited \<subseteq> set (dict_keys projected)) \<and>
     (set visited \<subseteq> set (dict_keys projected) \<longrightarrow> reasons = r0))"

lemma project_step_inv:
  assumes "project_inv tags visited r0 s" "key \<notin> set visited"
  shows "project_inv tags (visited @ [key]) r0 (project_tag_step tags key s)"
proof -
  obtain projected encoded reasons where s: "s = (projected, encoded, reasons)" by (cases s)
  let ?v = "the (map_of tags key)"
  let ?safe = "safe_tag_value ?v"
  note inv = assms(1) [unfolded s project_inv_def prod.case]
  have fresh: "key \<notin> set (dict_keys projected)" using inv assms(2) by blast
  have skip: "project_inv tags (visited @ [key]) r0 (projected, encoded, insert x reasons)" for x
    using inv fresh unfolding project_inv_def by auto
  have step: "project_tag_step tags key s =
     (if validate_event_tags [(key, ?v)] \<noteq> Inr () then (projected, encoded, insert Invalid_legacy_shape reasons)
     else if contains_sensitive_fragment key then (projected, encoded, insert Sensitive_key reasons)
     else if length projected \<ge> audit_tag_max_entries then (projected, encoded, insert Size_limit reasons)
     else if encoded + (length (canonical_json_bytes (tags_json [(key, ?safe)])) - 2 + (if projected = [] then 0 else 1))
         > audit_tag_max_bytes then (projected, encoded, insert Size_limit reasons)
     else (dict_set key ?safe projected,
       encoded + (length (canonical_json_bytes (tags_json [(key, ?safe)])) - 2 + (if projected = [] then 0 else 1)), reasons))"
    by (simp add: s project_tag_step_def Let_def safe_tag_value_def)
  show ?thesis
  proof (cases "validate_event_tags [(key, ?v)] = Inr () \<and> \<not> contains_sensitive_fragment key \<and>
      length projected < audit_tag_max_entries \<and>
      encoded + (length (canonical_json_bytes (tags_json [(key, ?safe)])) - 2 + (if projected = [] then 0 else 1))
        \<le> audit_tag_max_bytes")
    case False
    then have "\<exists>x. project_tag_step tags key s = (projected, encoded, insert x reasons)"
      unfolding step by auto
    with skip show ?thesis by auto
  next
    case True
    have bytes: "length (canonical_json_bytes (tags_json (projected @ [(key, ?safe)]))) =
      encoded + (length (canonical_json_bytes (tags_json [(key, ?safe)])) - 2 + (if projected = [] then 0 else 1))"
      using inv by (cases projected) (simp_all add: tags_bytes_eq)
    have ok: "event_tag_key_ok key" "event_tag_value_ok ?safe"
      using validate_single [of key ?v] True by (auto simp: safe_tag_value_def)
    have "project_tag_step tags key s = (projected @ [(key, ?safe)],
        length (canonical_json_bytes (tags_json (projected @ [(key, ?safe)]))), reasons)"
      unfolding step bytes using True dict_set_fresh [OF fresh] by simp
    moreover have "project_inv tags (visited @ [key]) r0 (projected @ [(key, ?safe)],
        length (canonical_json_bytes (tags_json (projected @ [(key, ?safe)]))), reasons)"
      unfolding project_inv_def prod.case
    proof (intro conjI)
      show "dict_wf (projected @ [(key, ?safe)])" using inv fresh by (simp add: dict_wf_def)
      show "length (canonical_json_bytes (tags_json (projected @ [(key, ?safe)]))) \<le> audit_tag_max_bytes"
        unfolding bytes using True by blast
      show "set (visited @ [key]) \<subseteq> set (dict_keys (projected @ [(key, ?safe)])) \<longrightarrow> reasons = r0"
        using inv assms(2) by (simp add: subset_insert)
      show "reasons = {} \<longrightarrow> set (visited @ [key]) \<subseteq> set (dict_keys (projected @ [(key, ?safe)]))"
        using inv by auto
      show "\<forall>(k, v) \<in> set (projected @ [(key, ?safe)]). event_tag_key_ok k \<and> event_tag_value_ok v \<and>
          \<not> contains_sensitive_fragment k \<and> v = safe_tag_value (the (map_of tags k))"
        using inv True ok by simp
    qed (use inv True in \<open>simp_all, blast?\<close>)
    ultimately show ?thesis by simp
  qed
qed

lemma project_fold_inv:
  "project_inv tags visited r0 s \<Longrightarrow> distinct (visited @ keys) \<Longrightarrow>
     project_inv tags (visited @ keys) r0 (fold (project_tag_step tags) keys s)"
proof (induction keys arbitrary: visited s)
  case (Cons key keys)
  have "project_inv tags (visited @ [key]) r0 (project_tag_step tags key s)"
    using Cons.prems by (intro project_step_inv) auto
  from Cons.IH [OF this] Cons.prems(2) show ?case by simp
qed simp

lemma project_tags_facts:
  assumes "project_normalized_event_tags tags invalid size_limited = (projected, reasons)" "dict_wf tags"
  shows "response_tags_ok projected \<and> set (dict_keys projected) \<subseteq> set (dict_keys tags) \<and>
    (\<forall>(k, v) \<in> set projected. \<not> contains_sensitive_fragment k \<and> \<not> contains_sensitive_fragment v \<and>
       v = safe_tag_value (the (map_of tags k))) \<and>
    (reasons = {} \<longleftrightarrow> \<not> invalid \<and> \<not> size_limited \<and> set (dict_keys projected) = set (dict_keys tags))"
proof -
  let ?r0 = "(if invalid then {Invalid_legacy_shape} else {}) \<union> (if size_limited then {Size_limit} else {})"
  obtain encoded where f: "fold (project_tag_step tags) (sort (dict_keys tags)) ([], 2, ?r0) = (projected, encoded, reasons)"
    using assms(1) by (auto simp: project_normalized_event_tags_def split: prod.splits)
  have "project_inv tags [] ?r0 ([], 2, ?r0)"
    by (auto simp: project_inv_def tags_bytes_eq audit_tag_max_bytes_def)
  from project_fold_inv [OF this, of "sort (dict_keys tags)"] assms(2) f
  have inv: "project_inv tags (sort (dict_keys tags)) ?r0 (projected, encoded, reasons)"
    by (simp add: dict_wf_def)
  note i = inv [unfolded project_inv_def prod.case]
  have small: "length (canonical_json_bytes (tags_json projected)) \<le> audit_tag_max_bytes" using i by simp
  then have "validate_event_tags projected = Inr ()"
    using i validate_event_tags_iff [of projected]
    by (auto simp: audit_tag_max_bytes_def event_tag_max_bytes_def event_tag_max_entries_def audit_tag_max_entries_def)
  then have ok: "response_tags_ok projected"
    using i small by (auto simp: response_tags_ok_def list_all_iff event_tag_value_ok_def)
  have shown: "\<forall>(k, v) \<in> set projected. \<not> contains_sensitive_fragment k \<and> \<not> contains_sensitive_fragment v \<and>
       v = safe_tag_value (the (map_of tags k))"
    using i safe_tag_value_clean by fastforce
  have keys: "set (dict_keys projected) \<subseteq> set (dict_keys tags)" using i by simp
  have "reasons = {} \<longleftrightarrow> \<not> invalid \<and> \<not> size_limited \<and> set (dict_keys projected) = set (dict_keys tags)"
    using i by (auto split: if_splits)
  with ok shown keys show ?thesis by blast
qed

text \<open>
  The tags an audit row shows always pass the response model: they are at most 32, valid,
  within 4096 encoded bytes, their keys carry no sensitive fragment, and each value is the stored
  one or the placeholder.  The omission flag is exact: no reason is reported precisely when the
  source was complete and every stored tag is shown.
\<close>

lemma project_normalized_event_tags_spec:
  assumes "project_normalized_event_tags tags invalid size_limited = (projected, reasons)" "dict_wf tags"
  shows "response_tags_ok projected \<and> set (dict_keys projected) \<subseteq> set (dict_keys tags) \<and>
    (\<forall>(k, v) \<in> set projected. \<not> contains_sensitive_fragment k \<and> \<not> contains_sensitive_fragment v \<and>
       v = safe_tag_value (the (map_of tags k))) \<and>
    (reasons = {} \<longleftrightarrow> \<not> invalid \<and> \<not> size_limited \<and> set (dict_keys projected) = set (dict_keys tags))"
  by (rule project_tags_facts [OF assms])

text \<open>
  The message an audit row shows is never longer than 512 characters and carries no
  sensitive fragment; the check is made on the whole stored message, before it is shortened.
\<close>

lemma project_message_facts:
  "length (project_normalized_event_message m) \<le> audit_message_max_length \<and>
   \<not> contains_sensitive_fragment (project_normalized_event_message m) \<and>
   (\<forall>s. m = Some s \<longrightarrow> length s \<le> audit_message_max_length \<longrightarrow> \<not> contains_sensitive_fragment s \<longrightarrow>
      project_normalized_event_message m = s)"
proof -
  have "sublist (str_lower (take n s)) (str_lower s)" for n s
    by (metis str_lower_append append_take_drop_id sublist_append_rightI)
  then have sub: "contains_sensitive_fragment (take n s) \<Longrightarrow> contains_sensitive_fragment s" for n s
    unfolding contains_sensitive_fragment_def list_ex_iff by (meson sublist_order.order.trans)
  have clean: "length audit_redaction_placeholder \<le> audit_message_max_length"
    "\<not> contains_sensitive_fragment audit_redaction_placeholder"
    "\<not> contains_sensitive_fragment []"
    by code_simp+
  show ?thesis
  proof (cases m)
    case None
    then show ?thesis using clean by (simp add: project_normalized_event_message_def)
  next
    case (Some s)
    then show ?thesis using clean sub [of audit_message_max_length s]
      by (cases "contains_sensitive_fragment s") (auto simp: project_normalized_event_message_def Let_def)
  qed
qed

end
