(* ===== verification/Witnesses.thy ===== *)
theory Witnesses
  imports DemoData RulesFacts Topology RedactionFacts
begin

text \<open>
  Each property of the incident core, of the rules, of the topology and of the redaction, applied
  at a concrete input at which its hypotheses hold.
\<close>

section \<open>Events\<close>

section \<open>Aggregation\<close>

theorem next_window_state_refines_witness:
  "map_of (ws_counted demo_next) =
     abstract_window (map_of (ws_counted (demo_window 1))) (demo_start - 240 * second)
       (demo_start + 60 * second) ''fp2'' (demo_start + 60 * second)"
proof -
  let ?spec = "abstract_window (map_of (ws_counted (demo_window 1))) (demo_start - 240 * second)
       (demo_start + 60 * second) ''fp2'' (demo_start + 60 * second)"
  have old: "inc_window_state (demo_row 1) = Some (demo_window 1)" "window_inv (demo_window 1)"
    using table_inv_demo_row(1) by (simp_all add: table_inv_def incident_inv_def demo_row_def)
  have fp: "up_fingerprint demo_input = Some ''fp2''" by (simp add: demo_input_def)
  have dom: "dom ?spec \<subseteq> {''fp1'', ''fp2''}"
    by (auto simp: abstract_window_def demo_window_def dom_def Let_def split: if_splits option.splits)
  have "card (dom ?spec) \<le> card {''fp1'', ''fp2''}" by (rule card_mono [OF _ dom]) simp
  then have small: "int (card (dom ?spec)) \<le> up_max_window_fingerprints demo_input"
    by (simp add: demo_input_def)
  have times: "instant (up_event_time demo_input) = demo_start + 60 * second"
    "inc_last_update_time (demo_row 1) = demo_start" "up_window_seconds demo_input = 300"
    by (simp_all add: demo_input_def demo_row_def demo_time_def)
  show ?thesis
    using next_window_state_refines [OF demo_next_window old demo_input_ok(1) fp] small
    by (simp add: times Let_def)
qed

section \<open>Lifecycle\<close>

theorem host_recovery_refines_witness:
  "\<exists>t' ws. resolve_host_recovery 7 ''web1'' (demo_time 60) ''fp2'' ''icinga'' [demo_row 1] = Inr (t', ws) \<and>
     map abs_incident t' = [(5, RESOLVED, {})] \<and> map (inc_id \<circ> lw_incident) ws = [5]"
proof -
  obtain t' ws where r: "resolve_host_recovery 7 ''web1'' (demo_time 60) ''fp2'' ''icinga'' [demo_row 1] = Inr (t', ws)"
    using demo_host_recovery by auto
  have "abs_recover {obj. io_host obj = ''web1''} (abs_incident (demo_row 1)) = (5, RESOLVED, {})"
    by (auto simp: abs_recover_def abs_incident_def objects_of_def demo_row_def demo_window_def)
  moreover have "filter (\<lambda>r. inc_open r \<and> (\<exists>obj \<in> objects_of r. io_host obj = ''web1'')) [demo_row 1] = [demo_row 1]"
    by (simp add: objects_of_def demo_row_def demo_window_def)
  moreover have "inc_id (demo_row 1) = 5" by (simp add: demo_row_def)
  ultimately show ?thesis
    using r host_recovery_refines [OF r table_inv_demo_row(1)] by simp
qed

lemma demo_row_stale:
  "stale_rows (demo_start + 301 * second) [demo_row 1] = [demo_row 1]"
  by code_simp

theorem expire_stale_incidents_succeeds_witness:
  "\<exists>t' es. expire_stale_incidents (demo_start + 301 * second) 10 [demo_row 1] = Inr (t', es)"
proof (rule expire_stale_incidents_succeeds [OF table_inv_demo_row(1)])
  have "safe_text (Some (inc_rule_name (demo_row 1)))" "int4_ok (ws_window_seconds (demo_window 1))"
    by code_simp+
  then show "\<forall>r \<in> set [demo_row 1]. inc_open r \<longrightarrow> safe_text (Some (inc_rule_name r)) \<and>
      (\<forall>w. inc_window_state r = Some w \<longrightarrow>
        int4_ok (ws_window_seconds w) \<and> int (length (ws_active_objects w)) < 2 ^ 31)"
    by (simp add: demo_row_def demo_window_def)
qed

theorem expire_stale_incidents_blocked_witness:
  "\<exists>e. expire_stale_incidents (demo_start + 301 * second) 10 [demo_blocked_row, demo_second_row] = Inl e"
proof (rule expire_stale_incidents_blocked [OF table_inv_demo_blocked])
  have "stale_rows (demo_start + 301 * second) [demo_blocked_row, demo_second_row] = [demo_blocked_row, demo_second_row]"
    by code_simp
  moreover have "inc_id demo_blocked_row = 5" "inc_id demo_second_row = 8"
    by (simp_all add: demo_blocked_row_def demo_second_row_def demo_row_def)
  ultimately show "demo_blocked_row \<in> set (stale_rows (demo_start + 301 * second) [demo_blocked_row, demo_second_row])"
    "\<forall>x \<in> set (stale_rows (demo_start + 301 * second) [demo_blocked_row, demo_second_row]). inc_id demo_blocked_row \<le> inc_id x"
    by simp_all
  show "has_forbidden_fragment (take 256 (inc_rule_name demo_blocked_row))" by code_simp
qed simp

section \<open>The incident history\<close>

lemma demo_run: "\<exists>t. db_run [] [6] t \<and> map inc_id t = [6]"
proof -
  obtain ms t r where a: "apply_problem 7 6 None (demo_event ''fp1'' 0 PROBLEM) (demo_match 1) [] [] = (ms, Inr (t, r))"
    "ar_dispatch_planned r" "ar_incident_id r = 6" "map inc_id t = [6]"
    using demo_apply_empty by (elim exE conjE) (rule that)
  have "db_step [] (Some 6) t"
    using db_step.problem [OF a(1)] a(2,3) by (simp add: planned_dispatch_def)
  from db_run.step [OF db_run.start this] a(4) show ?thesis by auto
qed

theorem reachable_table_inv_witness: "\<exists>t. db_run [] [6] t \<and> table_inv t"
  using demo_run by (elim exE conjE) (intro exI conjI, assumption, rule reachable_table_inv)

theorem history_monotone_witness: "\<exists>t r. db_run [] [6] t \<and> r \<in> set t \<and> (\<exists>r' \<in> set t. row_le r r')"
proof -
  obtain t where t: "db_run [] [6] t" "map inc_id t = [6]"
    using demo_run by (elim exE conjE) (rule that)
  then obtain r where r: "r \<in> set t" by (cases t) auto
  show ?thesis
    by (intro exI conjI, rule t(1), rule r, rule history_monotone [OF t(1) db_run.start r])
qed

theorem dispatch_planned_at_most_once_witness:
  "\<exists>t. db_run [] [6] t \<and> (\<exists>r \<in> set t. inc_id r = 6 \<and> inc_threshold_crossed r)"
proof -
  obtain t where t: "db_run [] [6] t" using demo_run by (elim exE conjE) (rule that)
  have "\<exists>r \<in> set t. inc_id r = 6 \<and> inc_threshold_crossed r"
    using dispatch_planned_at_most_once [OF t] by simp
  with t show ?thesis by (intro exI conjI)
qed

theorem replay_crossing_never_notifies_witness:
  "\<exists>ms t r. apply_problem 7 6 None (demo_event ''fp1'' 60 PROBLEM) (demo_match 1) [] [demo_row 2] = (ms, Inr (t, r)) \<and>
     ar_first_threshold_transition r \<and> \<not> ar_dispatch_planned r"
proof -
  obtain ms t r where a: "apply_problem 7 6 None (demo_event ''fp1'' 60 PROBLEM) (demo_match 1) [] [demo_row 2] = (ms, Inr (t, r))"
    "ar_replay r" "ar_first_threshold_transition r"
    using demo_apply by (elim exE conjE) (rule that)
  have "\<not> ar_dispatch_planned r"
    using replay_crossing_never_notifies [OF a(1) table_inv_demo_row(2) a(2,3) db_run.start] by (rule conjunct1)
  with a(1,3) show ?thesis by (intro exI conjI)
qed

end
