(* ===== verification/WitnessesConfig.thy ===== *)
theory WitnessesConfig
  imports DemoData RulesFacts Topology RedactionFacts
begin

text \<open>
  The properties of the rules, of the topology and of the redaction, applied at a concrete
  configuration, event and payload.
\<close>

section \<open>A configuration\<close>

text \<open>A compiled pattern with one group that matches every string with a given prefix.\<close>

definition demo_pattern :: "string \<Rightarrow> pattern" where
  "demo_pattern p = \<lparr>pat_match = (\<lambda>s. if prefix p s then Some [Some s, Some p] else None), pat_groups = 1\<rparr>"

definition demo_rule_config :: rule_config where
  "demo_rule_config =
     \<lparr>rc_name = ''hosts'', rc_priority = 1,
      rc_match = \<lparr>mcc_severities = [''CRITICAL''], mcc_host_pattern = ''web'', mcc_service_pattern = None, mcc_tags = []\<rparr>,
      rc_window = \<lparr>rw_duration_seconds = 300, rw_group_by = [''host''], rw_trigger_threshold = 1\<rparr>,
      rc_output_summary = ''down: {host}'',
      rc_actions = [\<lparr>ra_name = ''create_incident'', ra_plugin = ''mail''\<rparr>]\<rparr>"

definition demo_load :: "(compiled_rule list \<times> string) result" where
  "demo_load = load_rules_config (\<lambda>p. Some (demo_pattern p)) (\<lambda>_. ''h'') [''create_incident''] [''mail''] [demo_rule_config]"

definition demo_compiled :: compiled_rule where
  "demo_compiled =
     \<lparr>cr_definition = \<lparr>rd_name = ''hosts'', rd_priority = 1,
        rd_match = \<lparr>mc_severities = [CRITICAL], mc_host_pattern = ''web'', mc_service_pattern = None, mc_tags = []\<rparr>,
        rd_window = \<lparr>rw_duration_seconds = 300, rw_group_by = [''host''], rw_trigger_threshold = 1\<rparr>,
        rd_output_summary = ''down: {host}'',
        rd_actions = [\<lparr>ra_name = ''create_incident'', ra_plugin = ''mail''\<rparr>]\<rparr>,
      cr_host_pattern = demo_pattern ''web'', cr_service_pattern = None\<rparr>"

lemma demo_load_ok: "\<exists>r. demo_load = Inr r"
  by (rule not_isl_Inr) code_simp

lemma demo_evaluate:
  "\<exists>m. evaluate [demo_compiled] (demo_event ''fp1'' 0 PROBLEM) = Inr (Match m)"
proof -
  have "case evaluate [demo_compiled] (demo_event ''fp1'' 0 PROBLEM) of Inr (Match m) \<Rightarrow> True | _ \<Rightarrow> False"
    by code_simp
  then show ?thesis by (auto split: sum.splits engine_decision.splits)
qed

section \<open>Topology\<close>

definition demo_hostname_rule :: compiled_hostname_rule where
  "demo_hostname_rule =
     \<lparr>ch_id = ''r1'', ch_name = ''web'', ch_pattern = demo_pattern ''web'',
      ch_tags = [(''topology.site'', ''ams'')], ch_capture_groups = [(''topology.role'', 1)]\<rparr>"

section \<open>Redaction\<close>

definition demo_payload :: json_dict where
  "demo_payload = [(''host'', JStr ''web1''), (''api_token'', JStr ''abc''), (''output'', JStr ''ping timed out'')]"

lemma demo_payload_wf: "dict_wf demo_payload"
  by (simp add: demo_payload_def dict_wf_def)

theorem redact_payload_safe_witness:
  "\<exists>r. redact_payload (\<lambda>k b. k) (Some demo_payload) 60 ''key'' = Inr r \<and> clean_json (JObj (rp_payload r))"
proof -
  obtain r where r: "redact_payload (\<lambda>k b. k) (Some demo_payload) 60 ''key'' = Inr r"
    by (cases "semantic_cap_payload (redact_dict demo_payload) (min 60 (object_bytes demo_payload))")
      (simp add: redact_payload_def Let_def)
  from redact_payload_safe [OF r demo_payload_wf] r show ?thesis by simp
qed

end
