(* ===== verification/Cursor.thy ===== *)
theory Cursor
  imports IncidentTable PyTime PyJson
begin

text \<open>
  The opaque page cursors of \<open>app/persistence/audit.py\<close> and \<open>app/persistence/incidents.py\<close>:
  URL-safe base64 without padding of a compact JSON object with a timestamp and a row id.

  Base64 is the standard library's: the encoder by groups of three bytes, and the decoder
  \<open>binascii.a2b_base64\<close> with the state its loop keeps, in the strict mode the audit cursor
  uses (\<open>validate=True\<close>) and in the lenient one of \<open>urlsafe_b64decode\<close>, which skips bytes
  outside the alphabet.  \<open>bytes.decode\<close> followed by \<open>json.loads\<close>, and
  \<open>datetime.fromisoformat\<close>, are the fields of \<open>cursor_parsers\<close>; both signal failure by
  a subclass of \<open>ValueError\<close>.
\<close>

section \<open>Base64\<close>

definition b64_alphabet :: string where
  "b64_alphabet = ''ABCDEFGHIJKLMNOPQRSTUVWXYZabcdefghijklmnopqrstuvwxyz0123456789-_''"

definition b64_char :: "nat \<Rightarrow> char" where
  "b64_char n = b64_alphabet ! n"

fun b64_groups :: "nat list \<Rightarrow> string" where
  "b64_groups [] = []"
| "b64_groups [a] = [b64_char (a div 4), b64_char (a mod 4 * 16), CHR ''='', CHR ''='']"
| "b64_groups [a, b] =
     [b64_char (a div 4), b64_char (a mod 4 * 16 + b div 16), b64_char (b mod 16 * 4), CHR ''='']"
| "b64_groups (a # b # c # bs) =
     [b64_char (a div 4), b64_char (a mod 4 * 16 + b div 16), b64_char (b mod 16 * 4 + c div 64),
      b64_char (c mod 64)] @ b64_groups bs"

definition urlsafe_b64encode :: "bytes \<Rightarrow> string" where
  "urlsafe_b64encode bs = b64_groups (map unat bs)"

text \<open>The decoder's table, after the translation of \<open>-\<close> and \<open>_\<close> to \<open>+\<close> and \<open>/\<close>.\<close>

definition b64_value :: "nat \<Rightarrow> nat option" where
  "b64_value n =
     (if 65 \<le> n \<and> n \<le> 90 then Some (n - 65)
      else if 97 \<le> n \<and> n \<le> 122 then Some (n - 71)
      else if 48 \<le> n \<and> n \<le> 57 then Some (n + 4)
      else if n = 43 \<or> n = 45 then Some 62
      else if n = 47 \<or> n = 95 then Some 63
      else None)"

text \<open>
  The loop of \<open>a2b_base64\<close>: position in the quad, bits left over, pads seen since the last
  character, and whether padding has started.
\<close>

fun a2b_loop :: "bool \<Rightarrow> nat \<Rightarrow> nat \<Rightarrow> nat \<Rightarrow> bool \<Rightarrow> nat list \<Rightarrow> nat list option" where
  "a2b_loop strict pos left pads started [] = (if pos = 0 then Some [] else None)"
| "a2b_loop strict pos left pads started (c # cs) =
     (if c = 61 then
        (if 2 \<le> pos \<and> 4 \<le> pos + pads + 1 then (if strict \<and> cs \<noteq> [] then None else Some [])
         else a2b_loop strict pos left (if 2 \<le> pos then pads + 1 else pads) True cs)
      else case b64_value c of
          None \<Rightarrow> if strict then None else a2b_loop strict pos left pads started cs
        | Some v \<Rightarrow>
            if strict \<and> started then None
            else if pos = 0 then a2b_loop strict 1 v 0 started cs
            else if pos = 1 then
              map_option ((#) (left * 4 + v div 16)) (a2b_loop strict 2 (v mod 16) 0 started cs)
            else if pos = 2 then
              map_option ((#) (left * 16 + v div 4)) (a2b_loop strict 3 (v mod 4) 0 started cs)
            else map_option ((#) (left * 64 + v)) (a2b_loop strict 0 0 0 started cs))"

definition a2b_base64 :: "bool \<Rightarrow> bytes \<Rightarrow> bytes option" where
  "a2b_base64 strict bs =
     (if strict \<and> bs \<noteq> [] \<and> unat (hd bs) = 61 then None
      else map_option (map word_of_nat) (a2b_loop strict 0 0 0 False (map unat bs)))"

section \<open>Padding\<close>

text \<open>\<open>encoded.rstrip("=")\<close> and \<open>value + "=" * (-len(value) % 4)\<close>.\<close>

definition rstrip_pad :: "string \<Rightarrow> string" where
  "rstrip_pad s = rev (dropWhile (\<lambda>c. c = CHR ''='') (rev s))"

definition pad_b64 :: "string \<Rightarrow> string" where
  "pad_b64 s = s @ replicate (nat ((- int (length s)) mod 4)) (CHR ''='')"

section \<open>Row ids\<close>

definition hex_char :: "nat \<Rightarrow> char" where
  "hex_char n = ''0123456789abcdef'' ! n"

text \<open>The \<open>n\<close> lowest hexadecimal digits of a number, most significant first.\<close>

fun hex_digits :: "nat \<Rightarrow> nat \<Rightarrow> string" where
  "hex_digits 0 v = []"
| "hex_digits (Suc n) v = hex_digits n (v div 16) @ [hex_char (v mod 16)]"

text \<open>\<open>str(UUID)\<close>.\<close>

definition uuid_str :: "uuid \<Rightarrow> string" where
  "uuid_str u =
     (let h = hex_digits 32 (unat u)
      in take 8 h @ ''-'' @ take 4 (drop 8 h) @ ''-'' @ take 4 (drop 12 h) @ ''-'' @
         take 4 (drop 16 h) @ ''-'' @ drop 20 h)"

definition hex_value :: "char \<Rightarrow> nat option" where
  "hex_value c =
     (let n = char_code c in
      if 48 \<le> n \<and> n \<le> 57 then Some (n - 48)
      else if 97 \<le> n \<and> n \<le> 102 then Some (n - 87)
      else if 65 \<le> n \<and> n \<le> 70 then Some (n - 55)
      else None)"

text \<open>Digits of \<open>int(s, 16)\<close>: single underscores may separate them.\<close>

fun hex_number :: "nat \<Rightarrow> bool \<Rightarrow> string \<Rightarrow> nat option" where
  "hex_number acc after_digit [] = (if after_digit then Some acc else None)"
| "hex_number acc after_digit (c # cs) =
     (if c = CHR ''_'' then (if after_digit then hex_number acc False cs else None)
      else case hex_value c of None \<Rightarrow> None | Some v \<Rightarrow> hex_number (acc * 16 + v) True cs)"

text \<open>
  \<open>int(s, 16)\<close>: surrounding white space, a sign and the prefix \<open>0x\<close>, which an underscore
  may follow.
\<close>

definition python_int16 :: "string \<Rightarrow> int option" where
  "python_int16 s =
     (let t = str_strip s;
          (neg, u) = (case t of c # r \<Rightarrow> if c = CHR ''-'' then (True, r)
                                     else if c = CHR ''+'' then (False, r) else (False, t)
                             | [] \<Rightarrow> (False, t));
          v = (case u of c # d # r \<Rightarrow>
                 if c = CHR ''0'' \<and> (d = CHR ''x'' \<or> d = CHR ''X'')
                 then (case r of e # r' \<Rightarrow> if e = CHR ''_'' then r' else r | [] \<Rightarrow> r)
                 else u
               | _ \<Rightarrow> u)
      in map_option (\<lambda>n. if neg then - int n else int n) (hex_number 0 False v))"

definition strip_braces :: "string \<Rightarrow> string" where
  "strip_braces s =
     (let brace = (\<lambda>c. c = CHR 0x7B \<or> c = CHR 0x7D)
      in rev (dropWhile brace (rev (dropWhile brace s))))"

text \<open>\<open>UUID(s)\<close> of a string.\<close>

definition uuid_of_string :: "string \<Rightarrow> uuid option" where
  "uuid_of_string s =
     (let h = filter (\<lambda>c. c \<noteq> CHR ''-'')
                (strip_braces (str_replace ''uuid:'' [] (str_replace ''urn:'' [] s)))
      in if length h \<noteq> 32 then None
         else case python_int16 h of
             None \<Rightarrow> None
           | Some i \<Rightarrow> if 0 \<le> i \<and> i < 2 ^ 128 then Some (word_of_int i) else None)"

text \<open>
  \<open>UUID(value)\<close> of a JSON value: \<open>None\<close> is reported as a \<open>TypeError\<close>, any other value
  that is not a string has no \<open>replace\<close>.
\<close>

definition uuid_of_json :: "json \<Rightarrow> uuid result" where
  "uuid_of_json v =
     (case v of
        JStr s \<Rightarrow> (case uuid_of_string s of None \<Rightarrow> Inl ValueError | Some u \<Rightarrow> Inr u)
      | JNull \<Rightarrow> Inl TypeError
      | _ \<Rightarrow> Inl AttributeError)"

section \<open>Cursors\<close>

record cursor_parsers =
  json_of_bytes :: "bytes \<Rightarrow> json option"
  fromisoformat :: "string \<Rightarrow> datetime option"

definition get_item :: "json \<Rightarrow> string \<Rightarrow> json result" where
  "get_item v k =
     (case v of
        JObj d \<Rightarrow> (case map_of d k of None \<Rightarrow> Inl KeyError | Some x \<Rightarrow> Inr x)
      | _ \<Rightarrow> Inl TypeError)"

definition datetime_of_json :: "cursor_parsers \<Rightarrow> json \<Rightarrow> datetime result" where
  "datetime_of_json ps v =
     (case v of
        JStr s \<Rightarrow> (case fromisoformat ps s of None \<Rightarrow> Inl ValueError | Some d \<Rightarrow> Inr d)
      | _ \<Rightarrow> Inl TypeError)"

text \<open>The body of both \<open>try\<close> blocks, for the name of the timestamp field.\<close>

definition parse_cursor :: "cursor_parsers \<Rightarrow> bool \<Rightarrow> string \<Rightarrow> string \<Rightarrow> (datetime \<times> uuid) result" where
  "parse_cursor ps strict field value =
     (case a2b_base64 strict (utf8_encode (pad_b64 value)) of
        None \<Rightarrow> Inl ValueError
      | Some bs \<Rightarrow>
          case json_of_bytes ps bs of
            None \<Rightarrow> Inl ValueError
          | Some payload \<Rightarrow>
              rbind (get_item payload field) (\<lambda>ts.
              rbind (datetime_of_json ps ts) (\<lambda>d.
              rbind (rguard (is_aware d) ValueError) (\<lambda>_.
              rbind (get_item payload ''id'') (\<lambda>v.
              rbind (uuid_of_json v) (\<lambda>u. Inr (d, u)))))))"

definition rescue :: "exn list \<Rightarrow> exn \<Rightarrow> 'a result \<Rightarrow> 'a result" where
  "rescue caught e m = (case m of Inl x \<Rightarrow> Inl (if x \<in> set caught then e else x) | Inr y \<Rightarrow> Inr y)"

definition cursor_json :: "string \<Rightarrow> datetime \<Rightarrow> uuid \<Rightarrow> string" where
  "cursor_json field d u =
     CHR 0x7B # json_quote field @ '':'' @ json_quote (isoformat d) @ '','' @
     json_quote ''id'' @ '':'' @ json_quote (uuid_str u) @ [CHR 0x7D]"

definition encode_audit_cursor :: "datetime \<times> uuid \<Rightarrow> string" where
  "encode_audit_cursor c =
     rstrip_pad (urlsafe_b64encode (utf8_encode (cursor_json ''accepted_at'' (fst c) (snd c))))"

definition decode_audit_cursor :: "cursor_parsers \<Rightarrow> string \<Rightarrow> (datetime \<times> uuid) result" where
  "decode_audit_cursor ps value =
     rescue [KeyError, TypeError, ValueError] InvalidAuditCursorError
       (parse_cursor ps True ''accepted_at'' value)"

definition encode_incident_cursor :: "datetime \<times> uuid \<Rightarrow> string" where
  "encode_incident_cursor c =
     rstrip_pad (urlsafe_b64encode (utf8_encode (cursor_json ''last_update_time'' (fst c) (snd c))))"

definition decode_incident_cursor :: "cursor_parsers \<Rightarrow> string \<Rightarrow> (datetime \<times> uuid) result" where
  "decode_incident_cursor ps value =
     rescue [KeyError, TypeError, ValueError] ValueError
       (parse_cursor ps False ''last_update_time'' value)"

end
