(* ===== verification/CursorFacts.thy ===== *)
theory CursorFacts
  imports Cursor
begin

text \<open>
  The round trip of cursors through base64, JSON and the row id, and the exceptions the decoders
  let through.
\<close>

section \<open>Base64\<close>

lemma b64_char_facts:
  assumes "n < 64"
  shows "b64_value (char_code (b64_char n)) = Some n" "char_code (b64_char n) < 128"
    "char_code (b64_char n) \<noteq> 61" "b64_char n \<noteq> CHR ''=''"
proof -
  have "list_all (\<lambda>n. b64_value (char_code (b64_char n)) = Some n \<and> char_code (b64_char n) < 128 \<and>
      char_code (b64_char n) \<noteq> 61 \<and> b64_char n \<noteq> CHR ''='') [0..<64]"
    by (simp add: upt_rec b64_char_def b64_alphabet_def b64_value_def char_code_def)
  with assms show "b64_value (char_code (b64_char n)) = Some n" "char_code (b64_char n) < 128"
    "char_code (b64_char n) \<noteq> 61" "b64_char n \<noteq> CHR ''=''"
    by (auto simp: list_all_iff)
qed

lemma char_code_pad [simp]: "char_code (CHR ''='') = 61"
  by (simp add: char_code_def)

lemma pad_not_b64_char [simp]: "n < 64 \<Longrightarrow> CHR ''='' \<noteq> b64_char n"
  using b64_char_facts(4) by metis

lemma digit_pair: "x < n \<Longrightarrow> (m * n + x) div n = m" "x < n \<Longrightarrow> (m * n + x) mod n = (x::nat)"
  by simp_all

text \<open>Three bytes as four sextets and back.\<close>

lemma sextets:
  assumes "a < 256" "b < 256" "c < (256::nat)"
  shows "a div 4 < 64" "a mod 4 * 16 + b div 16 < 64" "b mod 16 * 4 + c div 64 < 64" "c mod 64 < 64"
    "a mod 4 * 16 < 64" "b mod 16 * 4 < 64"
    "a div 4 * 4 + (a mod 4 * 16 + b div 16) div 16 = a" "c div 64 * 64 + c mod 64 = c"
    "(a mod 4 * 16 + b div 16) mod 16 * 16 + (b mod 16 * 4 + c div 64) div 4 = b"
    "(b mod 16 * 4 + c div 64) mod 4 * 64 + c mod 64 = c"
proof -
  have d: "b div 16 < 16" "c div 64 < 4" "a mod 4 < 4" "b mod 16 < 16" using assms by auto
  show "a div 4 < 64" "a mod 4 * 16 + b div 16 < 64" "b mod 16 * 4 + c div 64 < 64" "c mod 64 < 64"
    "a mod 4 * 16 < 64" "b mod 16 * 4 < 64"
    using assms d by auto
  show "a div 4 * 4 + (a mod 4 * 16 + b div 16) div 16 = a" "c div 64 * 64 + c mod 64 = c"
    "(a mod 4 * 16 + b div 16) mod 16 * 16 + (b mod 16 * 4 + c div 64) div 4 = b"
    "(b mod 16 * 4 + c div 64) mod 4 * 64 + c mod 64 = c"
    by (simp_all only: digit_pair [OF d(1)] digit_pair [OF d(2)] div_mult_mod_eq)
qed

lemma b64_groups_form:
  "list_all (\<lambda>n. n < 256) ns \<Longrightarrow>
   \<exists>data p. b64_groups ns = data @ replicate p (CHR ''='') \<and> CHR ''='' \<notin> set data \<and> p \<le> 2 \<and>
     (length data + p) mod 4 = 0"
proof (induction ns rule: b64_groups.induct)
  case 1
  show ?case by (intro exI [of _ "[]"] exI [of _ 0]) simp
next
  case (2 a)
  then show ?case
    by (intro exI [of _ "[b64_char (a div 4), b64_char (a mod 4 * 16)]"] exI [of _ 2])
      (auto simp: numeral_2_eq_2)
next
  case (3 a b)
  then show ?case
    by (intro exI [of _ "[b64_char (a div 4), b64_char (a mod 4 * 16 + b div 16), b64_char (b mod 16 * 4)]"]
        exI [of _ 1])
      auto
next
  case (4 a b c bs)
  then obtain data p where "b64_groups bs = data @ replicate p (CHR ''='')" "CHR ''='' \<notin> set data" "p \<le> 2"
    "(length data + p) mod 4 = 0"
    by auto
  with 4(2) show ?case
    by (intro exI [of _ "[b64_char (a div 4), b64_char (a mod 4 * 16 + b div 16),
        b64_char (b mod 16 * 4 + c div 64), b64_char (c mod 64)] @ data"] exI [of _ p])
      auto
qed

lemma pad_count: "p \<le> 2 \<Longrightarrow> (l + p) mod 4 = 0 \<Longrightarrow> nat ((- int l) mod 4) = p"
proof -
  assume "p \<le> 2" "(l + p) mod 4 = 0"
  then obtain k where "l + p = 4 * k" by (metis mod_0_imp_dvd dvd_def)
  then have "- int l = int p + 4 * (- int k)" by linarith
  then have "(- int l) mod 4 = int p mod 4" by presburger
  with \<open>p \<le> 2\<close> show ?thesis by simp
qed

lemma pad_rstrip:
  assumes "s = data @ replicate p (CHR ''='')" "CHR ''='' \<notin> set data" "p \<le> 2" "(length data + p) mod 4 = 0"
  shows "pad_b64 (rstrip_pad s) = s"
proof -
  have "rstrip_pad s = data"
    using assms(1,2) by (cases data rule: rev_cases) (auto simp: rstrip_pad_def dropWhile_append)
  moreover have "nat ((- int (length data)) mod 4) = p"
    by (rule pad_count [OF assms(3,4)])
  ultimately show ?thesis using assms(1) by (simp add: pad_b64_def)
qed

lemma a2b_groups:
  "list_all (\<lambda>n. n < 256) ns \<Longrightarrow> a2b_loop strict 0 0 0 False (map char_code (b64_groups ns)) = Some ns"
proof (induction ns rule: b64_groups.induct)
  case (2 a)
  then have "a < 256" by simp
  note s = sextets [OF this, of 0 0]
  show ?case using s(7) by (simp add: b64_char_facts s)
next
  case (3 a b)
  then have "a < 256" "b < 256" by simp_all
  note s = sextets [OF this, of 0]
  show ?case using s(7,9) by (simp add: b64_char_facts s)
next
  case (4 a b c bs)
  then have "a < 256" "b < 256" "c < 256" by simp_all
  note s = sextets [OF this]
  show ?case using 4 s(7-10) by (simp add: b64_char_facts s)
qed simp

lemma ascii_groups: "list_all (\<lambda>n. n < 256) ns \<Longrightarrow> c \<in> set (b64_groups ns) \<Longrightarrow> char_code c < 128"
  by (induction ns rule: b64_groups.induct) (auto intro!: b64_char_facts(2))

lemma utf8_encode_ascii:
  "(\<And>c. c \<in> set s \<Longrightarrow> char_code c < 128) \<Longrightarrow> map unat (utf8_encode s) = map char_code s"
proof (induction s)
  case (Cons c s)
  have "char_code c < 128" using Cons.prems by simp
  moreover from this have "char_code c mod 256 = char_code c" by simp
  ultimately show ?case using Cons by (simp add: utf8_encode_def utf8_char_def unat_of_nat)
qed (simp add: utf8_encode_def)

lemma byte_less: "unat (x :: 8 word) < 256"
  using unsigned_less [of x] by simp

lemma b64_round_trip:
  "a2b_base64 strict (utf8_encode (pad_b64 (rstrip_pad (urlsafe_b64encode bs)))) = Some bs"
proof -
  let ?ns = "map unat bs" and ?s = "urlsafe_b64encode bs"
  have small: "list_all (\<lambda>n. n < 256) ?ns"
    by (simp add: list_all_iff byte_less)
  from b64_groups_form [OF small] have "pad_b64 (rstrip_pad ?s) = ?s"
    unfolding urlsafe_b64encode_def by (elim exE conjE) (rule pad_rstrip)
  moreover have u: "map unat (utf8_encode ?s) = map char_code (b64_groups ?ns)"
    unfolding urlsafe_b64encode_def by (rule utf8_encode_ascii) (rule ascii_groups [OF small])
  moreover have "unat (hd (utf8_encode ?s)) \<noteq> 61" if "utf8_encode ?s \<noteq> []"
  proof -
    from that have "unat (hd (utf8_encode ?s)) = hd (map char_code (b64_groups ?ns))"
      using u by (metis hd_map)
    moreover have "b64_groups ?ns \<noteq> []" using u that by auto
    moreover from this have "hd (map char_code (b64_groups ?ns)) \<noteq> 61"
      using small by (cases ?ns rule: b64_groups.cases) (auto simp: b64_char_facts(3))
    ultimately show ?thesis by simp
  qed
  ultimately show ?thesis
    using a2b_groups [OF small, of strict] by (auto simp: a2b_base64_def comp_def)
qed

section \<open>Row ids\<close>

lemma hex_char_facts:
  assumes "n < 16"
  shows "hex_value (hex_char n) = Some n" "hex_char n \<noteq> CHR ''_''" "hex_char n \<noteq> CHR ''-''"
    "\<not> is_space (hex_char n)" "hex_char n \<noteq> CHR ''+''" "hex_char n \<noteq> CHR ''x''" "hex_char n \<noteq> CHR ''X''"
    "hex_char n \<noteq> CHR 0x7B" "hex_char n \<noteq> CHR 0x7D" "hex_char n \<noteq> CHR '':''"
proof -
  have "list_all (\<lambda>n. hex_value (hex_char n) = Some n \<and> hex_char n \<noteq> CHR ''_'' \<and> hex_char n \<noteq> CHR ''-'' \<and>
      \<not> is_space (hex_char n) \<and> hex_char n \<noteq> CHR ''+'' \<and> hex_char n \<noteq> CHR ''x'' \<and> hex_char n \<noteq> CHR ''X'' \<and>
      hex_char n \<noteq> CHR 0x7B \<and> hex_char n \<noteq> CHR 0x7D \<and> hex_char n \<noteq> CHR '':'') [0..<16]"
    by code_simp
  with assms show "hex_value (hex_char n) = Some n" "hex_char n \<noteq> CHR ''_''" "hex_char n \<noteq> CHR ''-''"
    "\<not> is_space (hex_char n)" "hex_char n \<noteq> CHR ''+''" "hex_char n \<noteq> CHR ''x''" "hex_char n \<noteq> CHR ''X''"
    "hex_char n \<noteq> CHR 0x7B" "hex_char n \<noteq> CHR 0x7D" "hex_char n \<noteq> CHR '':''"
    by (auto simp: list_all_iff)
qed

lemma length_hex_digits [simp]: "length (hex_digits n v) = n"
  by (induction n arbitrary: v) auto

lemma hex_digits_chars: "c \<in> set (hex_digits n v) \<Longrightarrow> \<exists>m < 16. c = hex_char m"
proof (induction n arbitrary: v)
  case (Suc n)
  then consider "c \<in> set (hex_digits n (v div 16))" | "c = hex_char (v mod 16)" by auto
  then show ?case
  proof cases
    case 2
    then show ?thesis by (intro exI [of _ "v mod 16"]) simp
  qed (rule Suc.IH)
qed simp

lemma hex_digits_plain:
  assumes "c \<in> set (hex_digits n v)"
  shows "c \<noteq> CHR ''_''" "c \<noteq> CHR ''-''" "\<not> is_space c" "c \<noteq> CHR ''+''" "c \<noteq> CHR ''x''" "c \<noteq> CHR ''X''"
    "c \<noteq> CHR 0x7B" "c \<noteq> CHR 0x7D" "c \<noteq> CHR '':''"
proof -
  obtain m where m: "m < 16" "c = hex_char m" using hex_digits_chars [OF assms] by auto
  show "c \<noteq> CHR ''_''" "c \<noteq> CHR ''-''" "\<not> is_space c" "c \<noteq> CHR ''+''" "c \<noteq> CHR ''x''" "c \<noteq> CHR ''X''"
    "c \<noteq> CHR 0x7B" "c \<noteq> CHR 0x7D" "c \<noteq> CHR '':''"
    unfolding m(2) by (simp_all only: hex_char_facts [OF m(1)] not_False_eq_True)
qed

lemma hex_number_append:
  "(\<And>c. c \<in> set s \<Longrightarrow> \<exists>m < 16. c = hex_char m) \<Longrightarrow> s \<noteq> [] \<Longrightarrow>
   hex_number acc b (s @ [c]) = Option.bind (hex_number acc b s) (\<lambda>a. hex_number a True [c])"
proof (induction s arbitrary: acc b)
  case (Cons d s)
  obtain m where m: "m < 16" "d = hex_char m" using Cons.prems(1) by auto
  show ?case
    using Cons m by (cases s) (auto simp: hex_char_facts)
qed simp

lemma hex_number_digits:
  "0 < n \<Longrightarrow> hex_number 0 b (hex_digits n v) = Some (v mod 16 ^ n)"
proof (induction n arbitrary: v)
  case (Suc n)
  have h: "hex_value (hex_char (v mod 16)) = Some (v mod 16)" "hex_char (v mod 16) \<noteq> CHR ''_''"
    by (simp_all add: hex_char_facts)
  have split: "v div 16 mod 16 ^ n * 16 + v mod 16 = v mod 16 ^ Suc n"
    by (simp add: mod_mult2_eq mult.commute)
  show ?case
  proof (cases n)
    case 0
    then show ?thesis using h by simp
  next
    case (Suc k)
    then have ne: "hex_digits n (v div 16) \<noteq> []" by (metis length_hex_digits list.size(3) nat.distinct(1))
    have "hex_number 0 b (hex_digits n (v div 16)) = Some (v div 16 mod 16 ^ n)"
      using Suc.IH Suc by simp
    then show ?thesis
      using h split hex_number_append [OF hex_digits_chars ne, where acc = 0 and b = b and c = "hex_char (v mod 16)"] by simp
  qed
qed simp

lemma uuid_round_trip: "uuid_of_string (uuid_str u) = Some u"
proof -
  let ?h = "hex_digits 32 (unat u)"
  note chars = hex_digits_plain [of _ 32 "unat u"]
  have parts: "set (take n (drop m ?h)) \<subseteq> set ?h" for n m
    by (meson set_drop_subset set_take_subset subset_trans)
  have str: "c = CHR ''-'' \<or> c \<in> set ?h" if "c \<in> set (uuid_str u)" for c
    using that parts [of 8 0] parts [of 4 8] parts [of 4 12] parts [of 4 16] set_drop_subset [of 20 ?h]
    by (auto simp: uuid_str_def Let_def)
  have plain: "c \<noteq> CHR '':'' \<and> c \<noteq> CHR 0x7B \<and> c \<noteq> CHR 0x7D" if "c \<in> set (uuid_str u)" for c
    using str [OF that] chars(7-9) [of c] by auto
  have absent: "\<not> sublist ''urn:'' (uuid_str u)" "\<not> sublist ''uuid:'' (uuid_str u)"
    using plain [of "CHR '':''"] by (auto simp: sublist_def)
  have braces: "strip_braces s = s" if "\<And>c. c \<in> set s \<Longrightarrow> c \<noteq> CHR 0x7B \<and> c \<noteq> CHR 0x7D" for s
  proof -
    have "dropWhile (\<lambda>c. c = CHR 0x7B \<or> c = CHR 0x7D) s' = s'" if "set s' = set s" for s'
      using that \<open>\<And>c. c \<in> set s \<Longrightarrow> c \<noteq> CHR 0x7B \<and> c \<noteq> CHR 0x7D\<close> by (cases s') auto
    then show ?thesis by (simp add: strip_braces_def Let_def)
  qed
  have dashes: "filter (\<lambda>c. c \<noteq> CHR ''-'') s = s" if "set s \<subseteq> set ?h" for s
    using that chars(2) by (auto simp: filter_id_conv)
  have h: "filter (\<lambda>c. c \<noteq> CHR ''-'') (uuid_str u) = ?h"
  proof -
    have "filter (\<lambda>c. c \<noteq> CHR ''-'') (uuid_str u) =
        take 8 (drop 0 ?h) @ take 4 (drop 8 ?h) @ take 4 (drop 12 ?h) @ take 4 (drop 16 ?h) @ drop 20 ?h"
      by (simp add: uuid_str_def Let_def dashes parts [of 8 0, simplified] parts set_drop_subset)
    also have "\<dots> = ?h"
    proof -
      have "take n (drop m ?h) @ drop (m + n) ?h = drop m ?h" for n m
        by (metis append_take_drop_id drop_drop add.commute)
      from this [of 4 16] this [of 4 12] this [of 4 8] this [of 8 0] show ?thesis by simp
    qed
    finally show ?thesis .
  qed
  obtain c d r where cons: "?h = c # d # r"
    by (metis length_hex_digits One_nat_def length_Cons list.size(3) neq_Nil_conv numeral_eq_one_iff
        semiring_norm(85) zero_neq_numeral)
  have cd: "c \<noteq> CHR ''-''" "c \<noteq> CHR ''+''" "d \<noteq> CHR ''x''" "d \<noteq> CHR ''X''"
    using chars(2,4) [of c] chars(5,6) [of d] by (simp_all add: cons)
  have "str_strip ?h = ?h"
  proof -
    have "dropWhile is_space s = s" if "set s = set ?h" for s
      using that chars(3) by (cases s) auto
    then show ?thesis by (simp add: str_strip_def)
  qed
  moreover have "unat u < 16 ^ 32" using unsigned_less [of u] by simp
  ultimately have "python_int16 ?h = Some (int (unat u))"
    using cd hex_number_digits [of 32 False "unat u"] by (simp add: python_int16_def cons)
  then show ?thesis
    using unsigned_less [of u]
    by (simp add: uuid_of_string_def str_replace_absent absent braces plain h)
qed

section \<open>Cursors\<close>

lemma parse_cursor_encoded:
  assumes "json_of_bytes ps (utf8_encode (cursor_json field d u)) =
      Some (JObj [(field, JStr (isoformat d)), (''id'', JStr (uuid_str u))])"
    and "fromisoformat ps (isoformat d) = Some d" "is_aware d" "field \<noteq> ''id''"
  shows "parse_cursor ps strict field (rstrip_pad (urlsafe_b64encode (utf8_encode (cursor_json field d u)))) = Inr (d, u)"
  using assms
  by (simp add: parse_cursor_def b64_round_trip get_item_def datetime_of_json_def uuid_of_json_def uuid_round_trip)

text \<open>
  C34: a cursor decodes to the row it was made from, in both APIs: padding, the strict and the
  lenient base64 decoder and the row id lose nothing, given that the JSON and the timestamp
  parsers invert the serialisers at this cursor.
\<close>

theorem cursor_round_trip:
  assumes "is_aware d" "fromisoformat ps (isoformat d) = Some d"
    and "json_of_bytes ps (utf8_encode (cursor_json ''accepted_at'' d u)) =
      Some (JObj [(''accepted_at'', JStr (isoformat d)), (''id'', JStr (uuid_str u))])"
    and "json_of_bytes ps (utf8_encode (cursor_json ''last_update_time'' d u)) =
      Some (JObj [(''last_update_time'', JStr (isoformat d)), (''id'', JStr (uuid_str u))])"
  shows "decode_audit_cursor ps (encode_audit_cursor (d, u)) = Inr (d, u) \<and>
    decode_incident_cursor ps (encode_incident_cursor (d, u)) = Inr (d, u)"
  using parse_cursor_encoded [OF assms(3,2,1)] parse_cursor_encoded [OF assms(4,2,1)]
  by (simp add: decode_audit_cursor_def encode_audit_cursor_def decode_incident_cursor_def
      encode_incident_cursor_def rescue_def)

lemma uuid_of_json_error: "uuid_of_json v = Inl e \<Longrightarrow> e \<in> {ValueError, TypeError, AttributeError}"
  by (cases v) (auto simp: uuid_of_json_def split: option.splits)

lemma uuid_of_json_attribute: "uuid_of_json v = Inl AttributeError \<longleftrightarrow> v \<noteq> JNull \<and> (\<forall>s. v \<noteq> JStr s)"
  by (cases v) (auto simp: uuid_of_json_def split: option.split)

lemma get_item_error: "get_item v k = Inl e \<Longrightarrow> e \<in> {KeyError, TypeError}"
  by (cases v) (auto simp: get_item_def split: option.splits)

lemma datetime_of_json_error: "datetime_of_json ps v = Inl e \<Longrightarrow> e \<in> {ValueError, TypeError}"
  by (cases v) (auto simp: datetime_of_json_def split: option.splits)

lemmas cursor_part_errors = uuid_of_json_error get_item_error datetime_of_json_error

text \<open>The document a cursor carries.\<close>

definition cursor_payload :: "cursor_parsers \<Rightarrow> bool \<Rightarrow> string \<Rightarrow> json option" where
  "cursor_payload ps strict value =
     Option.bind (a2b_base64 strict (utf8_encode (pad_b64 value))) (json_of_bytes ps)"

definition non_string_id :: "cursor_parsers \<Rightarrow> string \<Rightarrow> json \<Rightarrow> bool" where
  "non_string_id ps field payload \<longleftrightarrow>
     (\<exists>ts d v. get_item payload field = Inr ts \<and> datetime_of_json ps ts = Inr d \<and> is_aware d \<and>
        get_item payload ''id'' = Inr v \<and> v \<noteq> JNull \<and> (\<forall>s. v \<noteq> JStr s))"

definition cursor_of_payload :: "cursor_parsers \<Rightarrow> string \<Rightarrow> json \<Rightarrow> (datetime \<times> uuid) result" where
  "cursor_of_payload ps field payload =
     rbind (get_item payload field) (\<lambda>ts.
     rbind (datetime_of_json ps ts) (\<lambda>d.
     rbind (rguard (is_aware d) ValueError) (\<lambda>_.
     rbind (get_item payload ''id'') (\<lambda>v.
     rbind (uuid_of_json v) (\<lambda>u. Inr (d, u))))))"

lemma parse_cursor_eq:
  "parse_cursor ps strict field value =
     (case cursor_payload ps strict value of
        None \<Rightarrow> Inl ValueError
      | Some payload \<Rightarrow> cursor_of_payload ps field payload)"
  by (auto simp: parse_cursor_def cursor_payload_def cursor_of_payload_def split: option.split)

lemma cursor_of_payload_error:
  "cursor_of_payload ps field payload = Inl e \<Longrightarrow> e \<in> {KeyError, TypeError, ValueError, AttributeError}"
  by (auto simp: cursor_of_payload_def rbind_eq_Inl rguard_def split: if_splits dest!: cursor_part_errors)

lemma cursor_of_payload_attribute:
  "cursor_of_payload ps field payload = Inl AttributeError \<longleftrightarrow> non_string_id ps field payload"
  by (auto simp: cursor_of_payload_def non_string_id_def rbind_eq_Inl rguard_def uuid_of_json_attribute
      split: if_splits dest: get_item_error datetime_of_json_error)

lemma rescued_cursor_errors:
  assumes "x \<noteq> AttributeError" "m = rescue [KeyError, TypeError, ValueError] x (parse_cursor ps strict field value)"
  shows "\<forall>e. m = Inl e \<longrightarrow> e = x \<or> e = AttributeError"
    and "m = Inl AttributeError \<longleftrightarrow>
      (\<exists>payload. cursor_payload ps strict value = Some payload \<and> non_string_id ps field payload)"
proof -
  have "e \<in> {KeyError, TypeError, ValueError, AttributeError}" if "parse_cursor ps strict field value = Inl e" for e
    using that cursor_of_payload_error by (fastforce simp: parse_cursor_eq split: option.splits)
  then show "\<forall>e. m = Inl e \<longrightarrow> e = x \<or> e = AttributeError"
    by (auto simp: assms(2) rescue_def split: sum.splits if_splits)
  have "m = Inl AttributeError \<longleftrightarrow> parse_cursor ps strict field value = Inl AttributeError"
    using assms(1) by (auto simp: assms(2) rescue_def split: sum.splits if_splits)
  then show "m = Inl AttributeError \<longleftrightarrow>
      (\<exists>payload. cursor_payload ps strict value = Some payload \<and> non_string_id ps field payload)"
    by (auto simp: parse_cursor_eq cursor_of_payload_attribute split: option.splits)
qed

text \<open>
  C35: the decoders report a bad cursor by their documented exception, with one exception: a
  document with a valid timestamp whose id is neither a string nor null escapes as an
  \<open>AttributeError\<close>, which no caller catches.
\<close>

theorem decode_cursor_errors:
  "(\<forall>e. decode_audit_cursor ps value = Inl e \<longrightarrow> e = InvalidAuditCursorError \<or> e = AttributeError) \<and>
   (decode_audit_cursor ps value = Inl AttributeError \<longleftrightarrow>
      (\<exists>payload. cursor_payload ps True value = Some payload \<and> non_string_id ps ''accepted_at'' payload)) \<and>
   (\<forall>e. decode_incident_cursor ps value = Inl e \<longrightarrow> e = ValueError \<or> e = AttributeError) \<and>
   (decode_incident_cursor ps value = Inl AttributeError \<longleftrightarrow>
      (\<exists>payload. cursor_payload ps False value = Some payload \<and> non_string_id ps ''last_update_time'' payload))"
  using rescued_cursor_errors [OF _ decode_audit_cursor_def, of ps "value"]
    rescued_cursor_errors [OF _ decode_incident_cursor_def, of ps "value"]
  by simp

end
