(* ===== verification/Paging.thy ===== *)
theory Paging
  imports Prelude
begin

text \<open>
  Keyset pagination, the contract the two list queries share: a page holds the rows below a
  cursor in descending key order, up to a limit, and names the row to continue from when more
  remain.  A client that follows the cursors sees every row exactly once, in order.
\<close>

section \<open>Ordered rows\<close>

text \<open>\<open>ORDER BY key DESC\<close>.\<close>

definition order_by_desc :: "('r \<Rightarrow> 'k::linorder) \<Rightarrow> 'r list \<Rightarrow> 'r list" where
  "order_by_desc key rs = rev (sort_key key rs)"

text \<open>The rows fetched with one more than the limit, cut to the page.\<close>

definition cut_page :: "int \<Rightarrow> 'r list \<Rightarrow> 'r list \<times> 'r option" where
  "cut_page limit rows =
     (let items = take (nat limit) rows
      in (items, if limit < int (length rows) then Some (last items) else None))"

definition below :: "('r \<Rightarrow> 'k::linorder) \<Rightarrow> 'k option \<Rightarrow> 'r \<Rightarrow> bool" where
  "below key c r = (case c of None \<Rightarrow> True | Some k \<Rightarrow> key r < k)"

abbreviation descending :: "('r \<Rightarrow> 'k::linorder) \<Rightarrow> 'r list \<Rightarrow> bool" where
  "descending key \<equiv> sorted_wrt (\<lambda>a b. key b < key a)"

lemma set_order_by_desc [simp]: "set (order_by_desc key rs) = set rs"
  by (simp add: order_by_desc_def)

lemma length_order_by_desc [simp]: "length (order_by_desc key rs) = length rs"
  by (simp add: order_by_desc_def)

lemma descending_order_by_desc:
  assumes "distinct (map key rs)"
  shows "descending key (order_by_desc key rs)"
proof -
  have "mset (map key (sort_key key rs)) = mset (map key rs)" by simp
  then have "distinct (map key (sort_key key rs))" by (metis assms mset_eq_imp_distinct_iff)
  then have "sorted_wrt (<) (map key (sort_key key rs))"
    by (simp add: strict_sorted_iff)
  then show ?thesis by (simp add: order_by_desc_def sorted_wrt_rev sorted_wrt_map)
qed

text \<open>A strictly descending enumeration of the rows is the ordered one.\<close>

lemma descending_unique:
  assumes "descending key xs" "set xs = set rs" "distinct (map key rs)"
  shows "xs = order_by_desc key rs"
proof -
  have "sorted_wrt (\<lambda>a b. key a < key b) (rev xs)" using assms(1) by (simp add: sorted_wrt_rev)
  then have up: "sorted_wrt (<) (map key (rev xs))" by (simp add: sorted_wrt_map)
  then have d: "distinct (map key (rev xs))" and s: "sorted (map key (rev xs))"
    by (simp_all only: strict_sorted_iff)
  have "mset (rev xs) = mset rs"
    using d assms(2,3) by (intro set_eq_iff_mset_eq_distinct [THEN iffD1]) (auto simp: distinct_map)
  moreover have "filter (\<lambda>x. key k = key x) (rev xs) = filter (\<lambda>x. key k = key x) rs" if "k \<in> set (rev xs)" for k
  proof -
    have one: "filter (\<lambda>x. key k = key x) ys = [k]" if "distinct (map key ys)" "k \<in> set ys" for ys
      using that
    proof (induction ys)
      case (Cons y ys)
      then show ?case by (cases "k = y") (auto simp: filter_empty_conv intro: rev_image_eqI)
    qed simp
    show ?thesis using one [OF d that] one [OF assms(3)] that assms(2) by simp
  qed
  ultimately have "sort_key key rs = rev xs" using s by (intro properties_for_sort_key)
  then show ?thesis by (simp add: order_by_desc_def)
qed

section \<open>Optional filters\<close>

text \<open>A filter that is not given matches every row.\<close>

definition opt_match :: "('a \<Rightarrow> bool) \<Rightarrow> 'a option \<Rightarrow> bool" where
  "opt_match P x = (case x of None \<Rightarrow> True | Some v \<Rightarrow> P v)"

section \<open>The contract\<close>

locale keyset_pages =
  fixes key :: "'r \<Rightarrow> 'k::linorder"
    and fetch :: "'r list \<Rightarrow> int \<Rightarrow> 'k option \<Rightarrow> 'r list \<times> 'r option"
  assumes fetch_rows: "distinct (map key rs) \<Longrightarrow> 1 \<le> n \<Longrightarrow> fetch rs n c = (items, next) \<Longrightarrow>
      descending key items \<and> int (length items) \<le> n \<and> set items \<subseteq> {r \<in> set rs. below key c r}"
    and fetch_end: "distinct (map key rs) \<Longrightarrow> 1 \<le> n \<Longrightarrow> fetch rs n c = (items, None) \<Longrightarrow>
      set items = {r \<in> set rs. below key c r}"
    and fetch_more: "distinct (map key rs) \<Longrightarrow> 1 \<le> n \<Longrightarrow> fetch rs n c = (items, Some l) \<Longrightarrow>
      l \<in> set items \<and> set items = {r \<in> set rs. below key c r \<and> \<not> below key (Some (key l)) r}"

text \<open>A client that follows the cursors of an interface with encoded cursors.\<close>

fun walk_pages :: "('c option \<Rightarrow> ('a list \<times> 'c option) result) \<Rightarrow> nat \<Rightarrow> 'c option \<Rightarrow> 'a list result" where
  "walk_pages page 0 c = Inl RuntimeError"
| "walk_pages page (Suc fuel) c =
     rbind (page c) (\<lambda>(items, next).
     case next of
       None \<Rightarrow> Inr items
     | Some c' \<Rightarrow> rbind (walk_pages page fuel (Some c')) (\<lambda>rest. Inr (items @ rest)))"

context keyset_pages
begin

lemma walk_from:
  assumes "distinct (map key rs)" "1 \<le> n"
    and page: "\<And>c. page c = rbind (decode c) (\<lambda>k. case fetch rs n k of
      (items, next) \<Rightarrow> Inr (map show_row items, map_option encode next))"
    and decode: "\<And>r. r \<in> set rs \<Longrightarrow> decode (Some (encode r)) = Inr (Some (key r))"
    and "decode c = Inr k" "card {r \<in> set rs. below key k r} < fuel"
  shows "\<exists>xs. walk_pages page fuel c = Inr (map show_row xs) \<and> descending key xs \<and>
    set xs = {r \<in> set rs. below key k r}"
  using assms(5,6)
proof (induction fuel arbitrary: c k)
  case (Suc fuel)
  obtain items l where f: "fetch rs n k = (items, l)" by (cases "fetch rs n k")
  note rows = fetch_rows [OF assms(1,2) f]
  show ?case
  proof (cases l)
    case None
    with f Suc.prems(1) rows fetch_end [OF assms(1,2)] show ?thesis
      by (intro exI [of _ items]) (simp add: page)
  next
    case (Some last)
    note more = fetch_more [OF assms(1,2) f [unfolded Some]]
    let ?left = "{r \<in> set rs. below key k r}" and ?rest = "{r \<in> set rs. below key (Some (key last)) r}"
    have "last \<in> set rs" using more rows by blast
    have lower: "?rest \<subseteq> ?left"
    proof -
      have "below key k last" using more rows by blast
      then show ?thesis by (auto simp: below_def split: option.splits)
    qed
    moreover have "last \<in> ?left - ?rest" using more rows by (auto simp: below_def)
    ultimately have "?rest \<subset> ?left" by blast
    then have "card ?rest < card ?left" by (intro psubset_card_mono) auto
    then have small: "card ?rest < fuel" using Suc.prems(2) by linarith
    obtain xs where xs: "walk_pages page fuel (Some (encode last)) = Inr (map show_row xs)"
      "descending key xs" "set xs = ?rest"
      using Suc.IH [OF decode [OF \<open>last \<in> set rs\<close>] small] by blast
    have "walk_pages page (Suc fuel) c = Inr (map show_row (items @ xs))"
      using Suc.prems(1) f Some xs(1) by (simp add: page)
    moreover have "descending key (items @ xs)"
    proof -
      have "key b < key a" if "a \<in> set items" "b \<in> set xs" for a b
      proof -
        have "\<not> key a < key last" using that(1) more by (simp add: below_def)
        moreover have "key b < key last" using that(2) xs(3) by (simp add: below_def)
        ultimately show ?thesis by simp
      qed
      with rows xs(2) show ?thesis by (simp add: sorted_wrt_append)
    qed
    moreover have "set (items @ xs) = ?left"
      unfolding set_append xs(3) more [THEN conjunct2] using lower by blast
    ultimately show ?thesis by blast
  qed
qed simp

lemma walk_complete:
  assumes "distinct (map key rs)" "1 \<le> n"
    and "\<And>c. page c = rbind (decode c) (\<lambda>k. case fetch rs n k of
      (items, next) \<Rightarrow> Inr (map show_row items, map_option encode next))"
    and "\<And>r. r \<in> set rs \<Longrightarrow> decode (Some (encode r)) = Inr (Some (key r))" "decode None = Inr None"
  shows "walk_pages page (Suc (length rs)) None = Inr (map show_row (order_by_desc key rs))"
proof -
  have all: "{r \<in> set rs. below key None r} = set rs" by (simp add: below_def)
  have "card (set rs) < Suc (length rs)" by (simp add: card_length le_imp_less_Suc)
  then obtain xs where "walk_pages page (Suc (length rs)) None = Inr (map show_row xs)"
    "descending key xs" "set xs = set rs"
    using walk_from [OF assms(1-5), of "Suc (length rs)", unfolded all] by blast
  with descending_unique [OF this(2,3) assms(1)] show ?thesis by simp
qed

end

section \<open>Cutting an ordered result\<close>

text \<open>Fetching one row more than the limit from the ordered rows below the cursor meets the contract.\<close>

lemma cut_ordered:
  assumes "distinct (map key rs)" "1 \<le> n"
    and "cut_page n (take (nat (n + 1)) (order_by_desc key (filter (below key c) rs))) = (items, next)"
  shows "descending key items \<and> int (length items) \<le> n \<and> set items \<subseteq> {r \<in> set rs. below key c r} \<and>
    (next = None \<longrightarrow> set items = {r \<in> set rs. below key c r}) \<and>
    (\<forall>l. next = Some l \<longrightarrow> l \<in> set items \<and>
       set items = {r \<in> set rs. below key c r \<and> \<not> below key (Some (key l)) r})"
proof -
  let ?all = "order_by_desc key (filter (below key c) rs)"
  have items: "items = take (nat n) ?all"
    using assms(2,3) by (auto simp: cut_page_def Let_def min_def)
  have "distinct (map key (filter (below key c) rs))" using assms(1) by (simp add: distinct_map_filter)
  then have desc: "descending key ?all" by (rule descending_order_by_desc)
  have set_all: "set ?all = {r \<in> set rs. below key c r}" by auto
  have split: "?all = items @ drop (nat n) ?all" by (simp add: items)
  have desc2: "descending key items" "\<forall>x \<in> set items. \<forall>y \<in> set (drop (nat n) ?all). key y < key x"
    using desc by (subst (asm) split, simp add: sorted_wrt_append)+
  have none: "set items = set ?all" if "next = None"
    using that assms(2,3) items by (auto simp: cut_page_def Let_def split: if_splits)
  have more: "l \<in> set items \<and> set items = {r \<in> set ?all. \<not> key r < key l}" if "next = Some l" for l
  proof -
    from that assms(2,3) have l: "l = last items" and "n < int (length (take (nat (n + 1)) ?all))"
      by (auto simp: cut_page_def Let_def split: if_splits)
    have "?all \<noteq> []"
    proof
      assume "?all = []"
      with \<open>n < int (length (take (nat (n + 1)) ?all))\<close> have "n < 0"
        by (simp only: take_Nil list.size(3) of_nat_0)
      with assms(2) show False by simp
    qed
    then have long: "items \<noteq> []" using assms(2) by (simp add: items)
    then have "items = butlast items @ [l]" using l by simp
    then have "\<forall>x \<in> set items. \<not> key x < key l"
      using desc2(1) by (metis (no_types, lifting) UnE less_imp_not_less list.set(1,2) set_append
          singletonD sorted_wrt_append insertI1 order_less_irrefl)
    moreover have "l \<in> set items" using l long by simp
    moreover have "set ?all = set items \<union> set (drop (nat n) ?all)" by (subst split) (simp only: set_append)
    ultimately show ?thesis using desc2(2) by auto
  qed
  have "int (length items) \<le> n" using assms(2) by (simp add: items)
  moreover have "set items \<subseteq> set ?all" unfolding items by (rule set_take_subset)
  ultimately show ?thesis
    using desc2(1) none more unfolding set_all by (auto simp: below_def)
qed

end
