(* ===== verification/IncidentListing.thy ===== *)
theory IncidentListing
  imports CursorFacts Paging LifecycleRepo
begin

text \<open>
  The read side of \<open>app/persistence/incidents.py\<close>: \<open>list_incidents\<close> with its filters and its
  two kinds of pagination, and \<open>get_incident_by_id\<close>; and the proof that the listing meets the
  contract of keyset pagination.
\<close>

section \<open>Listed rows\<close>

text \<open>The listing subtracts \<open>active_objects\<close> from the window state.\<close>

record window_summary =
  wm_window_started_at :: int
  wm_window_ended_at :: int
  wm_window_seconds :: int
  wm_threshold_count :: int
  wm_counted :: "(string, int) dict"
  wm_counted_count :: int
  wm_max_size :: int

record listed_incident =
  li_row :: incident                       \<comment> \<open>its window state is not selected\<close>
  li_window :: "window_summary option"

definition window_without_objects :: "window_state \<Rightarrow> window_summary" where
  "window_without_objects w =
     \<lparr>wm_window_started_at = ws_window_started_at w, wm_window_ended_at = ws_window_ended_at w,
      wm_window_seconds = ws_window_seconds w, wm_threshold_count = ws_threshold_count w,
      wm_counted = ws_counted w, wm_counted_count = ws_counted_count w, wm_max_size = ws_max_size w\<rparr>"

definition listed :: "incident \<Rightarrow> listed_incident" where
  "listed r = \<lparr>li_row = r\<lparr>inc_window_state := None\<rparr>,
     li_window = map_option window_without_objects (inc_window_state r)\<rparr>"

section \<open>Filters\<close>

definition status_matches :: "incident_status_filter \<Rightarrow> incident \<Rightarrow> bool" where
  "status_matches s r =
     (case s of
        F_ACKNOWLEDGED \<Rightarrow>
          inc_open r \<and> inc_acknowledged_at r \<noteq> None \<and> inc_acknowledged_by r \<noteq> None
      | F_OPEN \<Rightarrow> inc_status r = OPEN
      | F_RESOLVED \<Rightarrow> inc_status r = RESOLVED
      | F_CLOSED \<Rightarrow> inc_status r = CLOSED)"

definition incident_matches :: "incident_list_filters \<Rightarrow> incident \<Rightarrow> bool" where
  "incident_matches f r \<longleftrightarrow>
     opt_match (\<lambda>s. status_matches s r) (lf_status f) \<and>
     opt_match (\<lambda>s. inc_severity r = severity_value s) (lf_severity f) \<and>
     opt_match (\<lambda>n. inc_rule_name r = n) (lf_rule_name f) \<and>
     opt_match (\<lambda>h. active_objects_contain (\<lambda>obj. io_host obj = h) r) (lf_host f) \<and>
     opt_match (\<lambda>s. active_objects_contain (\<lambda>obj. io_service obj = Some s) r) (lf_service f) \<and>
     opt_match (\<lambda>d. instant d \<le> inc_last_update_time r) (lf_updated_since f)"

section \<open>Pages\<close>

definition incident_sort_key :: "incident \<Rightarrow> int \<times> uuid" where
  "incident_sort_key r = (inc_last_update_time r, inc_id r)"

text \<open>The condition a cursor adds.\<close>

definition incident_before :: "(int \<times> uuid) option \<Rightarrow> incident \<Rightarrow> bool" where
  "incident_before c r =
     (case c of
        None \<Rightarrow> True
      | Some (time, ident) \<Rightarrow>
          inc_last_update_time r < time \<or> (inc_last_update_time r = time \<and> inc_id r < ident))"

definition fetch_incidents ::
  "incident list \<Rightarrow> int \<Rightarrow> (int \<times> uuid) option \<Rightarrow> incident list \<times> incident option" where
  "fetch_incidents rows limit c =
     cut_page limit (take (nat (limit + 1))
       (order_by_desc incident_sort_key (filter (incident_before c) rows)))"

record incident_page =
  ip_incidents :: "listed_incident list"
  ip_next_cursor :: "string option"
  ip_total :: int
  ip_offset :: int

definition incident_cursor :: "incident \<Rightarrow> string" where
  "incident_cursor r = encode_incident_cursor (utc_datetime (inc_last_update_time r), inc_id r)"

definition cursor_page :: "incident list \<Rightarrow> int \<Rightarrow> (int \<times> uuid) option \<Rightarrow> incident_page" where
  "cursor_page rows limit c =
     (case fetch_incidents rows limit c of
        (items, next) \<Rightarrow>
          \<lparr>ip_incidents = map listed items, ip_next_cursor = map_option incident_cursor next,
           ip_total = int (length rows), ip_offset = 0\<rparr>)"

definition list_incidents ::
  "cursor_parsers \<Rightarrow> incident_list_filters \<Rightarrow> incident_table \<Rightarrow> incident_page result" where
  "list_incidents ps f t =
     (let rows = select_where (incident_matches f) t
      in case lf_cursor f of
           Some c \<Rightarrow>
             rbind (decode_incident_cursor ps c) (\<lambda>(d, ident).
             Inr (cursor_page rows (lf_limit f) (Some (instant d, ident))))
         | None \<Rightarrow>
             (case lf_offset f of
                Some offset \<Rightarrow>
                  Inr \<lparr>ip_incidents = map listed (take (nat (lf_limit f)) (drop (nat offset)
                         (order_by_desc incident_sort_key rows))),
                       ip_next_cursor = None, ip_total = int (length rows), ip_offset = offset\<rparr>
              | None \<Rightarrow> Inr (cursor_page rows (lf_limit f) None)))"

definition get_incident_by_id :: "uuid \<Rightarrow> incident_table \<Rightarrow> incident option" where
  "get_incident_by_id ident t =
     (case select_where (\<lambda>r. inc_id r = ident) t of [] \<Rightarrow> None | r # _ \<Rightarrow> Some r)"

section \<open>The contract\<close>

lemma incident_before_below: "incident_before c = below incident_sort_key c"
  by (rule ext) (auto simp: incident_before_def below_def incident_sort_key_def less_prod_def' split: option.split)

interpretation incident_pages: keyset_pages incident_sort_key fetch_incidents
proof unfold_locales
  fix rs :: "incident list" and n c items "next"
  assume a: "distinct (map incident_sort_key rs)" "1 \<le> n" "fetch_incidents rs n c = (items, next)"
  from cut_ordered [OF a(1,2) a(3) [unfolded fetch_incidents_def incident_before_below]]
  show "descending incident_sort_key items \<and> int (length items) \<le> n \<and>
      set items \<subseteq> {r \<in> set rs. below incident_sort_key c r}" by blast
next
  fix rs :: "incident list" and n c items
  assume a: "distinct (map incident_sort_key rs)" "1 \<le> n" "fetch_incidents rs n c = (items, None)"
  from cut_ordered [OF a(1,2) a(3) [unfolded fetch_incidents_def incident_before_below]]
  show "set items = {r \<in> set rs. below incident_sort_key c r}" by blast
next
  fix rs :: "incident list" and n c items l
  assume a: "distinct (map incident_sort_key rs)" "1 \<le> n" "fetch_incidents rs n c = (items, Some l)"
  from cut_ordered [OF a(1,2) a(3) [unfolded fetch_incidents_def incident_before_below]]
  show "l \<in> set items \<and> set items = {r \<in> set rs. below incident_sort_key c r \<and>
      \<not> below incident_sort_key (Some (incident_sort_key l)) r}" by blast
qed

text \<open>The page a client gets for a cursor, and the walk it makes.\<close>

definition incident_listing ::
  "cursor_parsers \<Rightarrow> incident_list_filters \<Rightarrow> incident_table \<Rightarrow> string option \<Rightarrow>
     (listed_incident list \<times> string option) result" where
  "incident_listing ps f t c =
     rbind (list_incidents ps (f\<lparr>lf_cursor := c\<rparr>) t) (\<lambda>p. Inr (ip_incidents p, ip_next_cursor p))"

definition incident_cursor_parsed :: "cursor_parsers \<Rightarrow> incident \<Rightarrow> bool" where
  "incident_cursor_parsed ps r \<longleftrightarrow>
     decode_incident_cursor ps (incident_cursor r) = Inr (utc_datetime (inc_last_update_time r), inc_id r)"

lemma incident_matches_cursor [simp]: "incident_matches (f\<lparr>lf_cursor := c\<rparr>) = incident_matches f"
  by (rule ext) (simp add: incident_matches_def)

text \<open>
  C36: following the cursors of the incident list returns every incident that matches the
  filters exactly once, newest first, for every page size: the walk ends, and nothing is
  skipped or repeated where pages meet.
\<close>

theorem incident_listing_complete:
  assumes "distinct (map inc_id t)" "incident_list_filters_ok f" "lf_offset f = None"
    and "\<forall>r \<in> set t. incident_cursor_parsed ps r"
  shows "walk_pages (incident_listing ps f t) (Suc (length (filter (incident_matches f) t))) None =
    Inr (map listed (order_by_desc incident_sort_key (filter (incident_matches f) t)))"
proof (rule incident_pages.walk_complete [where n = "lf_limit f" and encode = incident_cursor
      and decode = "\<lambda>c. case c of None \<Rightarrow> Inr None
        | Some s \<Rightarrow> rbind (decode_incident_cursor ps s) (\<lambda>(d, ident). Inr (Some (instant d, ident)))"])
  have "distinct (map inc_id (filter (incident_matches f) t))"
    using assms(1) by (simp add: distinct_map_filter)
  then show "distinct (map incident_sort_key (filter (incident_matches f) t))"
    by (auto simp: distinct_map incident_sort_key_def inj_on_def)
  show "1 \<le> lf_limit f" using assms(2) by (simp add: incident_list_filters_ok_def)
next
  fix c
  show "incident_listing ps f t c =
    rbind (case c of None \<Rightarrow> Inr None
        | Some s \<Rightarrow> rbind (decode_incident_cursor ps s) (\<lambda>(d, ident). Inr (Some (instant d, ident))))
      (\<lambda>k. case fetch_incidents (filter (incident_matches f) t) (lf_limit f) k of
        (items, next) \<Rightarrow> Inr (map listed items, map_option incident_cursor next))"
    using assms(3)
    by (cases c) (auto simp: incident_listing_def list_incidents_def cursor_page_def select_where_def rbind_def
        split: sum.split prod.split)
next
  fix r assume "r \<in> set (filter (incident_matches f) t)"
  then show "(case Some (incident_cursor r) of None \<Rightarrow> Inr None
        | Some s \<Rightarrow> rbind (decode_incident_cursor ps s) (\<lambda>(d, ident). Inr (Some (instant d, ident)))) =
      Inr (Some (incident_sort_key r))"
    using assms(4) by (simp add: incident_cursor_parsed_def incident_sort_key_def)
qed simp

end
