(* ===== verification/AuditStore.thy ===== *)
theory AuditStore
  imports CursorFacts Paging RedactionFacts LifecycleRepo
begin

text \<open>
  The table \<open>incident_events\<close> and its repository (\<open>app/persistence/audit.py\<close>,
  \<open>app/domain/audit.py\<close>): inserting an audit row, the filters of the list query, the SQL
  projection of the stored event, and keyset pagination on \<open>(accepted_at, id)\<close>.

  \<open>jsonb::text\<close>, PostgreSQL's rendering of a JSON document, is a parameter.
\<close>

section \<open>Decision summaries\<close>

datatype decision_kind = Kind_problem | Kind_recovery | Kind_noop

datatype audit_effect = Effect_none | Effect_inserted | Effect_updated | Effect_resolved | Effect_shrunk

datatype recovery_resolution = Resolution_noop | Resolution_shrunk | Resolution_resolved

record audit_summary =
  as_decision_kind :: decision_kind
  as_incident_effect :: audit_effect
  as_rule_name :: "string option"
  as_group_key :: "string option"
  as_incident_ids :: "string list"
  as_affected_incident_count :: int
  as_incident_ids_truncated :: bool
  as_decision_reason :: "string option"
  as_no_dispatch_reason :: "string option"
  as_dispatch_planned :: bool                 \<comment> \<open>\<open>notification_intent\<close>\<close>
  as_counted_count :: "int option"
  as_threshold_count :: "int option"
  as_threshold_crossed :: "bool option"
  as_replay :: "bool option"
  as_first_threshold_transition :: "bool option"
  as_recovery_resolution :: "recovery_resolution option"
  as_affected_object_removed :: "bool option"

definition bounded_reason :: "string option \<Rightarrow> bool" where
  "bounded_reason x \<longleftrightarrow> (case x of None \<Rightarrow> True | Some s \<Rightarrow> 1 \<le> length s \<and> length s \<le> 128)"

definition audit_summary_ok :: "audit_summary \<Rightarrow> bool" where
  "audit_summary_ok s \<longleftrightarrow>
     opt_bounded (as_rule_name s) \<and> opt_bounded (as_group_key s) \<and>
     bounded_string_tuple (as_incident_ids s) \<and> 0 \<le> as_affected_incident_count s \<and>
     opt_bounded (as_decision_reason s) \<and> bounded_reason (as_no_dispatch_reason s) \<and>
     opt_ge 0 (as_counted_count s) \<and> opt_ge 1 (as_threshold_count s)"

definition audit_summary_validate :: "audit_summary \<Rightarrow> audit_summary result" where
  "audit_summary_validate s = (if audit_summary_ok s then Inr s else Inl ValidationError)"

section \<open>Rows\<close>

record audit_event =
  ae_id :: uuid
  ae_accepted_at :: int
  ae_event_timestamp :: int
  ae_source_id :: string
  ae_fingerprint :: string
  ae_event_type :: string
  ae_severity :: string
  ae_host :: string
  ae_service :: "string option"
  ae_incident_ids :: "string list"
  ae_incident_effect :: audit_effect
  ae_decision_summary :: audit_summary
  ae_normalized_event :: json_dict
  ae_raw_payload :: json_dict
  ae_original_byte_length :: int
  ae_stored_byte_length :: int
  ae_truncated :: bool
  ae_redaction_version :: int
  ae_redacted_path_count :: int
  ae_payload_hmac :: string

type_synonym audit_table = "audit_event list"

text \<open>PostgreSQL stores no NUL character, neither in a text column nor inside a JSON document.\<close>

definition no_nul :: "string \<Rightarrow> bool" where
  "no_nul s \<longleftrightarrow> CHR 0x00 \<notin> set s"

fun json_no_nul :: "json \<Rightarrow> bool" where
  "json_no_nul (JStr s) = no_nul s"
| "json_no_nul (JList xs) = list_all json_no_nul xs"
| "json_no_nul (JObj kvs) = list_all (\<lambda>(k, v). no_nul k \<and> json_no_nul v) kvs"
| "json_no_nul v = True"

definition row_storable :: "audit_event \<Rightarrow> bool" where
  "row_storable r \<longleftrightarrow>
     list_all no_nul [ae_source_id r, ae_fingerprint r, ae_event_type r, ae_severity r, ae_host r,
       ae_payload_hmac r] \<and>
     (case ae_service r of None \<Rightarrow> True | Some s \<Rightarrow> no_nul s) \<and>
     list_all no_nul (ae_incident_ids r) \<and>
     (case as_decision_reason (ae_decision_summary r) of None \<Rightarrow> True | Some s \<Rightarrow> no_nul s) \<and>
     (case as_rule_name (ae_decision_summary r) of None \<Rightarrow> True | Some s \<Rightarrow> no_nul s) \<and>
     (case as_group_key (ae_decision_summary r) of None \<Rightarrow> True | Some s \<Rightarrow> no_nul s) \<and>
     json_no_nul (JObj (ae_normalized_event r)) \<and> json_no_nul (JObj (ae_raw_payload r)) \<and>
     list_all int4_ok [ae_original_byte_length r, ae_stored_byte_length r, ae_redaction_version r,
       ae_redacted_path_count r]"

text \<open>
  \<open>insert_incident_event\<close>: the row id and \<open>accepted_at\<close> are the database's; the arguments
  the function checks for \<open>None\<close> are not optional here.
\<close>

definition insert_incident_event :: "int \<Rightarrow> uuid \<Rightarrow> audit_event \<Rightarrow> audit_table \<Rightarrow> (audit_table \<times> audit_event) result" where
  "insert_incident_event now new_id r t =
     (let row = r\<lparr>ae_id := new_id, ae_accepted_at := now\<rparr>
      in rbind (rguard (row_storable row) DatabaseError) (\<lambda>_.
         rbind (rguard (\<not> list_ex (\<lambda>x. ae_id x = new_id) t) IntegrityError) (\<lambda>_.
         Inr (t @ [row], row))))"

section \<open>Filters\<close>

record audit_filters =
  af_incident_id :: "uuid option"
  af_has_incident :: "bool option"
  af_fingerprint :: "string option"
  af_source_id :: "string option"
  af_event_type :: "event_type option"
  af_incident_effect :: "audit_effect option"
  af_no_dispatch_reason :: "string option"
  af_severity :: "severity option"
  af_host :: "string option"
  af_service :: "string option"
  af_accepted_since :: "datetime option"
  af_accepted_until :: "datetime option"
  af_event_timestamp_since :: "datetime option"
  af_event_timestamp_until :: "datetime option"
  af_limit :: int
  af_cursor :: "string option"
  af_offset :: "int option"

definition audit_filters_ok :: "audit_filters \<Rightarrow> bool" where
  "audit_filters_ok f \<longleftrightarrow>
     opt_bounded (af_fingerprint f) \<and> opt_bounded (af_source_id f) \<and>
     bounded_reason (af_no_dispatch_reason f) \<and> opt_bounded (af_host f) \<and> opt_bounded (af_service f) \<and>
     list_all (\<lambda>d. case d of None \<Rightarrow> True | Some t \<Rightarrow> is_aware t)
       [af_accepted_since f, af_accepted_until f, af_event_timestamp_since f, af_event_timestamp_until f] \<and>
     1 \<le> af_limit f \<and> af_limit f \<le> 200 \<and>
     (case af_cursor f of None \<Rightarrow> True | Some c \<Rightarrow> 1 \<le> length c \<and> length c \<le> 512) \<and>
     opt_ge 0 (af_offset f)"

definition audit_matches :: "audit_filters \<Rightarrow> audit_event \<Rightarrow> bool" where
  "audit_matches f r \<longleftrightarrow>
     opt_match (\<lambda>i. uuid_str i \<in> set (ae_incident_ids r)) (af_incident_id f) \<and>
     opt_match (\<lambda>b. if b then ae_incident_effect r \<noteq> Effect_none else ae_incident_effect r = Effect_none)
       (af_has_incident f) \<and>
     opt_match (\<lambda>s. ae_fingerprint r = s) (af_fingerprint f) \<and>
     opt_match (\<lambda>s. ae_source_id r = s) (af_source_id f) \<and>
     opt_match (\<lambda>e. ae_event_type r = event_type_value e) (af_event_type f) \<and>
     opt_match (\<lambda>e. ae_incident_effect r = e) (af_incident_effect f) \<and>
     opt_match (\<lambda>s. as_no_dispatch_reason (ae_decision_summary r) = Some s) (af_no_dispatch_reason f) \<and>
     opt_match (\<lambda>s. ae_severity r = severity_value s) (af_severity f) \<and>
     opt_match (\<lambda>s. ae_host r = s) (af_host f) \<and>
     opt_match (\<lambda>s. ae_service r = Some s) (af_service f) \<and>
     opt_match (\<lambda>d. instant d \<le> ae_accepted_at r) (af_accepted_since f) \<and>
     opt_match (\<lambda>d. ae_accepted_at r < instant d) (af_accepted_until f) \<and>
     opt_match (\<lambda>d. instant d \<le> ae_event_timestamp r) (af_event_timestamp_since f) \<and>
     opt_match (\<lambda>d. ae_event_timestamp r < instant d) (af_event_timestamp_until f)"

section \<open>Projection in SQL\<close>

definition audit_tag_sql_max_bytes :: nat where
  "audit_tag_sql_max_bytes = 32768"

text \<open>The tags selected, \<open>size_limited\<close> and \<open>invalid_shape\<close>.\<close>

definition string_entry :: "string \<times> json \<Rightarrow> (string \<times> string) option" where
  "string_entry kv = (case snd kv of JStr s \<Rightarrow> Some (fst kv, s) | _ \<Rightarrow> None)"

definition sql_tags :: "(json \<Rightarrow> string) \<Rightarrow> json_dict \<Rightarrow> tags \<times> bool \<times> bool" where
  "sql_tags jsonb_text e =
     (case map_of e ''tags'' of
        Some (JObj d) \<Rightarrow>
          if byte_length (jsonb_text (JObj d)) \<le> audit_tag_sql_max_bytes
          then (List.map_filter string_entry d, False, list_ex (\<lambda>kv. string_entry kv = None) d)
          else ([], True, False)
      | _ \<Rightarrow> ([], False, True))"

text \<open>\<open>normalized_event ->> 'message'\<close>.\<close>

definition sql_message :: "(json \<Rightarrow> string) \<Rightarrow> json_dict \<Rightarrow> string option" where
  "sql_message jsonb_text e =
     (case map_of e ''message'' of
        None \<Rightarrow> None
      | Some JNull \<Rightarrow> None
      | Some (JStr s) \<Rightarrow> Some s
      | Some v \<Rightarrow> Some (jsonb_text v))"

section \<open>List rows\<close>

record audit_list_row =
  al_event :: audit_event                    \<comment> \<open>neither the payload nor the event document is selected\<close>
  al_incident_ids :: "string list"
  al_message :: string
  al_tags :: tags
  al_tags_omitted :: bool
  al_omission_reasons :: "omission_reason set"

definition audit_incident_ids_max :: nat where
  "audit_incident_ids_max = 20"

definition row_to_audit_event_list_row :: "(json \<Rightarrow> string) \<Rightarrow> audit_event \<Rightarrow> audit_list_row" where
  "row_to_audit_event_list_row jsonb_text r =
     (let (tags, size_limited, invalid_shape) = sql_tags jsonb_text (ae_normalized_event r);
          (projected, reasons) = project_normalized_event_tags tags invalid_shape size_limited
      in \<lparr>al_event = r\<lparr>ae_normalized_event := [], ae_raw_payload := []\<rparr>,
          al_incident_ids = take audit_incident_ids_max (ae_incident_ids r),
          al_message = project_normalized_event_message (sql_message jsonb_text (ae_normalized_event r)),
          al_tags = projected, al_tags_omitted = (reasons \<noteq> {}), al_omission_reasons = reasons\<rparr>)"

section \<open>Pages\<close>

definition audit_sort_key :: "audit_event \<Rightarrow> int \<times> uuid" where
  "audit_sort_key r = (ae_accepted_at r, ae_id r)"

definition audit_before :: "(int \<times> uuid) option \<Rightarrow> audit_event \<Rightarrow> bool" where
  "audit_before c r =
     (case c of
        None \<Rightarrow> True
      | Some (time, ident) \<Rightarrow>
          ae_accepted_at r < time \<or> (ae_accepted_at r = time \<and> ae_id r < ident))"

definition fetch_audit_events ::
  "audit_event list \<Rightarrow> int \<Rightarrow> (int \<times> uuid) option \<Rightarrow> audit_event list \<times> audit_event option" where
  "fetch_audit_events rows limit c =
     cut_page limit (take (nat (limit + 1))
       (order_by_desc audit_sort_key (filter (audit_before c) rows)))"

record audit_page =
  ap_events :: "audit_list_row list"
  ap_next_cursor :: "string option"
  ap_total :: int
  ap_offset :: int

definition audit_cursor :: "audit_event \<Rightarrow> string" where
  "audit_cursor r = encode_audit_cursor (utc_datetime (ae_accepted_at r), ae_id r)"

definition audit_cursor_page ::
  "(json \<Rightarrow> string) \<Rightarrow> audit_event list \<Rightarrow> int \<Rightarrow> (int \<times> uuid) option \<Rightarrow> audit_page" where
  "audit_cursor_page jsonb_text rows limit c =
     (case fetch_audit_events rows limit c of
        (items, next) \<Rightarrow>
          \<lparr>ap_events = map (row_to_audit_event_list_row jsonb_text) items,
           ap_next_cursor = map_option audit_cursor next, ap_total = int (length rows), ap_offset = 0\<rparr>)"

definition list_incident_events ::
  "cursor_parsers \<Rightarrow> (json \<Rightarrow> string) \<Rightarrow> audit_filters \<Rightarrow> audit_table \<Rightarrow> audit_page result" where
  "list_incident_events ps jsonb_text f t =
     (let rows = select_where (audit_matches f) t
      in case af_cursor f of
           Some c \<Rightarrow>
             rbind (decode_audit_cursor ps c) (\<lambda>(d, ident).
             Inr (audit_cursor_page jsonb_text rows (af_limit f) (Some (instant d, ident))))
         | None \<Rightarrow>
             (case af_offset f of
                Some offset \<Rightarrow>
                  Inr \<lparr>ap_events = map (row_to_audit_event_list_row jsonb_text)
                         (take (nat (af_limit f)) (drop (nat offset) (order_by_desc audit_sort_key rows))),
                       ap_next_cursor = None, ap_total = int (length rows), ap_offset = offset\<rparr>
              | None \<Rightarrow> Inr (audit_cursor_page jsonb_text rows (af_limit f) None)))"

section \<open>Responses\<close>

definition event_type_of :: "string \<Rightarrow> event_type result" where
  "event_type_of s =
     (if s = ''PROBLEM'' then Inr PROBLEM else if s = ''RECOVERY'' then Inr RECOVERY else Inl ValueError)"

definition hmac_ok :: "string \<Rightarrow> bool" where
  "hmac_ok h \<longleftrightarrow> length h = 64 \<and> list_all (\<lambda>c. c \<in> set ''0123456789abcdef'') h"

text \<open>\<open>_audit_event_response\<close> with the validators of \<open>AuditEventResponse\<close>.\<close>

definition audit_event_response :: "audit_list_row \<Rightarrow> audit_list_row result" where
  "audit_event_response l =
     (let r = al_event l
      in rbind (event_type_of (ae_event_type r)) (\<lambda>_.
         rbind (severity_of (ae_severity r)) (\<lambda>_.
         rbind (audit_summary_validate (ae_decision_summary r)) (\<lambda>_.
         rbind (rguard (bounded_string (ae_source_id r) \<and> bounded_string (ae_fingerprint r) \<and>
                  bounded_string (ae_host r) \<and> opt_bounded (ae_service r) \<and>
                  bounded_string_tuple (al_incident_ids l) \<and>
                  length (al_message l) \<le> audit_message_max_length \<and>
                  response_tags_ok (al_tags l) \<and>
                  (al_tags_omitted l \<longleftrightarrow> al_omission_reasons l \<noteq> {}) \<and>
                  hmac_ok (ae_payload_hmac r)) ValidationError) (\<lambda>_. Inr l)))))"

section \<open>The contract\<close>

lemma audit_before_below: "audit_before c = below audit_sort_key c"
  by (rule ext) (auto simp: audit_before_def below_def audit_sort_key_def less_prod_def' split: option.split)

interpretation audit_pages: keyset_pages audit_sort_key fetch_audit_events
proof unfold_locales
  fix rs :: "audit_event list" and n c items "next"
  assume a: "distinct (map audit_sort_key rs)" "1 \<le> n" "fetch_audit_events rs n c = (items, next)"
  from cut_ordered [OF a(1,2) a(3) [unfolded fetch_audit_events_def audit_before_below]]
  show "descending audit_sort_key items \<and> int (length items) \<le> n \<and>
      set items \<subseteq> {r \<in> set rs. below audit_sort_key c r}" by blast
next
  fix rs :: "audit_event list" and n c items
  assume a: "distinct (map audit_sort_key rs)" "1 \<le> n" "fetch_audit_events rs n c = (items, None)"
  from cut_ordered [OF a(1,2) a(3) [unfolded fetch_audit_events_def audit_before_below]]
  show "set items = {r \<in> set rs. below audit_sort_key c r}" by blast
next
  fix rs :: "audit_event list" and n c items l
  assume a: "distinct (map audit_sort_key rs)" "1 \<le> n" "fetch_audit_events rs n c = (items, Some l)"
  from cut_ordered [OF a(1,2) a(3) [unfolded fetch_audit_events_def audit_before_below]]
  show "l \<in> set items \<and> set items = {r \<in> set rs. below audit_sort_key c r \<and>
      \<not> below audit_sort_key (Some (audit_sort_key l)) r}" by blast
qed

definition audit_listing ::
  "cursor_parsers \<Rightarrow> (json \<Rightarrow> string) \<Rightarrow> audit_filters \<Rightarrow> audit_table \<Rightarrow> string option \<Rightarrow>
     (audit_list_row list \<times> string option) result" where
  "audit_listing ps jsonb_text f t c =
     rbind (list_incident_events ps jsonb_text (f\<lparr>af_cursor := c\<rparr>) t) (\<lambda>p. Inr (ap_events p, ap_next_cursor p))"

definition audit_cursor_parsed :: "cursor_parsers \<Rightarrow> audit_event \<Rightarrow> bool" where
  "audit_cursor_parsed ps r \<longleftrightarrow>
     decode_audit_cursor ps (audit_cursor r) = Inr (utc_datetime (ae_accepted_at r), ae_id r)"

lemma audit_matches_cursor [simp]: "audit_matches (f\<lparr>af_cursor := c\<rparr>) = audit_matches f"
  by (rule ext) (simp add: audit_matches_def)

text \<open>
  C37: following the cursors of the audit list returns every audit row that matches the
  filters exactly once, newest first, for every page size.
\<close>

theorem audit_listing_complete:
  assumes "distinct (map ae_id t)" "audit_filters_ok f" "af_offset f = None"
    and "\<forall>r \<in> set t. audit_cursor_parsed ps r"
  shows "walk_pages (audit_listing ps jsonb_text f t) (Suc (length (filter (audit_matches f) t))) None =
    Inr (map (row_to_audit_event_list_row jsonb_text) (order_by_desc audit_sort_key (filter (audit_matches f) t)))"
proof (rule audit_pages.walk_complete [where n = "af_limit f" and encode = audit_cursor
      and decode = "\<lambda>c. case c of None \<Rightarrow> Inr None
        | Some s \<Rightarrow> rbind (decode_audit_cursor ps s) (\<lambda>(d, ident). Inr (Some (instant d, ident)))"])
  have "distinct (map ae_id (filter (audit_matches f) t))"
    using assms(1) by (simp add: distinct_map_filter)
  then show "distinct (map audit_sort_key (filter (audit_matches f) t))"
    by (auto simp: distinct_map audit_sort_key_def inj_on_def)
  show "1 \<le> af_limit f" using assms(2) by (simp add: audit_filters_ok_def)
next
  fix c
  show "audit_listing ps jsonb_text f t c =
    rbind (case c of None \<Rightarrow> Inr None
        | Some s \<Rightarrow> rbind (decode_audit_cursor ps s) (\<lambda>(d, ident). Inr (Some (instant d, ident))))
      (\<lambda>k. case fetch_audit_events (filter (audit_matches f) t) (af_limit f) k of
        (items, next) \<Rightarrow> Inr (map (row_to_audit_event_list_row jsonb_text) items, map_option audit_cursor next))"
    using assms(3)
    by (cases c) (auto simp: audit_listing_def list_incident_events_def audit_cursor_page_def select_where_def
        rbind_def split: sum.split prod.split)
next
  fix r assume "r \<in> set (filter (audit_matches f) t)"
  then show "(case Some (audit_cursor r) of None \<Rightarrow> Inr None
        | Some s \<Rightarrow> rbind (decode_audit_cursor ps s) (\<lambda>(d, ident). Inr (Some (instant d, ident)))) =
      Inr (Some (audit_sort_key r))"
    using assms(4) by (simp add: audit_cursor_parsed_def audit_sort_key_def)
qed simp

end
