(* ===== verification/Icinga2.thy ===== *)
theory Icinga2
  imports Events IncidentDomain
begin

text \<open>
  The Icinga2 input plugin (\<open>app/plugins/inputs/icinga2.py\<close>): validation of the webhook
  payload, the mapping of states, and the normalisation to an event.  SHA-256 (hexadecimal) is a
  parameter; so is \<open>datetime.fromisoformat\<close>.
\<close>

datatype state_type = Hard | Soft

record icinga_payload =
  pl_source_id :: string
  pl_host :: string
  pl_service :: "string option"
  pl_state :: string
  pl_state_type :: state_type
  pl_timestamp :: datetime
  pl_check_output :: string
  pl_ip_address :: "string option"
  pl_tags :: tags

definition icinga_host_states :: "(string \<times> severity \<times> event_type) list" where
  "icinga_host_states =
     [(''UP'', OK, RECOVERY), (''DOWN'', CRITICAL, PROBLEM), (''UNREACHABLE'', UNKNOWN, PROBLEM)]"

definition icinga_service_states :: "(string \<times> severity \<times> event_type) list" where
  "icinga_service_states =
     [(''OK'', OK, RECOVERY), (''WARNING'', WARNING, PROBLEM), (''CRITICAL'', CRITICAL, PROBLEM),
      (''UNKNOWN'', UNKNOWN, PROBLEM)]"

definition icinga_states :: "bool \<Rightarrow> (string \<times> severity \<times> event_type) list" where
  "icinga_states is_host = (if is_host then icinga_host_states else icinga_service_states)"

text \<open>The \<open>mode="before"\<close> validator, for a string.\<close>

definition parse_timestamp :: "(string \<Rightarrow> datetime option) \<Rightarrow> string \<Rightarrow> datetime result" where
  "parse_timestamp fromisoformat s =
     (case fromisoformat (str_replace ''Z'' ''+00:00'' s) of
        None \<Rightarrow> Inl ValueError
      | Some d \<Rightarrow> if is_aware d then Inr d else Inl ValueError)"

definition icinga_payload_ok :: "icinga_payload \<Rightarrow> bool" where
  "icinga_payload_ok p \<longleftrightarrow>
     bounded_string (pl_source_id p) \<and> bounded_string (pl_host p) \<and> opt_bounded (pl_service p) \<and>
     is_aware (pl_timestamp p) \<and> pl_check_output p \<noteq> [] \<and> pl_ip_address p \<noteq> Some [] \<and>
     validate_event_tags (pl_tags p) = Inr () \<and>
     pl_state p \<in> set (map fst (icinga_states (pl_service p = None)))"

definition icinga_payload_validate :: "icinga_payload \<Rightarrow> icinga_payload result" where
  "icinga_payload_validate p = (if icinga_payload_ok p then Inr p else Inl ValidationError)"

record icinga_rejection =
  rj_reason :: string
  rj_source_id :: string
  rj_host :: string
  rj_service :: "string option"
  rj_state :: string
  rj_state_type :: state_type

definition icinga_rejection_validate :: "icinga_rejection \<Rightarrow> icinga_rejection result" where
  "icinga_rejection_validate r =
     (if rj_reason r \<noteq> [] \<and> rj_source_id r \<noteq> [] \<and> rj_host r \<noteq> [] \<and> rj_service r \<noteq> Some []
      then Inr r else Inl ValidationError)"

definition map_icinga_state :: "string \<Rightarrow> bool \<Rightarrow> (severity \<times> event_type) result" where
  "map_icinga_state state is_host =
     (case map_of (icinga_states is_host) state of None \<Rightarrow> Inl ValueError | Some se \<Rightarrow> Inr se)"

definition fingerprint_parts :: "string \<Rightarrow> string \<Rightarrow> string option \<Rightarrow> event_type \<Rightarrow> severity \<Rightarrow> string list" where
  "fingerprint_parts source host service ty sev =
     [source, host, event_type_value ty, severity_value sev] @
     (case service of None \<Rightarrow> [] | Some s \<Rightarrow> [s])"

definition fingerprint_icinga_event ::
  "(bytes \<Rightarrow> string) \<Rightarrow> string \<Rightarrow> string \<Rightarrow> string option \<Rightarrow> event_type \<Rightarrow> severity \<Rightarrow> string" where
  "fingerprint_icinga_event sha256 source host service ty sev =
     take 32 (sha256 (utf8_encode (str_join ''|'' (fingerprint_parts source host service ty sev))))"

datatype plugin_result = Event normalized_event | Rejection icinga_rejection

definition icinga_process_payload :: "(bytes \<Rightarrow> string) \<Rightarrow> icinga_payload \<Rightarrow> plugin_result result" where
  "icinga_process_payload sha256 p =
     (if pl_state_type p = Soft then
        rbind (icinga_rejection_validate
          \<lparr>rj_reason = ''SOFT state is non-actionable'', rj_source_id = pl_source_id p, rj_host = pl_host p,
           rj_service = pl_service p, rj_state = pl_state p, rj_state_type = pl_state_type p\<rparr>) (\<lambda>r. Inr (Rejection r))
      else
        rbind (map_icinga_state (pl_state p) (pl_service p = None)) (\<lambda>(sev, ty).
        let fp = fingerprint_icinga_event sha256 (pl_source_id p) (pl_host p) (pl_service p) ty sev
        in rbind (validate_normalized_event
             \<lparr>ev_fingerprint = fp, ev_source_id = pl_source_id p, ev_host = pl_host p,
              ev_service = pl_service p, ev_severity = sev, ev_event_type = ty,
              ev_timestamp = pl_timestamp p, ev_tags = pl_tags p, ev_message = pl_check_output p,
              ev_ip_address = pl_ip_address p\<rparr>) (\<lambda>e. Inr (Event e))))"

section \<open>Facts\<close>

lemma map_icinga_state_facts:
  assumes "map_icinga_state s is_host = Inr (sev, ty)"
  shows "ty = RECOVERY \<longleftrightarrow> sev = OK"
  using assms
  by (auto simp: map_icinga_state_def icinga_states_def icinga_host_states_def icinga_service_states_def
      split: if_splits option.splits)

lemma map_icinga_state_defined:
  "s \<in> set (map fst (icinga_states is_host)) \<Longrightarrow> \<exists>sev ty. map_icinga_state s is_host = Inr (sev, ty)"
  by (auto simp: map_icinga_state_def dest!: weak_map_of_SomeI split: option.split)

lemma bounded_not_Nil: "bounded_string s \<Longrightarrow> s \<noteq> []" "opt_bounded x \<Longrightarrow> x \<noteq> Some []"
  by (auto simp: bounded_string_def opt_bounded_def)

text \<open>
  C38: for a payload that passes validation the plugin rejects exactly the SOFT states; a HARD
  state becomes an event that carries the payload's source, host, service, timestamp, tags, output and
  address over unchanged, is a recovery exactly
  when its severity is OK, and has a fingerprint that does not depend on the timestamp, the
  output or the tags.  It raises exactly for an output longer than the 4096 characters an event
  may hold, a bound the payload model does not have.
\<close>

theorem icinga_process_payload_spec:
  assumes "icinga_payload_ok p" "\<And>b. length (sha256 b) = 64"
  shows "(pl_state_type p = Soft \<longleftrightarrow> (\<exists>r. icinga_process_payload sha256 p = Inr (Rejection r))) \<and>
    (icinga_process_payload sha256 p = Inl ValidationError \<longleftrightarrow>
       pl_state_type p = Hard \<and> 4096 < length (pl_check_output p)) \<and>
    (\<forall>err. icinga_process_payload sha256 p = Inl err \<longrightarrow> err = ValidationError) \<and>
    (\<forall>e. icinga_process_payload sha256 p = Inr (Event e) \<longrightarrow>
       ev_host e = pl_host p \<and> ev_service e = pl_service p \<and> ev_source_id e = pl_source_id p \<and>
       ev_timestamp e = pl_timestamp p \<and> ev_tags e = pl_tags p \<and> ev_message e = pl_check_output p \<and>
       ev_ip_address e = pl_ip_address p \<and> length (ev_fingerprint e) = 32 \<and> (ev_event_type e = RECOVERY \<longleftrightarrow> ev_severity e = OK) \<and>
       ev_fingerprint e = fingerprint_icinga_event sha256 (pl_source_id p) (pl_host p) (pl_service p)
         (ev_event_type e) (ev_severity e))"
proof (cases "pl_state_type p")
  case Soft
  moreover have "rj_reason r \<noteq> []" if "rj_reason r = ''SOFT state is non-actionable''" for r :: icinga_rejection
    using that by simp
  ultimately show ?thesis
    using assms(1) bounded_not_Nil
    by (auto simp: icinga_process_payload_def icinga_rejection_validate_def icinga_payload_ok_def)
next
  case Hard
  from assms(1) obtain sev ty where m: "map_icinga_state (pl_state p) (pl_service p = None) = Inr (sev, ty)"
    using map_icinga_state_defined unfolding icinga_payload_ok_def by blast
  let ?fp = "fingerprint_icinga_event sha256 (pl_source_id p) (pl_host p) (pl_service p) ty sev"
  have fp: "length ?fp = 32" using assms(2) by (simp add: fingerprint_icinga_event_def)
  then have "?fp \<noteq> []" by auto
  then have eq: "icinga_process_payload sha256 p =
      (if length (pl_check_output p) \<le> 4096 then Inr (Event
         \<lparr>ev_fingerprint = ?fp, ev_source_id = pl_source_id p, ev_host = pl_host p,
          ev_service = pl_service p, ev_severity = sev, ev_event_type = ty,
          ev_timestamp = pl_timestamp p, ev_tags = pl_tags p, ev_message = pl_check_output p,
          ev_ip_address = pl_ip_address p\<rparr>) else Inl ValidationError)"
    using assms(1) Hard bounded_not_Nil
    by (auto simp: icinga_process_payload_def m validate_normalized_event_def icinga_payload_ok_def Suc_le_eq)
  show ?thesis
    using Hard fp map_icinga_state_facts [OF m] unfolding eq by auto
qed

end
