(* ===== verification/Plugins.thy ===== *)
theory Plugins
  imports PyJson IncidentDomain
begin

text \<open>
  The output plugin registry: its configuration file (\<open>app/config/plugins.py\<close>) and the
  registry itself (\<open>app/plugins/loader.py\<close>), which instantiates every plugin at startup.
  Importing a module, calling a constructor and asking a plugin for its status are the fields of
  \<open>plugin_env\<close>; YAML and SHA-256 are parameters.
\<close>

section \<open>Configuration\<close>

record plugin_entry =
  pe_name :: string
  pe_plugin_type :: string
  pe_class_path :: string
  pe_options :: "(string, json) dict"

definition allowed_class_prefix :: string where
  "allowed_class_prefix = ''app.plugins.outputs.''"

text \<open>\<open>s.rpartition(".")\<close> without the separator.\<close>

definition rpartition_dot :: "string \<Rightarrow> string \<times> string" where
  "rpartition_dot s =
     (let tail = rev (takeWhile (\<lambda>c. c \<noteq> CHR ''.'') (rev s))
      in if CHR ''.'' \<in> set s then (take (length s - length tail - 1) s, tail) else ([], s))"

definition trusted_class_path :: "string \<Rightarrow> bool" where
  "trusted_class_path s \<longleftrightarrow>
     prefix allowed_class_prefix s \<and>
     (let (module_name, class_name) = rpartition_dot s
      in module_name \<noteq> ''app.plugins.outputs'' \<and> class_name \<noteq> [])"

fun scalar_option :: "json \<Rightarrow> bool" where
  "scalar_option (JList xs) = False"
| "scalar_option (JObj kvs) = False"
| "scalar_option v = True"

fun option_value_ok :: "json \<Rightarrow> bool" where
  "option_value_ok (JList xs) = (length xs \<le> 100 \<and> list_all scalar_option xs)"
| "option_value_ok v = scalar_option v"

definition option_name_ok :: "string \<Rightarrow> bool" where
  "option_name_ok n \<longleftrightarrow> n \<noteq> [] \<and> length n \<le> 64 \<and> \<not> prefix ''__'' n"

definition plugin_entry_ok :: "plugin_entry \<Rightarrow> bool" where
  "plugin_entry_ok e \<longleftrightarrow>
     1 \<le> length (pe_name e) \<and> length (pe_name e) \<le> 64 \<and> pe_plugin_type e = ''email'' \<and>
     bounded_string (pe_class_path e) \<and> trusted_class_path (pe_class_path e) \<and>
     length (pe_options e) \<le> 20 \<and> list_all (\<lambda>(n, v). option_name_ok n \<and> option_value_ok v) (pe_options e)"

definition load_plugin_registry_config ::
  "(plugin_entry list \<Rightarrow> string) \<Rightarrow> plugin_entry list \<Rightarrow> (plugin_entry list \<times> string) result" where
  "load_plugin_registry_config config_hash outputs =
     (if length outputs \<le> 100 \<and> list_all plugin_entry_ok outputs \<and> distinct (map pe_name outputs)
      then Inr (outputs, config_hash outputs) else Inl ValidationError)"

section \<open>Startup failures\<close>

datatype plugin_category = Email_category | Unknown_category

datatype startup_failure_code = Registry_entry | Module_or_class | Interface_failure | Constructor_failure | Status_failure

record startup_error =
  se_category :: plugin_category
  se_failure_code :: startup_failure_code
  se_entry_position :: nat

definition plugin_category :: "plugin_entry \<Rightarrow> plugin_category" where
  "plugin_category e = (if pe_plugin_type e = ''email'' then Email_category else Unknown_category)"

record plugin_status =
  ps_plugin_type :: string
  ps_ready :: bool
  ps_status :: string

text \<open>
  \<open>None\<close> stands for an exception, for a target that is not a class, and, for the status, also
  for a value that is no \<open>PluginStatus\<close>.
\<close>

record ('c, 'p) plugin_env =
  pv_import :: "string \<Rightarrow> string \<Rightarrow> 'c option"
  pv_construct :: "'c \<Rightarrow> (string, json) dict \<Rightarrow> 'p option"
  pv_interface :: "'p \<Rightarrow> bool"
  pv_status :: "'p \<Rightarrow> plugin_status option"

definition instantiate_plugin :: "('c, 'p) plugin_env \<Rightarrow> plugin_entry \<Rightarrow> nat \<Rightarrow> startup_error + 'p" where
  "instantiate_plugin env e position =
     (let fail = (\<lambda>code. Inl \<lparr>se_category = plugin_category e, se_failure_code = code, se_entry_position = position\<rparr>);
          (module_name, class_name) = rpartition_dot (pe_class_path e)
      in if \<not> prefix allowed_class_prefix module_name then fail Module_or_class
         else case pv_import env module_name class_name of
             None \<Rightarrow> fail Module_or_class
           | Some cls \<Rightarrow>
               case pv_construct env cls (pe_options e) of
                 None \<Rightarrow> fail Constructor_failure
               | Some p \<Rightarrow> if pv_interface env p then Inr p else fail Interface_failure)"

section \<open>The registry\<close>

record 'p registry =
  rg_entries :: "(string, plugin_entry) dict"
  rg_positions :: "(string, nat) dict"
  rg_config_hash :: string
  rg_plugins :: "(string, 'p) dict"

datatype lookup_error = Unknown_plugin | Startup_failed startup_error

definition get_plugin :: "('c, 'p) plugin_env \<Rightarrow> string \<Rightarrow> 'p registry \<Rightarrow> lookup_error + ('p registry \<times> 'p)" where
  "get_plugin env name g =
     (case map_of (rg_plugins g) name of
        Some p \<Rightarrow> Inr (g, p)
      | None \<Rightarrow>
          case map_of (rg_entries g) name of
            None \<Rightarrow> Inl Unknown_plugin
          | Some e \<Rightarrow>
              case instantiate_plugin env e (the (map_of (rg_positions g) name)) of
                Inl err \<Rightarrow> Inl (Startup_failed err)
              | Inr p \<Rightarrow> Inr (g\<lparr>rg_plugins := dict_set name p (rg_plugins g)\<rparr>, p))"

text \<open>The loop of the constructor: instantiate each entry and ask it for its status.\<close>

fun start_plugins :: "('c, 'p) plugin_env \<Rightarrow> string list \<Rightarrow> 'p registry \<Rightarrow> lookup_error + 'p registry" where
  "start_plugins env [] g = Inr g"
| "start_plugins env (name # names) g =
     (case get_plugin env name g of
        Inl err \<Rightarrow> Inl err
      | Inr (g', p) \<Rightarrow>
          (case pv_status env p of
             None \<Rightarrow> Inl (Startup_failed \<lparr>se_category = plugin_category (the (map_of (rg_entries g) name)),
                se_failure_code = Status_failure, se_entry_position = the (map_of (rg_positions g) name)\<rparr>)
           | Some st \<Rightarrow> start_plugins env names g'))"

definition new_registry :: "('c, 'p) plugin_env \<Rightarrow> plugin_entry list \<Rightarrow> string \<Rightarrow> lookup_error + 'p registry" where
  "new_registry env entries config_hash =
     (let by_name = dict_merge [] (map (\<lambda>e. (pe_name e, e)) entries);
          positions = dict_merge [] (zip (map pe_name entries) [1..<Suc (length entries)])
      in start_plugins env (dict_keys by_name)
           \<lparr>rg_entries = by_name, rg_positions = positions, rg_config_hash = config_hash, rg_plugins = []\<rparr>)"

definition load_plugin_registry ::
  "('c, 'p) plugin_env \<Rightarrow> (plugin_entry list \<Rightarrow> string) \<Rightarrow> plugin_entry list option \<Rightarrow> lookup_error + 'p registry" where
  "load_plugin_registry env config_hash file =
     (case file of
        None \<Rightarrow> Inl (Startup_failed \<lparr>se_category = Unknown_category, se_failure_code = Registry_entry, se_entry_position = 0\<rparr>)
      | Some outputs \<Rightarrow>
          case load_plugin_registry_config config_hash outputs of
            Inl err \<Rightarrow> Inl (Startup_failed
              \<lparr>se_category = Unknown_category, se_failure_code = Registry_entry, se_entry_position = 0\<rparr>)
          | Inr (entries, h) \<Rightarrow> new_registry env entries h)"

definition names :: "'p registry \<Rightarrow> string list" where
  "names g = sort (dict_keys (rg_entries g))"

definition categories :: "'p registry \<Rightarrow> plugin_category list" where
  "categories g = map (plugin_category \<circ> snd) (rg_entries g)"

record plugin_row =
  pr_name :: string
  pr_plugin_type :: string
  pr_status :: string
  pr_ready :: bool

definition list_plugins :: "('c, 'p) plugin_env \<Rightarrow> 'p registry \<Rightarrow> plugin_row list option" where
  "list_plugins env g =
     (if \<exists>n \<in> set (names g). (case get_plugin env n g of Inl _ \<Rightarrow> True | Inr (_, p) \<Rightarrow> pv_status env p = None)
      then None
      else Some (map (\<lambda>n. case get_plugin env n g of
          Inr (_, p) \<Rightarrow>
            (let st = the (pv_status env p)
             in \<lparr>pr_name = n, pr_plugin_type = pe_plugin_type (the (map_of (rg_entries g) n)),
                 pr_status = ps_status st, pr_ready = ps_ready st\<rparr>)) (names g)))"

datatype plugin_readiness = Not_configured | Plugin_ready | Plugin_not_ready

text \<open>One iteration of \<open>readiness_states\<close>, for the one category it reports.\<close>

definition readiness_step ::
  "('c, 'p) plugin_env \<Rightarrow> 'p registry \<Rightarrow> string \<times> plugin_entry \<Rightarrow> plugin_readiness \<Rightarrow> plugin_readiness" where
  "readiness_step env g = (\<lambda>(name, e) state.
     if plugin_category e \<noteq> Email_category \<or> state = Plugin_not_ready then state
     else case get_plugin env name g of
         Inl _ \<Rightarrow> Plugin_not_ready
       | Inr (_, p) \<Rightarrow>
           (case pv_status env p of
              None \<Rightarrow> Plugin_not_ready
            | Some st \<Rightarrow> if \<not> ps_ready st then Plugin_not_ready
                         else if state = Not_configured then Plugin_ready else state))"

definition readiness_states :: "('c, 'p) plugin_env \<Rightarrow> 'p registry \<Rightarrow> plugin_readiness" where
  "readiness_states env g = fold (readiness_step env g) (rg_entries g) Not_configured"

section \<open>After startup\<close>

lemma start_plugins_facts:
  assumes "start_plugins env ns g = Inr g'"
  shows "rg_entries g' = rg_entries g \<and> rg_positions g' = rg_positions g \<and> rg_config_hash g' = rg_config_hash g \<and>
    (\<forall>n \<in> set ns. \<exists>p. map_of (rg_plugins g') n = Some p \<and> pv_status env p \<noteq> None) \<and>
    (\<forall>n p. map_of (rg_plugins g) n = Some p \<longrightarrow> map_of (rg_plugins g') n = Some p)"
  using assms
proof (induction ns arbitrary: g)
  case (Cons n ns)
  from Cons.prems obtain g1 p st where g: "get_plugin env n g = Inr (g1, p)" "pv_status env p = Some st"
    "start_plugins env ns g1 = Inr g'"
    by (auto split: sum.splits prod.splits option.splits)
  have "rg_entries g1 = rg_entries g" "rg_positions g1 = rg_positions g" "rg_config_hash g1 = rg_config_hash g"
    "map_of (rg_plugins g1) n = Some p"
    "\<forall>m q. map_of (rg_plugins g) m = Some q \<longrightarrow> map_of (rg_plugins g1) m = Some q"
    using g(1) by (auto simp: get_plugin_def map_of_dict_set split: option.splits sum.splits)
  with Cons.IH [OF g(3)] g(2) show ?case by auto
qed simp

lemma start_plugins_keys:
  assumes "start_plugins env ns g = Inr g'"
  shows "fst ` set (rg_plugins g') \<subseteq> fst ` set (rg_plugins g) \<union> set ns"
  using assms
proof (induction ns arbitrary: g)
  case (Cons n ns)
  from Cons.prems obtain g1 p where g: "get_plugin env n g = Inr (g1, p)" "start_plugins env ns g1 = Inr g'"
    by (auto split: sum.splits prod.splits option.splits)
  have "rg_plugins g1 = rg_plugins g \<or> rg_plugins g1 = dict_set n p (rg_plugins g)"
    using g(1) by (auto simp: get_plugin_def split: option.splits sum.splits)
  then have "fst ` set (rg_plugins g1) \<subseteq> insert n (fst ` set (rg_plugins g))"
    using keys_dict_set [of n p "rg_plugins g"] by (elim disjE) (simp_all add: subset_insertI)
  with Cons.IH [OF g(2)] show ?case by auto
qed simp

lemma new_registry_facts:
  assumes "new_registry env entries h = Inr g"
  shows "rg_config_hash g = h \<and> set (names g) = pe_name ` set entries \<and>
    (\<forall>n. n \<in> set (names g) \<longleftrightarrow> (\<exists>p. get_plugin env n g = Inr (g, p))) \<and>
    (\<forall>n. n \<notin> set (names g) \<longrightarrow> get_plugin env n g = Inl Unknown_plugin)"
proof -
  let ?by = "dict_merge [] (map (\<lambda>e. (pe_name e, e)) entries)"
  let ?g0 = "\<lparr>rg_entries = ?by, rg_positions = dict_merge [] (zip (map pe_name entries) [1..<Suc (length entries)]),
     rg_config_hash = h, rg_plugins = []\<rparr>"
  have s: "start_plugins env (dict_keys ?by) ?g0 = Inr g"
    using assms by (simp add: new_registry_def Let_def)
  note f = start_plugins_facts [OF s]
  have keys: "set (dict_keys ?by) = pe_name ` set entries"
    unfolding keys_dict_merge by (simp add: image_image)
  have g: "rg_entries g = ?by" "rg_config_hash g = h" using f by simp_all
  have n: "set (names g) = pe_name ` set entries"
    using keys g(1) by (simp only: names_def set_sort)
  have known: "\<exists>p. get_plugin env n g = Inr (g, p)" if "n \<in> set (names g)" for n
  proof -
    have "n \<in> set (dict_keys ?by)" using that n keys by simp
    then obtain p where "map_of (rg_plugins g) n = Some p" using f by blast
    then show ?thesis by (simp add: get_plugin_def)
  qed
  have unknown: "get_plugin env n g = Inl Unknown_plugin" if "n \<notin> set (names g)" for n
  proof -
    have "map_of (rg_entries g) n = None"
      using that by (simp add: names_def map_of_eq_None_iff)
    moreover have "map_of (rg_plugins g) n = None"
      using start_plugins_keys [OF s] that by (auto simp: names_def g(1) map_of_eq_None_iff)
    ultimately show ?thesis by (simp add: get_plugin_def)
  qed
  from g(2) n known unknown show ?thesis by (metis sum.distinct(1))
qed

text \<open>
  Once a registry has started, every configured plugin is instantiated: a lookup succeeds
  exactly for the configured names, never instantiates anything again, and the configuration
  hash is the file's.
\<close>

lemma registry_started:
  assumes "new_registry env entries h = Inr g"
  shows "rg_config_hash g = h \<and> set (names g) = pe_name ` set entries \<and>
    (\<forall>n. n \<in> set (names g) \<longleftrightarrow> (\<exists>p. get_plugin env n g = Inr (g, p))) \<and>
    (\<forall>n. n \<notin> set (names g) \<longrightarrow> get_plugin env n g = Inl Unknown_plugin)"
  by (rule new_registry_facts [OF assms])

end
