(* ===== verification/WitnessesStore.thy ===== *)
theory WitnessesStore
  imports DemoData CursorFacts IncidentListing AuditStore Icinga2 Plugins
begin

text \<open>
  The properties of the cursors, the two lists, the input plugin and the plugin registry,
  applied at concrete values.
\<close>

section \<open>Cursors\<close>

text \<open>
  Parsers for the cursors of the rows 5 and 6: the first letter of the timestamp field and the
  last digit of the id tell the documents apart.
\<close>

definition demo_cursor_payload :: "string \<Rightarrow> json \<Rightarrow> json" where
  "demo_cursor_payload field ident = JObj [(field, JStr (isoformat (demo_time 0))), (''id'', ident)]"

definition demo_cursor_id :: "bytes \<Rightarrow> uuid" where
  "demo_cursor_id b = (if take 3 (rev b) = [125, 34, 53] then 5 else 6)"

definition demo_parsers :: cursor_parsers where
  "demo_parsers =
     \<lparr>json_of_bytes = (\<lambda>b.
        if take 3 b = [123, 34, 97] then Some (demo_cursor_payload ''accepted_at'' (JStr (uuid_str (demo_cursor_id b))))
        else if take 3 b = [123, 34, 108] then Some (demo_cursor_payload ''last_update_time'' (JStr (uuid_str (demo_cursor_id b))))
        else Some (demo_cursor_payload ''accepted_at'' (JInt 5))),
      fromisoformat = (\<lambda>s. if s = isoformat (demo_time 0) then Some (demo_time 0) else None)\<rparr>"

lemma hex_digits_zero: "hex_digits n 0 = replicate n (CHR ''0'')"
  by (induction n) (simp_all add: hex_char_def replicate_append_same)

lemma replicate_few:
  "replicate 4 c = [c, c, c, c]"
  "replicate 8 c = [c, c, c, c, c, c, c, c]"
  "replicate 11 c = [c, c, c, c, c, c, c, c, c, c, c]"
  by (simp_all add: numeral_eq_Suc)

lemma demo_uuids:
  "uuid_str 5 = ''00000000-0000-0000-0000-00000000000'' @ ''5''"
  "uuid_str 6 = ''00000000-0000-0000-0000-00000000000'' @ ''6''"
  using hex_digits.simps(2) [of 31 5] hex_digits.simps(2) [of 31 6]
  by (simp_all add: uuid_str_def Let_def hex_char_def hex_digits_zero replicate_few)

lemma demo_cursor_ends:
  "take 3 (utf8_encode (cursor_json ''accepted_at'' d u)) = [123, 34, 97]"
  "take 3 (utf8_encode (cursor_json ''last_update_time'' d u)) = [123, 34, 108]"
  "take 3 (rev (utf8_encode (cursor_json field d 5))) = [125, 34, 53]"
  "take 3 (rev (utf8_encode (cursor_json field d 6))) = [125, 34, 54]"
  by (simp_all add: cursor_json_def utf8_encode_def json_quote_def json_escape_char_def utf8_char_def
      char_code_def demo_uuids)

lemma demo_time_parsed:
  "is_aware (demo_time 0)" "fromisoformat demo_parsers (isoformat (demo_time 0)) = Some (demo_time 0)"
  by (simp_all add: demo_parsers_def demo_time_def)

lemma demo_document_parsed:
  assumes "field \<in> {''accepted_at'', ''last_update_time''}" "u \<in> {5, 6}"
  shows "json_of_bytes demo_parsers (utf8_encode (cursor_json field (demo_time 0) u)) =
     Some (JObj [(field, JStr (isoformat (demo_time 0))), (''id'', JStr (uuid_str u))])"
  using assms
  by (auto simp: demo_parsers_def demo_cursor_ends demo_cursor_id_def demo_cursor_payload_def)

theorem cursor_round_trip_witness:
  "decode_audit_cursor demo_parsers (encode_audit_cursor (demo_time 0, 5)) = Inr (demo_time 0, 5) \<and>
   decode_incident_cursor demo_parsers (encode_incident_cursor (demo_time 0, 5)) = Inr (demo_time 0, 5)"
  by (rule cursor_round_trip [OF demo_time_parsed demo_document_parsed demo_document_parsed]) simp_all

theorem decode_cursor_errors_witness:
  "decode_audit_cursor demo_parsers ''AAAA'' = Inl AttributeError"
proof -
  have "cursor_payload demo_parsers True ''AAAA'' = Some (demo_cursor_payload ''accepted_at'' (JInt 5))"
  proof -
    have "a2b_base64 True (utf8_encode (pad_b64 ''AAAA'')) = Some [0, 0, 0]" by code_simp
    then show ?thesis by (simp add: cursor_payload_def demo_parsers_def)
  qed
  moreover have "non_string_id demo_parsers ''accepted_at'' (demo_cursor_payload ''accepted_at'' (JInt 5))"
    unfolding non_string_id_def demo_cursor_payload_def
    by (intro exI [of _ "JStr (isoformat (demo_time 0))"] exI [of _ "demo_time 0"] exI [of _ "JInt 5"])
      (simp add: get_item_def datetime_of_json_def demo_time_parsed)
  ultimately show ?thesis using decode_cursor_errors [of demo_parsers "''AAAA''"] by blast
qed

section \<open>Lists\<close>

definition demo_list_filters :: incident_list_filters where
  "demo_list_filters =
     \<lparr>lf_status = None, lf_severity = None, lf_rule_name = Some ''hosts'', lf_host = Some ''web1'',
      lf_service = None, lf_updated_since = None, lf_limit = 1, lf_cursor = None, lf_offset = None\<rparr>"

definition demo_listed_rows :: incident_table where
  "demo_listed_rows = [demo_row 1, (demo_row 1)\<lparr>inc_id := 6\<rparr>]"

lemma demo_incident_cursor:
  "inc_id r \<in> {5, 6} \<Longrightarrow> inc_last_update_time r = demo_start \<Longrightarrow> incident_cursor_parsed demo_parsers r"
  using parse_cursor_encoded [OF demo_document_parsed [of "''last_update_time''" "inc_id r"] demo_time_parsed(2,1)]
  by (simp add: incident_cursor_parsed_def incident_cursor_def decode_incident_cursor_def
      encode_incident_cursor_def rescue_def demo_time_def)

text \<open>Two pages of one row each.\<close>

theorem incident_listing_complete_witness:
  "\<exists>n. walk_pages (incident_listing demo_parsers demo_list_filters demo_listed_rows) n None =
     Inr (map listed (order_by_desc incident_sort_key demo_listed_rows))"
proof -
  have m: "filter (incident_matches demo_list_filters) demo_listed_rows = demo_listed_rows" by code_simp
  have "distinct (map inc_id demo_listed_rows)" "incident_list_filters_ok demo_list_filters"
    by (code_simp, simp add: incident_list_filters_ok_def demo_list_filters_def opt_ge_def opt_bounded_def bounded_string_def)
  moreover have "\<forall>r \<in> set demo_listed_rows. incident_cursor_parsed demo_parsers r"
    by (auto simp: demo_listed_rows_def demo_row_def intro!: demo_incident_cursor)
  ultimately show ?thesis
    using incident_listing_complete [of demo_listed_rows demo_list_filters demo_parsers]
    unfolding m by (intro exI) (simp add: demo_list_filters_def del: walk_pages.simps)
qed

definition demo_summary :: audit_summary where
  "demo_summary =
     \<lparr>as_decision_kind = Kind_noop, as_incident_effect = Effect_none, as_rule_name = None,
      as_group_key = None, as_incident_ids = [], as_affected_incident_count = 0,
      as_incident_ids_truncated = False, as_decision_reason = Some ''no matching rule'',
      as_no_dispatch_reason = None, as_dispatch_planned = False, as_counted_count = None,
      as_threshold_count = None, as_threshold_crossed = None, as_replay = None,
      as_first_threshold_transition = None, as_recovery_resolution = None,
      as_affected_object_removed = None\<rparr>"

definition demo_audit_row :: "uuid \<Rightarrow> audit_event" where
  "demo_audit_row u =
     \<lparr>ae_id = u, ae_accepted_at = demo_start, ae_event_timestamp = demo_start, ae_source_id = ''icinga'',
      ae_fingerprint = ''fp1'', ae_event_type = ''PROBLEM'', ae_severity = ''CRITICAL'', ae_host = ''web1'',
      ae_service = None, ae_incident_ids = [], ae_incident_effect = Effect_none,
      ae_decision_summary = demo_summary, ae_normalized_event = [(''tags'', JObj []), (''message'', JStr ''down'')],
      ae_raw_payload = [], ae_original_byte_length = 2, ae_stored_byte_length = 2, ae_truncated = False,
      ae_redaction_version = 2, ae_redacted_path_count = 0, ae_payload_hmac = replicate 64 (CHR ''0'')\<rparr>"

definition demo_audit_filters :: audit_filters where
  "demo_audit_filters =
     \<lparr>af_incident_id = None, af_has_incident = Some False, af_fingerprint = None, af_source_id = None,
      af_event_type = Some PROBLEM, af_incident_effect = None, af_no_dispatch_reason = None,
      af_severity = None, af_host = Some ''web1'', af_service = None, af_accepted_since = None,
      af_accepted_until = None, af_event_timestamp_since = None, af_event_timestamp_until = None,
      af_limit = 1, af_cursor = None, af_offset = None\<rparr>"

definition demo_audit_rows :: audit_table where
  "demo_audit_rows = [demo_audit_row 5, demo_audit_row 6]"

lemma demo_audit_cursor: "u \<in> {5, 6} \<Longrightarrow> audit_cursor_parsed demo_parsers (demo_audit_row u)"
  using parse_cursor_encoded [OF demo_document_parsed [of "''accepted_at''" u] demo_time_parsed(2,1)]
  by (simp add: audit_cursor_parsed_def audit_cursor_def decode_audit_cursor_def encode_audit_cursor_def
      rescue_def demo_time_def demo_audit_row_def)

theorem audit_listing_complete_witness:
  "\<exists>n. walk_pages (audit_listing demo_parsers json_dumps demo_audit_filters demo_audit_rows) n None =
     Inr (map (row_to_audit_event_list_row json_dumps) (order_by_desc audit_sort_key demo_audit_rows))"
proof -
  have m: "filter (audit_matches demo_audit_filters) demo_audit_rows = demo_audit_rows"
    by (simp add: demo_audit_rows_def audit_matches_def demo_audit_filters_def demo_audit_row_def opt_match_def)
  have "distinct (map ae_id demo_audit_rows)" "audit_filters_ok demo_audit_filters"
    by (simp_all add: demo_audit_rows_def demo_audit_row_def audit_filters_ok_def demo_audit_filters_def
        opt_ge_def opt_bounded_def bounded_string_def bounded_reason_def)
  moreover have "\<forall>r \<in> set demo_audit_rows. audit_cursor_parsed demo_parsers r"
    by (auto simp: demo_audit_rows_def intro!: demo_audit_cursor)
  ultimately show ?thesis
    using audit_listing_complete [of demo_audit_rows demo_audit_filters demo_parsers json_dumps]
    unfolding m by (intro exI) (simp add: demo_audit_filters_def del: walk_pages.simps)
qed

section \<open>The input plugin\<close>

definition demo_webhook :: icinga_payload where
  "demo_webhook =
     \<lparr>pl_source_id = ''icinga'', pl_host = ''web1'', pl_service = Some ''ping'', pl_state = ''CRITICAL'',
      pl_state_type = Hard, pl_timestamp = demo_time 0, pl_check_output = ''timeout'', pl_ip_address = None,
      pl_tags = []\<rparr>"

definition demo_sha :: "bytes \<Rightarrow> string" where
  "demo_sha b = replicate 64 (CHR ''a'')"

theorem icinga_process_payload_spec_witness:
  "\<exists>e. icinga_process_payload demo_sha demo_webhook = Inr (Event e) \<and> ev_host e = ''web1'' \<and>
     length (ev_fingerprint e) = 32"
proof -
  have ok: "icinga_payload_ok demo_webhook" by code_simp
  have hard: "pl_state_type demo_webhook \<noteq> Soft" "\<not> 4096 < length (pl_check_output demo_webhook)"
    "pl_host demo_webhook = ''web1''"
    by (simp_all add: demo_webhook_def)
  have sha: "length (demo_sha b) = 64" for b by (simp add: demo_sha_def)
  note spec = icinga_process_payload_spec [of demo_webhook demo_sha, OF ok sha]
  show ?thesis
  proof (cases "icinga_process_payload demo_sha demo_webhook")
    case (Inl err)
    with spec hard show ?thesis by blast
  next
    case (Inr r)
    with spec hard show ?thesis by (cases r) auto
  qed
qed

section \<open>The plugin registry\<close>

definition demo_plugin_env :: "(string, string) plugin_env" where
  "demo_plugin_env =
     \<lparr>pv_import = (\<lambda>m c. Some c), pv_construct = (\<lambda>c opts. Some c), pv_interface = (\<lambda>p. True),
      pv_status = (\<lambda>p. Some \<lparr>ps_plugin_type = ''email'', ps_ready = True, ps_status = ''ready''\<rparr>)\<rparr>"

definition demo_plugin_entries :: "plugin_entry list" where
  "demo_plugin_entries =
     [\<lparr>pe_name = ''mail'', pe_plugin_type = ''email'',
       pe_class_path = ''app.plugins.outputs.email.SmtpOutputPlugin'', pe_options = []\<rparr>]"

end
