(* ===== verification/Tasks.thy ===== *)
theory Tasks
  imports Metrics
begin

text \<open>
  \<open>app/processing/task_runner.py\<close>: the in-process task runner.  A handler is a value of any
  type; running it is a parameter.  The handlers of the program submit no tasks, so one round of
  \<open>gather\<close> empties the set of pending tasks.
\<close>

record ('h, 'p) task_runner =
  tr_handlers :: "(string, 'h) dict"
  tr_tasks :: "('h \<times> 'p) list"

definition new_task_runner :: "('h, 'p) task_runner" where
  "new_task_runner = \<lparr>tr_handlers = [], tr_tasks = []\<rparr>"

definition pending_count :: "('h, 'p) task_runner \<Rightarrow> nat" where
  "pending_count r = length (tr_tasks r)"

definition registered_task_names :: "('h, 'p) task_runner \<Rightarrow> string list" where
  "registered_task_names r = sort (dict_keys (tr_handlers r))"

definition register :: "string \<Rightarrow> 'h \<Rightarrow> ('h, 'p) task_runner \<Rightarrow> ('h, 'p) task_runner result" where
  "register name h r =
     (if name = [] then Inl TaskSubmissionError
      else if map_of (tr_handlers r) name \<noteq> None then Inl TaskSubmissionError
      else Inr (r\<lparr>tr_handlers := dict_set name h (tr_handlers r)\<rparr>))"

definition submit :: "string \<Rightarrow> 'p \<Rightarrow> ('h, 'p) task_runner \<Rightarrow> ('h, 'p) task_runner result" where
  "submit name payload r =
     (case map_of (tr_handlers r) name of
        None \<Rightarrow> Inl TaskSubmissionError
      | Some h \<Rightarrow> Inr (r\<lparr>tr_tasks := tr_tasks r @ [(h, payload)]\<rparr>))"

text \<open>A task that raises is counted by its done callback, and nothing else notices.\<close>

definition finish_task ::
  "('h \<Rightarrow> 'p \<Rightarrow> metrics \<Rightarrow> 's \<Rightarrow> metrics \<times> 's \<times> 'a result) \<Rightarrow> 'h \<times> 'p \<Rightarrow> metrics \<times> 's \<Rightarrow> metrics \<times> 's" where
  "finish_task run task = (\<lambda>(ms, s).
     case run (fst task) (snd task) ms s of
       (ms', s', Inl e) \<Rightarrow> (record_task_failure ms', s')
     | (ms', s', Inr x) \<Rightarrow> (ms', s'))"

definition drain ::
  "('h \<Rightarrow> 'p \<Rightarrow> metrics \<Rightarrow> 's \<Rightarrow> metrics \<times> 's \<times> 'a result) \<Rightarrow> ('h, 'p) task_runner \<Rightarrow> metrics \<times> 's \<Rightarrow>
     ('h, 'p) task_runner \<times> metrics \<times> 's" where
  "drain run r w = (r\<lparr>tr_tasks := []\<rparr>, fold (finish_task run) (tr_tasks r) w)"

section \<open>Facts\<close>

lemma submit_Inr:
  "submit name payload r = Inr r' \<longleftrightarrow>
     (\<exists>h. map_of (tr_handlers r) name = Some h \<and> r' = r\<lparr>tr_tasks := tr_tasks r @ [(h, payload)]\<rparr>)"
  by (auto simp: submit_def split: option.split)

lemma submit_Inl: "submit name payload r = Inl e \<longleftrightarrow> map_of (tr_handlers r) name = None \<and> e = TaskSubmissionError"
  by (auto simp: submit_def split: option.split)

lemma drain_invariant:
  assumes "P s" "\<And>h p ms s ms' s' x. P s \<Longrightarrow> run h p ms s = (ms', s', x) \<Longrightarrow> P s'"
  shows "P (snd (snd (drain run r (ms, s))))"
proof -
  have "P (snd (fold (finish_task run) ts w))" if "P (snd w)" for ts w
    using that
  proof (induction ts arbitrary: w)
    case (Cons t ts)
    obtain ms s where w: "w = (ms, s)" by (cases w)
    obtain ms' s' x where r: "run (fst t) (snd t) ms s = (ms', s', x)" by (cases "run (fst t) (snd t) ms s")
    have "P s'" using assms(2) [OF _ r] Cons.prems by (simp add: w)
    then have "P (snd (finish_task run t w))" by (cases x) (simp_all add: finish_task_def w r)
    then show ?case using Cons.IH by simp
  qed simp
  from this [of "(ms, s)"] show ?thesis using assms(1) by (simp add: drain_def)
qed

end
