(* ===== verification/Notify.thy ===== *)
theory Notify
  imports Tasks Plugins Cursor System
begin

text \<open>
  \<open>app/processing/notification_dispatcher.py\<close> and the envelope of \<open>app/plugins/interfaces.py\<close>:
  the handler of the task \<open>notify\<close>.  Sending is a parameter that tells whether the plugin
  returned; so are whether the database accepts a commit, and \<open>others\<close>, what the transactions
  that commit between two sessions of one task do to the table.
\<close>

section \<open>Task payloads\<close>

record task_payload =
  tp_incident_id :: uuid
  tp_plugin_name :: string
  tp_config_hash :: "string option"

definition payload_keys :: "string list" where
  "payload_keys = [''incident_id'', ''plugin_name'', ''config_hash'']"

definition optional_hash :: "json option \<Rightarrow> string option result" where
  "optional_hash v =
     (case v of
        None \<Rightarrow> Inr None
      | Some JNull \<Rightarrow> Inr None
      | Some (JStr h) \<Rightarrow> if length h \<le> 128 then Inr (Some h) else Inl ValidationError
      | _ \<Rightarrow> Inl ValidationError)"

text \<open>\<open>NotificationTaskPayload.model_validate\<close>.\<close>

definition validate_task_payload :: "(string, json) dict \<Rightarrow> task_payload result" where
  "validate_task_payload d =
     (if \<not> list_all (\<lambda>k. k \<in> set payload_keys) (dict_keys d) then Inl ValidationError
      else case (map_of d ''incident_id'', map_of d ''plugin_name'') of
          (Some (JStr i), Some (JStr n)) \<Rightarrow>
            (case uuid_of_string i of
               None \<Rightarrow> Inl ValidationError
             | Some u \<Rightarrow>
                 rbind (rguard (bounded_string n) ValidationError) (\<lambda>_.
                 rbind (optional_hash (map_of d ''config_hash'')) (\<lambda>h.
                 Inr \<lparr>tp_incident_id = u, tp_plugin_name = n, tp_config_hash = h\<rparr>)))
        | _ \<Rightarrow> Inl ValidationError)"

section \<open>Envelopes\<close>

record envelope =
  ne_incident_id :: string
  ne_rule_name :: string
  ne_group_key :: string
  ne_severity :: severity
  ne_summary :: string
  ne_affected_hosts :: "string list"
  ne_affected_services :: "string list"

definition envelope_ok :: "envelope \<Rightarrow> bool" where
  "envelope_ok e \<longleftrightarrow>
     bounded_string (ne_incident_id e) \<and> bounded_string (ne_rule_name e) \<and>
     bounded_string (ne_group_key e) \<and> bounded_string (ne_summary e) \<and>
     list_all bounded_string (ne_affected_hosts e) \<and> length (ne_affected_hosts e) \<le> 100 \<and>
     list_all bounded_string (ne_affected_services e) \<and> length (ne_affected_services e) \<le> 100"

definition envelope_from_incident :: "incident \<Rightarrow> envelope result" where
  "envelope_from_incident r =
     rbind (severity_of (inc_severity r)) (\<lambda>sev.
     let e = \<lparr>ne_incident_id = uuid_str (inc_id r), ne_rule_name = inc_rule_name r,
              ne_group_key = inc_group_key r, ne_severity = sev, ne_summary = inc_summary r,
              ne_affected_hosts = inc_affected_hosts r, ne_affected_services = inc_affected_services r\<rparr>
     in if envelope_ok e then Inr e else Inl ValidationError)"

section \<open>The dispatcher\<close>

definition dispatch_result :: "bool \<Rightarrow> notification_category \<Rightarrow> string \<Rightarrow> notification_result" where
  "dispatch_result ok cat message = \<lparr>nr_success = ok, nr_category = cat, nr_message = take 256 message\<rparr>"

definition record_delivery :: "notification_result \<Rightarrow> metrics \<Rightarrow> metrics" where
  "record_delivery res = record_notification_delivery (nr_success res) (nr_category res)"

definition record_if_incident_exists ::
  "bool \<Rightarrow> int \<Rightarrow> task_payload \<Rightarrow> notification_result \<Rightarrow> incident_table \<Rightarrow> incident_table \<times> notification_result result" where
  "record_if_incident_exists commit_ok now p res t =
     (case record_notification_result now (tp_incident_id p) (tp_plugin_name p) res t of
        Inl e \<Rightarrow> (t, Inl e)
      | Inr (t', found) \<Rightarrow> if commit_ok then (t', Inr res) else (t, Inl DatabaseError))"

text \<open>The end of every branch with a task: count the result, store it, return it.\<close>

definition conclude ::
  "(incident_table \<Rightarrow> incident_table) \<Rightarrow> bool \<Rightarrow> int \<Rightarrow> task_payload \<Rightarrow> notification_result \<Rightarrow> metrics \<Rightarrow> incident_table \<Rightarrow>
     metrics \<times> incident_table \<times> notification_result result" where
  "conclude others commit_ok now p res ms t =
     (record_delivery res ms, record_if_incident_exists commit_ok now p res (others t))"

definition load_incident :: "uuid \<Rightarrow> incident_table \<Rightarrow> incident option" where
  "load_incident ident t =
     (case select_where (\<lambda>r. inc_id r = ident) t of [] \<Rightarrow> None | r # _ \<Rightarrow> Some r)"

record ('c, 'p) dispatcher =
  dp_env :: "('c, 'p) plugin_env"
  dp_registry :: "'p registry"
  dp_send :: "'p \<Rightarrow> envelope \<Rightarrow> bool"

definition process_notification ::
  "('c, 'p) dispatcher \<Rightarrow> (incident_table \<Rightarrow> incident_table) \<Rightarrow> bool \<Rightarrow> int \<Rightarrow> (string, json) dict \<Rightarrow> metrics \<Rightarrow> incident_table \<Rightarrow>
     metrics \<times> incident_table \<times> notification_result result" where
  "process_notification d others commit_ok now payload ms t =
     (case validate_task_payload payload of
        Inl _ \<Rightarrow>
          (let res = dispatch_result False Dispatch_failed ''invalid notification task payload''
           in (record_delivery res ms, t, Inr res))
      | Inr p \<Rightarrow>
          if tp_config_hash p \<noteq> None \<and> tp_config_hash p \<noteq> Some (rg_config_hash (dp_registry d))
          then conclude others commit_ok now p (dispatch_result False Dispatch_failed ''stale plugin configuration'') ms t
          else case get_plugin (dp_env d) (tp_plugin_name p) (dp_registry d) of
              Inl Unknown_plugin \<Rightarrow>
                conclude others commit_ok now p
                  (dispatch_result False Missing_plugin ''configured output plugin is missing'') ms t
            | Inl (Startup_failed err) \<Rightarrow> (ms, t, Inl ValueError)
            | Inr (_, plugin) \<Rightarrow>
                (case load_incident (tp_incident_id p) t of
                   None \<Rightarrow>
                     (let res = dispatch_result False Missing_incident ''incident is missing''
                      in (record_delivery res ms, t, Inr res))
                 | Some r \<Rightarrow>
                     (case envelope_from_incident r of
                        Inl e \<Rightarrow> (ms, t, Inl e)
                      | Inr env \<Rightarrow>
                          conclude others commit_ok now p
                            (if dp_send d plugin env
                             then dispatch_result True Dispatched ''notification dispatched''
                             else dispatch_result False Plugin_exception ''notification plugin failed'') ms t)))"

section \<open>Facts\<close>

text \<open>The conditions under which the plugin is asked to send.\<close>

definition delivery_attempt ::
  "('c, 'p) dispatcher \<Rightarrow> (string, json) dict \<Rightarrow> incident_table \<Rightarrow> 'p \<Rightarrow> envelope \<Rightarrow> bool" where
  "delivery_attempt d payload t plugin env \<longleftrightarrow>
     (\<exists>p r g. validate_task_payload payload = Inr p \<and>
        tp_config_hash p \<in> {None, Some (rg_config_hash (dp_registry d))} \<and>
        get_plugin (dp_env d) (tp_plugin_name p) (dp_registry d) = Inr (g, plugin) \<and>
        load_incident (tp_incident_id p) t = Some r \<and> envelope_from_incident r = Inr env)"

lemma dispatch_result_simps [simp]:
  "nr_success (dispatch_result b c m) = b" "nr_category (dispatch_result b c m) = c"
  by (simp_all add: dispatch_result_def)

lemma load_incident_Some:
  assumes "load_incident i t = Some r"
  shows "r \<in> set t" "inc_id r = i"
proof -
  have "r \<in> set (filter (\<lambda>r. inc_id r = i) t)"
    using assms by (cases "filter (\<lambda>r. inc_id r = i) t") (simp_all add: load_incident_def select_where_def)
  then show "r \<in> set t" "inc_id r = i" by simp_all
qed

lemma concludeD:
  assumes "conclude others ok now p res ms t = (ms', t', Inr res')"
  shows "res' = res \<and> ms' = record_delivery res' ms \<and>
    (\<exists>b. record_notification_result now (tp_incident_id p) (tp_plugin_name p) res' (others t) = Inr (t', b))"
  using assms
  by (auto simp: conclude_def record_if_incident_exists_def split: sum.splits prod.splits if_splits)

text \<open>The four ways in which a task can end normally.\<close>

lemma process_notification_cases:
  assumes "process_notification d others ok now payload ms t = (ms', t', Inr res)"
  obtains (unrecorded) "ms' = record_delivery res ms" "t' = t" "\<not> nr_success res" "nr_category res \<noteq> Dispatched"
      "\<And>plugin env. \<not> delivery_attempt d payload t plugin env"
    | (refused) p b where "validate_task_payload payload = Inr p" "ms' = record_delivery res ms"
      "record_notification_result now (tp_incident_id p) (tp_plugin_name p) res (others t) = Inr (t', b)"
      "\<not> nr_success res" "nr_category res \<noteq> Dispatched" "\<And>plugin env. \<not> delivery_attempt d payload t plugin env"
    | (attempted) p b plugin env where "validate_task_payload payload = Inr p" "ms' = record_delivery res ms"
      "record_notification_result now (tp_incident_id p) (tp_plugin_name p) res (others t) = Inr (t', b)"
      "delivery_attempt d payload t plugin env"
      "\<And>plugin' env'. delivery_attempt d payload t plugin' env' \<Longrightarrow> plugin' = plugin \<and> env' = env"
      "nr_success res = dp_send d plugin env" "nr_category res = Dispatched \<longleftrightarrow> dp_send d plugin env"
proof (cases "validate_task_payload payload")
  case (Inl e)
  with assms show thesis
    by (intro unrecorded) (auto simp: process_notification_def delivery_attempt_def Let_def)
next
  case (Inr p)
  note p = Inr
  show thesis
  proof (cases "tp_config_hash p \<in> {None, Some (rg_config_hash (dp_registry d))}")
    case False
    with assms p have c: "conclude others ok now p (dispatch_result False Dispatch_failed ''stale plugin configuration'') ms t
        = (ms', t', Inr res)"
      by (simp add: process_notification_def)
    from False p show thesis
      using concludeD [OF c] by (elim conjE exE) (rule refused [OF p], auto simp: delivery_attempt_def)
  next
    case True
    show thesis
    proof (cases "get_plugin (dp_env d) (tp_plugin_name p) (dp_registry d)")
      case (Inl err)
      show thesis
      proof (cases err)
        case Unknown_plugin
        with assms p True Inl
        have c: "conclude others ok now p (dispatch_result False Missing_plugin ''configured output plugin is missing'') ms t
            = (ms', t', Inr res)"
          by (auto simp: process_notification_def)
        from Inl p show thesis
          using concludeD [OF c] by (elim conjE exE) (rule refused [OF p], auto simp: delivery_attempt_def)
      next
        case Startup_failed
        with assms p True Inl show thesis by (auto simp: process_notification_def)
      qed
    next
      case (Inr gp)
      obtain g plugin where gp: "gp = (g, plugin)" by (cases gp)
      show thesis
      proof (cases "load_incident (tp_incident_id p) t")
        case None
        with assms p True Inr gp show thesis
          by (intro unrecorded) (auto simp: process_notification_def delivery_attempt_def Let_def)
      next
        case (Some r)
        show thesis
        proof (cases "envelope_from_incident r")
          case (Inl e)
          with assms p True Inr gp Some show thesis by (auto simp: process_notification_def)
        next
          case env: (Inr env)
          let ?res = "if dp_send d plugin env then dispatch_result True Dispatched ''notification dispatched''
             else dispatch_result False Plugin_exception ''notification plugin failed''"
          have c: "conclude others ok now p ?res ms t = (ms', t', Inr res)"
            using assms p True Inr gp Some env by (auto simp: process_notification_def)
          have "delivery_attempt d payload t plugin env"
            using p True Inr gp Some env by (auto simp: delivery_attempt_def)
          note attempt = this
          have unique: "plugin' = plugin \<and> env' = env" if "delivery_attempt d payload t plugin' env'" for plugin' env'
            using that p Inr gp Some env by (auto simp: delivery_attempt_def)
          from concludeD [OF c] obtain b where b: "res = ?res" "ms' = record_delivery res ms"
            "record_notification_result now (tp_incident_id p) (tp_plugin_name p) res (others t) = Inr (t', b)"
            by (elim conjE exE) (rule that)
          show thesis
            by (rule attempted [OF p b(2,3) attempt unique]) (simp_all add: b(1))
        qed
      qed
    qed
  qed
qed

lemma process_notification_success:
  assumes "process_notification d others ok now payload ms t = (ms', t', Inr res)"
  shows "nr_success res \<longleftrightarrow> (\<exists>plugin env. delivery_attempt d payload t plugin env \<and> dp_send d plugin env)"
  using assms by (cases rule: process_notification_cases) blast+

text \<open>
  C27: a notification task is counted exactly once, under the result it returns; it reports
  success exactly when its payload is valid, its configuration is current, the plugin is
  configured, the incident exists and the plugin returned from sending that incident's envelope;
  and the table it leaves is the one it found or the one with this result recorded.
\<close>

theorem process_notification_spec:
  assumes "process_notification d others ok now payload ms t = (ms', t', Inr res)"
  shows "ms' = record_delivery res ms \<and>
    (nr_success res \<longleftrightarrow> nr_category res = Dispatched) \<and>
    (nr_success res \<longleftrightarrow> (\<exists>plugin env. delivery_attempt d payload t plugin env \<and> dp_send d plugin env)) \<and>
    (t' = t \<or> (\<exists>p b. validate_task_payload payload = Inr p \<and>
       record_notification_result now (tp_incident_id p) (tp_plugin_name p) res (others t) = Inr (t', b)))"
  using assms
proof (cases rule: process_notification_cases)
  case unrecorded
  then show ?thesis by simp
next
  case (refused p b)
  then show ?thesis by auto
next
  case (attempted p b plugin env)
  have "nr_success res \<longleftrightarrow> (\<exists>plugin env. delivery_attempt d payload t plugin env \<and> dp_send d plugin env)"
    by (rule process_notification_success [OF assms])
  moreover have "\<exists>p b. validate_task_payload payload = Inr p \<and>
       record_notification_result now (tp_incident_id p) (tp_plugin_name p) res (others t) = Inr (t', b)"
    using attempted(1,3) by (intro exI conjI)
  ultimately show ?thesis using attempted(2,6,7) by simp
qed

end
