(* ===== verification/Ingress.thy ===== *)
theory Ingress
  imports Icinga2 Topology AuditStore Notify
begin

text \<open>
  \<open>app/processing/ingress.py\<close>: the processing of one webhook.  An accepted event is
  normalised, enriched and matched, then one transaction applies it to the incident table and
  inserts its audit row; notifications are submitted after the commit.

  SHA-256, the keyed hash, the parsing of addresses and the serialisation of timestamps are
  the fields of \<open>externals\<close>; the answers of the database to one request (timestamps, row ids,
  whether a commit is accepted) are the fields of \<open>request\<close>.
\<close>

section \<open>Configuration, request and state\<close>

record externals =
  x_sha256 :: "bytes \<Rightarrow> string"
  x_hmac :: "string \<Rightarrow> bytes \<Rightarrow> string"
  x_ip_address :: "string \<Rightarrow> ip_addr option"
  x_time_json :: "datetime \<Rightarrow> string"

record processor =
  pc_topology :: "(compiled_subnet_rule list \<times> compiled_hostname_rule list) option"
  pc_rules :: "compiled_rule list option"
  pc_has_database :: bool
  pc_plugin_names :: "string list"           \<comment> \<open>\<open>[]\<close> without a registry\<close>
  pc_config_hash :: "string option"
  pc_max_bytes :: int
  pc_hmac_key :: string

record request =
  rq_now :: int
  rq_incident_id :: uuid
  rq_audit_id :: uuid
  rq_commit_ok :: bool
  rq_result_now :: "string \<Rightarrow> int"
  rq_result_commit_ok :: "string \<Rightarrow> bool"

record 'h world =
  w_incidents :: incident_table
  w_audit :: audit_table
  w_metrics :: metrics
  w_runner :: "('h, (string, json) dict) task_runner option"

section \<open>Audit summaries\<close>

definition audit_incident_ids_cap :: nat where
  "audit_incident_ids_cap = 20"

definition incident_ids_for_audit :: "uuid list \<Rightarrow> string list \<times> bool" where
  "incident_ids_for_audit ids =
     (map uuid_str (take audit_incident_ids_cap ids), audit_incident_ids_cap < length ids)"

definition problem_incident_effect :: "aggregation_result \<Rightarrow> audit_effect" where
  "problem_incident_effect r = (case ar_effect r of Inserted \<Rightarrow> Effect_inserted | Updated \<Rightarrow> Effect_updated)"

definition recovery_incident_effect :: "lifecycle_result \<Rightarrow> audit_effect" where
  "recovery_incident_effect r =
     (if lr_effect r = Resolved_effect then Effect_resolved
      else if lr_effect r = Affected_set_shrunk then Effect_shrunk else Effect_none)"

definition recovery_resolution_for_audit :: "lifecycle_result \<Rightarrow> recovery_resolution" where
  "recovery_resolution_for_audit r =
     (if lr_effect r = Resolved_effect then Resolution_resolved
      else if lr_effect r = Affected_set_shrunk then Resolution_shrunk else Resolution_noop)"

definition build_problem_audit_summary :: "aggregation_result \<Rightarrow> rule_match \<Rightarrow> audit_summary result" where
  "build_problem_audit_summary r m =
     (let (ids, truncated) = incident_ids_for_audit [ar_incident_id r]
      in audit_summary_validate
        \<lparr>as_decision_kind = Kind_problem, as_incident_effect = problem_incident_effect r,
         as_rule_name = Some (rm_rule_name m), as_group_key = Some (rm_group_key m), as_incident_ids = ids,
         as_affected_incident_count = 1, as_incident_ids_truncated = truncated, as_decision_reason = None,
         as_no_dispatch_reason = map_option no_dispatch_reason_value (ar_no_dispatch_reason r),
         as_dispatch_planned = ar_dispatch_planned r,
         as_counted_count = Some (td_counted (ar_threshold_decision r)),
         as_threshold_count = Some (td_threshold (ar_threshold_decision r)),
         as_threshold_crossed = Some (ar_threshold_crossed r), as_replay = Some (ar_replay r),
         as_first_threshold_transition = Some (ar_first_threshold_transition r),
         as_recovery_resolution = None, as_affected_object_removed = None\<rparr>)"

definition build_recovery_audit_summary :: "lifecycle_result \<Rightarrow> audit_summary result" where
  "build_recovery_audit_summary r =
     (let (ids, truncated) = incident_ids_for_audit (lr_incident_ids r)
      in audit_summary_validate
        \<lparr>as_decision_kind = Kind_recovery, as_incident_effect = recovery_incident_effect r,
         as_rule_name = None, as_group_key = None, as_incident_ids = ids,
         as_affected_incident_count = int (length (lr_incident_ids r)), as_incident_ids_truncated = truncated,
         as_decision_reason = Some ''source_recovery'', as_no_dispatch_reason = None,
         as_dispatch_planned = False, as_counted_count = None, as_threshold_count = None,
         as_threshold_crossed = None, as_replay = None, as_first_threshold_transition = None,
         as_recovery_resolution = Some (recovery_resolution_for_audit r),
         as_affected_object_removed = Some (lr_affected_object_removed r)\<rparr>)"

definition noop_audit_reason :: "string option \<Rightarrow> string option" where
  "noop_audit_reason reason =
     (case reason of
        None \<Rightarrow> None
      | Some s \<Rightarrow> if prefix ''missing required group-by field: '' s
                 then Some ''missing_required_group_by_field'' else Some s)"

definition build_noop_audit_summary :: "string option \<Rightarrow> string list \<Rightarrow> audit_summary result" where
  "build_noop_audit_summary reason matched_rules =
     (let audit_reason = noop_audit_reason reason
      in audit_summary_validate
        \<lparr>as_decision_kind = Kind_noop, as_incident_effect = Effect_none, as_rule_name = None,
         as_group_key = None, as_incident_ids = [], as_affected_incident_count = 0,
         as_incident_ids_truncated = False,
         as_decision_reason = or_else audit_reason (Some ''no matching rule''),
         as_no_dispatch_reason =
           (if matched_rules = [] then or_else audit_reason (Some ''no_matching_rule'') else None),
         as_dispatch_planned = False, as_counted_count = None, as_threshold_count = None,
         as_threshold_crossed = None, as_replay = None, as_first_threshold_transition = None,
         as_recovery_resolution = None, as_affected_object_removed = None\<rparr>)"

definition build_audit_summary ::
  "rule_match option \<Rightarrow> string list \<Rightarrow> aggregation_result option \<Rightarrow> lifecycle_result option \<Rightarrow> string option \<Rightarrow>
     audit_summary result" where
  "build_audit_summary m matched_rules r lr noop_reason =
     (case lr of
        Some l \<Rightarrow> build_recovery_audit_summary l
      | None \<Rightarrow>
          (case r of
             Some a \<Rightarrow> (case m of None \<Rightarrow> Inl AssertionError | Some d \<Rightarrow> build_problem_audit_summary a d)
           | None \<Rightarrow> build_noop_audit_summary noop_reason matched_rules))"

section \<open>Documents\<close>

definition opt_json :: "string option \<Rightarrow> json" where
  "opt_json x = (case x of None \<Rightarrow> JNull | Some s \<Rightarrow> JStr s)"

text \<open>\<open>event.model_dump(mode="json")\<close> and \<open>payload.model_dump(mode="json")\<close>.\<close>

definition event_json :: "(datetime \<Rightarrow> string) \<Rightarrow> normalized_event \<Rightarrow> json_dict" where
  "event_json time_json e =
     [(''fingerprint'', JStr (ev_fingerprint e)), (''source_id'', JStr (ev_source_id e)),
      (''host'', JStr (ev_host e)), (''service'', opt_json (ev_service e)),
      (''severity'', JStr (severity_value (ev_severity e))),
      (''event_type'', JStr (event_type_value (ev_event_type e))),
      (''timestamp'', JStr (time_json (ev_timestamp e))), (''tags'', tags_json (ev_tags e)),
      (''message'', JStr (ev_message e)), (''ip_address'', opt_json (ev_ip_address e))]"

definition payload_json :: "(datetime \<Rightarrow> string) \<Rightarrow> icinga_payload \<Rightarrow> json_dict" where
  "payload_json time_json p =
     [(''source_id'', JStr (pl_source_id p)), (''host'', JStr (pl_host p)),
      (''service'', opt_json (pl_service p)), (''state'', JStr (pl_state p)),
      (''state_type'', JStr (if pl_state_type p = Hard then ''HARD'' else ''SOFT'')),
      (''timestamp'', JStr (time_json (pl_timestamp p))), (''check_output'', JStr (pl_check_output p)),
      (''ip_address'', opt_json (pl_ip_address p)), (''tags'', tags_json (pl_tags p))]"

section \<open>Before the transaction\<close>

definition enrich_event ::
  "externals \<Rightarrow> processor \<Rightarrow> normalized_event \<Rightarrow> (normalized_event \<times> enrichment_diagnostic list) result" where
  "enrich_event x pc e =
     (case pc_topology pc of
        None \<Rightarrow> Inr (e, [])
      | Some (subnets, hostnames) \<Rightarrow>
          rbind (enrich (x_ip_address x) subnets hostnames e) (\<lambda>r. Inr (er_event r, er_diagnostics r)))"

definition decide :: "processor \<Rightarrow> normalized_event \<Rightarrow> engine_decision result" where
  "decide pc e =
     (case pc_rules pc of
        None \<Rightarrow> Inr (NoOp ''no rule engine configured'')
      | Some rules \<Rightarrow> evaluate rules e)"

definition prepare ::
  "externals \<Rightarrow> processor \<Rightarrow> normalized_event \<Rightarrow>
     (normalized_event \<times> enrichment_diagnostic list \<times> engine_decision) result" where
  "prepare x pc e =
     rbind (rguard (pc_has_database pc) RuntimeError) (\<lambda>_.
     rbind (enrich_event x pc e) (\<lambda>(e', diagnostics).
     rbind (validate_event_tags (ev_tags e')) (\<lambda>_.
     rbind (decide pc e') (\<lambda>decision. Inr (e', diagnostics, decision)))))"

definition matched :: "engine_decision \<Rightarrow> rule_match option" where
  "matched d = (case d of Match m \<Rightarrow> Some m | NoOp _ \<Rightarrow> None)"

definition matched_rules_of :: "engine_decision \<Rightarrow> string list" where
  "matched_rules_of d = (case d of Match m \<Rightarrow> rm_matched_rules m | NoOp _ \<Rightarrow> [])"

definition noop_reason_of :: "engine_decision \<Rightarrow> string option" where
  "noop_reason_of d = (case d of Match _ \<Rightarrow> None | NoOp s \<Rightarrow> Some s)"

section \<open>The transaction\<close>

record rule_decision =
  de_rule_name :: string
  de_priority :: int
  de_matched_rules :: "string list"
  de_group_key :: string
  de_threshold_decision :: threshold_decision
  de_summary :: string
  de_actions :: "string list"

datatype decided = Decided rule_decision | Undecided string

definition rule_decision_validate :: "rule_decision \<Rightarrow> rule_decision result" where
  "rule_decision_validate d =
     (if bounded_string (de_rule_name d) \<and> list_all bounded_string (de_matched_rules d) \<and>
         bounded_string (de_group_key d) \<and> bounded_string (de_summary d) \<and>
         list_all bounded_string (de_actions d)
      then Inr d else Inl ValidationError)"

type_synonym managed = "aggregation_result option \<times> lifecycle_result option"

definition run_managers ::
  "request \<Rightarrow> string option \<Rightarrow> normalized_event \<Rightarrow> rule_match option \<Rightarrow> metrics \<Rightarrow> incident_table \<Rightarrow> managed service" where
  "run_managers q config_hash e m ms t =
     (if ev_event_type e = PROBLEM \<and> m \<noteq> None then
        (case apply_problem (rq_now q) (rq_incident_id q) config_hash e (the m) ms t of
           (ms', Inl err) \<Rightarrow> (ms', Inl err)
         | (ms', Inr (t', r)) \<Rightarrow> (ms', Inr (t', (Some r, None))))
      else if ev_event_type e = RECOVERY then
        (case resolve_for_event (rq_now q) e ms t of
           (ms', Inl err) \<Rightarrow> (ms', Inl err)
         | (ms', Inr (t', lr)) \<Rightarrow> (ms', Inr (t', (None, Some lr))))
      else (ms, Inr (t, (None, None))))"

definition decided_of :: "engine_decision \<Rightarrow> aggregation_result option \<Rightarrow> decided option result" where
  "decided_of d r =
     (case (r, d) of
        (Some a, Match m) \<Rightarrow>
          rbind (rule_decision_validate
            \<lparr>de_rule_name = rm_rule_name m, de_priority = rm_priority m, de_matched_rules = rm_matched_rules m,
             de_group_key = rm_group_key m, de_threshold_decision = ar_threshold_decision a,
             de_summary = rm_summary m, de_actions = rm_actions m\<rparr>) (\<lambda>x. Inr (Some (Decided x)))
      | (Some a, NoOp _) \<Rightarrow> Inl AssertionError
      | (None, Match m) \<Rightarrow> Inr None
      | (None, NoOp s) \<Rightarrow> Inr (Some (Undecided s)))"

definition audit_row ::
  "externals \<Rightarrow> normalized_event \<Rightarrow> lifecycle_result option \<Rightarrow> audit_summary \<Rightarrow> redacted_payload \<Rightarrow> audit_event" where
  "audit_row x e lr summary redacted =
     \<lparr>ae_id = 0, ae_accepted_at = 0, ae_event_timestamp = instant (ev_timestamp e),
      ae_source_id = ev_source_id e, ae_fingerprint = ev_fingerprint e,
      ae_event_type = event_type_value (ev_event_type e), ae_severity = severity_value (ev_severity e),
      ae_host = ev_host e, ae_service = ev_service e,
      ae_incident_ids =
        (case lr of Some l \<Rightarrow> map uuid_str (lr_incident_ids l) | None \<Rightarrow> as_incident_ids summary),
      ae_incident_effect = as_incident_effect summary, ae_decision_summary = summary,
      ae_normalized_event = event_json (x_time_json x) e, ae_raw_payload = rp_payload redacted,
      ae_original_byte_length = rp_original_byte_length redacted,
      ae_stored_byte_length = rp_stored_byte_length redacted, ae_truncated = rp_truncated redacted,
      ae_redaction_version = rp_redaction_version redacted,
      ae_redacted_path_count = rp_redacted_path_count redacted, ae_payload_hmac = rp_payload_hmac redacted\<rparr>"

text \<open>Insertion with the metric for its failure, then the commit with its own.\<close>

definition insert_and_commit ::
  "request \<Rightarrow> audit_event \<Rightarrow> metrics \<Rightarrow> audit_table \<Rightarrow> metrics \<times> (audit_table \<times> audit_event) result" where
  "insert_and_commit q row ms a =
     (case insert_incident_event (rq_now q) (rq_audit_id q) row a of
        Inl err \<Rightarrow> (record_audit_write False ms, Inl err)
      | Inr (a', row') \<Rightarrow>
          if rq_commit_ok q then (record_audit_write True ms, Inr (a', row'))
          else (record_audit_write False ms, Inl DatabaseError))"

record committed =
  cm_aggregation :: "aggregation_result option"
  cm_lifecycle :: "lifecycle_result option"
  cm_decided :: "decided option"
  cm_row :: audit_event

definition ingress_transaction ::
  "externals \<Rightarrow> processor \<Rightarrow> request \<Rightarrow> icinga_payload \<Rightarrow> normalized_event \<Rightarrow> engine_decision \<Rightarrow> metrics \<Rightarrow>
     incident_table \<Rightarrow> audit_table \<Rightarrow> metrics \<times> (incident_table \<times> audit_table \<times> committed) result" where
  "ingress_transaction x pc q p e d ms t a =
     (case run_managers q (pc_config_hash pc) e (matched d) ms t of
        (ms1, Inl err) \<Rightarrow> (ms1, Inl err)
      | (ms1, Inr (t', r, lr)) \<Rightarrow>
          (case rbind (decided_of d r) (\<lambda>decided.
                rbind (build_audit_summary (matched d) (matched_rules_of d) r lr (noop_reason_of d)) (\<lambda>summary.
                rbind (redact_payload (x_hmac x) (Some (payload_json (x_time_json x) p)) (pc_max_bytes pc)
                         (pc_hmac_key pc)) (\<lambda>redacted. Inr (decided, audit_row x e lr summary redacted)))) of
             Inl err \<Rightarrow> (ms1, Inl err)
           | Inr (decided, row) \<Rightarrow>
               (case insert_and_commit q row ms1 a of
                  (ms2, Inl err) \<Rightarrow> (ms2, Inl err)
                | (ms2, Inr (a', row')) \<Rightarrow>
                    (ms2, Inr (t', a', \<lparr>cm_aggregation = r, cm_lifecycle = lr, cm_decided = decided, cm_row = row'\<rparr>)))))"

end
