(* ===== verification/Processor.thy ===== *)
theory Processor
  imports Ingress
begin

text \<open>
  The rest of \<open>app/processing/ingress.py\<close>: the submission of notifications after the commit,
  the decision envelope, the whole of \<open>process_payload\<close>, and the status codes of the route
  (\<open>app/api/routers/ingress.py\<close>).
\<close>

section \<open>Notifications\<close>

definition notify_payload :: "uuid \<Rightarrow> string \<Rightarrow> string option \<Rightarrow> (string, json) dict" where
  "notify_payload ident plugin config_hash =
     [(''incident_id'', JStr (uuid_str ident)), (''plugin_name'', JStr plugin), (''config_hash'', opt_json config_hash)]"

definition persist_terminal_result ::
  "request \<Rightarrow> uuid \<Rightarrow> string \<Rightarrow> notification_result \<Rightarrow> 'h world \<Rightarrow> 'h world \<times> unit result" where
  "persist_terminal_result q ident plugin res w =
     (case record_notification_result (rq_result_now q plugin) ident plugin res (w_incidents w) of
        Inl err \<Rightarrow> (w, Inl err)
      | Inr (t', found) \<Rightarrow>
          if rq_result_commit_ok q plugin then (w\<lparr>w_incidents := t'\<rparr>, Inr ()) else (w, Inl DatabaseError))"

definition count_submission :: "submission_outcome \<Rightarrow> 'h world \<Rightarrow> 'h world" where
  "count_submission s w = w\<lparr>w_metrics := record_notification_submission s (w_metrics w)\<rparr>"

text \<open>A submission that fails is counted, stored on the incident and reported.\<close>

definition terminal ::
  "request \<Rightarrow> uuid \<Rightarrow> string \<Rightarrow> submission_outcome \<Rightarrow> notification_result \<Rightarrow> 'h world \<Rightarrow>
     'h world \<times> notification_result result" where
  "terminal q ident plugin s res w =
     (case persist_terminal_result q ident plugin res (count_submission s w) of
        (w', Inl err) \<Rightarrow> (w', Inl err)
      | (w', Inr _) \<Rightarrow> (w', Inr res))"

definition submit_one ::
  "processor \<Rightarrow> request \<Rightarrow> uuid \<Rightarrow> string \<Rightarrow> 'h world \<Rightarrow> 'h world \<times> notification_result result" where
  "submit_one pc q ident plugin w =
     (case w_runner w of
        None \<Rightarrow>
          terminal q ident plugin Missing_runner
            (dispatch_result False Dispatch_failed ''notification task runner is unavailable'') w
      | Some runner \<Rightarrow>
          if plugin \<notin> set (pc_plugin_names pc) then
            terminal q ident plugin Missing_plugin_outcome
              (dispatch_result False Missing_plugin ''configured output plugin is missing'') w
          else (case submit ''notify'' (notify_payload ident plugin (pc_config_hash pc)) runner of
              Inl err \<Rightarrow>
                terminal q ident plugin Submit_failed
                  (dispatch_result False Dispatch_failed ''notification task submission failed'') w
            | Inr runner' \<Rightarrow>
                (count_submission Accepted (w\<lparr>w_runner := Some runner'\<rparr>),
                 Inr (dispatch_result True Dispatched ''notification task submitted''))))"

fun submit_loop ::
  "processor \<Rightarrow> request \<Rightarrow> uuid \<Rightarrow> string list \<Rightarrow> 'h world \<Rightarrow> 'h world \<times> notification_result list result" where
  "submit_loop pc q ident [] w = (w, Inr [])"
| "submit_loop pc q ident (plugin # plugins) w =
     (case submit_one pc q ident plugin w of
        (w', Inl err) \<Rightarrow> (w', Inl err)
      | (w', Inr res) \<Rightarrow>
          (case submit_loop pc q ident plugins w' of
             (w'', Inl err) \<Rightarrow> (w'', Inl err)
           | (w'', Inr rest) \<Rightarrow> (w'', Inr (res # rest))))"

definition submit_notifications ::
  "processor \<Rightarrow> request \<Rightarrow> uuid \<Rightarrow> rule_match option \<Rightarrow> 'h world \<Rightarrow> 'h world \<times> notification_result list result" where
  "submit_notifications pc q ident m w =
     (case m of
        None \<Rightarrow> (w, Inr [])
      | Some d \<Rightarrow> submit_loop pc q ident (sorted_set (rm_actions d)) w)"

section \<open>The decision envelope\<close>

record ingress_envelope =
  ie_state_accepted :: bool
  ie_fingerprint :: "string option"          \<comment> \<open>also \<open>event_id\<close>\<close>
  ie_source_id :: "string option"
  ie_host :: "string option"
  ie_service :: "string option"
  ie_event_type :: "string option"
  ie_severity :: "string option"
  ie_final_tags :: tags
  ie_diagnostics :: "enrichment_diagnostic list"
  ie_matched_rules :: "string list"
  ie_rule_decision :: "decided option"
  ie_group_key :: "string option"
  ie_threshold_decision :: "threshold_decision option"
  ie_incident_effects :: "int \<times> int"         \<comment> \<open>inserted and updated\<close>
  ie_closure_count :: int
  ie_lifecycle_outcome :: "lifecycle_outcome option"
  ie_recovery_resolution :: "recovery_resolution option"
  ie_affected_object_removed :: bool
  ie_incident_id :: "uuid option"
  ie_threshold_crossed :: bool
  ie_notification_triggered :: bool
  ie_notification_failed :: bool
  ie_no_dispatch_reason :: "string option"
  ie_notification_results :: "notification_result list"
  ie_notification_count :: int
  ie_rejection :: "icinga_rejection option"

definition notification_result_ok :: "notification_result \<Rightarrow> bool" where
  "notification_result_ok r \<longleftrightarrow> bounded_string (nr_message r)"

definition ingress_envelope_ok :: "ingress_envelope \<Rightarrow> bool" where
  "ingress_envelope_ok v \<longleftrightarrow>
     opt_bounded (ie_fingerprint v) \<and> opt_bounded (ie_source_id v) \<and> opt_bounded (ie_host v) \<and>
     opt_bounded (ie_service v) \<and> opt_bounded (ie_event_type v) \<and> opt_bounded (ie_severity v) \<and>
     list_all (\<lambda>(k, s). tag_key_pattern k \<and> 1 \<le> length s \<and> length s \<le> 256) (ie_final_tags v) \<and>
     list_all bounded_string (ie_matched_rules v) \<and> opt_bounded (ie_group_key v) \<and>
     0 \<le> fst (ie_incident_effects v) \<and> 0 \<le> snd (ie_incident_effects v) \<and> 0 \<le> ie_closure_count v \<and>
     opt_bounded (ie_no_dispatch_reason v) \<and> length (ie_notification_results v) \<le> 20 \<and>
     list_all notification_result_ok (ie_notification_results v) \<and> 0 \<le> ie_notification_count v"

definition ingress_envelope_validate :: "ingress_envelope \<Rightarrow> ingress_envelope result" where
  "ingress_envelope_validate v = (if ingress_envelope_ok v then Inr v else Inl ValidationError)"

definition rejection_envelope :: "icinga_rejection \<Rightarrow> ingress_envelope" where
  "rejection_envelope r =
     \<lparr>ie_state_accepted = False, ie_fingerprint = None, ie_source_id = Some (rj_source_id r),
      ie_host = Some (rj_host r), ie_service = rj_service r, ie_event_type = None, ie_severity = None,
      ie_final_tags = [], ie_diagnostics = [], ie_matched_rules = [], ie_rule_decision = None,
      ie_group_key = None, ie_threshold_decision = None, ie_incident_effects = (0, 0), ie_closure_count = 0,
      ie_lifecycle_outcome = None, ie_recovery_resolution = None, ie_affected_object_removed = False,
      ie_incident_id = None, ie_threshold_crossed = False, ie_notification_triggered = False,
      ie_notification_failed = False, ie_no_dispatch_reason = None, ie_notification_results = [],
      ie_notification_count = 0, ie_rejection = Some r\<rparr>"

definition incident_effects :: "aggregation_result option \<Rightarrow> int \<times> int" where
  "incident_effects r =
     (case r of None \<Rightarrow> (0, 0) | Some a \<Rightarrow> if ar_effect a = Inserted then (1, 0) else (0, 1))"

definition lifecycle_outcome_of :: "lifecycle_result option \<Rightarrow> lifecycle_outcome option result" where
  "lifecycle_outcome_of lr =
     (case lr of
        None \<Rightarrow> Inr None
      | Some l \<Rightarrow>
          rbind (lifecycle_outcome_validate
            \<lparr>lo_effect = lr_effect l, lo_reason = ''source_recovery'',
             lo_previous_host_count = lr_previous_host_count l,
             lo_previous_service_count = lr_previous_service_count l,
             lo_affected_object_removed = lr_affected_object_removed l, lo_notes = []\<rparr>) (\<lambda>x. Inr (Some x)))"

definition recovery_resolution_of :: "lifecycle_result option \<Rightarrow> recovery_resolution option" where
  "recovery_resolution_of lr =
     (case lr of
        None \<Rightarrow> None
      | Some l \<Rightarrow> (case lr_effect l of
            Noop \<Rightarrow> Some Resolution_noop
          | Affected_set_shrunk \<Rightarrow> Some Resolution_shrunk
          | Resolved_effect \<Rightarrow> Some Resolution_resolved
          | _ \<Rightarrow> None))"

definition threshold_decision_of_decided :: "decided option \<Rightarrow> threshold_decision option" where
  "threshold_decision_of_decided d =
     (case d of Some (Decided x) \<Rightarrow> Some (de_threshold_decision x) | _ \<Rightarrow> None)"

definition accepted_envelope ::
  "normalized_event \<Rightarrow> enrichment_diagnostic list \<Rightarrow> engine_decision \<Rightarrow> committed \<Rightarrow> notification_result list \<Rightarrow>
     ingress_envelope result" where
  "accepted_envelope e diagnostics d c results =
     rbind (lifecycle_outcome_of (cm_lifecycle c)) (\<lambda>outcome.
     let r = cm_aggregation c; lr = cm_lifecycle c;
         ok = int (length (filter nr_success results))
     in ingress_envelope_validate
       \<lparr>ie_state_accepted = True, ie_fingerprint = Some (ev_fingerprint e), ie_source_id = Some (ev_source_id e),
        ie_host = Some (ev_host e), ie_service = ev_service e,
        ie_event_type = Some (event_type_value (ev_event_type e)),
        ie_severity = Some (severity_value (ev_severity e)), ie_final_tags = ev_tags e,
        ie_diagnostics = diagnostics, ie_matched_rules = matched_rules_of d, ie_rule_decision = cm_decided c,
        ie_group_key = map_option rm_group_key (matched d),
        ie_threshold_decision = threshold_decision_of_decided (cm_decided c),
        ie_incident_effects = incident_effects r,
        ie_closure_count = (case lr of None \<Rightarrow> 0 | Some l \<Rightarrow> lr_resolved_count l),
        ie_lifecycle_outcome = outcome, ie_recovery_resolution = recovery_resolution_of lr,
        ie_affected_object_removed = (case lr of None \<Rightarrow> False | Some l \<Rightarrow> lr_affected_object_removed l),
        ie_incident_id =
          (case r of Some a \<Rightarrow> Some (ar_incident_id a)
           | None \<Rightarrow> (case lr of Some l \<Rightarrow> lr_incident_id l | None \<Rightarrow> None)),
        ie_threshold_crossed = (case r of None \<Rightarrow> False | Some a \<Rightarrow> ar_threshold_crossed a),
        ie_notification_triggered = list_ex nr_success results,
        ie_notification_failed = list_ex (\<lambda>x. \<not> nr_success x) results,
        ie_no_dispatch_reason =
          (case r of None \<Rightarrow> None | Some a \<Rightarrow> map_option no_dispatch_reason_value (ar_no_dispatch_reason a)),
        ie_notification_results = results, ie_notification_count = ok, ie_rejection = None\<rparr>)"

section \<open>The whole request\<close>

definition after_commit ::
  "processor \<Rightarrow> request \<Rightarrow> normalized_event \<Rightarrow> enrichment_diagnostic list \<Rightarrow> engine_decision \<Rightarrow> committed \<Rightarrow>
     'h world \<Rightarrow> 'h world \<times> ingress_envelope result" where
  "after_commit pc q e diagnostics d c w =
     (case (case cm_aggregation c of
              Some r \<Rightarrow>
                if ar_dispatch_planned r then submit_notifications pc q (ar_incident_id r) (matched d) w
                else (w, Inr [])
            | None \<Rightarrow> (w, Inr [])) of
        (w', Inl err) \<Rightarrow> (w', Inl err)
      | (w', Inr results) \<Rightarrow> (w', accepted_envelope e diagnostics d c results))"

definition process_event ::
  "externals \<Rightarrow> processor \<Rightarrow> request \<Rightarrow> icinga_payload \<Rightarrow> normalized_event \<Rightarrow> 'h world \<Rightarrow>
     'h world \<times> ingress_envelope result" where
  "process_event x pc q p event w =
     (let ms = record_event_accepted (ev_event_type event) (w_metrics w)
      in case prepare x pc event of
           Inl err \<Rightarrow> (w\<lparr>w_metrics := ms\<rparr>, Inl err)
         | Inr (e, diagnostics, d) \<Rightarrow>
             let ms' = fold (\<lambda>_. record_rule_matched) (matched_rules_of d) ms
             in case ingress_transaction x pc q p e d ms' (w_incidents w) (w_audit w) of
                  (ms'', Inl err) \<Rightarrow> (w\<lparr>w_metrics := ms''\<rparr>, Inl err)
                | (ms'', Inr (t', a', c)) \<Rightarrow>
                    after_commit pc q e diagnostics d c
                      (w\<lparr>w_incidents := t', w_audit := a', w_metrics := ms''\<rparr>))"

definition process_payload ::
  "externals \<Rightarrow> processor \<Rightarrow> request \<Rightarrow> icinga_payload \<Rightarrow> 'h world \<Rightarrow> 'h world \<times> ingress_envelope result" where
  "process_payload x pc q p w =
     (case icinga_process_payload (x_sha256 x) p of
        Inl err \<Rightarrow> (w, Inl err)
      | Inr (Rejection r) \<Rightarrow>
          (w\<lparr>w_metrics := record_event_rejected (w_metrics w)\<rparr>, ingress_envelope_validate (rejection_envelope r))
      | Inr (Event e) \<Rightarrow> process_event x pc q p e w)"

section \<open>The route\<close>

definition ingest_icinga2 ::
  "externals \<Rightarrow> processor \<Rightarrow> request \<Rightarrow> icinga_payload \<Rightarrow> 'h world \<Rightarrow> 'h world \<times> ingress_envelope response" where
  "ingest_icinga2 x pc q p w =
     (case process_payload x pc q p w of
        (w', Inr v) \<Rightarrow> (w', Response 200 v)
      | (w', Inl EventTagValidationError) \<Rightarrow> (w', Http_error 422)
      | (w', Inl err) \<Rightarrow> (w', Http_error 500))"

definition build_icinga2_processor ::
  "(compiled_subnet_rule list \<times> compiled_hostname_rule list) option \<Rightarrow> compiled_rule list option \<Rightarrow> bool \<Rightarrow>
     'p registry option \<Rightarrow> int \<Rightarrow> string \<Rightarrow> processor" where
  "build_icinga2_processor topology rules database registry max_bytes hmac_key =
     \<lparr>pc_topology = topology, pc_rules = rules, pc_has_database = database,
      pc_plugin_names = (case registry of None \<Rightarrow> [] | Some g \<Rightarrow> names g),
      pc_config_hash = map_option rg_config_hash registry,
      pc_max_bytes = max_bytes, pc_hmac_key = hmac_key\<rparr>"

end
