(* ===== verification/IngressFacts.thy ===== *)
theory IngressFacts
  imports Processor
begin

text \<open>
  Facts about one request: which incidents it can change, which rows and counters it adds, which
  tasks it leaves pending, and that every change of the incident table is a run of the step
  relation of the system.
\<close>

section \<open>Rows that are not written\<close>

definition untouched :: "uuid set \<Rightarrow> incident_table \<Rightarrow> incident_table \<Rightarrow> bool" where
  "untouched I t t' \<longleftrightarrow> filter (\<lambda>r. inc_id r \<notin> I) t' = filter (\<lambda>r. inc_id r \<notin> I) t"

lemma untouched_refl [simp]: "untouched I t t"
  by (simp add: untouched_def)

lemma untouched_trans: "untouched I t t1 \<Longrightarrow> untouched I t1 t2 \<Longrightarrow> untouched I t t2"
  by (simp add: untouched_def)

lemma untouched_mono:
  assumes "untouched I t t'" "I \<subseteq> J"
  shows "untouched J t t'"
proof -
  have "filter (\<lambda>r. inc_id r \<notin> J) s = filter (\<lambda>r. inc_id r \<notin> J) (filter (\<lambda>r. inc_id r \<notin> I) s)" for s
    using assms(2) by (auto intro: filter_cong)
  with assms(1) show ?thesis unfolding untouched_def by metis
qed

lemma untouched_append: "inc_id r \<in> I \<Longrightarrow> untouched I t (t @ [r])"
  by (simp add: untouched_def)

lemma untouched_map:
  assumes "\<And>r. r \<in> set t \<Longrightarrow> g r = r \<or> (inc_id r \<in> I \<and> inc_id (g r) = inc_id r)"
  shows "untouched I t (map g t)"
  using assms
proof (induction t)
  case (Cons r t)
  then have "untouched I t (map g t)" by simp
  with Cons.prems [of r] show ?case by (auto simp: untouched_def)
qed simp

lemma untouched_update:
  assumes "\<And>r. r \<in> set t \<Longrightarrow> P r \<Longrightarrow> inc_id r \<in> I \<and> inc_id (f r) = inc_id r"
  shows "untouched I t (update_where P f t)"
  unfolding update_where_def by (rule untouched_map) (use assms in auto)

lemma record_problem_untouched:
  assumes "record_problem_incident now new_id i t = Inr (t', wr)" "incidents_unique t"
  shows "untouched {inc_id (wr_incident wr)} t t'"
  using assms
proof (cases rule: record_problem_incident_cases)
  case (inserted w)
  then show ?thesis by (simp add: untouched_append)
next
  case (updated r w replay inside counted ctx)
  have "inc_id (problem_update now r i w counted ctx x) = inc_id x" for x by (simp add: problem_update_def)
  then show ?thesis unfolding updated(6,7) by (intro untouched_update) auto
qed

lemma apply_problem_untouched:
  assumes "apply_problem now new_id h e d ms t = (ms', Inr (t', r))" "incidents_unique t"
  shows "untouched {ar_incident_id r} t t'"
proof -
  from assms(1) obtain t1 wr td ctx where w: "write_problem now new_id h e d t = Inr (t1, wr, td)"
    and t': "t' = update_where (\<lambda>r. inc_id r = inc_id (wr_incident wr)) (\<lambda>r. r\<lparr>inc_decision_context := ctx\<rparr>) t1"
    and r: "ar_incident_id r = inc_id (wr_incident wr)"
    by (rule apply_problemD)
  from w obtain i where rp: "record_problem_incident now new_id i t = Inr (t1, wr)" by (rule write_problemD)
  have "untouched {inc_id (wr_incident wr)} t1 t'" unfolding t' by (rule untouched_update) simp
  with record_problem_untouched [OF rp assms(2)] show ?thesis unfolding r by (rule untouched_trans)
qed

lemma recovery_loop_untouched:
  assumes "rloop f xs t = Inr (t', ws)" "incidents_unique t" "row_loop f (recovery_step now P)"
    and "xs = select_where (\<lambda>r. inc_open r \<and> Q r) t"
  shows "untouched (set (map (\<lambda>w. inc_id (lw_incident w)) ws)) t t'"
proof -
  have xs: "distinct xs" "set xs \<subseteq> {r \<in> set t. inc_open r}"
    using distinct_candidates [OF assms(2)] by (auto simp: assms(4) select_where_def)
  obtain h out where h: "\<forall>x \<in> set xs. recovery_step now P x (h x) (out x)"
    "t' = map (\<lambda>r. if r \<in> set xs then h r else r) t" "ws = List.map_filter out xs"
    using row_loop.loop_map [OF assms(3,1,2) xs] by blast
  have "h x = x \<or> (inc_id x \<in> set (map (\<lambda>w. inc_id (lw_incident w)) ws) \<and> inc_id (h x) = inc_id x)"
    if x: "x \<in> set xs" for x
  proof (cases "out x")
    case None
    with h(1) x show ?thesis by (auto simp: recovery_step_def split: if_splits)
  next
    case (Some w)
    from h(1) x have st: "recovery_step now P x (h x) (out x)" by blast
    with Some have "lw_incident w = h x"
      by (auto simp: recovery_step_def recovery_result_def Let_def split: if_splits)
    moreover have "w \<in> set ws" using Some x by (force simp: h(3) List.map_filter_def)
    moreover have "inc_id (h x) = inc_id x" using recovery_step_row [OF st] by blast
    ultimately show ?thesis by force
  qed
  then show ?thesis unfolding h(2) by (intro untouched_map) auto
qed

lemma recovery_writes_untouched:
  assumes "recovery_writes now e t = Inr (t', ws)" "incidents_unique t"
  shows "untouched (set (map (\<lambda>w. inc_id (lw_incident w)) ws)) t t'"
proof (cases "ev_service e")
  case None
  with assms(1) show ?thesis
    by (intro recovery_loop_untouched [OF _ assms(2) host_recovery.row_loop_axioms])
      (auto simp: recovery_writes_def resolve_host_recovery_def)
next
  case (Some s)
  with assms(1) show ?thesis
    by (intro recovery_loop_untouched [OF _ assms(2) service_recovery.row_loop_axioms])
      (auto simp: recovery_writes_def resolve_service_recovery_def)
qed

lemma result_from_writes_ids:
  "lr_incident_ids (result_from_writes ws) = map (\<lambda>w. inc_id (lw_incident w)) ws"
  by (cases ws) (simp_all add: result_from_writes_def empty_result_def Let_def)

lemma resolve_for_event_untouched:
  assumes "resolve_for_event now e ms t = (ms', Inr (t', lr))" "incidents_unique t"
  shows "untouched (set (lr_incident_ids lr)) t t'"
proof -
  from assms(1) obtain ws where ws: "recovery_writes now e t = Inr (t', ws)" "lr = result_from_writes ws"
    by (auto simp: resolve_for_event_def split: if_splits sum.splits)
  from recovery_writes_untouched [OF ws(1) assms(2)] show ?thesis
    by (simp only: ws(2) result_from_writes_ids)
qed

lemma record_notification_result_cases:
  assumes "record_notification_result now ident plugin res t = Inr (t', b)"
  obtains "t' = t" | ctx where "t' = update_where (\<lambda>r. inc_id r = ident)
      (\<lambda>r. r\<lparr>inc_decision_context := ctx, inc_updated_at := now,
             inc_notified_at := (if nr_success res then Some now else inc_notified_at r)\<rparr>) t"
  using assms by (auto simp: record_notification_result_def result_simps split: list.splits)

lemma notification_untouched:
  assumes "record_notification_result now ident plugin res t = Inr (t', b)"
  shows "untouched {ident} t t'"
  using assms by (cases rule: record_notification_result_cases) (auto intro: untouched_update)

section \<open>Counters\<close>

text \<open>The counter of successful audit writes.\<close>

abbreviation audits :: "metrics \<Rightarrow> nat" where
  "audits ms \<equiv> counter ms (Audit_writes True)"

lemma audits_record [simp]:
  "audits (record_event_accepted ty ms) = audits ms" "audits (record_event_rejected ms) = audits ms"
  "audits (record_rule_matched ms) = audits ms" "audits (record_incident_effect e ms) = audits ms"
  "audits (record_notification_submission s ms) = audits ms"
  "audits (record_audit_write b ms) = audits ms + (if b then 1 else 0)"
  by (simp_all add: record_event_accepted_def record_event_rejected_def record_rule_matched_def
      record_incident_effect_def record_notification_submission_def record_audit_write_def)

lemma audits_fold:
  "(\<And>x ms. audits (f x ms) = audits ms) \<Longrightarrow> audits (fold f xs ms) = audits ms"
  by (induction xs arbitrary: ms) simp_all

lemma audits_apply_problem: "apply_problem now i h e d ms t = (ms', res) \<Longrightarrow> audits ms' = audits ms"
  by (auto simp: apply_problem_def split: sum.splits)

lemma audits_resolve: "resolve_for_event now e ms t = (ms', res) \<Longrightarrow> audits ms' = audits ms"
  by (auto simp: resolve_for_event_def audits_fold split: if_splits sum.splits)

section \<open>Runs\<close>

lemma db_run_trans: "db_run t1 es t2 \<Longrightarrow> db_run t ds t1 \<Longrightarrow> db_run t (ds @ es) t2"
proof (induction rule: db_run.induct)
  case (step t1 es t2 l t3)
  from db_run.step [OF step.IH [OF step.prems] step.hyps(2)] show ?case by (cases l) simp_all
qed simp

lemma db_run_one: "db_step t l t' \<Longrightarrow> db_run t (case l of None \<Rightarrow> [] | Some d \<Rightarrow> [d]) t'"
  by (cases l) (auto dest: db_run.step [OF db_run.start])

lemma db_run_quiet: "db_run t [] t1 \<Longrightarrow> db_run t1 [] t2 \<Longrightarrow> db_run t [] t2"
  using db_run_trans [of t1 "[]" t2 t "[]"] by simp

section \<open>The managers\<close>

lemma run_managers_cases:
  assumes "run_managers q h e m ms t = (ms', Inr (t', r, lr))"
  obtains (problem) d a where "m = Some d" "r = Some a" "lr = None" "ev_event_type e = PROBLEM"
      "apply_problem (rq_now q) (rq_incident_id q) h e d ms t = (ms', Inr (t', a))"
    | (recovery) l where "r = None" "lr = Some l" "resolve_for_event (rq_now q) e ms t = (ms', Inr (t', l))"
    | (nothing) "r = None" "lr = None" "t' = t" "ms' = ms"
  using assms by (auto simp: run_managers_def split: if_splits prod.splits sum.splits)

lemma audits_run_managers: "run_managers q h e m ms t = (ms', res) \<Longrightarrow> audits ms' = audits ms"
  by (auto simp: run_managers_def split: if_splits prod.splits sum.splits
      dest: audits_apply_problem audits_resolve)

text \<open>The incident for which a notification is planned.\<close>

definition planned :: "aggregation_result option \<Rightarrow> uuid list" where
  "planned r = (case r of Some a \<Rightarrow> if ar_dispatch_planned a then [ar_incident_id a] else [] | None \<Rightarrow> [])"

lemma run_managers_run:
  assumes "run_managers q h e m ms t = (ms', Inr (t', r, lr))"
  shows "db_run t (planned r) t'"
  using assms
proof (cases rule: run_managers_cases)
  case (problem d a)
  from db_run_one [OF db_step.problem [OF problem(5)]] show ?thesis
    by (simp add: problem planned_def planned_dispatch_def split: if_splits)
next
  case (recovery l)
  from db_run_one [OF db_step.recovery [OF recovery(3)]] show ?thesis by (simp add: recovery planned_def)
next
  case nothing
  then show ?thesis by (simp add: planned_def db_run.start)
qed

section \<open>The transaction\<close>

definition named :: "audit_event \<Rightarrow> uuid set" where
  "named row = {u. uuid_str u \<in> set (ae_incident_ids row)}"

lemma insert_and_commit_Inr:
  assumes "insert_and_commit q row ms a = (ms', Inr (a', row'))"
  shows "row' = row\<lparr>ae_id := rq_audit_id q, ae_accepted_at := rq_now q\<rparr>" "a' = a @ [row']"
    "row_storable row'" "ms' = record_audit_write True ms" "rq_commit_ok q"
  using assms
  by (auto simp: insert_and_commit_def insert_incident_event_def Let_def result_simps split: sum.splits if_splits)

lemma insert_and_commit_Inl: "insert_and_commit q row ms a = (ms', Inl err) \<Longrightarrow> ms' = record_audit_write False ms"
  by (auto simp: insert_and_commit_def split: sum.splits if_splits)

lemma ingress_transactionD:
  assumes "ingress_transaction x pc q p e d ms t a = (ms', Inr (t', a', c))"
  obtains ms1 summary redacted where
    "run_managers q (pc_config_hash pc) e (matched d) ms t = (ms1, Inr (t', cm_aggregation c, cm_lifecycle c))"
    "decided_of d (cm_aggregation c) = Inr (cm_decided c)"
    "build_audit_summary (matched d) (matched_rules_of d) (cm_aggregation c) (cm_lifecycle c) (noop_reason_of d) = Inr summary"
    "redact_payload (x_hmac x) (Some (payload_json (x_time_json x) p)) (pc_max_bytes pc) (pc_hmac_key pc) = Inr redacted"
    "cm_row c = (audit_row x e (cm_lifecycle c) summary redacted)\<lparr>ae_id := rq_audit_id q, ae_accepted_at := rq_now q\<rparr>"
    "a' = a @ [cm_row c]" "row_storable (cm_row c)" "ms' = record_audit_write True ms1"
proof -
  from assms obtain ms1 r lr decided summary redacted row' where
    *: "run_managers q (pc_config_hash pc) e (matched d) ms t = (ms1, Inr (t', r, lr))"
    "decided_of d r = Inr decided"
    "build_audit_summary (matched d) (matched_rules_of d) r lr (noop_reason_of d) = Inr summary"
    "redact_payload (x_hmac x) (Some (payload_json (x_time_json x) p)) (pc_max_bytes pc) (pc_hmac_key pc) = Inr redacted"
    "insert_and_commit q (audit_row x e lr summary redacted) ms1 a = (ms', Inr (a', row'))"
    "c = \<lparr>cm_aggregation = r, cm_lifecycle = lr, cm_decided = decided, cm_row = row'\<rparr>"
    by (auto simp: ingress_transaction_def result_simps split: prod.splits sum.splits)
  from insert_and_commit_Inr [OF *(5)] * show thesis by (intro that) simp_all
qed

lemma ingress_transaction_Inl:
  "ingress_transaction x pc q p e d ms t a = (ms', Inl err) \<Longrightarrow> audits ms' = audits ms"
  by (auto simp: ingress_transaction_def split: prod.splits sum.splits
      dest!: audits_run_managers insert_and_commit_Inl)

lemma incident_ids_one [simp]: "incident_ids_for_audit [u] = ([uuid_str u], False)"
  by (simp add: incident_ids_for_audit_def audit_incident_ids_cap_def)

lemma problem_summary_ids:
  "build_problem_audit_summary a d = Inr s \<Longrightarrow> as_incident_ids s = [uuid_str (ar_incident_id a)]"
  by (auto simp: build_problem_audit_summary_def audit_summary_validate_def split: if_splits)

lemma transaction_untouched:
  assumes "ingress_transaction x pc q p e d ms t a = (ms', Inr (t', a', c))" "incidents_unique t"
  shows "untouched (named (cm_row c)) t t'"
    and "cm_aggregation c = Some r \<Longrightarrow> ar_incident_id r \<in> named (cm_row c)"
proof -
  from assms(1) obtain ms1 summary redacted where
    m: "run_managers q (pc_config_hash pc) e (matched d) ms t = (ms1, Inr (t', cm_aggregation c, cm_lifecycle c))"
    and s: "build_audit_summary (matched d) (matched_rules_of d) (cm_aggregation c) (cm_lifecycle c) (noop_reason_of d) = Inr summary"
    and row: "cm_row c = (audit_row x e (cm_lifecycle c) summary redacted)\<lparr>ae_id := rq_audit_id q, ae_accepted_at := rq_now q\<rparr>"
    by (rule ingress_transactionD)
  from m have "untouched (named (cm_row c)) t t' \<and>
    (\<forall>r. cm_aggregation c = Some r \<longrightarrow> ar_incident_id r \<in> named (cm_row c))"
  proof (cases rule: run_managers_cases)
    case (problem rm b)
    with s have "as_incident_ids summary = [uuid_str (ar_incident_id b)]"
      by (simp add: build_audit_summary_def problem_summary_ids)
    then have "ar_incident_id b \<in> named (cm_row c)" by (simp add: named_def row audit_row_def problem)
    with apply_problem_untouched [OF problem(5) assms(2)] problem(2) show ?thesis
      by (auto intro: untouched_mono)
  next
    case (recovery l)
    then have "set (lr_incident_ids l) \<subseteq> named (cm_row c)" by (auto simp: named_def row audit_row_def)
    with resolve_for_event_untouched [OF recovery(3) assms(2)] recovery(1) show ?thesis
      by (auto intro: untouched_mono)
  qed simp
  then show "untouched (named (cm_row c)) t t'"
    "cm_aggregation c = Some r \<Longrightarrow> ar_incident_id r \<in> named (cm_row c)" by blast+
qed

section \<open>Submission\<close>

text \<open>The tasks a request for the incident \<open>i\<close> may add: for configured plugins, under the handler.\<close>

definition task_for ::
  "processor \<Rightarrow> uuid \<Rightarrow> ('h, (string, json) dict) task_runner \<Rightarrow> 'h \<times> (string, json) dict \<Rightarrow> bool" where
  "task_for pc i r task \<longleftrightarrow> map_of (tr_handlers r) ''notify'' = Some (fst task) \<and>
     (\<exists>n \<in> set (pc_plugin_names pc). snd task = notify_payload i n (pc_config_hash pc))"

definition runner_extended ::
  "processor \<Rightarrow> uuid \<Rightarrow> ('h, (string, json) dict) task_runner option \<Rightarrow>
     ('h, (string, json) dict) task_runner option \<Rightarrow> bool" where
  "runner_extended pc i x y =
     (case x of
        None \<Rightarrow> y = None
      | Some r \<Rightarrow> \<exists>ts. y = Some (r\<lparr>tr_tasks := tr_tasks r @ ts\<rparr>) \<and> list_all (task_for pc i r) ts)"

lemma runner_extended_refl [simp]: "runner_extended pc i x x"
proof (cases x)
  case (Some r)
  then show ?thesis unfolding runner_extended_def by simp (rule exI [of _ "[]"], simp)
qed (simp add: runner_extended_def)

lemma runner_extended_one:
  "task_for pc i r task \<Longrightarrow> runner_extended pc i (Some r) (Some (r\<lparr>tr_tasks := tr_tasks r @ [task]\<rparr>))"
  unfolding runner_extended_def by simp (rule exI [of _ "[task]"], simp)

lemma runner_extended_trans:
  assumes "runner_extended pc i x y" "runner_extended pc i y z"
  shows "runner_extended pc i x z"
proof (cases x)
  case None
  with assms show ?thesis by (simp add: runner_extended_def)
next
  case (Some r)
  with assms(1) obtain ts where ts: "y = Some (r\<lparr>tr_tasks := tr_tasks r @ ts\<rparr>)" "list_all (task_for pc i r) ts"
    by (auto simp: runner_extended_def)
  with assms(2) obtain us where us: "z = Some (r\<lparr>tr_tasks := tr_tasks r @ ts @ us\<rparr>)"
    "list_all (task_for pc i (r\<lparr>tr_tasks := tr_tasks r @ ts\<rparr>)) us"
    by (auto simp: runner_extended_def)
  have "task_for pc i (r\<lparr>tr_tasks := tr_tasks r @ ts\<rparr>) = task_for pc i r"
    by (rule ext) (simp add: task_for_def)
  with us ts(2) show ?thesis
    unfolding runner_extended_def Some option.case by (intro exI [of _ "ts @ us"]) simp
qed

text \<open>The incident exists and a notification envelope can be built from it.\<close>

definition describable :: "uuid \<Rightarrow> incident_table \<Rightarrow> bool" where
  "describable i t \<longleftrightarrow> (\<exists>r env. load_incident i t = Some r \<and> envelope_from_incident r = Inr env)"

lemma load_incident_map:
  assumes "\<And>r. inc_id (g r) = inc_id r"
  shows "load_incident i (map g t) = map_option g (load_incident i t)"
  using assms by (induction t) (auto simp: load_incident_def select_where_def)

lemma describable_notification:
  assumes "record_notification_result now ident plugin res t = Inr (t', b)" "describable i t"
  shows "describable i t'"
  using assms(1)
proof (cases rule: record_notification_result_cases)
  case 1
  with assms(2) show ?thesis by simp
next
  case (2 ctx)
  let ?f = "\<lambda>r. if inc_id r = ident then r\<lparr>inc_decision_context := ctx, inc_updated_at := now,
             inc_notified_at := (if nr_success res then Some now else inc_notified_at r)\<rparr> else r"
  have "load_incident i t' = map_option ?f (load_incident i t)"
    unfolding 2 update_where_def by (rule load_incident_map) simp
  moreover have same: "envelope_from_incident (?f r) = envelope_from_incident r" for r
    by (simp add: envelope_from_incident_def)
  moreover obtain r env where "load_incident i t = Some r" "envelope_from_incident r = Inr env"
    using assms(2) by (auto simp: describable_def)
  ultimately have "load_incident i t' = Some (?f r)" "envelope_from_incident (?f r) = Inr env" by simp_all
  then show ?thesis unfolding describable_def by blast
qed

text \<open>
  What submitting the notifications of the incident \<open>i\<close> may do to the state: no audit row, no
  success counted, only notification results on that incident, and such tasks.
\<close>

definition submitted :: "processor \<Rightarrow> uuid \<Rightarrow> 'h world \<Rightarrow> 'h world \<Rightarrow> bool" where
  "submitted pc i w w' \<longleftrightarrow>
     w_audit w' = w_audit w \<and> audits (w_metrics w') = audits (w_metrics w) \<and>
     untouched {i} (w_incidents w) (w_incidents w') \<and> db_run (w_incidents w) [] (w_incidents w') \<and>
     runner_extended pc i (w_runner w) (w_runner w') \<and>
     (describable i (w_incidents w) \<longrightarrow> describable i (w_incidents w'))"

lemma submitted_refl [simp]: "submitted pc i w w"
  by (simp add: submitted_def db_run.start)

lemma submitted_trans: "submitted pc i w w1 \<Longrightarrow> submitted pc i w1 w2 \<Longrightarrow> submitted pc i w w2"
  by (auto simp: submitted_def intro: untouched_trans db_run_quiet runner_extended_trans)

lemma submitted_count [simp]: "submitted pc i w (count_submission s w)"
  by (simp add: submitted_def count_submission_def db_run.start)

lemma submitted_persist:
  assumes "persist_terminal_result q i plugin res w = (w', x)"
  shows "submitted pc i w w'"
proof (cases "w' = w")
  case False
  obtain t' b where t': "record_notification_result (rq_result_now q plugin) i plugin res (w_incidents w) = Inr (t', b)"
    "w' = w\<lparr>w_incidents := t'\<rparr>"
  proof (cases "record_notification_result (rq_result_now q plugin) i plugin res (w_incidents w)")
    case (Inl err)
    with assms False show thesis by (simp add: persist_terminal_result_def)
  next
    case (Inr r)
    obtain t' b where "r = (t', b)" by (cases r)
    with Inr assms False show thesis
      by (intro that [of t' b]) (simp_all add: persist_terminal_result_def split: if_splits)
  qed
  have "db_run (w_incidents w) [] t'" using db_run_one [OF db_step.delivery [OF t'(1)]] by simp
  with notification_untouched [OF t'(1)] describable_notification [OF t'(1)] show ?thesis
    by (simp add: submitted_def t'(2))
qed simp

lemma submitted_terminal:
  assumes "terminal q i plugin s res w = (w', x)"
  shows "submitted pc i w w'"
proof -
  from assms obtain y where "persist_terminal_result q i plugin res (count_submission s w) = (w', y)"
    by (auto simp: terminal_def split: prod.splits sum.splits)
  from submitted_persist [OF this] show ?thesis by (rule submitted_trans [OF submitted_count])
qed

lemma submitted_one:
  assumes "submit_one pc q i plugin w = (w', x)"
  shows "submitted pc i w w'"
proof (cases "w_runner w")
  case None
  with assms show ?thesis by (auto simp: submit_one_def dest: submitted_terminal)
next
  case (Some r)
  show ?thesis
  proof (cases "plugin \<in> set (pc_plugin_names pc)")
    case False
    with assms Some show ?thesis by (auto simp: submit_one_def dest: submitted_terminal)
  next
    case True
    show ?thesis
    proof (cases "submit ''notify'' (notify_payload i plugin (pc_config_hash pc)) r")
      case (Inl e)
      with assms Some True show ?thesis by (auto simp: submit_one_def dest: submitted_terminal)
    next
      case (Inr r')
      then obtain h where "map_of (tr_handlers r) ''notify'' = Some h"
        "r' = r\<lparr>tr_tasks := tr_tasks r @ [(h, notify_payload i plugin (pc_config_hash pc))]\<rparr>"
        by (auto simp: submit_Inr)
      moreover from this(1) True have "task_for pc i r (h, notify_payload i plugin (pc_config_hash pc))"
        by (auto simp: task_for_def)
      ultimately show ?thesis
        using assms Some True Inr
        by (auto simp: submit_one_def submitted_def count_submission_def db_run.start intro!: runner_extended_one)
    qed
  qed
qed

lemma submitted_loop: "submit_loop pc q i plugins w = (w', x) \<Longrightarrow> submitted pc i w w'"
proof (induction plugins arbitrary: w w' x)
  case (Cons n ns)
  obtain w1 y where o: "submit_one pc q i n w = (w1, y)" by (cases "submit_one pc q i n w")
  note s = submitted_one [OF o]
  show ?case
  proof (cases y)
    case (Inl e)
    with Cons.prems o s show ?thesis by simp
  next
    case (Inr res)
    obtain w2 z where l: "submit_loop pc q i ns w1 = (w2, z)" by (cases "submit_loop pc q i ns w1")
    from Cons.prems o Inr l have "w' = w2" by (auto split: sum.splits)
    with submitted_trans [OF s Cons.IH [OF l]] show ?thesis by simp
  qed
qed simp

lemma submitted_notifications: "submit_notifications pc q i m w = (w', x) \<Longrightarrow> submitted pc i w w'"
  by (auto simp: submit_notifications_def split: option.splits dest: submitted_loop)

end
