(* ===== verification/IngressProps.thy ===== *)
theory IngressProps
  imports IngressFacts
begin

text \<open>
  The properties of one webhook request as a whole: atomicity, completeness of the audit trail,
  refinement of the step relation of the incident table, and the fate of the tasks it submits.
\<close>

section \<open>The two ways a request can end\<close>

lemma enrich_event_fields:
  assumes "enrich_event x pc e = Inr (e', ds)"
  shows "\<exists>tags. e' = e\<lparr>ev_tags := tags\<rparr>"
proof -
  have self: "\<exists>tags. e = e\<lparr>ev_tags := tags\<rparr>" by (rule exI [of _ "ev_tags e"]) simp
  have merge: "\<exists>tags. er_event (finish_merge e i n s m) = e\<lparr>ev_tags := tags\<rparr>" for i n s m
    by (rule exI) (simp add: finish_merge_def)
  have "\<exists>tags. er_event r = e\<lparr>ev_tags := tags\<rparr>" if "enrich ip subnets hosts e = Inr r" for ip subnets hosts r
    using that
  proof (induction hosts)
    case Nil
    then show ?case
      using self merge
      by (auto simp: subnet_fallback_def no_enrichment_def apply_subnet_rule_def split: option.splits)
  next
    case (Cons h hs)
    then show ?case
      using merge by (auto simp: apply_hostname_rule_def result_simps split: option.splits)
  qed
  with assms self show ?thesis
    by (auto simp: enrich_event_def result_simps split: option.splits)
qed

lemma icinga_event_fields:
  "icinga_process_payload sha256 p = Inr (Event e) \<Longrightarrow>
     ev_host e = pl_host p \<and> ev_service e = pl_service p \<and> ev_source_id e = pl_source_id p \<and>
     ev_message e = pl_check_output p \<and>
     ev_fingerprint e = fingerprint_icinga_event sha256 (pl_source_id p) (pl_host p) (pl_service p)
       (ev_event_type e) (ev_severity e)"
  by (auto simp: icinga_process_payload_def validate_normalized_event_def result_simps Let_def split: if_splits)

lemma prepareD:
  assumes "prepare x pc event = Inr (e, ds, d)"
  shows "\<exists>tags. e = event\<lparr>ev_tags := tags\<rparr>" "validate_event_tags (ev_tags e) = Inr ()" "decide pc e = Inr d"
  using assms enrich_event_fields by (auto simp: prepare_def result_simps)

lemma process_payload_cases:
  assumes "process_payload x pc q p w = (w', res)"
  obtains (unchanged) ms where "w' = w\<lparr>w_metrics := ms\<rparr>" "audits ms = audits (w_metrics w)"
      "\<And>v. res = Inr v \<Longrightarrow> \<not> ie_state_accepted v"
    | (committed) event e ds d ms ms' t' a' c where
      "icinga_process_payload (x_sha256 x) p = Inr (Event event)" "prepare x pc event = Inr (e, ds, d)"
      "audits ms = audits (w_metrics w)"
      "ingress_transaction x pc q p e d ms (w_incidents w) (w_audit w) = (ms', Inr (t', a', c))"
      "after_commit pc q e ds d c (w\<lparr>w_incidents := t', w_audit := a', w_metrics := ms'\<rparr>) = (w', res)"
proof (cases "icinga_process_payload (x_sha256 x) p")
  case (Inl err)
  with assms show thesis by (intro unchanged [of "w_metrics w"]) (simp_all add: process_payload_def)
next
  case (Inr y)
  show thesis
  proof (cases y)
    case (Rejection r)
    with assms Inr show thesis
      by (intro unchanged [of "record_event_rejected (w_metrics w)"])
        (auto simp: process_payload_def ingress_envelope_validate_def rejection_envelope_def split: if_splits)
  next
    case (Event event)
    let ?ms = "record_event_accepted (ev_event_type event) (w_metrics w)"
    have pe: "process_event x pc q p event w = (w', res)"
      using assms Inr Event by (simp add: process_payload_def)
    show thesis
    proof (cases "prepare x pc event")
      case (Inl err)
      with pe show thesis by (intro unchanged [of ?ms]) (simp_all add: process_event_def)
    next
      case prep: (Inr z)
      obtain e ds d where z: "z = (e, ds, d)" by (cases z)
      let ?ms' = "fold (\<lambda>_. record_rule_matched) (matched_rules_of d) ?ms"
      have ms': "audits ?ms' = audits (w_metrics w)" by (simp add: audits_fold)
      obtain ms'' y' where tx: "ingress_transaction x pc q p e d ?ms' (w_incidents w) (w_audit w) = (ms'', y')"
        by (cases "ingress_transaction x pc q p e d ?ms' (w_incidents w) (w_audit w)")
      show thesis
      proof (cases y')
        case (Inl err)
        with pe prep z tx ms' ingress_transaction_Inl [of x pc q p e d ?ms' "w_incidents w" "w_audit w" ms'' err]
        show thesis by (intro unchanged [of ms'']) (simp_all add: process_event_def Let_def)
      next
        case tx': (Inr r)
        obtain t' a' c where r: "r = (t', a', c)" by (cases r)
        have "after_commit pc q e ds d c (w\<lparr>w_incidents := t', w_audit := a', w_metrics := ms''\<rparr>) = (w', res)"
          using pe prep z tx tx' r by (simp add: process_event_def Let_def)
        then show thesis
          using committed [OF _ _ ms'] Inr Event prep z tx tx' r by simp
      qed
    qed
  qed
qed

text \<open>After the commit.\<close>

lemma after_commit_submitted:
  assumes "after_commit pc q e ds d c w = (w', res)"
  shows "case planned (cm_aggregation c) of [] \<Rightarrow> w' = w | i # _ \<Rightarrow> submitted pc i w w'"
  using assms
  by (auto simp: after_commit_def planned_def split: option.splits if_splits prod.splits sum.splits
      dest: submitted_notifications)

lemma planned_cases: "planned r = [] \<or> (\<exists>a. r = Some a \<and> planned r = [ar_incident_id a])"
  by (auto simp: planned_def split: option.split)

lemma after_commit_envelope:
  assumes "after_commit pc q e ds d c w = (w', Inr v)"
  shows "ie_state_accepted v \<and> ie_fingerprint v = Some (ev_fingerprint e) \<and> ie_host v = Some (ev_host e)"
  using assms
  by (auto simp: after_commit_def accepted_envelope_def ingress_envelope_validate_def result_simps Let_def
      split: option.splits if_splits prod.splits sum.splits)

section \<open>Atomicity\<close>

text \<open>
  C6: a request either changes nothing but counters, or it commits exactly one audit row, for
  the payload's host and service and with the fingerprint the envelope reports; a rejected or
  failed request whose transaction did not commit submits no task; and the counter of successful
  audit writes counts exactly the rows.
\<close>

theorem ingress_atomic:
  assumes "process_payload x pc q p w = (w', res)"
  shows "((w_incidents w' = w_incidents w \<and> w_audit w' = w_audit w \<and> w_runner w' = w_runner w \<and>
       (\<forall>v. res = Inr v \<longrightarrow> \<not> ie_state_accepted v)) \<or>
     (\<exists>row. w_audit w' = w_audit w @ [row] \<and> ae_id row = rq_audit_id q \<and> ae_accepted_at row = rq_now q \<and>
       ae_host row = pl_host p \<and> ae_service row = pl_service p \<and>
       (\<forall>v. res = Inr v \<longrightarrow> ie_state_accepted v \<and> ie_fingerprint v = Some (ae_fingerprint row)))) \<and>
    audits (w_metrics w') + length (w_audit w) = audits (w_metrics w) + length (w_audit w')"
  using assms
proof (cases rule: process_payload_cases)
  case (unchanged ms)
  then show ?thesis by simp
next
  case (committed event e ds d ms ms' t' a' c)
  from committed(4) obtain ms1 summary redacted where
    m: "run_managers q (pc_config_hash pc) e (matched d) ms (w_incidents w) = (ms1, Inr (t', cm_aggregation c, cm_lifecycle c))"
    and row: "cm_row c = (audit_row x e (cm_lifecycle c) summary redacted)\<lparr>ae_id := rq_audit_id q, ae_accepted_at := rq_now q\<rparr>"
    and a': "a' = w_audit w @ [cm_row c]" and ms': "ms' = record_audit_write True ms1"
    by (rule ingress_transactionD)
  have "w_audit w' = a' \<and> audits (w_metrics w') = audits ms'"
    using after_commit_submitted [OF committed(5)] planned_cases [of "cm_aggregation c"]
    by (auto simp: submitted_def)
  moreover have "audits ms' = Suc (audits (w_metrics w))"
    using audits_run_managers [OF m] committed(3) by (simp add: ms')
  moreover have "ev_host e = pl_host p" "ev_service e = pl_service p"
    using icinga_event_fields [OF committed(1)] prepareD(1) [OF committed(2)] by auto
  moreover have "ie_state_accepted v \<and> ie_fingerprint v = Some (ae_fingerprint (cm_row c))" if "res = Inr v" for v
    using after_commit_envelope [of pc q e ds d c _ w' v] committed(5) that by (simp add: row audit_row_def)
  ultimately show ?thesis by (simp add: a' row audit_row_def)
qed

section \<open>The audit trail\<close>

text \<open>
  C5: the audit trail is complete: an incident that is not named in the audit rows a request
  adds is, for every outcome of the request, exactly what it was.
\<close>

theorem ingress_audit_complete:
  assumes "process_payload x pc q p w = (w', res)" "incidents_unique (w_incidents w)"
  shows "untouched {u. \<exists>row \<in> set (drop (length (w_audit w)) (w_audit w')). uuid_str u \<in> set (ae_incident_ids row)}
    (w_incidents w) (w_incidents w')"
  using assms(1)
proof (cases rule: process_payload_cases)
  case (committed event e ds d ms ms' t' a' c)
  let ?w = "w\<lparr>w_incidents := t', w_audit := a', w_metrics := ms'\<rparr>"
  note tx = transaction_untouched [OF committed(4) assms(2)]
  from committed(4) have a': "a' = w_audit w @ [cm_row c]" by (rule ingress_transactionD)
  have w': "w_audit w' = a' \<and> untouched (named (cm_row c)) t' (w_incidents w')"
    using after_commit_submitted [OF committed(5)] planned_cases [of "cm_aggregation c"] tx(2)
    by (auto simp: submitted_def intro: untouched_mono)
  then have "{u. \<exists>row \<in> set (drop (length (w_audit w)) (w_audit w')). uuid_str u \<in> set (ae_incident_ids row)} =
      named (cm_row c)"
    by (auto simp: a' named_def)
  with untouched_trans [OF tx(1)] w' show ?thesis by simp
qed simp

section \<open>Refinement\<close>

lemma ingress_run:
  assumes "process_payload x pc q p w = (w', res)"
  shows "\<exists>is. db_run (w_incidents w) is (w_incidents w') \<and>
    ((is = [] \<and> w_runner w' = w_runner w) \<or>
     (\<exists>i. is = [i] \<and> runner_extended pc i (w_runner w) (w_runner w')))"
  using assms
proof (cases rule: process_payload_cases)
  case (unchanged ms)
  then show ?thesis by (intro exI [of _ "[]"]) (simp add: db_run.start)
next
  case (committed event e ds d ms ms' t' a' c)
  from committed(4) obtain ms1 where
    "run_managers q (pc_config_hash pc) e (matched d) ms (w_incidents w) = (ms1, Inr (t', cm_aggregation c, cm_lifecycle c))"
    by (rule ingress_transactionD)
  then have run: "db_run (w_incidents w) (planned (cm_aggregation c)) t'" by (rule run_managers_run)
  from planned_cases [of "cm_aggregation c"] show ?thesis
  proof
    assume "planned (cm_aggregation c) = []"
    with after_commit_submitted [OF committed(5)] run show ?thesis by (intro exI [of _ "[]"]) simp
  next
    assume "\<exists>a. cm_aggregation c = Some a \<and> planned (cm_aggregation c) = [ar_incident_id a]"
    then obtain a where "cm_aggregation c = Some a" and a: "planned (cm_aggregation c) = [ar_incident_id a]" by blast
    with after_commit_submitted [OF committed(5)] run db_run_trans [of t' "[]" "w_incidents w'" "w_incidents w"]
    show ?thesis by (intro exI [of _ "[ar_incident_id a]"]) (simp add: submitted_def)
  qed
qed

text \<open>
  C4: whatever happens to a request, what it does to the incident table is a run of the step
  relation of the system; the run plans a dispatch for at most one incident, and tasks are
  submitted only for that one, and only for configured plugins.
\<close>

theorem ingress_refines:
  assumes "process_payload x pc q p w = (w', res)"
  shows "\<exists>is. db_run (w_incidents w) is (w_incidents w') \<and>
    ((is = [] \<and> w_runner w' = w_runner w) \<or>
     (\<exists>i. is = [i] \<and> runner_extended pc i (w_runner w) (w_runner w')))"
  by (rule ingress_run [OF assms])

end
