(* ===== verification/IngressDelivery.thy ===== *)
theory IngressDelivery
  imports IngressProps CursorFacts
begin

text \<open>
  From the webhook to the plugin: a task that a request submits reaches the plugin's
  \<open>send_notification\<close> when it is run on the table the request left.
\<close>

section \<open>The payload\<close>

lemma notify_payload_valid:
  assumes "bounded_string n" "\<forall>s. h = Some s \<longrightarrow> length s \<le> 128"
  shows "validate_task_payload (notify_payload i n h) =
    Inr \<lparr>tp_incident_id = i, tp_plugin_name = n, tp_config_hash = h\<rparr>"
  using assms
  by (auto simp: validate_task_payload_def notify_payload_def payload_keys_def uuid_round_trip
      optional_hash_def opt_json_def split: option.split)

lemma registry_names:
  assumes "load_plugin_registry env config_hash file = Inr g" "n \<in> set (names g)"
  shows "bounded_string n" "\<exists>p. get_plugin env n g = Inr (g, p)"
proof -
  from assms(1) obtain outputs where ok: "list_all plugin_entry_ok outputs"
    and g: "new_registry env outputs (config_hash outputs) = Inr g"
    by (auto simp: load_plugin_registry_def load_plugin_registry_config_def split: option.splits if_splits)
  note f = new_registry_facts [OF g]
  from f assms(2) obtain e where "e \<in> set outputs" "n = pe_name e" by auto
  with ok show "bounded_string n" by (auto simp: list_all_iff plugin_entry_ok_def bounded_string_def)
  from f assms(2) show "\<exists>p. get_plugin env n g = Inr (g, p)" by blast
qed

lemma registry_hash: "load_plugin_registry env config_hash file = Inr g \<Longrightarrow> \<exists>os. rg_config_hash g = config_hash os"
  by (auto simp: load_plugin_registry_def load_plugin_registry_config_def split: option.splits if_splits
      dest!: new_registry_facts)

section \<open>The incident\<close>

lemma affected_sets_bounded:
  assumes "list_all incident_object_ok objs"
  shows "list_all bounded_string (fst (affected_sets_from_objects objs))"
    "length (fst (affected_sets_from_objects objs)) \<le> 100"
    "list_all bounded_string (snd (affected_sets_from_objects objs))"
    "length (snd (affected_sets_from_objects objs)) \<le> 100"
proof -
  have s: "bounded_string s" if "obj \<in> set objs" "io_service obj = Some s" for obj s
    using assms that by (force simp: list_all_iff incident_object_ok_def opt_bounded_def)
  show "list_all bounded_string (fst (affected_sets_from_objects objs))"
    "length (fst (affected_sets_from_objects objs)) \<le> 100"
    "length (snd (affected_sets_from_objects objs)) \<le> 100"
    using assms
    by (auto simp: affected_sets_from_objects_def list_all_iff max_affected_hosts_def max_affected_services_def
        incident_object_ok_def dest!: in_set_takeD)
  show "list_all bounded_string (snd (affected_sets_from_objects objs))"
    using s
    by (auto simp: affected_sets_from_objects_def list_all_iff object_services_def List.map_filter_def
        dest!: in_set_takeD)
qed

lemma envelope_exists:
  assumes "incident_inv r" "bounded_string (inc_rule_name r)" "bounded_string (inc_group_key r)"
    "bounded_string (inc_summary r)"
  shows "\<exists>env. envelope_from_incident r = Inr env"
proof -
  from assms(1) obtain w where w: "inc_window_state r = Some w" "window_inv w"
    "inc_affected_hosts r = fst (affected_sets_from_objects (ws_active_objects w))"
    "inc_affected_services r = snd (affected_sets_from_objects (ws_active_objects w))"
    by (auto simp: incident_inv_def split: option.splits)
  have objs: "list_all incident_object_ok (ws_active_objects w)"
    using w(2) by (simp add: window_inv_def window_state_ok_def)
  have "severity_known (inc_severity r)" using assms(1) by (simp add: incident_inv_def)
  then obtain s where "severity_of (inc_severity r) = Inr s"
    by (auto simp: severity_known_def severity_of_def)
  moreover have "bounded_string (uuid_str i)" for i
    by (simp add: bounded_string_def uuid_str_def Let_def)
  ultimately show ?thesis
    using assms(2-4) affected_sets_bounded [OF objs]
    by (auto simp: envelope_from_incident_def envelope_ok_def w(3,4) Let_def)
qed

lemma load_incident_unique:
  assumes "distinct (map inc_id t)" "r \<in> set t"
  shows "load_incident (inc_id r) t = Some r"
proof -
  have "filter (\<lambda>x. inc_id x = inc_id r) t = [r]"
    using update_where_id [OF assms, of id] by (simp add: update_returning_def)
  then show ?thesis by (simp add: load_incident_def select_where_def)
qed

lemma problem_row_fields:
  assumes "apply_problem now new_id h e d ms t = (ms', Inr (t', r))" "table_inv t"
  shows "\<exists>x \<in> set t'. inc_id x = ar_incident_id r \<and> inc_key x = (rm_rule_name d, rm_group_key d) \<and>
    (inc_summary x = rm_summary d \<or> (\<exists>y \<in> set t. inc_summary x = inc_summary y))"
proof -
  from assms(1) obtain t1 wr td ctx where w: "write_problem now new_id h e d t = Inr (t1, wr, td)"
    and t': "t' = update_where (\<lambda>r. inc_id r = inc_id (wr_incident wr)) (\<lambda>r. r\<lparr>inc_decision_context := ctx\<rparr>) t1"
    and r: "ar_incident_id r = inc_id (wr_incident wr)"
    by (rule apply_problemD)
  from w obtain c i where i: "problem_input e d c = Inr i"
    and rp: "record_problem_incident now new_id i t = Inr (t1, wr)"
    by (auto simp: write_problem_def result_simps)
  have f: "up_rule_name i = rm_rule_name d" "up_group_key i = rm_group_key d" "up_summary i = rm_summary d"
    using i by (auto simp: problem_input_def upsert_input_init_def result_simps Let_def)
  have "\<exists>x \<in> set t1. x = wr_incident wr \<and> inc_key x = (rm_rule_name d, rm_group_key d) \<and>
    (inc_summary x = rm_summary d \<or> (\<exists>y \<in> set t. inc_summary x = inc_summary y))"
    using rp table_inv_unique [OF assms(2)]
  proof (cases rule: record_problem_incident_cases)
    case (inserted w)
    then show ?thesis by (simp add: problem_row_def f)
  next
    case (updated x w replay inside counted ctx)
    have "wr_incident wr \<in> set t1" using updated(1,6,7) by (auto simp: update_where_def)
    moreover have "inc_key (wr_incident wr) = (rm_rule_name d, rm_group_key d)"
      using updated(3,7) f by (simp add: problem_update_def)
    moreover have "inc_summary (wr_incident wr) = rm_summary d \<or> inc_summary (wr_incident wr) = inc_summary x"
      using updated(7) f by (simp add: problem_update_def)
    ultimately show ?thesis using updated(1) by blast
  qed
  then obtain x where x: "x \<in> set t1" "x = wr_incident wr" "inc_key x = (rm_rule_name d, rm_group_key d)"
    "inc_summary x = rm_summary d \<or> (\<exists>y \<in> set t. inc_summary x = inc_summary y)" by blast
  have "x\<lparr>inc_decision_context := ctx\<rparr> \<in> set t'" using x(1,2) by (auto simp: t' update_where_def)
  with x(2-4) r show ?thesis by (intro bexI [of _ "x\<lparr>inc_decision_context := ctx\<rparr>"]) auto
qed

lemma problem_describable:
  assumes "apply_problem now new_id h e d ms t = (ms', Inr (t', r))" "table_inv t"
    and "decided_of (Match d) (Some r) = Inr c" "\<forall>x \<in> set t. bounded_string (inc_summary x)"
  shows "describable (ar_incident_id r) t'"
proof -
  obtain x where x: "x \<in> set t'" "inc_id x = ar_incident_id r" "inc_key x = (rm_rule_name d, rm_group_key d)"
    "inc_summary x = rm_summary d \<or> (\<exists>y \<in> set t. inc_summary x = inc_summary y)"
    using problem_row_fields [OF assms(1,2)] by blast
  have inv: "table_inv t'" by (rule apply_problem_facts(1) [OF assms(1,2)])
  have "bounded_string (rm_rule_name d)" "bounded_string (rm_group_key d)" "bounded_string (rm_summary d)"
    using assms(3) by (auto simp: decided_of_def rule_decision_validate_def split: if_splits)
  with x(3,4) assms(4) have "bounded_string (inc_rule_name x)" "bounded_string (inc_group_key x)"
    "bounded_string (inc_summary x)" by auto
  from envelope_exists [OF table_inv_row [OF inv x(1)] this] obtain env where "envelope_from_incident x = Inr env"
    by blast
  moreover have "load_incident (ar_incident_id r) t' = Some x"
    using load_incident_unique [OF table_inv_ids [OF inv] x(1)] x(2) by simp
  ultimately show ?thesis by (auto simp: describable_def)
qed

section \<open>From the request to the plugin\<close>

lemma submitted_task_delivered:
  assumes "load_plugin_registry env config_hash file = Inr g" "\<forall>entries. length (config_hash entries) \<le> 128"
    and "process_payload x (build_icinga2_processor topology rules True (Some g) max_bytes key) q p w = (w', res)"
    and "table_inv (w_incidents w)" "\<forall>r \<in> set (w_incidents w). bounded_string (inc_summary r)"
    and "w_runner w = Some r" "w_runner w' = Some r'" "task \<in> set (drop (length (tr_tasks r)) (tr_tasks r'))"
  shows "\<exists>plugin e. delivery_attempt \<lparr>dp_env = env, dp_registry = g, dp_send = send\<rparr> (snd task) (w_incidents w') plugin e"
proof -
  let ?pc = "build_icinga2_processor topology rules True (Some g) max_bytes key"
  have pc: "pc_config_hash ?pc = Some (rg_config_hash g)" "pc_plugin_names ?pc = names g"
    by (simp_all add: build_icinga2_processor_def)
  from assms(3) show ?thesis
  proof (cases rule: process_payload_cases)
    case (unchanged ms)
    with assms(6-8) show ?thesis by simp
  next
    case (committed event e ds d ms ms' t' a' c)
    let ?w = "w\<lparr>w_incidents := t', w_audit := a', w_metrics := ms'\<rparr>"
    have "planned (cm_aggregation c) \<noteq> []"
    proof
      assume "planned (cm_aggregation c) = []"
      with after_commit_submitted [OF committed(5)] have "w_runner w' = w_runner w" by simp
      with assms(6-8) show False by simp
    qed
    then obtain a where a: "cm_aggregation c = Some a" "planned (cm_aggregation c) = [ar_incident_id a]"
      using planned_cases [of "cm_aggregation c"] by blast
    with after_commit_submitted [OF committed(5)] have s: "submitted ?pc (ar_incident_id a) ?w w'" by simp
    then have "task_for ?pc (ar_incident_id a) r task"
      using assms(6-8) by (auto simp: submitted_def runner_extended_def list_all_iff)
    then obtain n where n: "n \<in> set (names g)"
      "snd task = notify_payload (ar_incident_id a) n (Some (rg_config_hash g))"
      by (auto simp: task_for_def pc)
    from committed(4) obtain ms1 where m: "run_managers q (pc_config_hash ?pc) e (matched d) ms (w_incidents w)
        = (ms1, Inr (t', cm_aggregation c, cm_lifecycle c))"
      and dec: "decided_of d (cm_aggregation c) = Inr (cm_decided c)"
      by (rule ingress_transactionD)
    from m obtain rm where rm: "matched d = Some rm"
      "apply_problem (rq_now q) (rq_incident_id q) (pc_config_hash ?pc) e rm ms (w_incidents w) = (ms1, Inr (t', a))"
      by (cases rule: run_managers_cases) (use a in auto)
    then have "d = Match rm" by (simp add: matched_def split: engine_decision.splits)
    with problem_describable [OF rm(2) assms(4) _ assms(5)] dec a(1)
    have "describable (ar_incident_id a) (w_incidents w')" using s by (simp add: submitted_def)
    then obtain x env' where x: "load_incident (ar_incident_id a) (w_incidents w') = Some x"
      "envelope_from_incident x = Inr env'"
      by (auto simp: describable_def)
    obtain plugin where plugin: "get_plugin env n g = Inr (g, plugin)"
      using registry_names(2) [OF assms(1) n(1)] by blast
    have "length (rg_config_hash g) \<le> 128" using registry_hash [OF assms(1)] assms(2) by auto
    then have "validate_task_payload (snd task) =
        Inr \<lparr>tp_incident_id = ar_incident_id a, tp_plugin_name = n, tp_config_hash = Some (rg_config_hash g)\<rparr>"
      unfolding n(2) by (intro notify_payload_valid registry_names(1) [OF assms(1) n(1)]) simp
    with x plugin show ?thesis by (auto simp: delivery_attempt_def)
  qed
qed

text \<open>
  A task that a request submits is neither invalid nor stale nor without plugin or incident:
  run on the table the request leaves, the dispatcher asks the configured plugin to send the
  incident's envelope.
\<close>

lemma submitted_task_reaches_plugin:
  assumes "load_plugin_registry env config_hash file = Inr g" "\<forall>entries. length (config_hash entries) \<le> 128"
    and "process_payload x (build_icinga2_processor topology rules True (Some g) max_bytes key) q p w = (w', res)"
    and "table_inv (w_incidents w)" "\<forall>r \<in> set (w_incidents w). bounded_string (inc_summary r)"
    and "w_runner w = Some r" "w_runner w' = Some r'" "task \<in> set (drop (length (tr_tasks r)) (tr_tasks r'))"
  shows "\<exists>plugin e. delivery_attempt \<lparr>dp_env = env, dp_registry = g, dp_send = send\<rparr> (snd task) (w_incidents w') plugin e"
  by (rule submitted_task_delivered [OF assms])

end
