(* ===== verification/AuditServing.thy ===== *)
theory AuditServing
  imports IngressProps RedactionFacts
begin

text \<open>
  From the webhook to the audit API: every row a request inserts can be read back through the
  response model.
\<close>

section \<open>Tags after enrichment\<close>

lemma wf_literal: "dict_wf (tm_tags s) \<Longrightarrow> dict_wf (tm_tags (apply_literal_tag kv s))"
  by (cases kv) (auto simp: apply_literal_tag_def split: option.split)

lemma wf_literals: "dict_wf (tm_tags s) \<Longrightarrow> dict_wf (tm_tags (fold apply_literal_tag kvs s))"
  by (induction kvs arbitrary: s) (simp_all add: wf_literal)

lemma wf_captured: "dict_wf (tm_tags s) \<Longrightarrow> dict_wf (tm_tags (apply_captured_tag kv s))"
  by (cases kv) (auto simp: apply_captured_tag_def split: option.split)

lemma wf_captures: "apply_captures groups cs s = Inr s' \<Longrightarrow> dict_wf (tm_tags s) \<Longrightarrow> dict_wf (tm_tags s')"
  by (induction groups cs s rule: apply_captures.induct)
    (auto simp: result_simps wf_captured split: option.splits if_splits)

lemma wf_enrich:
  assumes "enrich ip subnets hosts e = Inr r" "dict_wf (ev_tags e)"
  shows "dict_wf (ev_tags (er_event r))"
  using assms
proof (induction hosts)
  case Nil
  then show ?case
    by (auto simp: subnet_fallback_def no_enrichment_def apply_subnet_rule_def finish_merge_def wf_literals
        start_merge_def split: option.splits)
next
  case (Cons h hs)
  then show ?case
    by (auto simp: apply_hostname_rule_def finish_merge_def result_simps start_merge_def wf_literals
        dest!: wf_captures split: option.splits)
qed

lemma wf_enrich_event: "enrich_event x pc e = Inr (e', ds) \<Longrightarrow> dict_wf (ev_tags e) \<Longrightarrow> dict_wf (ev_tags e')"
  by (auto simp: enrich_event_def result_simps split: option.splits dest: wf_enrich)

section \<open>The projection of an inserted document\<close>

lemma sql_tags_event:
  "sql_tags jsonb_text (event_json time_json e) =
     (if byte_length (jsonb_text (tags_json (ev_tags e))) \<le> audit_tag_sql_max_bytes
      then (ev_tags e, False, False) else ([], True, False))"
proof -
  have "List.map_filter string_entry (map (\<lambda>(k, v). (k, JStr v)) kvs) = kvs" for kvs :: tags
    by (induction kvs) (auto simp: string_entry_def map_filter_simps)
  moreover have "\<not> list_ex (\<lambda>kv. string_entry kv = None) (map (\<lambda>(k, v). (k, JStr v)) kvs)" for kvs :: tags
    by (induction kvs) (auto simp: string_entry_def)
  ultimately show ?thesis by (simp add: sql_tags_def event_json_def tags_json_def)
qed

lemma projected_tags_served:
  assumes "dict_wf (ev_tags e)"
  shows "response_tags_ok (al_tags (row_to_audit_event_list_row jsonb_text
      (row\<lparr>ae_normalized_event := event_json time_json e\<rparr>))) \<and>
    (\<forall>(k, v) \<in> set (al_tags (row_to_audit_event_list_row jsonb_text
      (row\<lparr>ae_normalized_event := event_json time_json e\<rparr>))).
       \<not> contains_sensitive_fragment k \<and> \<not> contains_sensitive_fragment v)"
proof -
  obtain tags size_limited invalid where s: "sql_tags jsonb_text (event_json time_json e) = (tags, size_limited, invalid)"
    by (cases "sql_tags jsonb_text (event_json time_json e)")
  have wf: "dict_wf tags" using s assms by (auto simp: sql_tags_event split: if_splits)
  obtain projected reasons where p: "project_normalized_event_tags tags invalid size_limited = (projected, reasons)"
    by (cases "project_normalized_event_tags tags invalid size_limited")
  from project_tags_facts [OF p wf] s p show ?thesis
    by (auto simp: row_to_audit_event_list_row_def)
qed

section \<open>Summaries and ids\<close>

lemma icinga_event_tags: "icinga_process_payload sha256 p = Inr (Event e) \<Longrightarrow> ev_tags e = pl_tags p"
  by (auto simp: icinga_process_payload_def validate_normalized_event_def result_simps Let_def split: if_splits)

lemma uuid_str_bounded: "bounded_string (uuid_str u)"
  by (simp add: bounded_string_def uuid_str_def Let_def)

lemma build_audit_summary_ok: "build_audit_summary m mr r lr reason = Inr s \<Longrightarrow> audit_summary_ok s"
  by (auto simp: build_audit_summary_def build_recovery_audit_summary_def build_problem_audit_summary_def
      build_noop_audit_summary_def audit_summary_validate_def Let_def split: option.splits if_splits prod.splits)

lemma audit_row_ids_bounded:
  "audit_summary_ok s \<Longrightarrow> list_all bounded_string (ae_incident_ids (audit_row x e lr s rp))"
  by (auto simp: audit_row_def list_all_iff uuid_str_bounded audit_summary_ok_def bounded_string_tuple_def
      split: option.split)

section \<open>The property\<close>

text \<open>
  C18: every audit row a request inserts is served by the audit API: the mapping to the
  response model never fails on it, whatever rules and topology are configured, and what is
  served contains neither the stored payload nor the stored document, nor a message or tag with a
  sensitive fragment.
\<close>

theorem ingress_rows_served:
  assumes "process_payload x pc q p w = (w', res)" "icinga_payload_ok p" "dict_wf (pl_tags p)"
    and "\<And>b. length (x_sha256 x b) = 64" "\<And>k b. hmac_ok (x_hmac x k b)"
    and "row \<in> set (drop (length (w_audit w)) (w_audit w'))"
  shows "\<exists>l. audit_event_response (row_to_audit_event_list_row jsonb_text row) = Inr l \<and>
    ae_raw_payload (al_event l) = [] \<and> ae_normalized_event (al_event l) = [] \<and>
    \<not> contains_sensitive_fragment (al_message l) \<and>
    (\<forall>(k, v) \<in> set (al_tags l). \<not> contains_sensitive_fragment k \<and> \<not> contains_sensitive_fragment v)"
proof -
  from assms(1) show ?thesis
  proof (cases rule: process_payload_cases)
    case (unchanged ms)
    with assms(6) show ?thesis by simp
  next
    case (committed event e ds d ms ms' t' a' c)
    from committed(4) obtain summary redacted where
      s: "build_audit_summary (matched d) (matched_rules_of d) (cm_aggregation c) (cm_lifecycle c) (noop_reason_of d) = Inr summary"
      and rp: "redact_payload (x_hmac x) (Some (payload_json (x_time_json x) p)) (pc_max_bytes pc) (pc_hmac_key pc) = Inr redacted"
      and r: "cm_row c = (audit_row x e (cm_lifecycle c) summary redacted)\<lparr>ae_id := rq_audit_id q, ae_accepted_at := rq_now q\<rparr>"
      and a': "a' = w_audit w @ [cm_row c]"
      by (rule ingress_transactionD)
    have "w_audit w' = a'"
      using after_commit_submitted [OF committed(5)] planned_cases [of "cm_aggregation c"]
      by (auto simp: submitted_def)
    with assms(6) a' have row: "row = (audit_row x e (cm_lifecycle c) summary redacted)\<lparr>ae_id := rq_audit_id q, ae_accepted_at := rq_now q\<rparr>"
      by (simp add: r)
    obtain tags where e: "e = event\<lparr>ev_tags := tags\<rparr>" using prepareD(1) [OF committed(2)] by blast
    note ev = icinga_event_fields [OF committed(1)]
    have p: "bounded_string (pl_source_id p)" "bounded_string (pl_host p)" "opt_bounded (pl_service p)"
      using assms(2) by (simp_all add: icinga_payload_ok_def)
    have fp: "bounded_string (ev_fingerprint e)"
      using ev assms(4) by (simp add: e bounded_string_def fingerprint_icinga_event_def)
    have ok: "audit_summary_ok summary" by (rule build_audit_summary_ok [OF s])
    have wf: "dict_wf (ev_tags e)"
      using committed(2) assms(3) icinga_event_tags [OF committed(1)]
      by (auto simp: prepare_def result_simps dest: wf_enrich_event)
    have hmac: "hmac_ok (rp_payload_hmac redacted)"
      using rp assms(5) by (auto simp: redact_payload_def Let_def split: if_splits prod.splits)
    obtain l where l_def: "l = row_to_audit_event_list_row jsonb_text row" by simp
    have l: "al_event l = row\<lparr>ae_normalized_event := [], ae_raw_payload := []\<rparr>"
      "al_incident_ids l = take audit_incident_ids_max (ae_incident_ids row)"
      "al_tags_omitted l \<longleftrightarrow> al_omission_reasons l \<noteq> {}"
      "\<exists>m. al_message l = project_normalized_event_message m"
      by (auto simp: l_def row_to_audit_event_list_row_def split: prod.split)
    have tags_ok: "response_tags_ok (al_tags l) \<and>
        (\<forall>(k, v) \<in> set (al_tags l). \<not> contains_sensitive_fragment k \<and> \<not> contains_sensitive_fragment v)"
      using projected_tags_served [OF wf, of jsonb_text "x_time_json x" row] by (simp add: l_def row audit_row_def)
    have message: "length (al_message l) \<le> audit_message_max_length" "\<not> contains_sensitive_fragment (al_message l)"
      using l(4) project_message_facts by metis+
    have "list_all bounded_string (ae_incident_ids row)"
      using audit_row_ids_bounded [OF ok] by (simp add: row)
    then have ids: "bounded_string_tuple (al_incident_ids l)"
      by (auto simp: l(2) bounded_string_tuple_def audit_incident_ids_max_def list_all_iff dest: in_set_takeD)
    have "\<exists>ty. event_type_of (event_type_value (ev_event_type e)) = Inr ty"
      by (cases "ev_event_type e") (simp_all add: event_type_of_def)
    then obtain ty where ty: "event_type_of (ae_event_type row) = Inr ty" by (auto simp: row audit_row_def)
    have r: "severity_of (ae_severity row) = Inr (ev_severity e)" "audit_summary_ok (ae_decision_summary row)"
      "bounded_string (ae_source_id row)" "bounded_string (ae_fingerprint row)" "bounded_string (ae_host row)"
      "opt_bounded (ae_service row)" "hmac_ok (ae_payload_hmac row)"
      using ok fp p hmac ev by (simp_all add: row audit_row_def e)
    have "audit_event_response l = Inr l"
      unfolding audit_event_response_def l(1) Let_def
      using r ty ids message(1) tags_ok l(3) by (simp add: audit_summary_validate_def)
    with l(1) message(2) tags_ok show ?thesis unfolding l_def [symmetric] by (intro exI [of _ l]) simp
  qed
qed

end
