(* ===== verification/Email.thy ===== *)
theory Email
  imports Complex_Main Notify
begin

text \<open>
  The SMTP output plugin (\<open>app/plugins/outputs/email.py\<close>): its options, the subject and the body
  of a message, and sending.  Handing the message to the server is a parameter; setting a header
  raises on a value of more than one line, as \<open>email.policy.default\<close> does.
\<close>

section \<open>Options\<close>

record smtp_options =
  so_host :: string
  so_port :: int
  so_from_address :: string
  so_to_addresses :: "string list"
  so_subject_prefix :: string
  so_username :: "string option"
  so_password :: "string option"
  so_use_tls :: bool
  so_start_tls :: "bool option"
  so_validate_certs :: bool
  so_timeout :: rat

text \<open>The bound is the double nearest to 0.1.\<close>

definition min_timeout :: rat where
  "min_timeout = 3602879701896397 / 36028797018963968"

definition opt_max :: "nat \<Rightarrow> string option \<Rightarrow> bool" where
  "opt_max n x \<longleftrightarrow> (case x of None \<Rightarrow> True | Some s \<Rightarrow> length s \<le> n)"

definition credentials_ok :: "smtp_options \<Rightarrow> bool" where
  "credentials_ok s \<longleftrightarrow>
     (so_username s \<noteq> None \<longleftrightarrow> so_password s \<noteq> None) \<and>
     (so_username s \<noteq> None \<longrightarrow> (so_use_tls s \<or> so_start_tls s = Some True) \<and> so_validate_certs s)"

definition smtp_options_ok :: "smtp_options \<Rightarrow> bool" where
  "smtp_options_ok s \<longleftrightarrow>
     bounded_string (so_host s) \<and> 1 \<le> so_port s \<and> so_port s \<le> 65535 \<and> bounded_string (so_from_address s) \<and>
     list_all bounded_string (so_to_addresses s) \<and> so_to_addresses s \<noteq> [] \<and> length (so_to_addresses s) \<le> 100 \<and>
     list_all (\<lambda>a. str_strip a \<noteq> []) (so_to_addresses s) \<and> length (so_subject_prefix s) \<le> 64 \<and>
     opt_max 256 (so_username s) \<and> opt_max 256 (so_password s) \<and>
     min_timeout \<le> so_timeout s \<and> so_timeout s \<le> 120 \<and> credentials_ok s"

definition new_smtp_plugin :: "smtp_options \<Rightarrow> smtp_options result" where
  "new_smtp_plugin s = (if smtp_options_ok s then Inr s else Inl ValidationError)"

definition smtp_status :: "smtp_options \<Rightarrow> plugin_status" where
  "smtp_status s = \<lparr>ps_plugin_type = ''email'', ps_ready = True, ps_status = ''ready''\<rparr>"

section \<open>Messages\<close>

definition subject :: "smtp_options \<Rightarrow> envelope \<Rightarrow> string" where
  "subject s e =
     (if so_subject_prefix s \<noteq> [] then so_subject_prefix s @ '' '' else []) @
     ''['' @ severity_value (ne_severity e) @ ''] '' @ ne_rule_name e @ '': '' @ ne_summary e"

definition listed_or_none :: "string list \<Rightarrow> string" where
  "listed_or_none xs = (if xs \<noteq> [] then str_join '', '' xs else ''none'')"

definition body :: "envelope \<Rightarrow> string" where
  "body e = str_join [CHR 0x0A]
     [''Incident ID: '' @ ne_incident_id e, ''Rule: '' @ ne_rule_name e, ''Group key: '' @ ne_group_key e,
      ''Severity: '' @ severity_value (ne_severity e), ''Summary: '' @ ne_summary e,
      ''Affected hosts: '' @ listed_or_none (ne_affected_hosts e),
      ''Affected services: '' @ listed_or_none (ne_affected_services e)]"

text \<open>\<open>str.splitlines\<close> breaks at these characters, and a carriage return joins a line feed.\<close>

definition line_break :: "char \<Rightarrow> bool" where
  "line_break c \<longleftrightarrow> (let n = char_code c in (10 \<le> n \<and> n \<le> 13) \<or> (28 \<le> n \<and> n \<le> 30) \<or> n = 133)"

fun splitlines :: "string \<Rightarrow> string list" where
  "splitlines [] = []"
| "splitlines (c # cs) =
     (if c = CHR 0x0D then (case cs of [] \<Rightarrow> [[]] | d # ds \<Rightarrow> if d = CHR 0x0A then [] # splitlines ds else [] # splitlines cs)
      else if line_break c then [] # splitlines cs
      else case splitlines cs of [] \<Rightarrow> [[c]] | l # ls \<Rightarrow> (c # l) # ls)"

record email_message =
  em_from :: string
  em_to :: string
  em_subject :: string
  em_content :: string

definition header_ok :: "string \<Rightarrow> bool" where
  "header_ok v \<longleftrightarrow> length (splitlines v) \<le> 1"

definition build_message :: "smtp_options \<Rightarrow> envelope \<Rightarrow> email_message result" where
  "build_message s e =
     rbind (rguard (header_ok (so_from_address s)) ValueError) (\<lambda>_.
     rbind (rguard (header_ok (str_join '', '' (so_to_addresses s))) ValueError) (\<lambda>_.
     rbind (rguard (header_ok (subject s e)) ValueError) (\<lambda>_.
     Inr \<lparr>em_from = so_from_address s, em_to = str_join '', '' (so_to_addresses s), em_subject = subject s e,
          em_content = body e\<rparr>)))"

text \<open>Whether \<open>send_notification\<close> returns.\<close>

definition send_notification :: "(smtp_options \<Rightarrow> email_message \<Rightarrow> bool) \<Rightarrow> smtp_options \<Rightarrow> envelope \<Rightarrow> bool" where
  "send_notification smtp s e =
     (case build_message s e of Inl _ \<Rightarrow> False | Inr m \<Rightarrow> smtp s m)"

section \<open>Multi-line summaries\<close>

declare splitlines.simps(2) [simp del]

lemma splitlines_Nil_iff [simp]: "splitlines s = [] \<longleftrightarrow> s = []"
proof (cases s)
  case (Cons c cs)
  then show ?thesis by (subst Cons, subst splitlines.simps(2)) (simp split: list.split)
qed simp

lemma splitlines_LF [simp]: "splitlines (CHR 0x0A # s) = [] # splitlines s"
  by (simp add: splitlines.simps(2) line_break_def char_code_def)

lemma splitlines_CR_LF [simp]: "splitlines (CHR 0x0D # CHR 0x0A # s) = [] # splitlines s"
  by (simp add: splitlines.simps(2))

lemma splitlines_CR [simp]: "d \<noteq> CHR 0x0A \<Longrightarrow> splitlines (CHR 0x0D # d # s) = [] # splitlines (d # s)"
  by (simp add: splitlines.simps(2) [of "CHR 0x0D"])

lemma splitlines_keep:
  "n \<le> length (splitlines cs) \<Longrightarrow> c \<noteq> CHR 0x0D \<Longrightarrow> n \<le> length (splitlines (c # cs))"
  by (cases "splitlines cs") (simp_all add: splitlines.simps(2))

lemma splitlines_feed:
  assumes "s \<noteq> []"
  shows "2 \<le> length (splitlines (p @ CHR 0x0A # s))"
proof (induction "length p" arbitrary: p rule: less_induct)
  case less
  have s: "splitlines s \<noteq> []" using assms by simp
  show ?case
  proof (cases p)
    case Nil
    with s show ?thesis by (simp add: Suc_le_eq)
  next
    case (Cons c cs)
    have IH: "2 \<le> length (splitlines (cs @ CHR 0x0A # s))" using less [of cs] Cons by simp
    show ?thesis
    proof (cases "c = CHR 0x0D")
      case False
      with splitlines_keep [OF IH] show ?thesis by (simp add: Cons)
    next
      case True
      show ?thesis
      proof (cases cs)
        case Nil
        with True s show ?thesis by (simp add: Cons Suc_le_eq)
      next
        case (Cons d ds)
        have "2 \<le> length (splitlines (ds @ CHR 0x0A # s))"
          using less [of ds] \<open>p = c # cs\<close> Cons by simp
        with IH True Cons show ?thesis by (cases "d = CHR 0x0A") (simp_all add: \<open>p = c # cs\<close>)
      qed
    qed
  qed
qed

text \<open>
  C39: a notification task for an incident whose summary has a line feed before its last character,
  as a summary template that quotes a multi-line check output produces, is never delivered: the header
  is refused, so for every mail server the dispatcher ends in \<open>plugin_exception\<close> or before, whatever
  other incidents the table holds.
\<close>

theorem multiline_summary_never_delivered:
  assumes "process_notification \<lparr>dp_env = env, dp_registry = g, dp_send = send_notification smtp\<rparr> others ok now payload ms t
      = (ms', t', Inr res)"
    and "validate_task_payload payload = Inr task" "load_incident (tp_incident_id task) t = Some r"
    and "inc_summary r = p @ CHR 0x0A # s" "s \<noteq> []"
  shows "\<not> nr_success res"
proof
  assume "nr_success res"
  then obtain plugin e where a: "delivery_attempt \<lparr>dp_env = env, dp_registry = g, dp_send = send_notification smtp\<rparr>
      payload t plugin e" "send_notification smtp plugin e"
    using process_notification_success [OF assms(1)] by auto
  from a(1) assms(2,3) have "envelope_from_incident r = Inr e"
    by (auto simp: delivery_attempt_def)
  note s = assms(4,5)
  have "ne_summary e = inc_summary r"
    using \<open>envelope_from_incident r = Inr e\<close> by (auto simp: envelope_from_incident_def Let_def result_simps split: if_splits)
  then have "subject plugin e = (subject plugin (e\<lparr>ne_summary := p\<rparr>)) @ CHR 0x0A # s"
    using s(1) by (simp add: subject_def)
  then obtain q where q: "subject plugin e = q @ CHR 0x0A # s" by (rule that)
  have "\<not> header_ok (subject plugin e)"
    using splitlines_feed [OF s(2), of q] by (simp add: header_ok_def q)
  with a(2) show False
    by (auto simp: send_notification_def build_message_def rbind_def rguard_def split: if_splits)
qed

end
