(* ===== verification/WitnessesIngress.thy ===== *)
theory WitnessesIngress
  imports WitnessesConfig WitnessesStore IngressDelivery AuditServing Email
begin

text \<open>
  The properties of a webhook request and of a notification task, applied at a deployment with
  one rule and one mail plugin.  The request inserts an incident and submits one task.
\<close>

section \<open>A deployment\<close>

definition demo_externals :: externals where
  "demo_externals =
     \<lparr>x_sha256 = demo_sha, x_hmac = (\<lambda>k b. replicate 64 (CHR ''0'')), x_ip_address = (\<lambda>s. None),
      x_time_json = isoformat\<rparr>"

definition demo_registry :: "string registry" where
  "demo_registry =
     \<lparr>rg_entries = [(''mail'', hd demo_plugin_entries)], rg_positions = [(''mail'', 1)],
      rg_config_hash = ''h'', rg_plugins = [(''mail'', ''SmtpOutputPlugin'')]\<rparr>"

definition demo_processor :: processor where
  "demo_processor = build_icinga2_processor None (Some [demo_compiled]) True (Some demo_registry) 65536 ''key''"

definition demo_request :: request where
  "demo_request =
     \<lparr>rq_now = demo_start + second, rq_incident_id = 6, rq_audit_id = 9, rq_commit_ok = True,
      rq_result_now = (\<lambda>_. demo_start + 2 * second), rq_result_commit_ok = (\<lambda>_. True)\<rparr>"

definition demo_other_row :: incident where
  "demo_other_row = (demo_row 2)\<lparr>inc_group_key := ''host=db1''\<rparr>"

definition demo_runner :: "(unit, (string, json) dict) task_runner" where
  "demo_runner = \<lparr>tr_handlers = [(''notify'', ())], tr_tasks = []\<rparr>"

definition demo_world :: "unit world" where
  "demo_world = \<lparr>w_incidents = [demo_other_row], w_audit = [], w_metrics = [], w_runner = Some demo_runner\<rparr>"

lemma demo_registry_loaded:
  "load_plugin_registry demo_plugin_env (\<lambda>_. ''h'') (Some demo_plugin_entries) = Inr demo_registry"
  by code_simp

lemma demo_world_fields [simp]:
  "w_incidents demo_world = [demo_other_row]" "w_audit demo_world = []" "w_metrics demo_world = []"
  "w_runner demo_world = Some demo_runner" "tr_tasks demo_runner = []"
  by (simp_all add: demo_world_def demo_runner_def)

lemma demo_world_inv: "table_inv [demo_other_row]" "bounded_string (inc_summary demo_other_row)"
  by code_simp+

section \<open>A request\<close>

abbreviation demo_processed :: "unit world \<times> ingress_envelope result" where
  "demo_processed \<equiv> process_payload demo_externals demo_processor demo_request demo_webhook demo_world"

lemma demo_ingress:
  "case demo_processed of
     (w', Inr v) \<Rightarrow>
       ie_state_accepted v \<and> map inc_id (w_incidents w') = [5, 6] \<and> length (w_audit w') = 1 \<and>
       (case w_runner w' of None \<Rightarrow> False | Some r \<Rightarrow> length (tr_tasks r) = 1)
   | _ \<Rightarrow> False"
  by code_simp

lemma demo_request_run:
  obtains w' v r' where "demo_processed = (w', Inr v)" "ie_state_accepted v"
    "map inc_id (w_incidents w') = [5, 6]" "length (w_audit w') = 1" "w_runner w' = Some r'" "length (tr_tasks r') = 1"
  using demo_ingress by (auto split: prod.splits sum.splits option.splits)

theorem ingress_atomic_witness:
  "\<exists>w' v row. demo_processed = (w', Inr v) \<and> w_audit w' = [row] \<and> ae_host row = ''web1'' \<and>
     ie_fingerprint v = Some (ae_fingerprint row) \<and> audits (w_metrics w') = 1"
proof -
  obtain w' v r' where r: "demo_processed = (w', Inr v)" "ie_state_accepted v" "length (w_audit w') = 1"
    by (rule demo_request_run)
  note atomic = ingress_atomic [OF r(1)]
  have "w_audit w' \<noteq> w_audit demo_world" using r(3) by auto
  with atomic obtain row where "w_audit w' = w_audit demo_world @ [row]" "ae_host row = pl_host demo_webhook"
    "\<forall>v'. Inr v = (Inr v' :: ingress_envelope result) \<longrightarrow> ie_fingerprint v' = Some (ae_fingerprint row)"
    by (elim conjE disjE exE) (simp, rule that, simp_all)
  then have "w_audit w' = [row]" "ae_host row = ''web1''" "ie_fingerprint v = Some (ae_fingerprint row)"
    by (simp_all add: demo_webhook_def)
  moreover have "audits (w_metrics w') = 1" using atomic r(3) by (simp add: counter_def)
  ultimately show ?thesis using r(1) by (intro exI conjI)
qed

theorem ingress_audit_complete_witness:
  "\<exists>w' res. demo_processed = (w', res) \<and>
     untouched {u. \<exists>row \<in> set (w_audit w'). uuid_str u \<in> set (ae_incident_ids row)} [demo_other_row] (w_incidents w')"
proof -
  obtain w' res where r: "demo_processed = (w', res)" by (cases demo_processed)
  have "incidents_unique (w_incidents demo_world)" by code_simp
  from ingress_audit_complete [OF r this] r show ?thesis by (intro exI) simp
qed

theorem ingress_refines_witness:
  "\<exists>w' v i. demo_processed = (w', Inr v) \<and> db_run [demo_other_row] [i] (w_incidents w')"
proof -
  obtain w' v r' where r: "demo_processed = (w', Inr v)" "w_runner w' = Some r'" "length (tr_tasks r') = 1"
    by (rule demo_request_run)
  then have "w_runner w' \<noteq> w_runner demo_world" by auto
  with ingress_refines [OF r(1)] have "\<exists>i. db_run [demo_other_row] [i] (w_incidents w')" by auto
  then obtain i where "db_run [demo_other_row] [i] (w_incidents w')" by (rule exE)
  with r(1) show ?thesis by (intro exI conjI)
qed

theorem ingress_rows_served_witness:
  "\<exists>w' v row l. demo_processed = (w', Inr v) \<and> row \<in> set (w_audit w') \<and>
     audit_event_response (row_to_audit_event_list_row json_dumps row) = Inr l \<and> ae_raw_payload (al_event l) = []"
proof -
  obtain w' v r' where r: "demo_processed = (w', Inr v)" "length (w_audit w') = 1" by (rule demo_request_run)
  obtain row where row: "row \<in> set (drop (length (w_audit demo_world)) (w_audit w'))"
    using r(2) by (cases "w_audit w'") auto
  have ok: "icinga_payload_ok demo_webhook" "dict_wf (pl_tags demo_webhook)" by code_simp+
  have sha: "length (x_sha256 demo_externals b) = 64" for b by (simp add: demo_externals_def demo_sha_def)
  have hmac: "hmac_ok (x_hmac demo_externals k b)" for k b by (simp add: demo_externals_def hmac_ok_def list_all_iff)
  obtain l where "audit_event_response (row_to_audit_event_list_row json_dumps row) = Inr l"
    "ae_raw_payload (al_event l) = []"
    using ingress_rows_served [OF r(1) ok sha hmac row, of json_dumps] by (elim exE conjE) (rule that)
  with r(1) row show ?thesis by (intro exI conjI) simp_all
qed

section \<open>Notification tasks\<close>

definition demo_dispatcher :: "(string, string) dispatcher" where
  "demo_dispatcher = \<lparr>dp_env = demo_plugin_env, dp_registry = demo_registry, dp_send = (\<lambda>p e. True)\<rparr>"

definition demo_task :: "(string, json) dict" where
  "demo_task =
     [(''incident_id'', JStr (uuid_str 5)), (''plugin_name'', JStr ''mail''), (''config_hash'', JStr ''h'')]"

lemma demo_notified:
  "case process_notification demo_dispatcher id True 7 demo_task [] [demo_row 1] of
     (ms', t', Inr res) \<Rightarrow> nr_success res | _ \<Rightarrow> False"
  by code_simp

theorem process_notification_spec_witness:
  "\<exists>ms' t' res plugin e.
     process_notification demo_dispatcher id True 7 demo_task [] [demo_row 1] = (ms', t', Inr res) \<and>
     ms' = record_delivery res [] \<and> delivery_attempt demo_dispatcher demo_task [demo_row 1] plugin e"
proof -
  obtain ms' t' res where
    r: "process_notification demo_dispatcher id True 7 demo_task [] [demo_row 1] = (ms', t', Inr res)" "nr_success res"
    using demo_notified by (auto split: prod.splits sum.splits)
  from process_notification_spec [OF r(1)] r show ?thesis by blast
qed

definition demo_smtp :: smtp_options where
  "demo_smtp =
     \<lparr>so_host = ''localhost'', so_port = 25, so_from_address = ''a@b'', so_to_addresses = [''c@d''],
      so_subject_prefix = [], so_username = None, so_password = None, so_use_tls = False, so_start_tls = None,
      so_validate_certs = True, so_timeout = 10\<rparr>"

definition demo_smtp_env :: "(string, smtp_options) plugin_env" where
  "demo_smtp_env =
     \<lparr>pv_import = (\<lambda>m c. Some c), pv_construct = (\<lambda>c opts. Some demo_smtp), pv_interface = (\<lambda>p. True),
      pv_status = (\<lambda>p. Some (smtp_status p))\<rparr>"

definition demo_smtp_registry :: "smtp_options registry" where
  "demo_smtp_registry =
     \<lparr>rg_entries = [(''mail'', hd demo_plugin_entries)], rg_positions = [(''mail'', 1)],
      rg_config_hash = ''h'', rg_plugins = [(''mail'', demo_smtp)]\<rparr>"

definition demo_smtp_dispatcher :: "(string, smtp_options) dispatcher" where
  "demo_smtp_dispatcher =
     \<lparr>dp_env = demo_smtp_env, dp_registry = demo_smtp_registry, dp_send = send_notification (\<lambda>s m. True)\<rparr>"

definition demo_long_row :: incident where
  "demo_long_row = (demo_row 1)\<lparr>inc_summary := ''line one'' @ [CHR 0x0A] @ ''line two''\<rparr>"

text \<open>A server that accepts every message, and a table with another incident, whose summary is one line.\<close>

definition demo_mixed_table :: incident_table where
  "demo_mixed_table = [demo_second_row, demo_long_row]"

lemma demo_multiline:
  "case process_notification demo_smtp_dispatcher id True 7 demo_task [] demo_mixed_table of
     (ms', t', Inr res) \<Rightarrow> nr_category res = Plugin_exception | _ \<Rightarrow> False"
  by code_simp

lemma demo_multiline_task:
  "map_sum id tp_incident_id (validate_task_payload demo_task) = Inr 5"
  "load_incident 5 demo_mixed_table = Some demo_long_row"
  by code_simp+

theorem multiline_summary_never_delivered_witness:
  "\<exists>ms' t' res. process_notification demo_smtp_dispatcher id True 7 demo_task [] demo_mixed_table = (ms', t', Inr res) \<and>
     nr_category res = Plugin_exception \<and> \<not> nr_success res"
proof -
  obtain ms' t' res where
    r: "process_notification demo_smtp_dispatcher id True 7 demo_task [] demo_mixed_table = (ms', t', Inr res)"
    "nr_category res = Plugin_exception"
    using demo_multiline by (auto split: prod.splits sum.splits)
  obtain task where task: "validate_task_payload demo_task = Inr task" "tp_incident_id task = 5"
    using demo_multiline_task(1) by (cases "validate_task_payload demo_task") auto
  have "load_incident (tp_incident_id task) demo_mixed_table = Some demo_long_row"
    using demo_multiline_task(2) task(2) by simp
  from multiline_summary_never_delivered [OF r(1) [unfolded demo_smtp_dispatcher_def] task(1) this,
      of "''line one''" "''line two''"] r
  show ?thesis by (intro exI) (simp add: demo_long_row_def)
qed

end
