(* ===== verification/RateLimit.thy ===== *)
theory RateLimit
  imports Complex_Main Prelude PyJson
begin

text \<open>
  The HTTP middleware: the classes of routes (\<open>app/middleware/classification.py\<close>), the
  in-process rate limiter (\<open>app/middleware/rate_limit.py\<close>) and the limit on request bodies
  (\<open>app/middleware/size_limit.py\<close>).  The monotonic clock is a rational number of seconds.
\<close>

section \<open>Route classes\<close>

datatype route_class = Operator_route | Ingress_route | Metrics_route | Readyz_route | Health_route

definition route_class_prefixes :: "(string \<times> route_class) list" where
  "route_class_prefixes =
     [(''/v1/icinga2/events'', Ingress_route), (''/v1/incident-events'', Operator_route),
      (''/v1/incidents'', Operator_route), (''/v1/rules'', Operator_route), (''/v1/topology'', Operator_route),
      (''/v1/plugins'', Operator_route), (''/v1/metrics'', Metrics_route), (''/v1/readyz'', Readyz_route),
      (''/v1/health'', Health_route)]"

definition classify_path :: "string \<Rightarrow> route_class" where
  "classify_path path =
     (case find (\<lambda>(p, c). path = p \<or> prefix (p @ ''/'') path) route_class_prefixes of
        None \<Rightarrow> Operator_route
      | Some (p, c) \<Rightarrow> c)"

fun route_class_value :: "route_class \<Rightarrow> string" where
  "route_class_value Operator_route = ''operator''"
| "route_class_value Ingress_route = ''ingress''"
| "route_class_value Metrics_route = ''metrics''"
| "route_class_value Readyz_route = ''readyz''"
| "route_class_value Health_route = ''health''"

section \<open>The limiter\<close>

text \<open>Per key: the count, the start of the window and its length.\<close>

type_synonym counters = "(string, int \<times> rat \<times> int) dict"

definition window_of :: "rat \<Rightarrow> int \<Rightarrow> (int \<times> rat \<times> int) option \<Rightarrow> int \<times> rat" where
  "window_of now window_seconds entry =
     (let (count, start) = (case entry of None \<Rightarrow> (0, now) | Some (c, s, _) \<Rightarrow> (c, s))
      in if now - start \<ge> of_int window_seconds then (0, now) else (count, start))"

definition check :: "rat \<Rightarrow> string \<Rightarrow> int \<Rightarrow> int \<Rightarrow> counters \<Rightarrow> counters \<times> bool \<times> int option" where
  "check now key limit window_seconds m =
     (let (count, start) = window_of now window_seconds (map_of m key)
      in if count \<ge> limit
         then (dict_set key (count, start, window_seconds) m, False,
               Some (max 1 (\<lceil>start + of_int window_seconds - now\<rceil>)))
         else (dict_set key (count + 1, start, window_seconds) m, True, None))"

definition sweep_expired :: "rat \<Rightarrow> counters \<Rightarrow> counters \<times> nat" where
  "sweep_expired now m =
     (let expired = (\<lambda>(k, (c, start, window_seconds)). now - start \<ge> of_int window_seconds)
      in (filter (\<lambda>e. \<not> expired e) m, length (filter expired m)))"

definition clear :: "counters \<Rightarrow> counters" where
  "clear m = []"

section \<open>The middleware\<close>

record rate_limit_config =
  rl_enabled :: bool
  rl_requests :: int
  rl_window_seconds :: int

datatype identity = Token_hash string | Ip string

text \<open>
  The identity of a request: the hash of its bearer token when it is the valid token of the
  class, the client address otherwise.
\<close>

definition identity_for_request ::
  "(bytes \<Rightarrow> string) \<Rightarrow> string \<Rightarrow> string option \<Rightarrow> route_class \<Rightarrow> (route_class, bytes) dict \<Rightarrow> identity" where
  "identity_for_request sha256 auth_header client c valid_tokens =
     (let by_address = Ip (case client of Some host \<Rightarrow> host | None \<Rightarrow> ''unknown'');
          token = drop 7 auth_header
      in if prefix ''bearer '' (str_lower auth_header) \<and> map_of valid_tokens c = Some (utf8_encode token)
         then Token_hash (sha256 (utf8_encode token)) else by_address)"

fun identity_str :: "identity \<Rightarrow> string" where
  "identity_str (Token_hash h) = ''token_hash:'' @ h"
| "identity_str (Ip a) = ''ip:'' @ a"

definition limiter_key :: "route_class \<Rightarrow> identity \<Rightarrow> string" where
  "limiter_key c i = route_class_value c @ '':'' @ identity_str i"

text \<open>\<open>None\<close>: the request is passed on.\<close>

definition dispatch ::
  "(bytes \<Rightarrow> string) \<Rightarrow> (route_class, rate_limit_config) dict \<Rightarrow> (route_class, bytes) dict \<Rightarrow> rat \<Rightarrow>
     string \<Rightarrow> string \<Rightarrow> string option \<Rightarrow> counters \<Rightarrow> counters \<times> (int \<times> int option) option" where
  "dispatch sha256 configs valid_tokens now path auth_header client m =
     (let c = classify_path path
      in case map_of configs c of
           None \<Rightarrow> (m, None)
         | Some cfg \<Rightarrow>
             if \<not> rl_enabled cfg \<or> rl_requests cfg \<le> 0 \<or> rl_window_seconds cfg \<le> 0 then (m, None)
             else (case check now (limiter_key c (identity_for_request sha256 auth_header client c valid_tokens))
                          (rl_requests cfg) (rl_window_seconds cfg) m of
                     (m', allowed, retry_after) \<Rightarrow>
                       (m', if allowed then None else Some (429, retry_after))))"

section \<open>Request bodies\<close>

record size_limits =
  sl_default_limit :: int
  sl_class_limits :: "(route_class, int option) dict"

definition new_size_limits :: "int \<Rightarrow> (route_class, int option) dict \<Rightarrow> size_limits" where
  "new_size_limits default_limit class_limits = \<lparr>sl_default_limit = max default_limit 0, sl_class_limits = class_limits\<rparr>"

definition limit_for :: "size_limits \<Rightarrow> route_class \<Rightarrow> int" where
  "limit_for s c =
     (case map_of (sl_class_limits s) c of Some (Some n) \<Rightarrow> n | _ \<Rightarrow> sl_default_limit s)"

text \<open>The messages of a request: chunks with \<open>more_body\<close>, or a disconnect.\<close>

datatype http_message = Chunk bytes bool | Disconnect

datatype size_decision =
    Forward "bytes option"   \<comment> \<open>the buffered body, or \<open>None\<close>: the original messages\<close>
  | Too_large
  | Dropped                  \<comment> \<open>no response is sent\<close>

fun buffer_body :: "int \<Rightarrow> bytes \<Rightarrow> http_message list \<Rightarrow> size_decision" where
  "buffer_body limit buffered [] = Dropped"
| "buffer_body limit buffered (Disconnect # messages) = Dropped"
| "buffer_body limit buffered (Chunk b more_body # messages) =
     (if int (length buffered + length b) > limit then Too_large
      else if more_body then buffer_body limit (buffered @ b) messages
      else Forward (Some (buffered @ b)))"

text \<open>\<open>content_length\<close> is the header as \<open>int\<close> reads it; a value it does not read counts as 0.\<close>

definition limit_request :: "size_limits \<Rightarrow> string \<Rightarrow> int option \<Rightarrow> http_message list \<Rightarrow> size_decision" where
  "limit_request s path content_length messages =
     (let limit = limit_for s (classify_path path)
      in if limit \<le> 0 then Forward None
         else if (case content_length of None \<Rightarrow> False | Some n \<Rightarrow> n > limit) then Too_large
         else buffer_body limit [] messages)"

section \<open>How many requests a window admits\<close>

datatype limiter_op = Check string rat | Sweep rat

fun op_time :: "limiter_op \<Rightarrow> rat" where
  "op_time (Check k t) = t"
| "op_time (Sweep t) = t"

text \<open>The admitted requests of a history, for the limit and the window of each key.\<close>

fun admissions :: "(string \<Rightarrow> int \<times> int) \<Rightarrow> limiter_op list \<Rightarrow> counters \<Rightarrow> (string \<times> rat) list" where
  "admissions cfg [] m = []"
| "admissions cfg (Check k t # ops) m =
     (case check t k (fst (cfg k)) (snd (cfg k)) m of
        (m', allowed, retry_after) \<Rightarrow> (if allowed then [(k, t)] else []) @ admissions cfg ops m')"
| "admissions cfg (Sweep t # ops) m = admissions cfg ops (fst (sweep_expired t m))"

definition admitted_between :: "string \<Rightarrow> rat \<Rightarrow> rat \<Rightarrow> (string \<times> rat) list \<Rightarrow> int" where
  "admitted_between k a b xs = int (length (filter (\<lambda>(k', t). k' = k \<and> a \<le> t \<and> t < b) xs))"

definition counter_ok :: "(string \<Rightarrow> int \<times> int) \<Rightarrow> string \<Rightarrow> counters \<Rightarrow> bool" where
  "counter_ok cfg k m \<longleftrightarrow> (case map_of m k of None \<Rightarrow> True | Some (c, s, w) \<Rightarrow> 0 \<le> c \<and> c \<le> fst (cfg k) \<and> w = snd (cfg k))"

lemma admitted_between_simps [simp]:
  "admitted_between k a b [] = 0"
  "admitted_between k a b ((k', t) # xs) =
     (if k' = k \<and> a \<le> t \<and> t < b then 1 else 0) + admitted_between k a b xs"
  by (simp_all add: admitted_between_def)

lemma admitted_nonneg: "0 \<le> admitted_between k a b xs"
  by (simp add: admitted_between_def)

lemma map_of_sweep:
  "dict_wf m \<Longrightarrow> map_of (fst (sweep_expired t m)) k =
     (case map_of m k of None \<Rightarrow> None | Some (c, s, w) \<Rightarrow> if t - s \<ge> of_int w then None else Some (c, s, w))"
  using map_of_filter_value [of m "\<lambda>(c, s, w). \<not> (t - s \<ge> of_int w)"]
  by (auto simp: sweep_expired_def case_prod_unfold split: option.split)

lemma dict_wf_check: "dict_wf m \<Longrightarrow> dict_wf (fst (check t k l w m))"
  by (simp add: check_def Let_def split: prod.split)

lemma dict_wf_sweep: "dict_wf m \<Longrightarrow> dict_wf (fst (sweep_expired t m))"
  by (simp add: sweep_expired_def Let_def dict_wf_filter)

lemma map_of_check:
  "map_of (fst (check t k l w m)) k' =
     (if k' = k then
        (let (c, s) = window_of t w (map_of m k)
         in Some (if c \<ge> l then c else c + 1, s, w))
      else map_of m k')"
  by (auto simp: check_def Let_def map_of_dict_set split: prod.split)

lemma allowed_check: "fst (snd (check t k l w m)) \<longleftrightarrow> fst (window_of t w (map_of m k)) < l"
  by (auto simp: check_def Let_def split: prod.split)

lemma admissions_Check:
  "admissions cfg (Check k t # ops) m =
     (if fst (snd (check t k (fst (cfg k)) (snd (cfg k)) m)) then [(k, t)] else []) @
     admissions cfg ops (fst (check t k (fst (cfg k)) (snd (cfg k)) m))"
  by (simp split: prod.split)

declare admissions.simps(2) [simp del]
declare admissions_Check [simp]

lemma counter_ok_check:
  assumes "counter_ok cfg k m" "0 \<le> fst (cfg k)"
  shows "counter_ok cfg k (fst (check t k' (fst (cfg k')) (snd (cfg k')) m))"
  using assms
  by (auto simp: counter_ok_def map_of_check window_of_def Let_def split: option.splits prod.splits if_splits)

lemma counter_ok_sweep: "counter_ok cfg k m \<Longrightarrow> dict_wf m \<Longrightarrow> counter_ok cfg k (fst (sweep_expired t m))"
  by (auto simp: counter_ok_def map_of_sweep split: option.splits)

lemma admitted_late:
  "\<forall>op \<in> set ops. b \<le> op_time op \<Longrightarrow> admitted_between k a b (admissions cfg ops m) = 0"
proof (induction ops arbitrary: m)
  case (Cons op ops)
  then show ?case by (cases op) auto
qed simp

text \<open>What is left of the current window bounds what it still admits.\<close>

lemma admitted_in_window:
  assumes "dict_wf m" "sorted (map op_time ops)" "map_of m k = Some (c, s, snd (cfg k))"
    and "c \<le> fst (cfg k)" "b \<le> s + of_int (snd (cfg k))"
  shows "admitted_between k a b (admissions cfg ops m) \<le> fst (cfg k) - c"
  using assms
proof (induction ops arbitrary: m c)
  case (Cons op ops)
  have sorted: "sorted (map op_time ops)" and later: "\<forall>x \<in> set ops. op_time op \<le> op_time x"
    using Cons.prems(2) by auto
  show ?case
  proof (cases "b \<le> op_time op")
    case True
    with later have "\<forall>x \<in> set (op # ops). b \<le> op_time x" by auto
    from admitted_late [OF this] Cons.prems(4) show ?thesis by simp
  next
    case False
    then have fresh: "\<not> op_time op - s \<ge> of_int (snd (cfg k))" using Cons.prems(5) by linarith
    show ?thesis
    proof (cases op)
      case (Check k' t)
      let ?m = "fst (check t k' (fst (cfg k')) (snd (cfg k')) m)"
      have wf: "dict_wf ?m" by (rule dict_wf_check [OF Cons.prems(1)])
      show ?thesis
      proof (cases "k' = k")
        case False
        then have "map_of ?m k = Some (c, s, snd (cfg k))" using Cons.prems(3) by (simp add: map_of_check)
        from Cons.IH [OF wf sorted this Cons.prems(4,5)] False show ?thesis by (simp add: Check)
      next
        case True
        have w: "window_of t (snd (cfg k)) (map_of m k) = (c, s)"
          using fresh Cons.prems(3) by (simp add: window_of_def Check)
        show ?thesis
        proof (cases "c < fst (cfg k)")
          case True
          then have "map_of ?m k = Some (c + 1, s, snd (cfg k))" using \<open>k' = k\<close> w by (simp add: map_of_check)
          from Cons.IH [OF wf sorted this _ Cons.prems(5)] True \<open>k' = k\<close> w show ?thesis
            by (simp add: Check allowed_check)
        next
          case False
          then have "map_of ?m k = Some (c, s, snd (cfg k))" using \<open>k' = k\<close> w by (simp add: map_of_check)
          from Cons.IH [OF wf sorted this Cons.prems(4,5)] False \<open>k' = k\<close> w show ?thesis
            by (simp add: Check allowed_check)
        qed
      qed
    next
      case (Sweep t)
      have "map_of (fst (sweep_expired t m)) k = Some (c, s, snd (cfg k))"
        using fresh Cons.prems(1,3) by (simp add: map_of_sweep Sweep)
      from Cons.IH [OF dict_wf_sweep [OF Cons.prems(1)] sorted this Cons.prems(4,5)] show ?thesis
        by (simp add: Sweep)
    qed
  qed
qed simp

lemma admitted_new_window:
  assumes "dict_wf m" "sorted (map op_time ops)" "0 \<le> fst (cfg k)" "counter_ok cfg k m"
    and "\<forall>op \<in> set ops. a \<le> op_time op"
  shows "admitted_between k a (a + of_int (snd (cfg k))) (admissions cfg ops m) \<le>
    (case map_of m k of None \<Rightarrow> fst (cfg k) | Some (c, _) \<Rightarrow> fst (cfg k) - c + fst (cfg k))"
  using assms
proof (induction ops arbitrary: m)
  case Nil
  then show ?case by (auto simp: counter_ok_def split: option.split)
next
  case (Cons op ops)
  let ?l = "fst (cfg k)" and ?w = "snd (cfg k)" and ?b = "a + of_int (snd (cfg k)) :: rat"
  have sorted: "sorted (map op_time ops)" and later: "\<forall>x \<in> set ops. a \<le> op_time x"
    using Cons.prems(2,5) by auto
  show ?case
  proof (cases op)
    case (Sweep t)
    have "admitted_between k a ?b (admissions cfg ops (fst (sweep_expired t m))) \<le>
      (case map_of (fst (sweep_expired t m)) k of None \<Rightarrow> ?l | Some (c, _) \<Rightarrow> ?l - c + ?l)"
      by (rule Cons.IH [OF dict_wf_sweep [OF Cons.prems(1)] sorted Cons.prems(3)
            counter_ok_sweep [OF Cons.prems(4,1)] later])
    with Cons.prems(3,4) show ?thesis
      by (auto simp: Sweep map_of_sweep [OF Cons.prems(1)] counter_ok_def split: option.splits if_splits)
  next
    case (Check k' t)
    let ?m = "fst (check t k' (fst (cfg k')) (snd (cfg k')) m)"
    have wf: "dict_wf ?m" by (rule dict_wf_check [OF Cons.prems(1)])
    have ok: "counter_ok cfg k ?m" by (rule counter_ok_check [OF Cons.prems(4,3)])
    have IH: "admitted_between k a ?b (admissions cfg ops ?m) \<le>
      (case map_of ?m k of None \<Rightarrow> ?l | Some (c, _) \<Rightarrow> ?l - c + ?l)"
      by (rule Cons.IH [OF wf sorted Cons.prems(3) ok later])
    show ?thesis
    proof (cases "k' = k")
      case False
      then have "map_of ?m k = map_of m k" by (simp add: map_of_check)
      with IH False show ?thesis by (simp add: Check)
    next
      case True
      have t: "a \<le> t" using Cons.prems(5) by (simp add: Check)
      obtain c s where w: "window_of t ?w (map_of m k) = (c, s)" by (cases "window_of t ?w (map_of m k)")
      have c: "0 \<le> c" "c \<le> ?l"
        using w Cons.prems(3,4) by (auto simp: window_of_def counter_ok_def Let_def split: option.splits if_splits)
      have m: "map_of ?m k = Some (if c \<ge> ?l then c else c + 1, s, ?w)"
        using True w by (simp add: map_of_check)
      have here: "admitted_between k a ?b (admissions cfg (op # ops) m) \<le>
          (if c < ?l then 1 else 0) + admitted_between k a ?b (admissions cfg ops ?m)"
        using True w admitted_nonneg by (simp add: Check allowed_check)
      show ?thesis
      proof (cases "s = t \<and> c = 0")
        case True
        have "admitted_between k a ?b (admissions cfg ops ?m) \<le> ?l - (if c \<ge> ?l then c else c + 1)"
          by (rule admitted_in_window [where cfg = cfg and k = k and s = s, OF wf sorted m]) (use c t True in auto)
        with here c have "admitted_between k a ?b (admissions cfg (op # ops) m) \<le> ?l" by (auto split: if_splits)
        with Cons.prems(3,4) show ?thesis by (auto simp: counter_ok_def split: option.split)
      next
        case False
        with w obtain v where "map_of m k = Some (c, s, v)"
          by (auto simp: window_of_def Let_def split: option.splits if_splits)
        with here IH m c show ?thesis by (auto split: if_splits)
      qed
    qed
  qed
qed

lemma admitted_bound:
  assumes "dict_wf m" "sorted (map op_time ops)" "0 \<le> fst (cfg k)" "counter_ok cfg k m"
  shows "admitted_between k a (a + of_int (snd (cfg k))) (admissions cfg ops m) \<le> 2 * fst (cfg k)"
  using assms
proof (induction ops arbitrary: m)
  case (Cons op ops)
  show ?case
  proof (cases "a \<le> op_time op")
    case True
    with Cons.prems(2) have "\<forall>x \<in> set (op # ops). a \<le> op_time x" by auto
    from admitted_new_window [OF Cons.prems this] Cons.prems(4) show ?thesis
      using Cons.prems(3) by (auto simp: counter_ok_def split: option.splits)
  next
    case False
    have sorted: "sorted (map op_time ops)" using Cons.prems(2) by simp
    show ?thesis
    proof (cases op)
      case (Check k' t)
      from Cons.IH [OF dict_wf_check [OF Cons.prems(1)] sorted Cons.prems(3) counter_ok_check [OF Cons.prems(4,3)]]
        False show ?thesis by (simp add: Check)
    next
      case (Sweep t)
      from Cons.IH [OF dict_wf_sweep [OF Cons.prems(1)] sorted Cons.prems(3) counter_ok_sweep [OF Cons.prems(4,1)]]
      show ?thesis by (simp add: Sweep)
    qed
  qed
qed simp

section \<open>Windows\<close>

text \<open>The counters after a history; the entry of a key is the window it is in.\<close>

fun counters_after :: "(string \<Rightarrow> int \<times> int) \<Rightarrow> limiter_op list \<Rightarrow> counters \<Rightarrow> counters" where
  "counters_after cfg [] m = m"
| "counters_after cfg (Check k t # ops) m = counters_after cfg ops (fst (check t k (fst (cfg k)) (snd (cfg k)) m))"
| "counters_after cfg (Sweep t # ops) m = counters_after cfg ops (fst (sweep_expired t m))"

lemma counters_after_append: "counters_after cfg (xs @ ys) m = counters_after cfg ys (counters_after cfg xs m)"
  by (induction cfg xs m rule: counters_after.induct) simp_all

lemma admissions_append:
  "admissions cfg (xs @ ys) m = admissions cfg xs m @ admissions cfg ys (counters_after cfg xs m)"
  by (induction cfg xs m rule: counters_after.induct) simp_all

lemma admitted_between_append [simp]:
  "admitted_between k a b (xs @ ys) = admitted_between k a b xs + admitted_between k a b ys"
  by (simp add: admitted_between_def)

lemma admitted_between_empty: "b \<le> a \<Longrightarrow> admitted_between k a b xs = 0"
  by (auto simp: admitted_between_def filter_empty_conv)

lemma admitted_between_earlier: "(\<And>t. (k, t) \<in> set xs \<Longrightarrow> t < a) \<Longrightarrow> admitted_between k a b xs = 0"
  by (force simp: admitted_between_def filter_empty_conv)

lemma dict_wf_counters_after: "dict_wf m \<Longrightarrow> dict_wf (counters_after cfg ops m)"
  by (induction cfg ops m rule: counters_after.induct) (simp_all add: dict_wf_check dict_wf_sweep)

text \<open>
  At time \<open>T\<close>, after the admissions \<open>adm\<close>: the entry counts the admissions since the start of its window,
  and none of the earlier ones reaches its end; without an entry all admissions are in the past.
\<close>

definition window_counts ::
  "(string \<Rightarrow> int \<times> int) \<Rightarrow> string \<Rightarrow> rat \<Rightarrow> (string \<times> rat) list \<Rightarrow> counters \<Rightarrow> bool" where
  "window_counts cfg k T adm m \<longleftrightarrow>
     (case map_of m k of
        None \<Rightarrow> \<forall>t. (k, t) \<in> set adm \<longrightarrow> t < T
      | Some (c, s, w) \<Rightarrow>
          w = snd (cfg k) \<and> s \<le> T \<and> 0 \<le> c \<and> c \<le> fst (cfg k) \<and>
          (\<forall>t. (k, t) \<in> set adm \<longrightarrow> t < s + of_int w) \<and> admitted_between k s (s + of_int w) adm = c)"

lemma window_counts_Check:
  assumes "window_counts cfg k T adm m" "T \<le> t" "0 \<le> fst (cfg k)" "0 < snd (cfg k)"
  shows "window_counts cfg k t (adm @ admissions cfg [Check k' t] m) (counters_after cfg [Check k' t] m)"
proof (cases "k' = k")
  case False
  then have "admissions cfg [Check k' t] m = [] \<or> admissions cfg [Check k' t] m = [(k', t)]"
    by simp
  with False assms(1,2) show ?thesis
    by (force simp: window_counts_def map_of_check split: option.splits)
next
  case True
  let ?l = "fst (cfg k)" and ?w = "snd (cfg k)"
  obtain c s where w: "window_of t ?w (map_of m k) = (c, s)" by (cases "window_of t ?w (map_of m k)")
  have opened: "s = t \<and> c = 0 \<and> (\<forall>a. (k, a) \<in> set adm \<longrightarrow> a < t) \<or>
      map_of m k = Some (c, s, ?w) \<and> t < s + of_int ?w"
    using w assms(1,2,4)
    by (force simp: window_of_def window_counts_def Let_def split: option.splits if_splits)
  then have s: "s \<le> t" "t < s + of_int ?w" and c: "0 \<le> c" "c \<le> ?l"
    and adm: "\<forall>a. (k, a) \<in> set adm \<longrightarrow> a < s + of_int ?w" "admitted_between k s (s + of_int ?w) adm = c"
    using assms by (auto simp: window_counts_def admitted_between_earlier)
  then show ?thesis
    using True w by (auto simp: window_counts_def map_of_check allowed_check)
qed

lemma window_counts_Sweep:
  assumes "window_counts cfg k T adm m" "T \<le> t" "dict_wf m"
  shows "window_counts cfg k t (adm @ admissions cfg [Sweep t] m) (counters_after cfg [Sweep t] m)"
  using assms
  by (fastforce simp: window_counts_def map_of_sweep split: option.splits)

lemma window_counts_after:
  assumes "sorted (map op_time ops)" "\<forall>op \<in> set ops. op_time op \<le> T" "0 \<le> fst (cfg k)" "0 < snd (cfg k)"
  shows "window_counts cfg k T (admissions cfg ops []) (counters_after cfg ops [])"
  using assms(1,2)
proof (induction ops arbitrary: T rule: rev_induct)
  case Nil
  then show ?case by (simp add: window_counts_def)
next
  case (snoc op ops)
  have IH: "window_counts cfg k (op_time op) (admissions cfg ops []) (counters_after cfg ops [])"
    by (rule snoc.IH) (use snoc.prems in \<open>auto simp: sorted_append\<close>)
  have wf: "dict_wf (counters_after cfg ops [])" by (rule dict_wf_counters_after) simp
  have "window_counts cfg k (op_time op) (admissions cfg (ops @ [op]) []) (counters_after cfg (ops @ [op]) [])"
    unfolding admissions_append counters_after_append
    using window_counts_Check [OF IH _ assms(3,4)] window_counts_Sweep [OF IH _ wf] by (cases op) auto
  moreover have "op_time op \<le> T" using snoc.prems by simp
  ultimately show ?case
    by (force simp: window_counts_def split: option.splits)
qed

lemma admitted_per_window:
  assumes "sorted (map op_time (ops1 @ ops2))" "0 \<le> fst (cfg k)"
    and "map_of (counters_after cfg ops1 []) k = Some (c, s, w)"
  shows "admitted_between k s (s + of_int (snd (cfg k))) (admissions cfg (ops1 @ ops2) []) \<le> fst (cfg k)"
proof (cases "0 < snd (cfg k)")
  case False
  then show ?thesis using assms(2) by (simp add: admitted_between_empty del: admitted_between_append)
next
  case True
  have "\<forall>op \<in> set ops1. op_time op \<le> Max (op_time ` set ops1)" by simp
  then obtain T where "\<forall>op \<in> set ops1. op_time op \<le> T" by blast
  with assms(1,2) True have "window_counts cfg k T (admissions cfg ops1 []) (counters_after cfg ops1 [])"
    by (intro window_counts_after) (auto simp: sorted_append)
  with assms(3) have c: "w = snd (cfg k)" "c \<le> fst (cfg k)"
    "admitted_between k s (s + of_int w) (admissions cfg ops1 []) = c"
    by (auto simp: window_counts_def)
  have "admitted_between k s (s + of_int (snd (cfg k))) (admissions cfg ops2 (counters_after cfg ops1 [])) \<le> fst (cfg k) - c"
    by (rule admitted_in_window [where s = s])
      (use assms(1,3) c(1,2) in \<open>auto simp: sorted_append dict_wf_counters_after\<close>)
  with c show ?thesis by (simp add: admissions_append)
qed

text \<open>Every admission falls into the window that the counters hold right after it.\<close>

lemma admission_window:
  assumes "sorted (map op_time ops)" "0 \<le> fst (cfg k)" "0 < snd (cfg k)" "(k, t) \<in> set (admissions cfg ops [])"
  shows "\<exists>ops1 ops2 c s. ops = ops1 @ ops2 \<and> map_of (counters_after cfg ops1 []) k = Some (c, s, snd (cfg k)) \<and>
    s \<le> t \<and> t < s + of_int (snd (cfg k))"
  using assms(1,4)
proof (induction ops rule: rev_induct)
  case (snoc op ops)
  show ?case
  proof (cases "(k, t) \<in> set (admissions cfg ops [])")
    case True
    with snoc obtain ops1 ops2 c s where "ops = ops1 @ ops2" "map_of (counters_after cfg ops1 []) k = Some (c, s, snd (cfg k))"
      "s \<le> t" "t < s + of_int (snd (cfg k))"
      by (auto simp: sorted_append)
    then show ?thesis by (intro exI [of _ ops1] exI [of _ "ops2 @ [op]"]) auto
  next
    case False
    let ?m = "counters_after cfg ops []"
    from False snoc.prems(2) have op: "op = Check k t"
      by (cases op) (auto simp: admissions_append split: if_splits)
    have "window_counts cfg k t (admissions cfg ops []) ?m"
      by (rule window_counts_after) (use snoc.prems(1) op assms(2,3) in \<open>auto simp: sorted_append\<close>)
    moreover obtain c s where w: "window_of t (snd (cfg k)) (map_of ?m k) = (c, s)"
      by (cases "window_of t (snd (cfg k)) (map_of ?m k)")
    ultimately have "s \<le> t" "t < s + of_int (snd (cfg k))"
      using assms(3) by (auto simp: window_of_def window_counts_def Let_def split: option.splits if_splits)
    with w show ?thesis
      by (intro exI [of _ "ops @ [op]"] exI [of _ "[]"]) (auto simp: counters_after_append op map_of_check)
  qed
qed simp

text \<open>
  C40: whatever other keys do and whenever sweeps run, no interval of the window's length admits
  more than twice the limit for one key (a fixed window admits a full limit on both sides of its
  boundary); within one window, as the counters hold it at some point of the history, at most the
  limit is admitted over the whole history, and every admission falls into such a window.
\<close>

theorem rate_limit_bound:
  assumes "sorted (map op_time ops)" "0 \<le> fst (cfg k)"
  shows "admitted_between k a (a + of_int (snd (cfg k))) (admissions cfg ops []) \<le> 2 * fst (cfg k) \<and>
    (\<forall>ops1 ops2 c s w. ops = ops1 @ ops2 \<and> map_of (counters_after cfg ops1 []) k = Some (c, s, w) \<longrightarrow>
       admitted_between k s (s + of_int (snd (cfg k))) (admissions cfg ops []) \<le> fst (cfg k)) \<and>
    (\<forall>t. 0 < snd (cfg k) \<and> (k, t) \<in> set (admissions cfg ops []) \<longrightarrow>
       (\<exists>ops1 ops2 c s. ops = ops1 @ ops2 \<and> map_of (counters_after cfg ops1 []) k = Some (c, s, snd (cfg k)) \<and>
          s \<le> t \<and> t < s + of_int (snd (cfg k))))"
proof (intro conjI allI impI)
  show "admitted_between k a (a + of_int (snd (cfg k))) (admissions cfg ops []) \<le> 2 * fst (cfg k)"
    by (rule admitted_bound [where m = "[]"]) (use assms in \<open>simp_all add: counter_ok_def\<close>)
next
  fix ops1 ops2 c s w
  assume "ops = ops1 @ ops2 \<and> map_of (counters_after cfg ops1 []) k = Some (c, s, w)"
  with admitted_per_window [of ops1 ops2 cfg k c s w] assms
  show "admitted_between k s (s + of_int (snd (cfg k))) (admissions cfg ops []) \<le> fst (cfg k)" by blast
next
  fix t
  assume "0 < snd (cfg k) \<and> (k, t) \<in> set (admissions cfg ops [])"
  with admission_window [of ops cfg k t] assms show "\<exists>ops1 ops2 c s. ops = ops1 @ ops2 \<and>
      map_of (counters_after cfg ops1 []) k = Some (c, s, snd (cfg k)) \<and> s \<le> t \<and> t < s + of_int (snd (cfg k))"
    by blast
qed

text \<open>
  A refusal tells the truth: it asks to wait at least one second and at most the window (or
  one second), and a request made that much later is admitted.
\<close>

lemma retry_after_honoured:
  assumes "check now k limit w m = (m', False, r)" "0 < limit" "0 < w"
    and "\<And>c s v. map_of m k = Some (c, s, v) \<Longrightarrow> s \<le> now"
  shows "\<exists>n. r = Some n \<and> 1 \<le> n \<and> n \<le> w \<and>
    (\<forall>t. now + of_int n \<le> t \<longrightarrow> fst (snd (check t k limit w m')))"
proof -
  obtain c s where w: "window_of now w (map_of m k) = (c, s)" by (cases "window_of now w (map_of m k)")
  with assms(1) have full: "limit \<le> c" and m': "m' = dict_set k (c, s, w) m"
    and r: "r = Some (max 1 \<lceil>s + of_int w - now\<rceil>)"
    by (auto simp: check_def Let_def split: if_splits)
  from full assms(2) w obtain v where v: "map_of m k = Some (c, s, v)" and open_window: "now - s < of_int w"
    by (auto simp: window_of_def Let_def not_le split: option.splits if_splits)
  have s: "s \<le> now" by (rule assms(4) [OF v])
  let ?n = "\<lceil>s + of_int w - now\<rceil>"
  have "?n \<le> w" using s by (simp add: ceiling_le_iff)
  moreover have "fst (snd (check t k limit w m'))" if "now + of_int (max 1 ?n) \<le> t" for t
  proof -
    have "s + of_int w - now \<le> of_int ?n" by (rule le_of_int_ceiling)
    also have "\<dots> \<le> (of_int (max 1 ?n) :: rat)" by simp
    finally have "of_int w \<le> t - s" using that by linarith
    then show ?thesis using assms(2) by (simp add: allowed_check m' map_of_dict_set window_of_def)
  qed
  ultimately show ?thesis using assms(3) r by (intro exI [of _ "max 1 ?n"]) auto
qed

lemma buffer_body_Forward:
  "buffer_body limit buffered messages = Forward b \<Longrightarrow>
     \<exists>chunks tail rest. messages = map (\<lambda>b. Chunk b True) chunks @ Chunk tail False # rest \<and>
       b = Some (buffered @ concat chunks @ tail) \<and> int (length (buffered @ concat chunks @ tail)) \<le> limit"
proof (induction limit buffered messages rule: buffer_body.induct)
  case (3 limit buffered x more_body messages)
  show ?case
  proof (cases more_body)
    case True
    with 3 obtain chunks tail rest where "messages = map (\<lambda>b. Chunk b True) chunks @ Chunk tail False # rest"
      "b = Some ((buffered @ x) @ concat chunks @ tail)" "int (length ((buffered @ x) @ concat chunks @ tail)) \<le> limit"
      by (auto split: if_splits)
    with True show ?thesis by (intro exI [of _ "x # chunks"] exI [of _ tail] exI [of _ rest]) simp
  next
    case False
    with 3 show ?thesis by (intro exI [of _ "[]"] exI [of _ x] exI [of _ messages]) (simp split: if_splits)
  qed
qed simp_all

lemma buffer_body_Too_large:
  "limit < int (length (buffered @ concat chunks @ tail)) \<Longrightarrow>
     buffer_body limit buffered (map (\<lambda>b. Chunk b True) chunks @ Chunk tail False # rest) = Too_large"
  by (induction chunks arbitrary: buffered) auto

text \<open>
  The body that is passed on is the concatenation of the chunks received, within the limit of
  the route's class; a longer body is refused however it is split into chunks and whatever length
  it declares.
\<close>

lemma buffered_body_limited:
  assumes "0 < limit_for s (classify_path path)"
  shows "(\<forall>body. limit_request s path len messages = Forward (Some body) \<longrightarrow>
       int (length body) \<le> limit_for s (classify_path path) \<and>
       (\<exists>chunks tail rest. messages = map (\<lambda>b. Chunk b True) chunks @ Chunk tail False # rest \<and>
          body = concat chunks @ tail)) \<and>
    (\<forall>chunks tail rest. messages = map (\<lambda>b. Chunk b True) chunks @ Chunk tail False # rest \<longrightarrow>
       limit_for s (classify_path path) < int (length (concat chunks @ tail)) \<longrightarrow>
       limit_request s path len messages = Too_large) \<and>
    limit_request s path len messages \<noteq> Forward None"
proof -
  let ?limit = "limit_for s (classify_path path)"
  have l: "limit_request s path len messages = buffer_body ?limit [] messages \<or>
      limit_request s path len messages = Too_large"
    using assms by (simp add: limit_request_def Let_def)
  have "int (length body) \<le> ?limit \<and>
       (\<exists>chunks tail rest. messages = map (\<lambda>b. Chunk b True) chunks @ Chunk tail False # rest \<and>
          body = concat chunks @ tail)" if "limit_request s path len messages = Forward (Some body)" for body
    using l that buffer_body_Forward [of ?limit "[]" messages "Some body"] by auto
  moreover have "limit_request s path len messages \<noteq> Forward None"
    using l buffer_body_Forward [of ?limit "[]" messages None] by auto
  moreover have "limit_request s path len messages = Too_large"
    if "messages = map (\<lambda>b. Chunk b True) chunks @ Chunk tail False # rest"
      "?limit < int (length (concat chunks @ tail))" for chunks tail rest
    using l buffer_body_Too_large [of ?limit "[]" chunks tail rest] that by auto
  ultimately show ?thesis by blast
qed

end
