(* ===== verification/Access.thy ===== *)
theory Access
  imports Prelude
begin

text \<open>
  The settings with their validation (\<open>app/config/settings.py\<close>) and the bearer tokens that
  guard the routes (\<open>app/api/security.py\<close>).
\<close>

section \<open>Settings\<close>

datatype environment = Local_env | Test_env | Production_env

datatype log_level = Debug_level | Info_level | Warning_level | Error_level

text \<open>\<open>database_url\<close> is left out: its validation and its use are those of libraries.\<close>

record settings =
  st_environment :: environment
  st_log_level :: log_level
  st_rules_path :: "string option"
  st_topology_path :: "string option"
  st_plugins_path :: "string option"
  st_lifecycle_scan_interval_seconds :: int
  st_lifecycle_batch_size :: int
  st_api_auth_enabled :: bool
  st_operator_api_token :: "string option"
  st_ingress_api_token :: "string option"
  st_expose_readyz :: bool
  st_expose_metrics :: bool
  st_migration_report_path :: "string option"
  st_max_body_bytes :: int
  st_max_body_bytes_operator :: "int option"
  st_max_body_bytes_ingress :: "int option"
  st_max_body_bytes_metrics :: "int option"
  st_max_body_bytes_readyz :: "int option"
  st_max_body_bytes_health :: "int option"
  st_rate_limit_enabled :: bool
  st_rate_limit_requests_operator :: int
  st_rate_limit_window_seconds_operator :: int
  st_rate_limit_requests_ingress :: int
  st_rate_limit_window_seconds_ingress :: int
  st_rate_limit_requests_metrics :: int
  st_rate_limit_window_seconds_metrics :: int
  st_rate_limit_requests_readyz :: int
  st_rate_limit_window_seconds_readyz :: int
  st_rate_limit_requests_health :: int
  st_rate_limit_window_seconds_health :: int
  st_rate_limit_sweep_interval_seconds :: int
  st_audit_raw_payload_max_bytes :: int
  st_audit_raw_payload_hmac_key :: string

definition body_limit_ok :: "int option \<Rightarrow> bool" where
  "body_limit_ok n \<longleftrightarrow> (case n of None \<Rightarrow> True | Some b \<Rightarrow> 1024 \<le> b)"

definition settings_bounds :: "settings \<Rightarrow> bool" where
  "settings_bounds s \<longleftrightarrow>
     1 \<le> st_lifecycle_scan_interval_seconds s \<and> st_lifecycle_scan_interval_seconds s \<le> 86400 \<and>
     1 \<le> st_lifecycle_batch_size s \<and> st_lifecycle_batch_size s \<le> 1000 \<and>
     1024 \<le> st_max_body_bytes s \<and>
     body_limit_ok (st_max_body_bytes_operator s) \<and> body_limit_ok (st_max_body_bytes_ingress s) \<and>
     body_limit_ok (st_max_body_bytes_metrics s) \<and> body_limit_ok (st_max_body_bytes_readyz s) \<and>
     body_limit_ok (st_max_body_bytes_health s) \<and>
     1 \<le> st_rate_limit_requests_operator s \<and> 1 \<le> st_rate_limit_window_seconds_operator s \<and>
     1 \<le> st_rate_limit_requests_ingress s \<and> 1 \<le> st_rate_limit_window_seconds_ingress s \<and>
     1 \<le> st_rate_limit_requests_metrics s \<and> 1 \<le> st_rate_limit_window_seconds_metrics s \<and>
     1 \<le> st_rate_limit_requests_readyz s \<and> 1 \<le> st_rate_limit_window_seconds_readyz s \<and>
     1 \<le> st_rate_limit_requests_health s \<and> 1 \<le> st_rate_limit_window_seconds_health s \<and>
     1 \<le> st_rate_limit_sweep_interval_seconds s \<and> st_rate_limit_sweep_interval_seconds s \<le> 3600 \<and>
     1024 \<le> st_audit_raw_payload_max_bytes s \<and> st_audit_raw_payload_max_bytes s \<le> 1048576"

definition blank_token :: "string option \<Rightarrow> bool" where
  "blank_token x \<longleftrightarrow> (case x of None \<Rightarrow> True | Some s \<Rightarrow> str_strip s = [])"

text \<open>\<open>_require_security_tokens_when_enabled\<close>.\<close>

definition security_tokens_ok :: "settings \<Rightarrow> bool" where
  "security_tokens_ok s \<longleftrightarrow>
     (st_environment s = Production_env \<longrightarrow>
        st_api_auth_enabled s \<and> \<not> st_expose_readyz s \<and> \<not> st_expose_metrics s) \<and>
     (st_api_auth_enabled s \<longrightarrow>
        \<not> blank_token (st_operator_api_token s) \<and> \<not> blank_token (st_ingress_api_token s) \<and>
        st_operator_api_token s \<noteq> st_ingress_api_token s)"

text \<open>\<open>_require_audit_hmac_key\<close>.\<close>

definition audit_hmac_key_ok :: "settings \<Rightarrow> bool" where
  "audit_hmac_key_ok s \<longleftrightarrow>
     str_strip (st_audit_raw_payload_hmac_key s) \<noteq> [] \<and>
     st_operator_api_token s \<noteq> Some (st_audit_raw_payload_hmac_key s) \<and>
     st_ingress_api_token s \<noteq> Some (st_audit_raw_payload_hmac_key s)"

definition settings_validate :: "settings \<Rightarrow> settings result" where
  "settings_validate s =
     (if settings_bounds s \<and> security_tokens_ok s \<and> audit_hmac_key_ok s then Inr s else Inl ValidationError)"

section \<open>Tokens\<close>

text \<open>\<open>secrets.compare_digest\<close> of two strings raises a \<open>TypeError\<close> unless both are ASCII.\<close>

definition is_ascii :: "string \<Rightarrow> bool" where
  "is_ascii s \<longleftrightarrow> list_all (\<lambda>c. char_code c < 128) s"

definition compare_digest :: "string \<Rightarrow> string \<Rightarrow> bool result" where
  "compare_digest a b = (if is_ascii a \<and> is_ascii b then Inr (a = b) else Inl TypeError)"

definition token_matches :: "string option \<Rightarrow> string option \<Rightarrow> bool" where
  "token_matches credentials expected =
     (case (credentials, expected) of
        (Some c, Some e) \<Rightarrow> (case compare_digest c e of Inl _ \<Rightarrow> False | Inr b \<Rightarrow> b)
      | _ \<Rightarrow> False)"

definition require_operator_token :: "settings \<Rightarrow> string option \<Rightarrow> bool" where
  "require_operator_token s credentials \<longleftrightarrow>
     \<not> st_api_auth_enabled s \<or> token_matches credentials (st_operator_api_token s)"

definition require_ingress_token :: "settings \<Rightarrow> string option \<Rightarrow> bool" where
  "require_ingress_token s credentials \<longleftrightarrow>
     \<not> st_api_auth_enabled s \<or> token_matches credentials (st_ingress_api_token s)"

text \<open>A guarded route: 401 before anything else happens.\<close>

definition guarded :: "bool \<Rightarrow> 'w \<times> 'a response \<Rightarrow> 'w \<Rightarrow> 'w \<times> 'a response" where
  "guarded authorised handled w = (if authorised then handled else (w, Http_error 401))"

lemma token_matches_Some: "token_matches c e \<longleftrightarrow> (\<exists>s. c = Some s \<and> e = Some s \<and> is_ascii s)"
  by (auto simp: token_matches_def compare_digest_def split: option.splits)

text \<open>
  With validated settings, authentication enabled, each token opens its own routes and
  no other: no credential is accepted both by an operator route and by the webhook, a request
  without credentials and the audit key are accepted by neither, and a production deployment is
  always authenticated.
\<close>

lemma tokens_separate:
  assumes "settings_validate s = Inr s'"
  shows "s' = s \<and>
    (st_environment s = Production_env \<longrightarrow> st_api_auth_enabled s) \<and>
    (st_api_auth_enabled s \<longrightarrow>
       \<not> (require_operator_token s c \<and> require_ingress_token s c) \<and>
       \<not> require_operator_token s None \<and> \<not> require_ingress_token s None \<and>
       \<not> require_operator_token s (Some (st_audit_raw_payload_hmac_key s)) \<and>
       \<not> require_ingress_token s (Some (st_audit_raw_payload_hmac_key s)) \<and>
       (\<forall>w a x. \<not> require_operator_token s c \<longrightarrow> guarded (require_operator_token s c) (a, x) w = (w, Http_error 401)))"
  using assms
  by (auto simp: settings_validate_def security_tokens_ok_def audit_hmac_key_ok_def require_operator_token_def
      require_ingress_token_def token_matches_Some guarded_def split: if_splits)

end
