(* ===== verification/IncidentApi.thy ===== *)
theory IncidentApi
  imports IncidentListing Metrics System
begin

text \<open>
  The operator routes of \<open>app/api/routers/incidents.py\<close>: listing, reading, acknowledging and
  closing incidents, and the compatibility routes PATCH and DELETE.  A handler returns the
  counters, the table and the response; an exception no handler catches is a 500.
\<close>

section \<open>Responses\<close>

definition safe_decision_context :: "decision_context \<Rightarrow> decision_context" where
  "safe_decision_context c = (case decision_context_validate c of Inl _ \<Rightarrow> empty_context | Inr c' \<Rightarrow> c')"

definition acknowledgement_ok :: "incident \<Rightarrow> bool" where
  "acknowledgement_ok r \<longleftrightarrow>
     (case inc_acknowledged_by r of None \<Rightarrow> True | Some s \<Rightarrow> 1 \<le> length s \<and> length s \<le> 128)"

definition incident_detail_ok :: "incident \<Rightarrow> bool" where
  "incident_detail_ok r \<longleftrightarrow>
     bounded_string (inc_rule_name r) \<and> bounded_string (inc_group_key r) \<and> bounded_string (inc_summary r) \<and>
     0 \<le> inc_event_count r \<and> acknowledgement_ok r \<and>
     list_all bounded_string (inc_affected_hosts r) \<and> length (inc_affected_hosts r) \<le> 100 \<and>
     list_all bounded_string (inc_affected_services r) \<and> length (inc_affected_services r) \<le> 100"

definition incident_response :: "incident \<Rightarrow> incident result" where
  "incident_response r =
     rbind (severity_of (inc_severity r)) (\<lambda>_.
     if incident_detail_ok r
     then Inr (r\<lparr>inc_decision_context := safe_decision_context (inc_decision_context r)\<rparr>)
     else Inl ValidationError)"

definition listed_response :: "listed_incident \<Rightarrow> listed_incident result" where
  "listed_response l = rbind (incident_response (li_row l)) (\<lambda>r. Inr (l\<lparr>li_row := r\<rparr>))"

definition ok_or_500 :: "'a result \<Rightarrow> 'a response" where
  "ok_or_500 x = (case x of Inl _ \<Rightarrow> Http_error 500 | Inr v \<Rightarrow> Response 200 v)"

section \<open>Reading\<close>

text \<open>The query parameters FastAPI checks; the model checks the time zone as well.\<close>

definition list_query_ok :: "incident_list_filters \<Rightarrow> bool" where
  "list_query_ok f \<longleftrightarrow>
     opt_bounded (lf_rule_name f) \<and> opt_bounded (lf_host f) \<and> opt_bounded (lf_service f) \<and>
     1 \<le> lf_limit f \<and> lf_limit f \<le> 200 \<and>
     (case lf_cursor f of None \<Rightarrow> True | Some c \<Rightarrow> 1 \<le> length c \<and> length c \<le> 512) \<and> opt_ge 0 (lf_offset f)"

record list_response =
  lr_items :: "listed_incident list"
  lr_total :: int
  lr_limit :: int
  lr_offset :: int
  lr_next_cursor :: "string option"

definition list_incidents_endpoint ::
  "cursor_parsers \<Rightarrow> incident_list_filters \<Rightarrow> incident_table \<Rightarrow> list_response response" where
  "list_incidents_endpoint ps f t =
     (if \<not> list_query_ok f then Http_error 422
      else if \<not> incident_list_filters_ok f then Http_error 500
      else case list_incidents ps f t of
          Inl ValueError \<Rightarrow> Http_error 400
        | Inl _ \<Rightarrow> Http_error 500
        | Inr page \<Rightarrow>
            ok_or_500 (rbind (rmapM listed_response (ip_incidents page)) (\<lambda>items.
              Inr \<lparr>lr_items = items, lr_total = ip_total page, lr_limit = lf_limit f,
                   lr_offset = ip_offset page, lr_next_cursor = ip_next_cursor page\<rparr>)))"

definition get_incident :: "uuid \<Rightarrow> incident_table \<Rightarrow> incident response" where
  "get_incident ident t =
     (case get_incident_by_id ident t of
        None \<Rightarrow> Http_error 404
      | Some r \<Rightarrow> ok_or_500 (incident_response r))"

section \<open>Operator actions\<close>

type_synonym 'a handled = "metrics \<times> incident_table \<times> 'a response"

text \<open>
  The common tail of the four mutating handlers: 404 for an unknown incident, then the commit,
  then the response.  \<open>tally\<close> is what the compatibility routes record, by outcome.
\<close>

definition mutate ::
  "bool \<Rightarrow> (compatibility_outcome \<Rightarrow> metrics \<Rightarrow> metrics) \<Rightarrow>
     (incident_table \<times> lifecycle_write_result option) result \<Rightarrow> metrics \<Rightarrow> incident_table \<Rightarrow> incident handled" where
  "mutate commit_ok tally result ms t =
     (case result of
        Inl _ \<Rightarrow> (ms, t, Http_error 500)
      | Inr (_, None) \<Rightarrow> (tally Not_found ms, t, Http_error 404)
      | Inr (t', Some w) \<Rightarrow>
          if \<not> commit_ok then (ms, t, Http_error 500)
          else (tally (if lw_effect w \<noteq> Noop then Mutation_success else Invalid_transition) ms, t',
                ok_or_500 (incident_response (lw_incident w))))"

definition acknowledge_incident ::
  "bool \<Rightarrow> int \<Rightarrow> uuid \<Rightarrow> string \<Rightarrow> metrics \<Rightarrow> incident_table \<Rightarrow> incident handled" where
  "acknowledge_incident commit_ok now ident operator ms t =
     (case ack_request_validate operator of
        Inl _ \<Rightarrow> (ms, t, Http_error 422)
      | Inr _ \<Rightarrow> mutate commit_ok (\<lambda>_ ms. ms) (ack_open_incident now ident operator t) ms t)"

definition close_incident_endpoint ::
  "bool \<Rightarrow> int \<Rightarrow> uuid \<Rightarrow> string \<Rightarrow> string \<Rightarrow> metrics \<Rightarrow> incident_table \<Rightarrow> incident handled" where
  "close_incident_endpoint commit_ok now ident operator reason ms t =
     (case close_request_validate operator reason of
        Inl _ \<Rightarrow> (ms, t, Http_error 422)
      | Inr _ \<Rightarrow> mutate commit_ok (\<lambda>_ ms. ms) (close_open_incident now ident operator reason t) ms t)"

definition vigilo_compat :: string where
  "vigilo_compat = ''vigilo-compat''"

text \<open>\<open>body\<close> is the request's JSON, \<open>None\<close> when it cannot be parsed.\<close>

definition patch_incident ::
  "bool \<Rightarrow> int \<Rightarrow> uuid \<Rightarrow> json option \<Rightarrow> metrics \<Rightarrow> incident_table \<Rightarrow> incident handled" where
  "patch_incident commit_ok now ident json_body ms t =
     (let invalid = (record_compatibility_mutation Patch Invalid_status ms, t, Http_error 422)
      in case json_body of
           Some (JObj d) \<Rightarrow>
             if list_ex (\<lambda>k. k \<noteq> ''status'') (dict_keys d) then invalid
             else if map_of d ''status'' = Some (JStr ''ACKNOWLEDGED'') then
               mutate commit_ok (record_compatibility_mutation Patch_acknowledge)
                 (ack_open_incident now ident vigilo_compat t) ms t
             else if map_of d ''status'' = Some (JStr ''CLOSED'') then
               mutate commit_ok (record_compatibility_mutation Patch_close)
                 (close_open_incident now ident vigilo_compat vigilo_compat t) ms t
             else invalid
         | _ \<Rightarrow> invalid)"

definition delete_incident :: "bool \<Rightarrow> int \<Rightarrow> uuid \<Rightarrow> metrics \<Rightarrow> incident_table \<Rightarrow> incident handled" where
  "delete_incident commit_ok now ident ms t =
     mutate commit_ok (record_compatibility_mutation Delete_close)
       (close_open_incident now ident vigilo_compat vigilo_compat t) ms t"

section \<open>Facts\<close>

text \<open>The requests that change incidents through the API.\<close>

datatype api_request =
    Ack_request string
  | Close_request string string
  | Patch_request "json option"
  | Delete_request

definition handle ::
  "bool \<Rightarrow> int \<Rightarrow> uuid \<Rightarrow> api_request \<Rightarrow> metrics \<Rightarrow> incident_table \<Rightarrow> incident handled" where
  "handle commit_ok now ident q =
     (case q of
        Ack_request operator \<Rightarrow> acknowledge_incident commit_ok now ident operator
      | Close_request operator reason \<Rightarrow> close_incident_endpoint commit_ok now ident operator reason
      | Patch_request json_body \<Rightarrow> patch_incident commit_ok now ident json_body
      | Delete_request \<Rightarrow> delete_incident commit_ok now ident)"

definition compat_request :: "api_request \<Rightarrow> bool" where
  "compat_request q \<longleftrightarrow> (\<exists>b. q = Patch_request b) \<or> q = Delete_request"

definition compat_total :: "metrics \<Rightarrow> nat" where
  "compat_total ms = length (filter (\<lambda>m. case m of Compatibility_mutations op res \<Rightarrow> True | _ \<Rightarrow> False) ms)"

lemma compat_total_record [simp]: "compat_total (record_compatibility_mutation op res ms) = Suc (compat_total ms)"
  by (simp add: compat_total_def record_compatibility_mutation_def inc_def)

lemma effects_record [simp]:
  "counter (record_compatibility_mutation op res ms) (Incident_effects e) = counter ms (Incident_effects e)"
  by (simp add: record_compatibility_mutation_def)

lemma ok_or_500_cases: "ok_or_500 x = Response c v \<Longrightarrow> c = 200" "ok_or_500 x = Http_error c \<Longrightarrow> c = 500"
  by (auto simp: ok_or_500_def split: sum.splits)

lemma incident_response_id: "incident_response r = Inr r' \<Longrightarrow> inc_id r' = inc_id r"
  by (auto simp: incident_response_def result_simps split: if_splits)

text \<open>A write of one of the two operator actions.\<close>

definition operator_write ::
  "int \<Rightarrow> uuid \<Rightarrow> incident_table \<Rightarrow> (incident_table \<times> lifecycle_write_result option) result \<Rightarrow> bool" where
  "operator_write now ident t result \<longleftrightarrow>
     (\<exists>operator. result = ack_open_incident now ident operator t) \<or>
     (\<exists>operator reason. result = close_open_incident now ident operator reason t)"

lemma operator_write_intros [simp]:
  "operator_write now ident t (ack_open_incident now ident operator t)"
  "operator_write now ident t (close_open_incident now ident operator reason t)"
  by (auto simp: operator_write_def)

lemma operator_write_step:
  assumes "operator_write now ident t (Inr (t', res))"
  shows "db_step t None t'"
  using assms unfolding operator_write_def
proof (elim disjE exE)
  fix operator assume a: "Inr (t', res) = ack_open_incident now ident operator t"
  then have "\<exists>ms lr. acknowledge True now ident operator [] t = (ms, Inr (t', lr))"
    by (cases res) (simp_all add: acknowledge_def finish_action_def a [symmetric])
  then show ?thesis by (elim exE) (rule db_step.acknowledged)
next
  fix operator reason assume a: "Inr (t', res) = close_open_incident now ident operator reason t"
  then have "\<exists>ms lr. manual_close True now ident operator reason [] t = (ms, Inr (t', lr))"
    by (cases res) (simp_all add: manual_close_def finish_action_def a [symmetric])
  then show ?thesis by (elim exE) (rule db_step.closed)
qed

lemma operator_write_result:
  assumes "operator_write now ident t (Inr (t', res))" "table_inv t"
  shows "(res = None \<longrightarrow> t' = t \<and> ident \<notin> inc_id ` set t) \<and>
    (\<forall>w. res = Some w \<longrightarrow> inc_id (lw_incident w) = ident)"
  using assms(1) unfolding operator_write_def
proof (elim disjE exE)
  fix operator assume "Inr (t', res) = ack_open_incident now ident operator t"
  from this [symmetric] table_inv_unique [OF assms(2)] show ?thesis
    by (cases rule: ack_open_incident_cases) (auto simp: acknowledged_row_def)
next
  fix operator reason assume "Inr (t', res) = close_open_incident now ident operator reason t"
  from this [symmetric] table_inv_unique [OF assms(2)] show ?thesis
    by (cases rule: close_open_incident_cases) (auto simp: close_row_def)
qed

text \<open>What a request does: counters, table and response.\<close>

definition handled_well ::
  "int \<Rightarrow> uuid \<Rightarrow> nat \<Rightarrow> metrics \<Rightarrow> incident_table \<Rightarrow> metrics \<Rightarrow> incident_table \<Rightarrow> incident response \<Rightarrow> bool" where
  "handled_well now ident n ms t ms' t' res \<longleftrightarrow>
     (\<forall>e. counter ms' (Incident_effects e) = counter ms (Incident_effects e)) \<and>
     (res \<noteq> Http_error 500 \<longrightarrow> compat_total ms' = compat_total ms + n) \<and>
     db_step t None t' \<and>
     (res \<in> {Http_error 404, Http_error 422} \<longrightarrow> t' = t) \<and>
     (res = Http_error 404 \<longrightarrow> ident \<notin> inc_id ` set t) \<and>
     (\<forall>c v. res = Response c v \<longrightarrow> c = 200 \<and> inc_id v = ident)"

lemma mutate_well:
  assumes "mutate commit_ok tally result ms t = (ms', t', res)" "table_inv t" "operator_write now ident t result"
    and "\<And>a ms e. counter (tally a ms) (Incident_effects e) = counter ms (Incident_effects e)"
    and "\<And>a ms. compat_total (tally a ms) = compat_total ms + n"
  shows "handled_well now ident n ms t ms' t' res"
proof (cases result)
  case (Inl e)
  with assms(1) show ?thesis by (auto simp: mutate_def handled_well_def db_step.rolled_back)
next
  case (Inr p)
  obtain t1 w where p: "p = (t1, w)" by (cases p)
  have result: "operator_write now ident t (Inr (t1, w))" using assms(3) by (simp add: Inr p)
  note facts = operator_write_result [OF result assms(2)] and step = operator_write_step [OF result]
  show ?thesis
  proof (cases w)
    case None
    with assms(1,4,5) Inr p facts show ?thesis by (auto simp: mutate_def handled_well_def db_step.rolled_back)
  next
    case (Some lw)
    show ?thesis
    proof (cases commit_ok)
      case False
      with assms(1) Inr p Some show ?thesis by (auto simp: mutate_def handled_well_def db_step.rolled_back)
    next
      case True
      with assms(1,4,5) Inr p Some facts step show ?thesis
        by (auto simp: mutate_def handled_well_def ok_or_500_def dest: incident_response_id split: sum.splits)
    qed
  qed
qed

lemma refused_well:
  "n = 0 \<Longrightarrow> handled_well now ident n ms t ms t (Http_error 422)"
  "n = 1 \<Longrightarrow> handled_well now ident n ms t (record_compatibility_mutation op res ms) t (Http_error 422)"
  by (simp_all add: handled_well_def db_step.rolled_back)

text \<open>
  C26: an operator request is a step of the incident table, which a refusal (404 or 422)
  leaves unchanged; 404 is only answered for an incident that does not exist; a response
  describes the incident asked for.  Every compatibility request that does not fail is
  counted exactly once; but no request, not even a successful acknowledgement or close, is
  counted as an incident effect: the routes bypass the manager that counts them.
\<close>

theorem api_requests_spec:
  assumes "handle commit_ok now ident q ms t = (ms', t', res)" "table_inv t"
  shows "handled_well now ident (if compat_request q then 1 else 0) ms t ms' t' res"
proof (cases q)
  case (Ack_request operator)
  with assms show ?thesis
    by (auto simp: handle_def acknowledge_incident_def compat_request_def refused_well
        split: sum.splits elim!: mutate_well)
next
  case (Close_request operator reason)
  with assms show ?thesis
    by (auto simp: handle_def close_incident_endpoint_def compat_request_def refused_well
        split: sum.splits elim!: mutate_well)
next
  case (Patch_request b)
  with assms show ?thesis
    by (auto simp: handle_def patch_incident_def compat_request_def refused_well Let_def
        split: option.splits json.splits if_splits elim!: mutate_well)
next
  case Delete_request
  with assms show ?thesis
    by (auto simp: handle_def delete_incident_def compat_request_def elim!: mutate_well)
qed

end
