(* ===== verification/WitnessesApi.thy ===== *)
theory WitnessesApi
  imports DemoData RateLimit Access IncidentApi
begin

text \<open>
  The properties of the middleware, of the tokens and of the operator routes, applied at concrete
  requests.
\<close>

section \<open>Rate and size limits\<close>

text \<open>Two requests admitted two seconds apart, on both sides of a window boundary.\<close>

definition demo_requests :: "limiter_op list" where
  "demo_requests = [Check ''k'' 0, Check ''k'' 9, Check ''k'' 10, Sweep 11, Check ''k'' 11]"

theorem rate_limit_bound_witness:
  "admitted_between ''k'' 0 11 (admissions (\<lambda>_. (1, 11)) demo_requests []) \<le> 2 \<and>
   map_of (counters_after (\<lambda>_. (1, 11)) demo_requests []) ''k'' = Some (1, 11, 11) \<and>
   admitted_between ''k'' 11 22 (admissions (\<lambda>_. (1, 11)) demo_requests []) \<le> 1"
proof -
  have sorted: "sorted (map op_time demo_requests)" by (simp add: demo_requests_def)
  have window: "map_of (counters_after (\<lambda>_. (1, 11)) demo_requests []) ''k'' = Some (1, 11, 11)" by code_simp
  have limit: "0 \<le> fst ((\<lambda>_. (1, 11)) ''k'' :: int \<times> int)" by simp
  note bound = rate_limit_bound [OF sorted, of "\<lambda>_. (1, 11)" "''k''" 0, OF limit]
  have "admitted_between ''k'' 11 22 (admissions (\<lambda>_. (1, 11)) demo_requests []) \<le> 1"
    using bound [THEN conjunct2, THEN conjunct1, rule_format, of demo_requests "[]" 1 11 11] window by simp
  moreover have "admitted_between ''k'' 0 11 (admissions (\<lambda>_. (1, 11)) demo_requests []) \<le> 2"
    using bound [THEN conjunct1] by simp
  ultimately show ?thesis
    using window by simp
qed

section \<open>Tokens\<close>

definition demo_settings :: settings where
  "demo_settings =
     \<lparr>st_environment = Production_env, st_log_level = Info_level, st_rules_path = None, st_topology_path = None,
      st_plugins_path = None, st_lifecycle_scan_interval_seconds = 60, st_lifecycle_batch_size = 100,
      st_api_auth_enabled = True, st_operator_api_token = Some ''op'', st_ingress_api_token = Some ''in'',
      st_expose_readyz = False, st_expose_metrics = False, st_migration_report_path = None,
      st_max_body_bytes = 65536, st_max_body_bytes_operator = None, st_max_body_bytes_ingress = None,
      st_max_body_bytes_metrics = Some 1024, st_max_body_bytes_readyz = None, st_max_body_bytes_health = None,
      st_rate_limit_enabled = True,
      st_rate_limit_requests_operator = 60, st_rate_limit_window_seconds_operator = 60,
      st_rate_limit_requests_ingress = 120, st_rate_limit_window_seconds_ingress = 60,
      st_rate_limit_requests_metrics = 30, st_rate_limit_window_seconds_metrics = 60,
      st_rate_limit_requests_readyz = 60, st_rate_limit_window_seconds_readyz = 60,
      st_rate_limit_requests_health = 120, st_rate_limit_window_seconds_health = 60,
      st_rate_limit_sweep_interval_seconds = 60,
      st_audit_raw_payload_max_bytes = 65536, st_audit_raw_payload_hmac_key = ''key''\<rparr>"

section \<open>Operator routes\<close>

lemma demo_handled:
  "case handle True 7 5 (Patch_request (Some (JObj [(''status'', JStr ''ACKNOWLEDGED'')]))) [] [demo_row 1] of
     (ms', t', Response c v) \<Rightarrow> True | _ \<Rightarrow> False"
  by code_simp

theorem api_requests_spec_witness:
  "\<exists>ms' t' v. handle True 7 5 (Patch_request (Some (JObj [(''status'', JStr ''ACKNOWLEDGED'')]))) [] [demo_row 1] =
       (ms', t', Response 200 v) \<and>
     inc_id v = 5 \<and> compat_total ms' = 1"
proof -
  let ?q = "Patch_request (Some (JObj [(''status'', JStr ''ACKNOWLEDGED'')]))"
  obtain ms' t' c v where r: "handle True 7 5 ?q [] [demo_row 1] = (ms', t', Response c v)"
    using demo_handled by (auto split: prod.splits response.splits)
  from api_requests_spec [OF r table_inv_demo_row(1)]
  have "c = 200 \<and> inc_id v = 5 \<and> compat_total ms' = 1"
    by (simp add: handled_well_def compat_request_def compat_total_def)
  with r show ?thesis by (intro exI [of _ ms'] exI [of _ t'] exI [of _ v]) simp
qed

end
