(* ===== verification/Wiring.thy ===== *)
theory Wiring
  imports RateLimit Access
begin

text \<open>
  The HTTP side of \<open>app/main.py\<close>: how \<open>create_app\<close> configures the middleware from the settings, in
  which order a request passes it, and which token guards which route.
\<close>

section \<open>Middleware configuration\<close>





section \<open>The application\<close>



section \<open>Routes\<close>






section \<open>A request\<close>






section \<open>Validation errors\<close>

record validation_error =
  ve_loc :: "json list"
  ve_msg :: string
  ve_type :: string

definition is_tag_error :: "string \<Rightarrow> validation_error \<Rightarrow> bool" where
  "is_tag_error path e \<longleftrightarrow>
     path = ''/v1/icinga2/events'' \<and> take 2 (ve_loc e) = [JStr ''body'', JStr ''tags'']"

definition tag_error :: "string \<Rightarrow> validation_error" where
  "tag_error message = \<lparr>ve_loc = [JStr ''body'', JStr ''tags''], ve_msg = message, ve_type = ''value_error.event_tags''\<rparr>"

text \<open>\<open>message\<close> is \<open>EVENT_TAG_ERROR_MESSAGE\<close>; the flag tells whether a tag error was reported.\<close>

fun safe_validation_errors :: "string \<Rightarrow> string \<Rightarrow> bool \<Rightarrow> validation_error list \<Rightarrow> validation_error list" where
  "safe_validation_errors message path has_tag_error [] = []"
| "safe_validation_errors message path has_tag_error (e # es) =
     (if is_tag_error path e
      then (if has_tag_error then [] else [tag_error message]) @ safe_validation_errors message path True es
      else e # safe_validation_errors message path has_tag_error es)"

section \<open>Tokens and classes\<close>












end
