(* ===== verification/Worker.thy ===== *)
theory Worker
  imports System LifecycleProps RateLimit
begin

text \<open>
  The two background workers: \<open>app/processing/lifecycle_worker.py\<close>, which expires stale incidents,
  and the sweep worker of \<open>app/middleware/rate_limit.py\<close>.  Both run one task that repeats a sweep
  until their stop event is set.
\<close>

section \<open>The loop\<close>

text \<open>
  The task of a loop is before its next test of the stop event (or waiting for it), in a sweep,
  or done.  \<open>lp_stop\<close> is the stop event, with whether it is set.
\<close>

datatype loop_task = Waiting | Sweeping | Finished

record loop =
  lp_task :: "loop_task option"
  lp_stop :: "bool option"

definition new_loop :: loop where
  "new_loop = \<lparr>lp_task = None, lp_stop = None\<rparr>"

definition loop_start :: "loop \<Rightarrow> loop" where
  "loop_start l =
     (if lp_task l = Some Waiting \<or> lp_task l = Some Sweeping then l
      else \<lparr>lp_task = Some Waiting, lp_stop = Some False\<rparr>)"

text \<open>\<open>stop\<close> up to the wait for the task, and what it does after the wait.\<close>

definition loop_request_stop :: "loop \<Rightarrow> loop" where
  "loop_request_stop l =
     (if lp_task l = None \<or> lp_stop l = None then l else l\<lparr>lp_stop := Some True\<rparr>)"

definition loop_finish_stop :: "loop \<Rightarrow> loop" where
  "loop_finish_stop l = \<lparr>lp_task = None, lp_stop = None\<rparr>"

text \<open>One test of the loop condition.\<close>

definition loop_test :: "loop \<Rightarrow> loop" where
  "loop_test l =
     (if lp_task l \<noteq> Some Waiting then l
      else if lp_stop l = Some False then l\<lparr>lp_task := Some Sweeping\<rparr> else l\<lparr>lp_task := Some Finished\<rparr>)"

section \<open>The lifecycle worker\<close>

record lifecycle_worker =
  wk_interval_seconds :: int
  wk_batch_size :: int
  wk_loop :: loop
  wk_healthy :: bool
  wk_last_sweep_at :: "int option"
  wk_last_error_category :: "exn option"
  wk_expired_total :: int

definition new_lifecycle_worker :: "int \<Rightarrow> int \<Rightarrow> lifecycle_worker result" where
  "new_lifecycle_worker interval_seconds batch_size =
     (if interval_seconds \<le> 0 then Inl ValueError
      else if batch_size < 1 then Inl ValueError
      else Inr \<lparr>wk_interval_seconds = interval_seconds, wk_batch_size = batch_size, wk_loop = new_loop,
                wk_healthy = False, wk_last_sweep_at = None, wk_last_error_category = None,
                wk_expired_total = 0\<rparr>)"

text \<open>
  \<open>_run_sweep\<close>, given the outcome of the sweep; the second component is the gauge
  \<open>correlia_lifecycle_worker_healthy\<close>.
\<close>

definition run_sweep :: "int \<Rightarrow> int result \<Rightarrow> lifecycle_worker \<Rightarrow> lifecycle_worker \<times> bool" where
  "run_sweep now res w =
     (case res of
        Inl err \<Rightarrow> (w\<lparr>wk_healthy := False, wk_last_error_category := Some err\<rparr>, False)
      | Inr n \<Rightarrow> (w\<lparr>wk_expired_total := wk_expired_total w + n, wk_last_sweep_at := Some now,
                  wk_last_error_category := None, wk_healthy := True\<rparr>, True))"

definition over_loop :: "(loop \<Rightarrow> loop) \<Rightarrow> lifecycle_worker \<Rightarrow> lifecycle_worker" where
  "over_loop f w = w\<lparr>wk_loop := f (wk_loop w)\<rparr>"

text \<open>One sweep on the database: the batch is a transaction.\<close>

definition sweep_database ::
  "bool \<Rightarrow> int \<Rightarrow> lifecycle_worker \<times> bool \<times> metrics \<times> incident_table \<Rightarrow>
     lifecycle_worker \<times> bool \<times> metrics \<times> incident_table" where
  "sweep_database commit_ok now = (\<lambda>(w, gauge, ms, t).
     case expire_stale_batch commit_ok now (wk_batch_size w) ms t of
       (ms', Inl err) \<Rightarrow> (let (w', gauge') = run_sweep now (Inl err) w in (w', gauge', ms', t))
     | (ms', Inr (t', n)) \<Rightarrow> (let (w', gauge') = run_sweep now (Inr n) w in (w', gauge', ms', t')))"

section \<open>The rate limit sweep worker\<close>

record sweep_worker =
  sw_interval_seconds :: int
  sw_loop :: loop

definition new_sweep_worker :: "int \<Rightarrow> sweep_worker result" where
  "new_sweep_worker interval_seconds =
     (if interval_seconds \<le> 0 then Inl ValueError
      else Inr \<lparr>sw_interval_seconds = interval_seconds, sw_loop = new_loop\<rparr>)"

definition sweep_counters :: "rat \<Rightarrow> sweep_worker \<times> counters \<Rightarrow> sweep_worker \<times> counters" where
  "sweep_counters now = (\<lambda>(w, m). (w, fst (sweep_expired now m)))"

section \<open>Steps\<close>

text \<open>
  The lifecycle worker beside the rest of the program, which runs its own transactions and counts
  its own metrics.
\<close>

type_synonym worker_state = "lifecycle_worker \<times> bool \<times> metrics \<times> incident_table"

inductive worker_step :: "worker_state \<Rightarrow> worker_state \<Rightarrow> bool" where
  started: "worker_step (w, g, ms, t) (over_loop loop_start w, g, ms, t)"
| tested: "worker_step (w, g, ms, t) (over_loop loop_test w, g, ms, t)"
| swept: "lp_task (wk_loop w) = Some Sweeping \<Longrightarrow> sweep_database ok now (w, g, ms, t) = (w', g', ms', t') \<Longrightarrow>
    worker_step (w, g, ms, t) (over_loop (\<lambda>l. l\<lparr>lp_task := Some Waiting\<rparr>) w', g', ms', t')"
| stopping: "worker_step (w, g, ms, t) (over_loop loop_request_stop w, g, ms, t)"
| stopped: "lp_stop (wk_loop w) = Some True \<Longrightarrow>
    worker_step (w, g, ms, t) (over_loop loop_finish_stop w, False, ms, t)"
| elsewhere: "db_step t l t' \<Longrightarrow> worker_step (w, g, ms, t) (w, g, ms @ added, t')"

text \<open>The states a worker can be in, from its construction on a database in any sound state.\<close>

inductive worker_reachable :: "int \<Rightarrow> int \<Rightarrow> worker_state \<Rightarrow> bool" for interval batch where
  start: "new_lifecycle_worker interval batch = Inr w \<Longrightarrow> table_inv t \<Longrightarrow>
    worker_reachable interval batch (w, False, ms, t)"
| step: "worker_reachable interval batch s \<Longrightarrow> worker_step s s' \<Longrightarrow> worker_reachable interval batch s'"

section \<open>Invariant\<close>

definition loop_ok :: "loop \<Rightarrow> bool" where
  "loop_ok l \<longleftrightarrow> (lp_task l = None \<longleftrightarrow> lp_stop l = None) \<and> (lp_task l = Some Finished \<longrightarrow> lp_stop l = Some True)"

definition expired_count :: "metrics \<Rightarrow> int" where
  "expired_count ms = int (counter ms (Incident_effects (Lifecycle_effect Expired)))"

definition worker_ok :: "int \<Rightarrow> int \<Rightarrow> worker_state \<Rightarrow> bool" where
  "worker_ok interval batch = (\<lambda>(w, gauge, ms, t).
     table_inv t \<and> loop_ok (wk_loop w) \<and> wk_interval_seconds w = interval \<and> wk_batch_size w = batch \<and>
     0 < interval \<and> 1 \<le> batch \<and>
     (gauge \<longrightarrow> wk_healthy w \<and> wk_loop w \<noteq> new_loop) \<and>
     (wk_healthy w \<longrightarrow> wk_last_error_category w = None \<and> wk_last_sweep_at w \<noteq> None) \<and>
     0 \<le> wk_expired_total w \<and> wk_expired_total w \<le> expired_count ms)"

lemma over_loop_simps [simp]:
  "wk_loop (over_loop f w) = f (wk_loop w)" "wk_interval_seconds (over_loop f w) = wk_interval_seconds w"
  "wk_batch_size (over_loop f w) = wk_batch_size w" "wk_healthy (over_loop f w) = wk_healthy w"
  "wk_last_sweep_at (over_loop f w) = wk_last_sweep_at w"
  "wk_last_error_category (over_loop f w) = wk_last_error_category w"
  "wk_expired_total (over_loop f w) = wk_expired_total w"
  by (simp_all add: over_loop_def)

lemma loop_ok_steps [simp]:
  "loop_ok new_loop" "loop_ok l \<Longrightarrow> loop_ok (loop_start l)" "loop_ok l \<Longrightarrow> loop_ok (loop_request_stop l)"
  "loop_ok (loop_finish_stop l)" "loop_ok l \<Longrightarrow> loop_ok (loop_test l)"
  by (auto simp: loop_ok_def new_loop_def loop_start_def loop_request_stop_def loop_finish_stop_def loop_test_def)

lemma loop_alive [simp]:
  "loop_start l \<noteq> new_loop" "l \<noteq> new_loop \<Longrightarrow> loop_test l \<noteq> new_loop"
  "l \<noteq> new_loop \<Longrightarrow> loop_request_stop l \<noteq> new_loop" "l\<lparr>lp_task := Some x\<rparr> \<noteq> new_loop"
  by (cases l; auto simp: new_loop_def loop_start_def loop_request_stop_def loop_test_def)+

lemma expired_count_append: "expired_count ms \<le> expired_count (ms @ added)"
  by (simp add: expired_count_def counter_def)

lemma expired_count_fold:
  "expired_count (fold (\<lambda>_. record_incident_effect (Lifecycle_effect Expired)) xs ms) = expired_count ms + int (length xs)"
  by (induction xs arbitrary: ms) (simp_all add: expired_count_def record_incident_effect_def)

lemma sweep_database_cases:
  assumes "sweep_database ok now (w, g, ms, t) = (w', g', ms', t')"
  obtains (failed) err where "w' = w\<lparr>wk_healthy := False, wk_last_error_category := Some err\<rparr>" "\<not> g'" "t' = t"
      "expired_count ms \<le> expired_count ms'"
    | (completed) n where "w' = w\<lparr>wk_expired_total := wk_expired_total w + int n, wk_last_sweep_at := Some now,
        wk_last_error_category := None, wk_healthy := True\<rparr>" "g'"
      "expire_stale_batch ok now (wk_batch_size w) ms t = (ms', Inr (t', int n))"
      "expired_count ms' = expired_count ms + int n"
proof (cases "expire_stale_incidents now (wk_batch_size w) t")
  case (Inl err)
  with assms show thesis
    by (intro failed [of err]) (auto simp: sweep_database_def expire_stale_batch_def run_sweep_def)
next
  case (Inr r)
  obtain t1 expired where r: "r = (t1, expired)" by (cases r)
  show thesis
  proof (cases ok)
    case True
    with assms Inr r show thesis
      by (intro completed [of "length expired"])
        (auto simp: sweep_database_def expire_stale_batch_def run_sweep_def expired_count_fold)
  next
    case False
    with assms Inr r show thesis
      by (intro failed [of DatabaseError])
        (auto simp: sweep_database_def expire_stale_batch_def run_sweep_def expired_count_fold)
  qed
qed

lemma worker_ok_step:
  assumes "worker_step s s'" "worker_ok interval batch s"
  shows "worker_ok interval batch s'"
  using assms(1)
proof cases
  case (swept w ok now g ms t w' g' ms' t')
  have ok: "worker_ok interval batch (w, g, ms, t)" using assms(2) swept(1) by simp
  have loop: "loop_ok (wk_loop w\<lparr>lp_task := Some Waiting\<rparr>)"
    using ok swept(3) by (simp add: worker_ok_def loop_ok_def)
  from swept(4) show ?thesis
  proof (cases rule: sweep_database_cases)
    case (failed err)
    with ok loop show ?thesis by (auto simp: worker_ok_def swept(2))
  next
    case (completed n)
    have "table_inv t'"
      using db_step_facts [OF db_step.expired [OF completed(3)]] ok by (simp add: worker_ok_def)
    with completed ok loop show ?thesis by (auto simp: worker_ok_def swept(2))
  qed
next
  case (elsewhere t l t' w g ms added)
  then have "table_inv t'" using assms(2) db_step_facts by (auto simp: worker_ok_def)
  with elsewhere assms(2) expired_count_append [of ms added] show ?thesis by (auto simp: worker_ok_def)
qed (use assms(2) in \<open>auto simp: worker_ok_def\<close>)

lemma worker_reachable_ok: "worker_reachable interval batch s \<Longrightarrow> worker_ok interval batch s"
proof (induction rule: worker_reachable.induct)
  case (start w t ms)
  then show ?case
    by (auto simp: worker_ok_def new_lifecycle_worker_def expired_count_def split: if_splits)
next
  case (step s s')
  then show ?case by (blast intro: worker_ok_step)
qed

section \<open>Working off a backlog\<close>

text \<open>\<open>k\<close> sweeps at the times \<open>now\<close>, each committed.\<close>

fun sweeps :: "int list \<Rightarrow> worker_state \<Rightarrow> worker_state" where
  "sweeps [] s = s"
| "sweeps (now # nows) s = sweeps nows (sweep_database True now s)"

definition expirable :: "incident \<Rightarrow> bool" where
  "expirable r \<longleftrightarrow>
     safe_text (Some (inc_rule_name r)) \<and>
     (\<forall>w. inc_window_state r = Some w \<longrightarrow>
        int4_ok (ws_window_seconds w) \<and> int (length (ws_active_objects w)) < 2 ^ 31)"

definition open_count :: "incident_table \<Rightarrow> nat" where
  "open_count t = length (filter inc_open t)"

lemma open_count_abs: "open_count t = length (filter (\<lambda>(i, s, objs). s = OPEN) (map abs_incident t))"
  by (induction t) (simp_all add: open_count_def abs_incident_def)

lemma open_count_expired:
  assumes "expire_stale_incidents now limit t = Inr (t', expired)" "table_inv t"
  shows "open_count t = open_count t' + length expired"
proof -
  note f = expire_stale_facts [OF assms]
  let ?E = "inc_id ` set expired"
  have ids: "distinct (map inc_id t)" by (rule table_inv_ids [OF assms(2)])
  have sorted: "map inc_id expired = take (nat limit) (sort (map inc_id (stale_rows now t)))" using f by blast
  have "distinct (map inc_id (stale_rows now t))" using ids by (simp add: stale_rows_def distinct_map_filter)
  then have dist: "distinct (map inc_id expired)" unfolding sorted by (simp add: distinct_take)
  have "set (map inc_id expired) \<subseteq> set (map inc_id (stale_rows now t))"
    unfolding sorted by (metis set_sort set_take_subset)
  then have sub: "?E \<subseteq> inc_id ` set (stale_rows now t)" by (simp only: list.set_map)
  let ?in = "filter (\<lambda>r. inc_id r \<in> ?E) t"
  have opened: "inc_open r" if "r \<in> set ?in" for r
  proof -
    from that sub obtain x where "x \<in> set t" "inc_open x" "inc_id x = inc_id r" by (auto simp: stale_rows_def)
    moreover have "r \<in> set t" using that by simp
    ultimately show ?thesis using same_id_same_row [OF table_inv_unique [OF assms(2)]] by blast
  qed
  have "?E \<subseteq> inc_id ` set t" by (rule subset_trans [OF sub]) (auto simp: stale_rows_def)
  moreover have "E \<subseteq> f ` A \<Longrightarrow> f ` {x \<in> A. f x \<in> E} = E" for E :: "uuid set" and f :: "incident \<Rightarrow> uuid" and A by blast
  ultimately have "set (map inc_id ?in) = ?E" by (simp only: list.set_map set_filter)
  moreover have "distinct (map inc_id ?in)" using ids by (simp add: distinct_map_filter)
  ultimately have "length (map inc_id ?in) = card ?E" by (metis distinct_card)
  also have "\<dots> = length expired" using dist by (metis distinct_card length_map list.set_map)
  finally have n: "length ?in = length expired" by simp
  have "open_count t' = length (filter (\<lambda>r. inc_open r \<and> inc_id r \<notin> ?E) t)"
  proof -
    have abs: "map abs_incident t' =
      map (\<lambda>r. if inc_id r \<in> ?E then (inc_id r, CLOSED, objects_of r) else abs_incident r) t" using f by blast
    show ?thesis
      unfolding open_count_abs abs filter_map length_map
      by (rule arg_cong [where f = length], rule filter_cong) (auto simp: abs_incident_def)
  qed
  moreover have "filter (\<lambda>r. inc_open r \<and> inc_id r \<in> ?E) t = ?in"
    using opened by (intro filter_cong) auto
  moreover have "open_count t = length (filter (\<lambda>r. inc_open r \<and> inc_id r \<in> ?E) t) +
      length (filter (\<lambda>r. inc_open r \<and> inc_id r \<notin> ?E) t)"
    unfolding open_count_def by (induction t) auto
  ultimately show ?thesis using n by simp
qed

lemma sweep_expirable:
  assumes "table_inv t" "\<forall>r \<in> set t. inc_open r \<longrightarrow> expirable r" "sweep_database True now (w, g, ms, t) = (w', g', ms', t')"
  shows "table_inv t'" "\<forall>r \<in> set t'. inc_open r \<longrightarrow> expirable r" "wk_healthy w'" "g'" "wk_batch_size w' = wk_batch_size w"
    "wk_expired_total w' = wk_expired_total w + (int (open_count t) - int (open_count t'))"
    "open_count t' \<le> open_count t"
    "wk_batch_size w \<le> int (open_count t) - int (open_count t') \<or> \<not> 1 \<le> wk_batch_size w \<or>
       (\<forall>r \<in> set t'. inc_open r \<longrightarrow> \<not> is_stale now r)"
    "\<forall>r \<in> set t'. inc_open r \<longrightarrow> r \<in> set t"
proof -
  have "\<exists>t1 expired. expire_stale_incidents now (wk_batch_size w) t = Inr (t1, expired)"
    by (rule expire_stale_total [OF assms(1)]) (use assms(2) in \<open>auto simp: expirable_def\<close>)
  then obtain t1 expired where e: "expire_stale_incidents now (wk_batch_size w) t = Inr (t1, expired)" by blast
  have w': "w' = w\<lparr>wk_expired_total := wk_expired_total w + int (length expired), wk_last_sweep_at := Some now,
      wk_last_error_category := None, wk_healthy := True\<rparr>" "g'" "t' = t1"
    using assms(3) e by (auto simp: sweep_database_def expire_stale_batch_def run_sweep_def)
  note f = expire_stale_facts [OF e assms(1)] and n = open_count_expired [OF e assms(1)]
  have kept: "r \<in> set t \<and> inc_id r \<notin> inc_id ` set expired" if "r \<in> set t'" "inc_open r" for r
    using that f by (auto simp: w'(3))
  show "table_inv t'" using f w'(3) by blast
  show "\<forall>r \<in> set t'. inc_open r \<longrightarrow> r \<in> set t" using kept by blast
  with assms(2) show "\<forall>r \<in> set t'. inc_open r \<longrightarrow> expirable r" by blast
  show "wk_healthy w'" "g'" "wk_batch_size w' = wk_batch_size w" using w' by simp_all
  show "wk_expired_total w' = wk_expired_total w + (int (open_count t) - int (open_count t'))" "open_count t' \<le> open_count t"
    using w' n by simp_all
  have ids: "map inc_id expired = take (nat (wk_batch_size w)) (sort (map inc_id (stale_rows now t)))" using f by blast
  show "wk_batch_size w \<le> int (open_count t) - int (open_count t') \<or> \<not> 1 \<le> wk_batch_size w \<or>
       (\<forall>r \<in> set t'. inc_open r \<longrightarrow> \<not> is_stale now r)"
  proof (cases "nat (wk_batch_size w) \<le> length (stale_rows now t)")
    case True
    with ids have "length expired = nat (wk_batch_size w)" by (metis length_map length_sort length_take min.absorb2)
    with n w'(3) show ?thesis by auto
  next
    case False
    with ids have "map inc_id expired = sort (map inc_id (stale_rows now t))" by simp
    then have "inc_id ` set expired = inc_id ` set (stale_rows now t)" by (metis list.set_map set_sort)
    with kept have "\<not> is_stale now r" if "r \<in> set t'" "inc_open r" for r
      using that by (auto simp: stale_rows_def)
    then show ?thesis by blast
  qed
qed

lemma sweeps_expirable:
  assumes "table_inv t" "\<forall>r \<in> set t. inc_open r \<longrightarrow> expirable r" "1 \<le> wk_batch_size w"
    "\<forall>now \<in> set nows. start \<le> now" "sweeps nows (w, g, ms, t) = (w', g', ms', t')"
  shows "table_inv t' \<and> (nows \<noteq> [] \<longrightarrow> wk_healthy w' \<and> g') \<and>
    wk_expired_total w' = wk_expired_total w + (int (open_count t) - int (open_count t')) \<and>
    (\<forall>r \<in> set t'. inc_open r \<longrightarrow> r \<in> set t) \<and>
    (int (length nows) * wk_batch_size w > int (open_count t) \<longrightarrow> (\<forall>r \<in> set t'. inc_open r \<longrightarrow> \<not> is_stale start r))"
  using assms
proof (induction nows arbitrary: w g ms t)
  case (Cons now nows)
  obtain w1 g1 ms1 t1 where s: "sweep_database True now (w, g, ms, t) = (w1, g1, ms1, t1)"
    by (metis prod_cases4)
  note one = sweep_expirable [OF Cons.prems(1,2) s]
  have "sweeps nows (w1, g1, ms1, t1) = (w', g', ms', t')" using Cons.prems(5) s by simp
  note IH = Cons.IH [OF one(1,2) _ _ this]
  have IH: "table_inv t'" "nows \<noteq> [] \<longrightarrow> wk_healthy w' \<and> g'"
    "wk_expired_total w' = wk_expired_total w1 + (int (open_count t1) - int (open_count t'))"
    "\<forall>r \<in> set t'. inc_open r \<longrightarrow> r \<in> set t1"
    "int (length nows) * wk_batch_size w1 > int (open_count t1) \<longrightarrow> (\<forall>r \<in> set t'. inc_open r \<longrightarrow> \<not> is_stale start r)"
    using IH one(5) Cons.prems(3,4) by auto
  have healthy: "wk_healthy w' \<and> g'" using IH(2) one(3,4) Cons.prems(5) s by (cases nows) auto
  have "\<forall>r \<in> set t'. inc_open r \<longrightarrow> \<not> is_stale start r"
    if many: "int (length (now # nows)) * wk_batch_size w > int (open_count t)"
    using one(8)
  proof (elim disjE)
    assume "wk_batch_size w \<le> int (open_count t) - int (open_count t1)"
    moreover have "int (length (now # nows)) * wk_batch_size w = wk_batch_size w + int (length nows) * wk_batch_size w"
      by (simp add: algebra_simps)
    ultimately have "int (length nows) * wk_batch_size w1 > int (open_count t1)" using many one(5) by simp
    with IH(5) show ?thesis by blast
  next
    assume "\<forall>r \<in> set t1. inc_open r \<longrightarrow> \<not> is_stale now r"
    moreover have "is_stale start r \<Longrightarrow> is_stale now r" for r
      using Cons.prems(4) by (auto simp: is_stale_def split: option.splits)
    ultimately show ?thesis using IH(4) by blast
  qed (use Cons.prems(3) in simp)
  with IH one healthy show ?case by auto
qed simp

section \<open>Properties\<close>

text \<open>
  C10: in every state the lifecycle worker can reach, beside any other activity of the program, the
  incident table keeps its invariant; the gauge is only set while the worker is healthy and running;
  a healthy worker has swept and shows no error; a worker that runs has a stop event; and it never
  reports more expired incidents than were counted as expired.
\<close>

theorem worker_invariant:
  assumes "worker_reachable interval batch (w, gauge, ms, t)"
  shows "table_inv t \<and> (gauge \<longrightarrow> wk_healthy w \<and> lp_task (wk_loop w) \<noteq> None) \<and>
    (wk_healthy w \<longrightarrow> wk_last_error_category w = None \<and> wk_last_sweep_at w \<noteq> None) \<and>
    (lp_task (wk_loop w) \<noteq> None \<longleftrightarrow> lp_stop (wk_loop w) \<noteq> None) \<and>
    0 \<le> wk_expired_total w \<and> wk_expired_total w \<le> expired_count ms"
proof -
  have ok: "worker_ok interval batch (w, gauge, ms, t)" by (rule worker_reachable_ok [OF assms])
  then have "wk_loop w \<noteq> new_loop \<longrightarrow> lp_task (wk_loop w) \<noteq> None"
    by (cases "wk_loop w") (auto simp: worker_ok_def loop_ok_def new_loop_def)
  with ok show ?thesis by (auto simp: worker_ok_def loop_ok_def)
qed

text \<open>
  C9: the worker works off every backlog: when open incidents have rule names that lifecycle
  notes accept and windows that fit the query, enough sweeps (more batches than open incidents)
  leave no incident open that was stale when they began, the worker is healthy afterwards, and
  its total grew by exactly the number of incidents it closed.
\<close>

theorem worker_drains_backlog:
  assumes "table_inv t" "\<forall>r \<in> set t. inc_open r \<longrightarrow> expirable r" "1 \<le> wk_batch_size w"
    and "\<forall>now \<in> set nows. start \<le> now" "int (length nows) * wk_batch_size w > int (open_count t)"
    and "sweeps nows (w, g, ms, t) = (w', g', ms', t')"
  shows "(\<forall>r \<in> set t'. inc_open r \<longrightarrow> \<not> is_stale start r) \<and> wk_healthy w' \<and> g' \<and>
    wk_expired_total w' = wk_expired_total w + (int (open_count t) - int (open_count t'))"
proof -
  have "nows \<noteq> []" using assms(5) by auto
  with sweeps_expirable [OF assms(1-4,6)] assms(5) show ?thesis by blast
qed

end
