(* ===== verification/Health.thy ===== *)
theory Health
  imports Worker Plugins Access
begin

text \<open>
  Liveness and readiness (\<open>app/api/routers/health.py\<close>): the checks of one evaluation, the gauges it
  sets and the transitions it logs.  The probe of the database is a parameter.
\<close>

section \<open>Checks\<close>

text \<open>What the application state holds at a request.\<close>

record ('c, 'p) served =
  sv_env :: "('c, 'p) plugin_env"
  sv_registry :: "'p registry option"
  sv_rules_loaded :: bool
  sv_topology_loaded :: bool
  sv_worker :: "lifecycle_worker option"

type_synonym checks = "(string, plugin_readiness) dict"

definition readiness_dependency_keys :: "string list" where
  "readiness_dependency_keys =
     [''database'', ''lifecycle_worker'', ''plugin_registry'', ''plugins'', ''rules_config'', ''settings'',
      ''topology_config'']"

definition output_plugin_category_keys :: "string list" where
  "output_plugin_category_keys = [''email'']"

definition readiness_check_keys :: "string list" where
  "readiness_check_keys = readiness_dependency_keys @ output_plugin_category_keys"

definition ready_if :: "bool \<Rightarrow> plugin_readiness" where
  "ready_if b = (if b then Plugin_ready else Plugin_not_ready)"

definition configured_state_check :: "bool \<Rightarrow> bool \<Rightarrow> plugin_readiness" where
  "configured_state_check configured present = (if configured \<and> \<not> present then Plugin_not_ready else Plugin_ready)"

definition dependency_checks :: "bool \<Rightarrow> settings \<Rightarrow> ('c, 'p) served \<Rightarrow> checks" where
  "dependency_checks database_ok s v =
     [(''database'', ready_if database_ok), (''settings'', Plugin_ready),
      (''rules_config'', configured_state_check (st_rules_path s \<noteq> None) (sv_rules_loaded v)),
      (''topology_config'', configured_state_check (st_topology_path s \<noteq> None) (sv_topology_loaded v)),
      (''plugin_registry'', ready_if (sv_registry v \<noteq> None)), (''plugins'', Plugin_not_ready),
      (''lifecycle_worker'', ready_if (case sv_worker v of None \<Rightarrow> False | Some w \<Rightarrow> wk_healthy w))]"

definition plugin_category_checks :: "('c, 'p) served \<Rightarrow> checks" where
  "plugin_category_checks v =
     (case sv_registry v of
        None \<Rightarrow> map (\<lambda>c. (c, Plugin_not_ready)) output_plugin_category_keys
      | Some g \<Rightarrow> [(''email'', readiness_states (sv_env v) g)])"

definition plugins_check :: "checks \<Rightarrow> plugin_readiness" where
  "plugins_check cs = (if Plugin_not_ready \<in> snd ` set cs then Plugin_not_ready else Plugin_ready)"

section \<open>Gauges\<close>

text \<open>The values of the two readiness gauges, by label and state.\<close>

record readiness_gauges =
  rg_dependencies :: "string \<Rightarrow> plugin_readiness \<Rightarrow> int"
  rg_output_plugins :: "string \<Rightarrow> plugin_readiness \<Rightarrow> int"

definition one_hot ::
  "string list \<Rightarrow> checks \<Rightarrow> (string \<Rightarrow> plugin_readiness \<Rightarrow> int) \<Rightarrow> string \<Rightarrow> plugin_readiness \<Rightarrow> int" where
  "one_hot keys cs g = (\<lambda>k s.
     if k \<in> set keys
     then (if s = (case map_of cs k of None \<Rightarrow> Plugin_not_ready | Some st \<Rightarrow> st) then 1 else 0)
     else g k s)"

definition record_readiness_evaluation :: "checks \<Rightarrow> checks \<Rightarrow> readiness_gauges \<Rightarrow> readiness_gauges" where
  "record_readiness_evaluation dependencies output_plugins g =
     \<lparr>rg_dependencies = one_hot readiness_dependency_keys dependencies (rg_dependencies g),
      rg_output_plugins = one_hot output_plugin_category_keys output_plugins (rg_output_plugins g)\<rparr>"

section \<open>Logged transitions\<close>

type_synonym snapshot = "(string \<times> plugin_readiness) list"

definition snapshot_of :: "checks \<Rightarrow> snapshot" where
  "snapshot_of cs = map (\<lambda>k. (k, the (map_of cs k))) readiness_check_keys"

text \<open>The new snapshot and the lines logged, each a category and its state.\<close>

definition readiness_transitions :: "snapshot \<Rightarrow> snapshot option \<Rightarrow> snapshot option \<times> snapshot" where
  "readiness_transitions snap previous =
     (case previous of
        None \<Rightarrow>
          (let failures = filter (\<lambda>(c, s). s = Plugin_not_ready) snap
           in (Some snap, if failures \<noteq> [] then failures else [(''aggregate'', Plugin_ready)]))
      | Some prev \<Rightarrow>
          if prev = snap then (previous, [])
          else (Some snap, filter (\<lambda>(c, s). map_of prev c \<noteq> Some s) snap))"

section \<open>The route\<close>

definition health :: string where
  "health = ''ok''"

record readyz_state =
  rz_gauges :: readiness_gauges
  rz_snapshot :: "snapshot option"
  rz_log :: snapshot

definition readyz ::
  "bool \<Rightarrow> settings \<Rightarrow> ('c, 'p) served \<Rightarrow> readyz_state \<Rightarrow> readyz_state \<times> checks \<times> int" where
  "readyz database_ok s v z =
     (let plugin_checks = plugin_category_checks v;
          dependencies = dict_set ''plugins'' (plugins_check plugin_checks) (dependency_checks database_ok s v);
          cs = dict_merge dependencies plugin_checks;
          (snap, lines) = readiness_transitions (snapshot_of cs) (rz_snapshot z)
      in (\<lparr>rz_gauges = record_readiness_evaluation dependencies plugin_checks (rz_gauges z),
           rz_snapshot = snap, rz_log = rz_log z @ lines\<rparr>,
          cs,
          if \<exists>k \<in> set readiness_check_keys. map_of cs k = Some Plugin_not_ready then 503 else 200))"

section \<open>The answer\<close>

lemma readiness_states_facts:
  "fold (readiness_step env g) es st = Plugin_not_ready \<longleftrightarrow>
     st = Plugin_not_ready \<or> (\<exists>(n, e) \<in> set es. plugin_category e = Email_category \<and>
       (case get_plugin env n g of Inl _ \<Rightarrow> True | Inr (_, p) \<Rightarrow>
          (case pv_status env p of None \<Rightarrow> True | Some s \<Rightarrow> \<not> ps_ready s)))"
proof (induction es arbitrary: st)
  case (Cons x es)
  obtain n e where x: "x = (n, e)" by (cases x)
  have "readiness_step env g x st = Plugin_not_ready \<longleftrightarrow>
      st = Plugin_not_ready \<or> plugin_category e = Email_category \<and>
       (case get_plugin env n g of Inl _ \<Rightarrow> True | Inr (_, p) \<Rightarrow>
          (case pv_status env p of None \<Rightarrow> True | Some s \<Rightarrow> \<not> ps_ready s))"
    by (cases "get_plugin env n g") (auto simp: x readiness_step_def split: option.split)
  then show ?case by (simp add: Cons.IH x disj_assoc)
qed simp

text \<open>Every configured plugin is instantiated and says that it is ready.\<close>

definition plugins_ready :: "('c, 'p) plugin_env \<Rightarrow> 'p registry \<Rightarrow> bool" where
  "plugins_ready env g \<longleftrightarrow>
     (\<forall>(n, e) \<in> set (rg_entries g). plugin_category e = Email_category \<longrightarrow>
        (\<exists>g' p s. get_plugin env n g = Inr (g', p) \<and> pv_status env p = Some s \<and> ps_ready s))"

lemma readiness_states_not_ready:
  fixes env :: "('c, 'p) plugin_env"
  shows "readiness_states env g = Plugin_not_ready \<longleftrightarrow> \<not> plugins_ready env g"
proof -
  have "(case y of Inl _ \<Rightarrow> True | Inr (_, p) \<Rightarrow> (case pv_status env p of None \<Rightarrow> True | Some s \<Rightarrow> \<not> ps_ready s)) \<longleftrightarrow>
      \<not> (\<exists>g' p s. y = Inr (g', p) \<and> pv_status env p = Some s \<and> ps_ready s)" for y :: "lookup_error + ('p registry \<times> 'p)"
    by (auto split: sum.split option.split)
  then show ?thesis by (simp add: readiness_states_def readiness_states_facts plugins_ready_def) blast
qed

lemma check_keys:
  "set readiness_check_keys = {''database'', ''lifecycle_worker'', ''plugin_registry'', ''plugins'', ''rules_config'',
     ''settings'', ''topology_config'', ''email''}"
  by (auto simp: readiness_check_keys_def readiness_dependency_keys_def output_plugin_category_keys_def)

lemma readyz_facts:
  assumes "readyz database_ok s v z = (z', cs, code)"
  shows "(code = 200 \<longleftrightarrow> database_ok \<and> (st_rules_path s = None \<or> sv_rules_loaded v) \<and>
       (st_topology_path s = None \<or> sv_topology_loaded v) \<and>
       (\<exists>g. sv_registry v = Some g \<and> plugins_ready (sv_env v) g) \<and>
       (\<exists>w. sv_worker v = Some w \<and> wk_healthy w)) \<and>
    (code = 200 \<or> code = 503) \<and>
    (\<forall>k \<in> set readiness_dependency_keys. \<forall>st.
       rg_dependencies (rz_gauges z') k st = (if map_of cs k = Some st then 1 else 0)) \<and>
    (\<forall>st. rg_output_plugins (rz_gauges z') ''email'' st = (if map_of cs ''email'' = Some st then 1 else 0))"
proof -
  let ?p = "plugin_category_checks v"
  let ?d = "dict_set ''plugins'' (plugins_check ?p) (dependency_checks database_ok s v)"
  have cs: "cs = dict_merge ?d ?p" and code: "code = (if \<exists>k \<in> set readiness_check_keys. map_of cs k = Some Plugin_not_ready then 503 else 200)"
    and z': "rz_gauges z' = record_readiness_evaluation ?d ?p (rz_gauges z)"
    using assms by (auto simp: readyz_def Let_def split: prod.splits)
  let ?e = "case sv_registry v of None \<Rightarrow> Plugin_not_ready | Some g \<Rightarrow> readiness_states (sv_env v) g"
  have p: "?p = [(''email'', ?e)]"
    by (simp add: plugin_category_checks_def output_plugin_category_keys_def split: option.split)
  have cs': "cs = dict_set ''email'' ?e ?d" by (simp add: cs p dict_merge_def)
  have email: "map_of cs ''email'' = Some ?e" unfolding cs' by (simp only: map_of_dict_set fun_upd_same)
  have deps: "map_of cs k = map_of ?d k" if "k \<in> set readiness_dependency_keys" for k
  proof -
    have "k \<noteq> ''email''" using that by (auto simp: readiness_dependency_keys_def)
    then show ?thesis unfolding cs' map_of_dict_set by simp
  qed
  have d: "map_of ?d ''database'' = Some (ready_if database_ok)" "map_of ?d ''settings'' = Some Plugin_ready"
    "map_of ?d ''rules_config'' = Some (configured_state_check (st_rules_path s \<noteq> None) (sv_rules_loaded v))"
    "map_of ?d ''topology_config'' = Some (configured_state_check (st_topology_path s \<noteq> None) (sv_topology_loaded v))"
    "map_of ?d ''plugin_registry'' = Some (ready_if (sv_registry v \<noteq> None))"
    "map_of ?d ''plugins'' = Some (plugins_check ?p)"
    "map_of ?d ''lifecycle_worker'' = Some (ready_if (case sv_worker v of None \<Rightarrow> False | Some w \<Rightarrow> wk_healthy w))"
    unfolding map_of_dict_set by (simp_all add: dependency_checks_def)
  have plugins: "plugins_check ?p = Plugin_not_ready \<longleftrightarrow> map_of cs ''email'' = Some Plugin_not_ready"
    unfolding email p by (auto simp: plugins_check_def)
  have "(\<exists>k \<in> set readiness_check_keys. map_of cs k = Some Plugin_not_ready) \<longleftrightarrow>
      \<not> (database_ok \<and> (st_rules_path s = None \<or> sv_rules_loaded v) \<and>
       (st_topology_path s = None \<or> sv_topology_loaded v) \<and>
       (\<exists>g. sv_registry v = Some g \<and> plugins_ready (sv_env v) g) \<and> (\<exists>w. sv_worker v = Some w \<and> wk_healthy w))"
    unfolding check_keys
    using plugins
    by (auto simp: deps readiness_dependency_keys_def d email ready_if_def configured_state_check_def
        readiness_states_not_ready split: option.splits if_splits)
  then have answer: "code = 200 \<longleftrightarrow> database_ok \<and> (st_rules_path s = None \<or> sv_rules_loaded v) \<and>
       (st_topology_path s = None \<or> sv_topology_loaded v) \<and>
       (\<exists>g. sv_registry v = Some g \<and> plugins_ready (sv_env v) g) \<and> (\<exists>w. sv_worker v = Some w \<and> wk_healthy w)"
    by (simp add: code)
  have known: "map_of ?d k \<noteq> None" if "k \<in> set readiness_dependency_keys" for k
    using that d by (auto simp: readiness_dependency_keys_def)
  have g: "rg_dependencies (rz_gauges z') k st = (if map_of cs k = Some st then 1 else 0)"
    if "k \<in> set readiness_dependency_keys" for k st
    using that known [OF that] deps [OF that] by (auto simp: z' record_readiness_evaluation_def one_hot_def)
  have e: "rg_output_plugins (rz_gauges z') ''email'' st = (if map_of cs ''email'' = Some st then 1 else 0)" for st
    unfolding email z' p
    by (simp add: record_readiness_evaluation_def one_hot_def output_plugin_category_keys_def)
  have "code = 200 \<or> code = 503" by (simp add: code)
  with answer g e show ?thesis by blast
qed

text \<open>
  The service calls itself ready exactly when the database answers, every configured file was
  loaded, the plugin registry exists and each of its plugins says it is ready, and the lifecycle
  worker's last sweep succeeded; the gauges of the evaluation say the same: for each check exactly
  the reported state has the value 1.
\<close>

lemma readyz_spec:
  assumes "readyz database_ok s v z = (z', cs, code)"
  shows "(code = 200 \<longleftrightarrow> database_ok \<and> (st_rules_path s = None \<or> sv_rules_loaded v) \<and>
       (st_topology_path s = None \<or> sv_topology_loaded v) \<and>
       (\<exists>g. sv_registry v = Some g \<and> plugins_ready (sv_env v) g) \<and>
       (\<exists>w. sv_worker v = Some w \<and> wk_healthy w)) \<and>
    (code = 200 \<or> code = 503) \<and>
    (\<forall>k \<in> set readiness_dependency_keys. \<forall>st.
       rg_dependencies (rz_gauges z') k st = (if map_of cs k = Some st then 1 else 0)) \<and>
    (\<forall>st. rg_output_plugins (rz_gauges z') ''email'' st = (if map_of cs ''email'' = Some st then 1 else 0))"
  by (rule readyz_facts [OF assms])

section \<open>The log\<close>

text \<open>What the log says last of a check.\<close>

definition last_logged :: "snapshot \<Rightarrow> string \<Rightarrow> plugin_readiness option" where
  "last_logged lines k = map_of (rev lines) k"

text \<open>The log agrees with a snapshot: a check it does not mention has not failed.\<close>

definition log_agrees :: "snapshot \<Rightarrow> snapshot \<Rightarrow> bool" where
  "log_agrees lines snap \<longleftrightarrow>
     (\<forall>k \<in> set readiness_check_keys. case last_logged lines k of
        None \<Rightarrow> map_of snap k \<noteq> Some Plugin_not_ready
      | Some st \<Rightarrow> map_of snap k = Some st)"

lemma last_logged_append:
  "last_logged (lines @ new) k = (case last_logged new k of None \<Rightarrow> last_logged lines k | Some st \<Rightarrow> Some st)"
  by (simp add: last_logged_def map_add_def split: option.split)

lemma last_logged_filter:
  assumes "distinct (map fst snap)"
  shows "last_logged (filter (\<lambda>(k, s). P k s) snap) k =
    (case map_of snap k of None \<Rightarrow> None | Some s \<Rightarrow> if P k s then Some s else None)"
proof -
  have "map_of (rev xs) = map_of xs" if "distinct (map fst xs)" for xs :: snapshot
    using that by (intro map_of_inject_set [THEN iffD2]) (auto simp: rev_map [symmetric])
  moreover have "distinct (map fst (filter (\<lambda>(k, s). P k s) snap))" using assms by (simp add: distinct_map_filter)
  ultimately have "last_logged (filter (\<lambda>(k, s). P k s) snap) k = map_of (filter (\<lambda>(k, s). P k s) snap) k"
    by (simp add: last_logged_def)
  also have "\<dots> = (case map_of snap k of None \<Rightarrow> None | Some s \<Rightarrow> if P k s then Some s else None)"
    using assms
  proof (induction snap)
    case (Cons x snap)
    obtain k' s where x: "x = (k', s)" by (cases x)
    show ?case
    proof (cases "k' = k")
      case True
      with Cons.prems have "map_of (filter (\<lambda>(k, s). P k s) snap) k = None"
        by (auto simp: x map_of_eq_None_iff)
      with True show ?thesis by (simp add: x)
    next
      case False
      with Cons show ?thesis by (simp add: x)
    qed
  qed simp
  finally show ?thesis .
qed

lemma snapshot_of_facts:
  assumes "\<forall>k \<in> set readiness_check_keys. map_of cs k \<noteq> None"
  shows "distinct (map fst (snapshot_of cs))" "k \<in> set readiness_check_keys \<Longrightarrow> map_of (snapshot_of cs) k = map_of cs k"
    "map fst (snapshot_of cs) = readiness_check_keys"
proof -
  show m: "map fst (snapshot_of cs) = readiness_check_keys" by (simp add: snapshot_of_def comp_def)
  show "distinct (map fst (snapshot_of cs))"
    unfolding m by (simp add: readiness_check_keys_def readiness_dependency_keys_def output_plugin_category_keys_def)
  have "map_of (map (\<lambda>k. (k, f k)) ks) k = (if k \<in> set ks then Some (f k) else None)" for f :: "string \<Rightarrow> plugin_readiness" and ks
    by (induction ks) auto
  then show "k \<in> set readiness_check_keys \<Longrightarrow> map_of (snapshot_of cs) k = map_of cs k"
    using assms by (auto simp: snapshot_of_def)
qed

lemma transitions_agree:
  assumes "readiness_transitions (snapshot_of cs) previous = (snap, new)"
    and cs: "\<forall>k \<in> set readiness_check_keys. map_of cs k \<noteq> None"
    and "case previous of None \<Rightarrow> lines = [] | Some prev \<Rightarrow> log_agrees lines prev"
  shows "snap = Some (snapshot_of cs)" "log_agrees (lines @ new) (snapshot_of cs)"
proof -
  note f = snapshot_of_facts [OF cs]
  show "snap = Some (snapshot_of cs)"
    using assms(1) by (auto simp: readiness_transitions_def Let_def split: option.splits if_splits)
  show "log_agrees (lines @ new) (snapshot_of cs)"
  proof (cases previous)
    case None
    let ?failures = "filter (\<lambda>(c, s). s = Plugin_not_ready) (snapshot_of cs)"
    have lines: "lines = []" and new: "new = (if ?failures \<noteq> [] then ?failures else [(''aggregate'', Plugin_ready)])"
      using None assms(1,3) by (auto simp: readiness_transitions_def Let_def)
    have logged: "last_logged ?failures k = (if map_of cs k = Some Plugin_not_ready then Some Plugin_not_ready else None)"
      if "k \<in> set readiness_check_keys" for k
      using last_logged_filter [OF f(1), of "\<lambda>k s. s = Plugin_not_ready" k] that by (auto simp: f(2) split: option.split)
    have "''aggregate'' \<notin> set readiness_check_keys" unfolding check_keys by simp
    then have "last_logged [(''aggregate'', Plugin_ready)] k = None" if "k \<in> set readiness_check_keys" for k
      using that by (auto simp: last_logged_def)
    moreover have "last_logged [] k = None" for k by (simp add: last_logged_def)
    ultimately have "last_logged new k = (if map_of cs k = Some Plugin_not_ready then Some Plugin_not_ready else None)"
      if "k \<in> set readiness_check_keys" for k
      using logged [OF that] that by (cases "?failures = []") (simp_all only: new if_False if_True simp_thms)
    then show ?thesis by (auto simp: log_agrees_def lines f(2) split: if_splits)
  next
    case (Some prev)
    show ?thesis
    proof (cases "prev = snapshot_of cs")
      case True
      with Some assms(1,3) show ?thesis by (auto simp: readiness_transitions_def)
    next
      case False
      then have new: "new = filter (\<lambda>(c, s). map_of prev c \<noteq> Some s) (snapshot_of cs)"
        using Some assms(1) by (simp add: readiness_transitions_def)
      have "last_logged new k = (if map_of prev k = map_of cs k then None else map_of cs k)"
        if "k \<in> set readiness_check_keys" for k
        using last_logged_filter [OF f(1), of "\<lambda>c s. map_of prev c \<noteq> Some s" k] that cs
        by (auto simp: f(2) new split: option.split)
      with Some assms(3) cs show ?thesis
        by (auto simp: log_agrees_def last_logged_append f(2) split: option.splits if_splits)
    qed
  qed
qed

text \<open>A service that is asked repeatedly, from its start.\<close>

fun readyz_run :: "settings \<Rightarrow> (bool \<times> ('c, 'p) served) list \<Rightarrow> readyz_state \<Rightarrow> readyz_state" where
  "readyz_run s [] z = z"
| "readyz_run s ((database_ok, v) # rest) z = readyz_run s rest (fst (readyz database_ok s v z))"

definition readyz_start :: "readiness_gauges \<Rightarrow> readyz_state" where
  "readyz_start g = \<lparr>rz_gauges = g, rz_snapshot = None, rz_log = []\<rparr>"

lemma readyz_checks_known:
  assumes "readyz database_ok s v z = (z', cs, code)"
  shows "\<forall>k \<in> set readiness_check_keys. map_of cs k \<noteq> None"
proof -
  have "cs = dict_merge (dict_set ''plugins'' (plugins_check (plugin_category_checks v)) (dependency_checks database_ok s v))
      (plugin_category_checks v)"
    using assms by (auto simp: readyz_def Let_def split: prod.splits)
  moreover have "dict_keys (plugin_category_checks v) = [''email'']"
    by (simp add: plugin_category_checks_def output_plugin_category_keys_def split: option.split)
  moreover have "set (dict_keys (dependency_checks database_ok s v)) = set readiness_dependency_keys"
    by (auto simp: dependency_checks_def readiness_dependency_keys_def)
  ultimately have "set (dict_keys cs) = set readiness_check_keys"
    by (simp only: keys_dict_merge keys_dict_set)
      (auto simp: readiness_check_keys_def readiness_dependency_keys_def output_plugin_category_keys_def)
  then show ?thesis by (auto simp: map_of_eq_None_iff)
qed

lemma readyz_agrees:
  assumes "case rz_snapshot z of None \<Rightarrow> rz_log z = [] | Some prev \<Rightarrow> log_agrees (rz_log z) prev"
    and "readyz database_ok s v z = (z', cs, code)"
  shows "rz_snapshot z' = Some (snapshot_of cs)" "log_agrees (rz_log z') (snapshot_of cs)"
proof -
  obtain snap new where t: "readiness_transitions (snapshot_of cs) (rz_snapshot z) = (snap, new)"
    by (cases "readiness_transitions (snapshot_of cs) (rz_snapshot z)")
  with assms(2) have z': "rz_snapshot z' = snap" "rz_log z' = rz_log z @ new"
    by (auto simp: readyz_def Let_def split: prod.splits)
  from transitions_agree [OF t readyz_checks_known [OF assms(2)] assms(1)]
  show "rz_snapshot z' = Some (snapshot_of cs)" "log_agrees (rz_log z') (snapshot_of cs)"
    unfolding z' by simp_all
qed

lemma readyz_run_agrees:
  assumes "case rz_snapshot z of None \<Rightarrow> rz_log z = [] | Some prev \<Rightarrow> log_agrees (rz_log z) prev"
  shows "case rz_snapshot (readyz_run s xs z) of None \<Rightarrow> rz_log (readyz_run s xs z) = []
    | Some prev \<Rightarrow> log_agrees (rz_log (readyz_run s xs z)) prev"
  using assms
proof (induction s xs z rule: readyz_run.induct)
  case (2 s database_ok v rest z)
  obtain z' cs code where r: "readyz database_ok s v z = (z', cs, code)" by (cases "readyz database_ok s v z")
  then have z': "fst (readyz database_ok s v z) = z'" by simp
  have "case rz_snapshot z' of None \<Rightarrow> rz_log z' = [] | Some prev \<Rightarrow> log_agrees (rz_log z') prev"
    using readyz_agrees [OF 2(2) r] by simp
  with 2(1) show ?case by (simp only: readyz_run.simps z')
qed (simp only: readyz_run.simps)

text \<open>
  C11: the transition log is enough to know what fails: after any history of readiness requests
  since startup, the checks whose last logged state is \<open>not_ready\<close> are exactly the failing checks of
  the last answer, which is 503 exactly when there is one.
\<close>

theorem readiness_log_faithful:
  assumes "readyz database_ok s v (readyz_run s xs (readyz_start g)) = (z', cs, code)"
  shows "(\<forall>k \<in> set readiness_check_keys.
       last_logged (rz_log z') k = Some Plugin_not_ready \<longleftrightarrow> map_of cs k = Some Plugin_not_ready) \<and>
    (code = 503 \<longleftrightarrow> (\<exists>k \<in> set readiness_check_keys. last_logged (rz_log z') k = Some Plugin_not_ready))"
proof -
  have start: "case rz_snapshot (readyz_start g) of None \<Rightarrow> rz_log (readyz_start g) = []
    | Some prev \<Rightarrow> log_agrees (rz_log (readyz_start g)) prev"
    by (simp add: readyz_start_def)
  have "log_agrees (rz_log z') (snapshot_of cs)"
    by (rule readyz_agrees(2) [OF readyz_run_agrees [OF start] assms])
  then have each: "last_logged (rz_log z') k = Some Plugin_not_ready \<longleftrightarrow> map_of cs k = Some Plugin_not_ready"
    if "k \<in> set readiness_check_keys" for k
    using that snapshot_of_facts(2) [OF readyz_checks_known [OF assms] that]
    by (auto simp: log_agrees_def split: option.splits)
  have "code = (if \<exists>k \<in> set readiness_check_keys. map_of cs k = Some Plugin_not_ready then 503 else 200)"
    using assms by (auto simp: readyz_def Let_def split: prod.splits)
  with each show ?thesis by auto
qed

end
