(* ===== verification/Startup.thy ===== *)
theory Startup
  imports Wiring Health IngressDelivery RulesFacts
begin

text \<open>
  Startup and shutdown: \<open>lifespan\<close> of \<open>app/main.py\<close> and the status routes over what it loads
  (\<open>app/api/routers/config_status.py\<close>, \<open>app/api/routers/plugins.py\<close>).  A part of the state that
  \<open>create_app\<close> was given is kept, any other is built.
\<close>

section \<open>Files and libraries\<close>

text \<open>
  What a path holds when it is read, the outcome of reading and parsing it; the rules and the
  topology are read twice, for the status routes (\<open>False\<close>) and for the processor (\<open>True\<close>).
\<close>

record config_files =
  cf_plugins :: "string \<Rightarrow> plugin_entry list option"
  cf_rules :: "bool \<Rightarrow> string \<Rightarrow> rule_config list result"
  cf_topology :: "bool \<Rightarrow> string \<Rightarrow> (hostname_rule_config list \<times> subnet_rule_config list) result"

record libraries =
  lb_re_compile :: "string \<Rightarrow> pattern option"
  lb_ip_network :: "string \<Rightarrow> ip_network option"
  lb_rules_hash :: "rule_config list \<Rightarrow> string"
  lb_plugins_hash :: "plugin_entry list \<Rightarrow> string"

section \<open>The state of the application\<close>

record ('c, 'p) app_state =
  as_registry :: "'p registry option"
  as_rules :: "(compiled_rule list \<times> string) option"
  as_topology :: "(compiled_hostname_rule list \<times> compiled_subnet_rule list) option"
  as_runner :: "(('c, 'p) dispatcher, (string, json) dict) task_runner option"
  as_processor :: "processor option"
  as_worker :: "lifecycle_worker option"
  as_sweeper :: "sweep_worker option"
  as_loaded :: "plugin_category list"        \<comment> \<open>the plugin loads counted\<close>

definition new_app_state :: "('c, 'p) app_state" where
  "new_app_state =
     \<lparr>as_registry = None, as_rules = None, as_topology = None, as_runner = None, as_processor = None,
      as_worker = None, as_sweeper = None, as_loaded = []\<rparr>"

datatype lifespan_error = Plugin_startup lookup_error | Raised exn

type_synonym 'a started = "lifespan_error + 'a"

definition sbind :: "'a started \<Rightarrow> ('a \<Rightarrow> 'b started) \<Rightarrow> 'b started" where
  "sbind x f = (case x of Inl e \<Rightarrow> Inl e | Inr a \<Rightarrow> f a)"

definition raised :: "'a result \<Rightarrow> 'a started" where
  "raised x = (case x of Inl e \<Rightarrow> Inl (Raised e) | Inr a \<Rightarrow> Inr a)"

text \<open>\<open>getattr(app.state, name)\<close>, built and stored when it is missing.\<close>

definition ensured :: "'a option \<Rightarrow> 'a started \<Rightarrow> 'a started" where
  "ensured current build = (case current of Some a \<Rightarrow> Inr a | None \<Rightarrow> build)"

section \<open>Startup\<close>

definition start_registry ::
  "('c, 'p) plugin_env \<Rightarrow> libraries \<Rightarrow> config_files \<Rightarrow> settings \<Rightarrow> ('c, 'p) app_state \<Rightarrow> ('c, 'p) app_state started" where
  "start_registry env lib fs s st =
     (case as_registry st of
        Some g \<Rightarrow> Inr st
      | None \<Rightarrow>
          sbind (case (case st_plugins_path s of
                         Some p \<Rightarrow> load_plugin_registry env (lb_plugins_hash lib) (cf_plugins fs p)
                       | None \<Rightarrow> new_registry env [] []) of
                   Inl e \<Rightarrow> Inl (Plugin_startup e)
                 | Inr g \<Rightarrow> Inr g) (\<lambda>g.
          Inr (st\<lparr>as_registry := Some g, as_loaded := as_loaded st @ categories g\<rparr>)))"

definition read_rules ::
  "libraries \<Rightarrow> config_files \<Rightarrow> bool \<Rightarrow> string list \<Rightarrow> string \<Rightarrow> (compiled_rule list \<times> string) result" where
  "read_rules lib fs again known_plugins path =
     rbind (cf_rules fs again path)
       (load_rules_config (lb_re_compile lib) (lb_rules_hash lib) [''create_incident''] known_plugins)"

definition read_topology ::
  "libraries \<Rightarrow> config_files \<Rightarrow> bool \<Rightarrow> string \<Rightarrow> (compiled_hostname_rule list \<times> compiled_subnet_rule list) result" where
  "read_topology lib fs again path =
     rbind (cf_topology fs again path) (\<lambda>(hs, ss). load_topology_config (lb_re_compile lib) (lb_ip_network lib) hs ss)"

definition start_config ::
  "libraries \<Rightarrow> config_files \<Rightarrow> settings \<Rightarrow> ('c, 'p) app_state \<Rightarrow> ('c, 'p) app_state started" where
  "start_config lib fs s st =
     sbind (ensured (as_rules st)
        (case st_rules_path s of
           Some p \<Rightarrow> raised (read_rules lib fs False (names (the (as_registry st))) p)
         | None \<Rightarrow> Inr ([], []))) (\<lambda>rules.
     sbind (ensured (as_topology st)
        (case st_topology_path s of
           Some p \<Rightarrow> raised (read_topology lib fs False p)
         | None \<Rightarrow> Inr ([], []))) (\<lambda>topology.
     Inr (st\<lparr>as_rules := Some rules, as_topology := Some topology\<rparr>)))"

text \<open>The runner gets the dispatcher unless a given one already has a \<open>notify\<close> handler.\<close>

definition start_runner ::
  "('c, 'p) plugin_env \<Rightarrow> ('p \<Rightarrow> envelope \<Rightarrow> bool) \<Rightarrow> ('c, 'p) app_state \<Rightarrow> ('c, 'p) app_state started" where
  "start_runner env send st =
     (let r = (case as_runner st of Some r \<Rightarrow> r | None \<Rightarrow> new_task_runner)
      in if ''notify'' \<in> set (registered_task_names r) then Inr (st\<lparr>as_runner := Some r\<rparr>)
         else sbind (raised (register ''notify''
                \<lparr>dp_env = env, dp_registry = the (as_registry st), dp_send = send\<rparr> r)) (\<lambda>r'.
              Inr (st\<lparr>as_runner := Some r'\<rparr>)))"

definition start_processor ::
  "libraries \<Rightarrow> config_files \<Rightarrow> settings \<Rightarrow> ('c, 'p) app_state \<Rightarrow> ('c, 'p) app_state started" where
  "start_processor lib fs s st =
     sbind (ensured (as_processor st)
        (sbind (case st_topology_path s of
                  None \<Rightarrow> Inr None
                | Some p \<Rightarrow> sbind (raised (read_topology lib fs True p)) (\<lambda>(hs, ss). Inr (Some (ss, hs)))) (\<lambda>topology.
         sbind (case st_rules_path s of
                  None \<Rightarrow> Inr None
                | Some p \<Rightarrow> sbind (raised (read_rules lib fs True (names (the (as_registry st))) p)) (\<lambda>(rules, h).
                    Inr (Some rules))) (\<lambda>rules.
         Inr (build_icinga2_processor topology rules True (as_registry st)
           (st_audit_raw_payload_max_bytes s) (st_audit_raw_payload_hmac_key s)))))) (\<lambda>pc.
     Inr (st\<lparr>as_processor := Some pc\<rparr>))"

definition start_workers :: "settings \<Rightarrow> ('c, 'p) app_state \<Rightarrow> ('c, 'p) app_state started" where
  "start_workers s st =
     sbind (ensured (as_worker st)
       (raised (new_lifecycle_worker (st_lifecycle_scan_interval_seconds s) (st_lifecycle_batch_size s)))) (\<lambda>w.
     sbind (ensured (as_sweeper st) (raised (new_sweep_worker (st_rate_limit_sweep_interval_seconds s)))) (\<lambda>sw.
     Inr (st\<lparr>as_worker := Some (over_loop loop_start w),
             as_sweeper := Some (sw\<lparr>sw_loop := loop_start (sw_loop sw)\<rparr>)\<rparr>)))"

definition lifespan_start ::
  "('c, 'p) plugin_env \<Rightarrow> ('p \<Rightarrow> envelope \<Rightarrow> bool) \<Rightarrow> libraries \<Rightarrow> config_files \<Rightarrow> settings \<Rightarrow> ('c, 'p) app_state \<Rightarrow>
     ('c, 'p) app_state started" where
  "lifespan_start env send lib fs s st =
     sbind (start_registry env lib fs s st) (\<lambda>st.
     sbind (start_config lib fs s st) (\<lambda>st.
     sbind (start_runner env send st) (\<lambda>st.
     sbind (start_processor lib fs s st) (start_workers s))))"

section \<open>Shutdown\<close>

text \<open>Both workers are stopped, then the tasks that are left are run.\<close>

definition lifespan_stop ::
  "(('c, 'p) dispatcher \<Rightarrow> (string, json) dict \<Rightarrow> metrics \<Rightarrow> incident_table \<Rightarrow> metrics \<times> incident_table \<times> 'a result) \<Rightarrow>
     ('c, 'p) app_state \<Rightarrow> metrics \<times> incident_table \<Rightarrow> ('c, 'p) app_state \<times> metrics \<times> incident_table" where
  "lifespan_stop run st w =
     (let st = st\<lparr>as_worker := map_option (over_loop (loop_finish_stop \<circ> loop_request_stop)) (as_worker st),
                  as_sweeper := map_option (\<lambda>sw. sw\<lparr>sw_loop := loop_finish_stop (loop_request_stop (sw_loop sw))\<rparr>)
                    (as_sweeper st)\<rparr>
      in case as_runner st of
           None \<Rightarrow> (st, w)
         | Some r \<Rightarrow> (let (r', w') = drain run r w in (st\<lparr>as_runner := Some r'\<rparr>, w')))"

section \<open>Status routes\<close>

record rule_summary =
  rs_name :: string
  rs_priority :: int
  rs_group_by :: "string list"
  rs_actions :: "(string \<times> string) list"

definition rule_summary_of :: "compiled_rule \<Rightarrow> rule_summary" where
  "rule_summary_of c =
     \<lparr>rs_name = rd_name (cr_definition c), rs_priority = rd_priority (cr_definition c),
      rs_group_by = rw_group_by (rd_window (cr_definition c)),
      rs_actions = map (\<lambda>a. (ra_name a, ra_plugin a)) (rd_actions (cr_definition c))\<rparr>"

definition list_rules_summary :: "compiled_rule list \<times> string \<Rightarrow> string \<times> rule_summary list" where
  "list_rules_summary = (\<lambda>(rules, h). (h, map rule_summary_of rules))"

datatype match_type = Hostname_match | Subnet_match

record topology_summary =
  ts_id :: string
  ts_name :: string
  ts_match_type :: match_type
  ts_tag_keys :: "string list"

definition list_topology_summary ::
  "(topology_summary list \<Rightarrow> string) \<Rightarrow> compiled_hostname_rule list \<times> compiled_subnet_rule list \<Rightarrow>
     string \<times> topology_summary list" where
  "list_topology_summary hash_payload = (\<lambda>(hs, ss).
     let rules =
       map (\<lambda>r. \<lparr>ts_id = ch_id r, ts_name = ch_name r, ts_match_type = Hostname_match,
                 ts_tag_keys = sorted_set (dict_keys (ch_tags r) @ dict_keys (ch_capture_groups r))\<rparr>) hs @
       map (\<lambda>r. \<lparr>ts_id = cs_id r, ts_name = cs_name r, ts_match_type = Subnet_match,
                 ts_tag_keys = sort (dict_keys (cs_tags r))\<rparr>) ss
     in (hash_payload rules, rules))"

definition list_plugins_route :: "('c, 'p) plugin_env \<Rightarrow> ('c, 'p) app_state \<Rightarrow> plugin_row list response" where
  "list_plugins_route env st =
     (case list_plugins env (the (as_registry st)) of None \<Rightarrow> Http_error 500 | Some rows \<Rightarrow> Response 200 rows)"

text \<open>What readiness looks at.\<close>

definition served_of :: "('c, 'p) plugin_env \<Rightarrow> ('c, 'p) app_state \<Rightarrow> ('c, 'p) served" where
  "served_of env st =
     \<lparr>sv_env = env, sv_registry = as_registry st, sv_rules_loaded = (as_rules st \<noteq> None),
      sv_topology_loaded = (as_topology st \<noteq> None), sv_worker = as_worker st\<rparr>"

section \<open>A started service\<close>

lemma started_simps [simp]:
  "sbind x f = Inr y \<longleftrightarrow> (\<exists>a. x = Inr a \<and> f a = Inr y)"
  "raised r = Inr y \<longleftrightarrow> r = Inr y" "ensured None b = b" "ensured (Some a) b = Inr a"
  by (auto simp: sbind_def raised_def ensured_def split: sum.split)

lemma no_plugins: "new_registry env [] h = Inr g \<Longrightarrow> names g = []"
  by (auto simp: new_registry_def dict_merge_def names_def)

lemma registered_notify: "''notify'' \<in> set (registered_task_names new_task_runner) \<longleftrightarrow> False"
  by (simp add: registered_task_names_def new_task_runner_def)

lemma start_registry_facts:
  assumes "start_registry env lib fs s new_app_state = Inr st"
  obtains g where "st = new_app_state\<lparr>as_registry := Some g, as_loaded := categories g\<rparr>"
    "names g \<noteq> [] \<Longrightarrow> \<exists>file. load_plugin_registry env (lb_plugins_hash lib) file = Inr g"
proof (cases "st_plugins_path s")
  case None
  with assms obtain g where "new_registry env [] [] = Inr g"
    "st = new_app_state\<lparr>as_registry := Some g, as_loaded := categories g\<rparr>"
    by (auto simp: start_registry_def new_app_state_def split: sum.splits)
  with no_plugins show thesis by (intro that) auto
next
  case (Some p)
  with assms obtain g where "load_plugin_registry env (lb_plugins_hash lib) (cf_plugins fs p) = Inr g"
    "st = new_app_state\<lparr>as_registry := Some g, as_loaded := categories g\<rparr>"
    by (auto simp: start_registry_def new_app_state_def split: sum.splits)
  then show thesis by (intro that) auto
qed

lemma start_config_facts:
  assumes "start_config lib fs s st = Inr st'" "as_rules st = None" "as_topology st = None" "as_registry st = Some g"
  obtains rules topology where "st' = st\<lparr>as_rules := Some rules, as_topology := Some topology\<rparr>"
    "case st_rules_path s of None \<Rightarrow> rules = ([], []) | Some p \<Rightarrow> read_rules lib fs False (names g) p = Inr rules"
  using assms by (auto simp: start_config_def split: option.splits)

lemma start_runner_facts:
  assumes "start_runner env send st = Inr st'" "as_runner st = None" "as_registry st = Some g"
  shows "st' = st\<lparr>as_runner := Some \<lparr>tr_handlers = [(''notify'', \<lparr>dp_env = env, dp_registry = g, dp_send = send\<rparr>)],
     tr_tasks = []\<rparr>\<rparr>"
  using assms
  by (auto simp: start_runner_def registered_notify register_def new_task_runner_def registered_task_names_def)

lemma start_processor_facts:
  assumes "start_processor lib fs s st = Inr st'" "as_processor st = None" "as_registry st = Some g"
  obtains topology rules where "st' = st\<lparr>as_processor := Some (build_icinga2_processor topology rules True (Some g)
      (st_audit_raw_payload_max_bytes s) (st_audit_raw_payload_hmac_key s))\<rparr>"
    "case st_rules_path s of None \<Rightarrow> rules = None
       | Some p \<Rightarrow> \<exists>rs h. rules = Some rs \<and> read_rules lib fs True (names g) p = Inr (rs, h)"
proof -
  from assms obtain topology rules where "st' = st\<lparr>as_processor := Some (build_icinga2_processor topology rules True (Some g)
      (st_audit_raw_payload_max_bytes s) (st_audit_raw_payload_hmac_key s))\<rparr>"
    "(case st_rules_path s of None \<Rightarrow> Inr None
      | Some p \<Rightarrow> sbind (raised (read_rules lib fs True (names g) p)) (\<lambda>(rules, h). Inr (Some rules))) = Inr rules"
    unfolding start_processor_def assms(2,3) started_simps option.sel by blast
  with that show thesis by (auto split: option.splits prod.splits)
qed

lemma start_workers_facts:
  assumes "start_workers s st = Inr st'" "as_worker st = None" "as_sweeper st = None"
  obtains w sw where "st' = st\<lparr>as_worker := Some w, as_sweeper := Some sw\<rparr>" "\<not> wk_healthy w"
    "lp_task (wk_loop w) = Some Waiting" "lp_task (sw_loop sw) = Some Waiting"
proof -
  from assms obtain w sw where w: "new_lifecycle_worker (st_lifecycle_scan_interval_seconds s) (st_lifecycle_batch_size s) = Inr w"
    and sw: "new_sweep_worker (st_rate_limit_sweep_interval_seconds s) = Inr sw"
    and st': "st' = st\<lparr>as_worker := Some (over_loop loop_start w), as_sweeper := Some (sw\<lparr>sw_loop := loop_start (sw_loop sw)\<rparr>)\<rparr>"
    by (auto simp: start_workers_def)
  have "\<not> wk_healthy w" "wk_loop w = new_loop" using w by (auto simp: new_lifecycle_worker_def split: if_splits)
  moreover have "sw_loop sw = new_loop" using sw by (auto simp: new_sweep_worker_def split: if_splits)
  ultimately show thesis by (intro that [OF st']) (simp_all add: loop_start_def new_loop_def)
qed

lemma lifespan_facts:
  assumes "lifespan_start env send lib fs s new_app_state = Inr st"
  obtains g pc w where
    "as_registry st = Some g" "as_processor st = Some pc" "as_worker st = Some w"
    "names g \<noteq> [] \<Longrightarrow> \<exists>file. load_plugin_registry env (lb_plugins_hash lib) file = Inr g"
    "as_runner st = Some \<lparr>tr_handlers = [(''notify'', \<lparr>dp_env = env, dp_registry = g, dp_send = send\<rparr>)], tr_tasks = []\<rparr>"
    "\<exists>topology. pc = build_icinga2_processor topology (pc_rules pc) True (Some g) (st_audit_raw_payload_max_bytes s)
       (st_audit_raw_payload_hmac_key s)"
    "case st_rules_path s of None \<Rightarrow> pc_rules pc = None
       | Some p \<Rightarrow> \<exists>rules h. pc_rules pc = Some rules \<and> read_rules lib fs True (names g) p = Inr (rules, h)"
    "case st_rules_path s of None \<Rightarrow> as_rules st = Some ([], [])
       | Some p \<Rightarrow> \<exists>r. as_rules st = Some r \<and> read_rules lib fs False (names g) p = Inr r"
    "as_topology st \<noteq> None" "\<not> wk_healthy w" "lp_task (wk_loop w) = Some Waiting"
proof -
  from assms obtain st1 st2 st3 st4 where 1: "start_registry env lib fs s new_app_state = Inr st1"
    and 2: "start_config lib fs s st1 = Inr st2" and 3: "start_runner env send st2 = Inr st3"
    and 4: "start_processor lib fs s st3 = Inr st4" and 5: "start_workers s st4 = Inr st"
    by (auto simp: lifespan_start_def)
  obtain g where g: "st1 = new_app_state\<lparr>as_registry := Some g, as_loaded := categories g\<rparr>"
    "names g \<noteq> [] \<Longrightarrow> \<exists>file. load_plugin_registry env (lb_plugins_hash lib) file = Inr g"
    by (rule start_registry_facts [OF 1]) blast
  have st1: "as_rules st1 = None" "as_topology st1 = None" "as_registry st1 = Some g" "as_runner st1 = None"
    "as_processor st1 = None" "as_worker st1 = None" "as_sweeper st1 = None"
    by (simp_all add: g(1) new_app_state_def)
  obtain rules topology where c: "st2 = st1\<lparr>as_rules := Some rules, as_topology := Some topology\<rparr>"
    "case st_rules_path s of None \<Rightarrow> rules = ([], []) | Some p \<Rightarrow> read_rules lib fs False (names g) p = Inr rules"
    by (rule start_config_facts [OF 2 st1(1-3)])
  have r: "st3 = st2\<lparr>as_runner := Some \<lparr>tr_handlers = [(''notify'', \<lparr>dp_env = env, dp_registry = g, dp_send = send\<rparr>)],
      tr_tasks = []\<rparr>\<rparr>"
    by (rule start_runner_facts [OF 3]) (simp_all add: c(1) st1)
  obtain topology' rules' where p: "st4 = st3\<lparr>as_processor := Some (build_icinga2_processor topology' rules' True (Some g)
      (st_audit_raw_payload_max_bytes s) (st_audit_raw_payload_hmac_key s))\<rparr>"
    "case st_rules_path s of None \<Rightarrow> rules' = None
       | Some p \<Rightarrow> \<exists>rs h. rules' = Some rs \<and> read_rules lib fs True (names g) p = Inr (rs, h)"
    by (rule start_processor_facts [OF 4]) (simp_all add: r c(1) st1)
  obtain w sw where w: "st = st4\<lparr>as_worker := Some w, as_sweeper := Some sw\<rparr>" "\<not> wk_healthy w"
    "lp_task (wk_loop w) = Some Waiting"
    by (rule start_workers_facts [OF 5]) (simp_all add: p(1) r c(1) st1)
  show thesis
    using g(2) c(2) p(2) w(2,3)
    by (intro that [of g "build_icinga2_processor topology' rules' True (Some g)
      (st_audit_raw_payload_max_bytes s) (st_audit_raw_payload_hmac_key s)" w])
      (simp_all add: w(1) p(1) r c(1) st1 build_icinga2_processor_def split: option.splits)
qed

section \<open>Notifications of a started service\<close>

lemma submit_loop_registered:
  assumes "w_runner w = Some r" "map_of (tr_handlers r) ''notify'' = Some h" "set ns \<subseteq> set (pc_plugin_names pc)"
    "submit_loop pc q i ns w = (w', res)"
  shows "res = Inr (map (\<lambda>_. dispatch_result True Dispatched ''notification task submitted'') ns) \<and>
    w_runner w' = Some (r\<lparr>tr_tasks := tr_tasks r @ map (\<lambda>n. (h, notify_payload i n (pc_config_hash pc))) ns\<rparr>)"
  using assms
proof (induction ns arbitrary: w r w' res)
  case (Cons n ns)
  let ?r = "r\<lparr>tr_tasks := tr_tasks r @ [(h, notify_payload i n (pc_config_hash pc))]\<rparr>"
  let ?w = "count_submission Accepted (w\<lparr>w_runner := Some ?r\<rparr>)"
  have one: "submit_one pc q i n w = (?w, Inr (dispatch_result True Dispatched ''notification task submitted''))"
    using Cons.prems(1-3) by (simp add: submit_one_def submit_def)
  obtain w1 res1 where l: "submit_loop pc q i ns ?w = (w1, res1)" by (cases "submit_loop pc q i ns ?w")
  have "res1 = Inr (map (\<lambda>_. dispatch_result True Dispatched ''notification task submitted'') ns) \<and>
      w_runner w1 = Some (?r\<lparr>tr_tasks := tr_tasks ?r @ map (\<lambda>n. (h, notify_payload i n (pc_config_hash pc))) ns\<rparr>)"
    by (rule Cons.IH [OF _ _ _ l]) (use Cons.prems(2,3) in \<open>simp_all add: count_submission_def\<close>)
  with Cons.prems(4) one l show ?case by auto
qed auto

lemma known_actions:
  assumes "read_rules lib fs again known p = Inr (rules, h)" "known \<noteq> []" "evaluate rules e = Inr (Match m)"
  shows "set (rm_actions m) \<subseteq> set known \<and> (\<exists>c \<in> set rules. rm_rule_name m = rd_name (cr_definition c) \<and>
    rm_priority m = rd_priority (cr_definition c) \<and> rm_actions m = map ra_plugin (rd_actions (cr_definition c)))"
proof -
  from assms(1) obtain config where
    l: "load_rules_config (lb_re_compile lib) (lb_rules_hash lib) [''create_incident''] known config = Inr (rules, h)"
    by (auto simp: read_rules_def result_simps)
  from assms(3) have "evaluate_rules (rule_engine rules) e = Inr (Match m)"
    by (simp add: evaluate_def split: if_splits)
  then obtain before c after where c: "rule_engine rules = before @ c # after"
    "rm_actions m = map ra_plugin (rd_actions (cr_definition c))" "rm_rule_name m = rd_name (cr_definition c)"
    "rm_priority m = rd_priority (cr_definition c)"
    by (rule evaluate_rules_eq_Match)
  have "c \<in> set rules" using c(1) set_rule_engine [of rules] by (metis in_set_conv_decomp)
  with load_rules_facts [OF l] assms(2) c(2-4) show ?thesis by auto
qed

lemma accepted_notifications:
  assumes "process_payload x pc q p w = (w', Inr v)" "ie_state_accepted v" "w_runner w = Some r"
    and "map_of (tr_handlers r) ''notify'' = Some h"
    and "\<And>rules e m. pc_rules pc = Some rules \<Longrightarrow> evaluate rules e = Inr (Match m) \<Longrightarrow>
      set (rm_actions m) \<subseteq> set (pc_plugin_names pc)"
  obtains i ns where
    "ie_notification_results v = map (\<lambda>_. dispatch_result True Dispatched ''notification task submitted'') ns"
    "ie_notification_failed v = list_ex (\<lambda>x. \<not> nr_success x) (ie_notification_results v)"
    "w_runner w' = Some (r\<lparr>tr_tasks := tr_tasks r @ map (\<lambda>n. (h, notify_payload i n (pc_config_hash pc))) ns\<rparr>)"
  using assms(1)
proof (cases rule: process_payload_cases)
  case (unchanged ms)
  with assms(2) show thesis by simp
next
  case (committed event e ds d ms ms' t' a' c)
  let ?w = "w\<lparr>w_incidents := t', w_audit := a', w_metrics := ms'\<rparr>"
  obtain results where res: "(case cm_aggregation c of
        Some r \<Rightarrow> if ar_dispatch_planned r then submit_notifications pc q (ar_incident_id r) (matched d) ?w else (?w, Inr [])
      | None \<Rightarrow> (?w, Inr [])) = (w', Inr results)"
    and v: "accepted_envelope e ds d c results = Inr v"
    using committed(5) unfolding after_commit_def by (auto split: prod.splits sum.splits)
  have v': "ie_notification_results v = results" "ie_notification_failed v = list_ex (\<lambda>x. \<not> nr_success x) results"
    using v by (auto simp: accepted_envelope_def ingress_envelope_validate_def result_simps Let_def split: if_splits)
  have decided: "decide pc e = Inr d" using committed(2) by (auto simp: prepare_def result_simps)
  show thesis
  proof (cases "w' = ?w \<and> results = []")
    case True
    then show thesis by (intro that [of "[]"]) (simp_all add: v' assms(3))
  next
    case False
    with res have "\<exists>i m. matched d = Some m \<and>
        submit_loop pc q i (sorted_set (rm_actions m)) ?w = (w', Inr results)"
      by (auto simp: submit_notifications_def split: option.splits if_splits)
    then obtain i m where a: "matched d = Some m"
      "submit_loop pc q i (sorted_set (rm_actions m)) ?w = (w', Inr results)" by blast
    then have "d = Match m" by (simp add: matched_def split: engine_decision.splits)
    with decided obtain rules where "pc_rules pc = Some rules" "evaluate rules e = Inr (Match m)"
      by (auto simp: decide_def split: option.splits)
    from assms(5) [OF this] have "set (sorted_set (rm_actions m)) \<subseteq> set (pc_plugin_names pc)" by simp
    from submit_loop_registered [OF _ assms(4) this a(2)] assms(3) show thesis
      by (intro that [of "sorted_set (rm_actions m)" i]) (simp_all add: v')
  qed
qed

text \<open>
  C7: whatever the configuration files hold, a service that starts with a plugin delivers: every
  notification of an accepted request is submitted, none is reported failed, each submitted task
  belongs to the dispatcher over the loaded registry, and on the table the request leaves that
  dispatcher asks the plugin to send the incident's envelope.
\<close>

theorem started_service_notifies:
  assumes "lifespan_start env send lib fs s new_app_state = Inr st" "\<forall>entries. length (lb_plugins_hash lib entries) \<le> 128"
    and "as_registry st = Some g" "names g \<noteq> []" "as_processor st = Some pc" "as_runner st = Some r0"
    and "w_runner w = Some r" "tr_handlers r = tr_handlers r0"
    and "table_inv (w_incidents w)" "\<forall>x \<in> set (w_incidents w). bounded_string (inc_summary x)"
    and "process_payload x pc q p w = (w', Inr v)" "ie_state_accepted v"
  shows "list_all nr_success (ie_notification_results v) \<and> \<not> ie_notification_failed v \<and>
    (\<exists>ts. w_runner w' = Some (r\<lparr>tr_tasks := tr_tasks r @ ts\<rparr>) \<and>
       length ts = length (ie_notification_results v) \<and>
       (\<forall>t \<in> set ts. fst t = \<lparr>dp_env = env, dp_registry = g, dp_send = send\<rparr> \<and>
          (\<exists>plugin e. delivery_attempt (fst t) (snd t) (w_incidents w') plugin e)))"
proof -
  let ?h = "\<lparr>dp_env = env, dp_registry = g, dp_send = send\<rparr>"
  from assms(1) obtain entries topology where
    load: "load_plugin_registry env (lb_plugins_hash lib) entries = Inr g"
    and pc: "pc = build_icinga2_processor topology (pc_rules pc) True (Some g) (st_audit_raw_payload_max_bytes s)
       (st_audit_raw_payload_hmac_key s)"
    and notify: "map_of (tr_handlers r) ''notify'' = Some ?h"
    and rules: "case st_rules_path s of None \<Rightarrow> pc_rules pc = None
       | Some p \<Rightarrow> \<exists>rules h. pc_rules pc = Some rules \<and> read_rules lib fs True (names g) p = Inr (rules, h)"
    by (rule lifespan_facts) (use assms(3-6,8) in auto)
  have names: "pc_plugin_names pc = names g" by (subst pc) (simp add: build_icinga2_processor_def)
  have known: "set (rm_actions m) \<subseteq> set (pc_plugin_names pc)"
    if "pc_rules pc = Some rs" "evaluate rs e = Inr (Match m)" for rs e m
  proof -
    from rules that(1) obtain p h where "read_rules lib fs True (names g) p = Inr (rs, h)"
      by (auto split: option.splits)
    from known_actions [OF this assms(4) that(2)] show ?thesis by (simp add: names)
  qed
  obtain i ns where v: "ie_notification_results v = map (\<lambda>_. dispatch_result True Dispatched ''notification task submitted'') ns"
    "ie_notification_failed v = list_ex (\<lambda>x. \<not> nr_success x) (ie_notification_results v)"
    and w': "w_runner w' = Some (r\<lparr>tr_tasks := tr_tasks r @ map (\<lambda>n. (?h, notify_payload i n (pc_config_hash pc))) ns\<rparr>)"
    by (rule accepted_notifications [OF assms(11,12,7) notify known])
  let ?ts = "map (\<lambda>n. (?h, notify_payload i n (pc_config_hash pc))) ns"
  obtain R where "R = pc_rules pc" by blast
  with pc have "pc = build_icinga2_processor topology R True (Some g) (st_audit_raw_payload_max_bytes s)
     (st_audit_raw_payload_hmac_key s)" by (simp only:)
  note delivered = submitted_task_delivered [OF load assms(2) assms(11) [unfolded this] assms(9,10,7) w']
  have "\<exists>plugin e. delivery_attempt (fst t) (snd t) (w_incidents w') plugin e" if "t \<in> set ?ts" for t
  proof -
    have "\<exists>plugin e. delivery_attempt ?h (snd t) (w_incidents w') plugin e"
      by (rule delivered) (use that in simp)
    moreover have "fst t = ?h" using that by auto
    ultimately show ?thesis by (simp only:)
  qed
  with v w' show ?thesis by (intro conjI exI [of _ ?ts]) (auto simp: list_all_iff list_ex_iff)
qed

text \<open>
  The rules the operator sees are the rules in force: when the file did not change between the
  two reads of startup, every rule that decides an event is on the status route with its priority
  and the plugins it notifies; and right after startup the service is not ready, and becomes ready
  exactly with the first completed sweep, a database that answers and plugins that are ready.
\<close>

lemma started_service_status:
  assumes "lifespan_start env send lib fs s new_app_state = Inr st" "as_registry st = Some g" "names g \<noteq> []"
    and "as_rules st = Some rc" "as_processor st = Some pc" "as_worker st = Some wk"
    and "\<forall>p. cf_rules fs True p = cf_rules fs False p"
    and "readyz database_ok s (served_of env st) z = (z1, cs1, code1)"
    and "readyz database_ok s (served_of env (st\<lparr>as_worker := Some (fst (run_sweep now (Inr n) wk))\<rparr>)) z1 = (z2, cs2, code2)"
  shows "(\<forall>e m. decide pc e = Inr (Match m) \<longrightarrow> (\<exists>x \<in> set (snd (list_rules_summary rc)).
       rs_name x = rm_rule_name m \<and> rs_priority x = rm_priority m \<and> map snd (rs_actions x) = rm_actions m)) \<and>
    code1 = 503 \<and> (code2 = 200 \<longleftrightarrow> database_ok \<and> plugins_ready env g)"
proof -
  from assms(1) obtain
    rules: "case st_rules_path s of None \<Rightarrow> pc_rules pc = None
       | Some p \<Rightarrow> \<exists>rules h. pc_rules pc = Some rules \<and> read_rules lib fs True (names g) p = Inr (rules, h)"
    and served: "case st_rules_path s of None \<Rightarrow> as_rules st = Some ([], [])
       | Some p \<Rightarrow> \<exists>r. as_rules st = Some r \<and> read_rules lib fs False (names g) p = Inr r"
    and topology: "as_topology st \<noteq> None" and unhealthy: "\<not> wk_healthy wk"
    by (rule lifespan_facts) (use assms(2,5,6) in auto)
  have "\<exists>x \<in> set (snd (list_rules_summary rc)).
      rs_name x = rm_rule_name m \<and> rs_priority x = rm_priority m \<and> map snd (rs_actions x) = rm_actions m"
    if d: "decide pc e = Inr (Match m)" for e m
  proof -
    from d rules obtain p rs h where r: "st_rules_path s = Some p" "pc_rules pc = Some rs"
      "read_rules lib fs True (names g) p = Inr (rs, h)"
      by (auto simp: decide_def split: option.splits)
    have "evaluate rs e = Inr (Match m)" using d r(2) by (simp add: decide_def)
    from known_actions [OF r(3) assms(3) this] obtain c where c: "c \<in> set rs" "rm_rule_name m = rd_name (cr_definition c)"
      "rm_priority m = rd_priority (cr_definition c)" "rm_actions m = map ra_plugin (rd_actions (cr_definition c))" by blast
    have "read_rules lib fs False (names g) p = read_rules lib fs True (names g) p"
      using assms(7) by (simp add: read_rules_def)
    with served r(1,3) assms(4) have "rc = (rs, h)" by simp
    with c show ?thesis
      by (intro bexI [of _ "rule_summary_of c"]) (simp_all add: list_rules_summary_def rule_summary_of_def)
  qed
  moreover have "code1 = 503"
    using readyz_facts [OF assms(8)] unhealthy by (auto simp: served_of_def assms(2,6))
  moreover have "code2 = 200 \<longleftrightarrow> database_ok \<and> plugins_ready env g"
    using readyz_facts [OF assms(9), THEN conjunct1] topology
    by (simp add: served_of_def assms(2,4) run_sweep_def)
  ultimately show ?thesis by blast
qed

end
