(* ===== verification/WitnessesService.thy ===== *)
theory WitnessesService
  imports WitnessesIngress WitnessesApi Startup
begin

text \<open>
  The properties of the background worker, of the readiness route, of the route guards and of
  startup, applied at concrete states, files and requests.
\<close>

section \<open>The lifecycle worker\<close>

text \<open>A worker that has swept the one stale incident of a table once.\<close>

definition demo_worker :: lifecycle_worker where
  "demo_worker =
     \<lparr>wk_interval_seconds = 60, wk_batch_size = 10, wk_loop = new_loop, wk_healthy = False,
      wk_last_sweep_at = None, wk_last_error_category = None, wk_expired_total = 0\<rparr>"

definition demo_now :: int where
  "demo_now = demo_start + 301 * second"

definition demo_sweeping :: worker_state where
  "demo_sweeping = (over_loop loop_test (over_loop loop_start demo_worker), False, [], [demo_row 1])"

lemma demo_sweeping_reachable: "worker_reachable 60 10 demo_sweeping"
proof -
  have "new_lifecycle_worker 60 10 = Inr demo_worker"
    by (simp add: new_lifecycle_worker_def demo_worker_def)
  from worker_reachable.start [OF this table_inv_demo_row(1)]
  have "worker_reachable 60 10 (demo_worker, False, [], [demo_row 1])" .
  from worker_reachable.step [OF this worker_step.started]
  have "worker_reachable 60 10 (over_loop loop_start demo_worker, False, [], [demo_row 1])" .
  from worker_reachable.step [OF this worker_step.tested] show ?thesis by (simp add: demo_sweeping_def)
qed

theorem worker_invariant_witness:
  "\<exists>w ms t. sweep_database True demo_now demo_sweeping = (w, True, ms, t) \<and> wk_healthy w \<and> wk_expired_total w = 1 \<and>
     table_inv t \<and> 1 \<le> expired_count ms"
proof -
  obtain w g ms t where r: "sweep_database True demo_now demo_sweeping = (w, g, ms, t)"
    by (cases "sweep_database True demo_now demo_sweeping")
  have c: "case sweep_database True demo_now demo_sweeping of (w, g, ms, t) \<Rightarrow> g \<and> wk_expired_total w = 1"
    by code_simp
  have "lp_task (wk_loop (over_loop loop_test (over_loop loop_start demo_worker))) = Some Sweeping"
    by code_simp
  from worker_step.swept [OF this r [unfolded demo_sweeping_def]]
  have "worker_reachable 60 10 (over_loop (\<lambda>l. l\<lparr>lp_task := Some Waiting\<rparr>) w, g, ms, t)"
    using worker_reachable.step demo_sweeping_reachable unfolding demo_sweeping_def by blast
  from worker_invariant [OF this] c r show ?thesis by auto
qed

theorem worker_drains_backlog_witness:
  "\<exists>w ms t. sweeps [demo_now] (demo_worker, False, [], [demo_row 1]) = (w, True, ms, t) \<and> wk_expired_total w = 1 \<and>
     open_count t = 0"
proof -
  obtain w g ms t where r: "sweeps [demo_now] (demo_worker, False, [], [demo_row 1]) = (w, g, ms, t)"
    by (cases "sweeps [demo_now] (demo_worker, False, [], [demo_row 1])")
  have c: "case sweeps [demo_now] (demo_worker, False, [], [demo_row 1]) of (w, g, ms, t) \<Rightarrow> open_count t = 0"
    by code_simp
  have "safe_text (Some (inc_rule_name (demo_row 1)))" by code_simp
  then have e: "\<forall>r \<in> set [demo_row 1]. inc_open r \<longrightarrow> expirable r"
    by (simp add: expirable_def demo_row_def demo_window_def int4_ok_def)
  have o1: "open_count [demo_row 1] = 1" by code_simp
  from worker_drains_backlog [OF table_inv_demo_row(1) e _ _ _ r, of demo_now] c r o1
  show ?thesis by (simp add: demo_worker_def)
qed

section \<open>Readiness\<close>

text \<open>A service without plugins, before and after its worker's first sweep.\<close>

definition demo_served :: "bool \<Rightarrow> (string, string) served" where
  "demo_served swept =
     \<lparr>sv_env = demo_plugin_env, sv_registry = Some \<lparr>rg_entries = [], rg_positions = [], rg_config_hash = ''h'', rg_plugins = []\<rparr>,
      sv_rules_loaded = False, sv_topology_loaded = False,
      sv_worker = Some (demo_worker\<lparr>wk_healthy := swept\<rparr>)\<rparr>"

definition demo_gauges :: readiness_gauges where
  "demo_gauges = \<lparr>rg_dependencies = (\<lambda>k s. 0), rg_output_plugins = (\<lambda>k s. 0)\<rparr>"

theorem readiness_log_faithful_witness:
  "\<exists>z cs. readyz True demo_settings (demo_served True)
       (readyz_run demo_settings [(True, demo_served False)] (readyz_start demo_gauges)) = (z, cs, 200) \<and>
     last_logged (rz_log z) ''lifecycle_worker'' \<noteq> Some Plugin_not_ready"
proof -
  let ?z = "readyz_run demo_settings [(True, demo_served False)] (readyz_start demo_gauges)"
  have c: "snd (snd (readyz True demo_settings (demo_served True) ?z)) = 200" by code_simp
  obtain z cs code where r: "readyz True demo_settings (demo_served True) ?z = (z, cs, code)"
    by (cases "readyz True demo_settings (demo_served True) ?z")
  have code: "code = 200" using c by (simp only: r snd_conv)
  have "''lifecycle_worker'' \<in> set readiness_check_keys"
    by (simp add: readiness_check_keys_def readiness_dependency_keys_def)
  with readiness_log_faithful [OF r, THEN conjunct2] code
  have "code = 200 \<and> last_logged (rz_log z) ''lifecycle_worker'' \<noteq> Some Plugin_not_ready"
    by auto
  with r show ?thesis by blast
qed

section \<open>Guarded routes\<close>




section \<open>Startup\<close>

definition demo_files :: config_files where
  "demo_files =
     \<lparr>cf_plugins = (\<lambda>p. Some demo_plugin_entries), cf_rules = (\<lambda>again p. Inr [demo_rule_config]),
      cf_topology = (\<lambda>again p. Inr ([], []))\<rparr>"

definition demo_libraries :: libraries where
  "demo_libraries =
     \<lparr>lb_re_compile = (\<lambda>p. Some (demo_pattern p)), lb_ip_network = (\<lambda>s. None), lb_rules_hash = (\<lambda>rs. ''h''),
      lb_plugins_hash = (\<lambda>es. ''h'')\<rparr>"

definition demo_service_settings :: settings where
  "demo_service_settings = demo_settings\<lparr>st_plugins_path := Some ''plugins'', st_rules_path := Some ''rules''\<rparr>"

definition demo_started :: "(string, string) app_state started" where
  "demo_started = lifespan_start demo_plugin_env (\<lambda>p e. True) demo_libraries demo_files demo_service_settings new_app_state"

definition demo_service_world ::
  "((string, string) dispatcher, (string, json) dict) task_runner \<Rightarrow> (string, string) dispatcher world" where
  "demo_service_world r = \<lparr>w_incidents = [demo_other_row], w_audit = [], w_metrics = [], w_runner = Some r\<rparr>"

definition demo_accepts :: "processor \<Rightarrow> ((string, string) dispatcher, (string, json) dict) task_runner \<Rightarrow> bool" where
  "demo_accepts pc r =
     (case process_payload demo_externals pc demo_request demo_webhook (demo_service_world r) of
        (w', Inr v) \<Rightarrow> ie_state_accepted v \<and> length (ie_notification_results v) = 1
      | _ \<Rightarrow> False)"

definition demo_decides :: "processor \<Rightarrow> bool" where
  "demo_decides pc =
     (case decide pc (demo_event ''fp1'' 0 PROBLEM) of Inr (Match m) \<Rightarrow> rm_rule_name m = ''hosts'' | _ \<Rightarrow> False)"

lemma demo_started_run:
  obtains st g pc r wk rc where "demo_started = Inr st" "as_registry st = Some g" "names g = [''mail'']"
    "as_processor st = Some pc" "as_runner st = Some r" "as_worker st = Some wk" "as_rules st = Some rc"
    "demo_accepts pc r" "demo_decides pc" "\<not> isl (get_plugin demo_plugin_env ''mail'' g)"
proof -
  have "case demo_started of Inl e \<Rightarrow> False
    | Inr st \<Rightarrow> as_registry st \<noteq> None \<and> as_processor st \<noteq> None \<and> as_runner st \<noteq> None \<and> as_worker st \<noteq> None \<and>
        as_rules st \<noteq> None \<and> names (the (as_registry st)) = [''mail''] \<and>
        demo_accepts (the (as_processor st)) (the (as_runner st)) \<and> demo_decides (the (as_processor st)) \<and>
        \<not> isl (get_plugin demo_plugin_env ''mail'' (the (as_registry st)))"
    by code_simp
  note started = this
  show thesis
  proof (cases demo_started)
    case (Inr st)
    from started have "as_registry st \<noteq> None" "as_processor st \<noteq> None" "as_runner st \<noteq> None" "as_worker st \<noteq> None"
      "as_rules st \<noteq> None" "names (the (as_registry st)) = [''mail'']"
      "demo_accepts (the (as_processor st)) (the (as_runner st))" "demo_decides (the (as_processor st))"
      "\<not> isl (get_plugin demo_plugin_env ''mail'' (the (as_registry st)))"
      unfolding Inr sum.case by blast+
    with Inr show thesis
      by (intro that [of st "the (as_registry st)" "the (as_processor st)" "the (as_runner st)" "the (as_worker st)"
            "the (as_rules st)"]) auto
  next
    case (Inl e)
    from started show thesis unfolding Inl sum.case by blast
  qed
qed

theorem started_service_notifies_witness:
  "\<exists>st pc r w' v t plugin e. demo_started = Inr st \<and> as_processor st = Some pc \<and> as_runner st = Some r \<and>
     process_payload demo_externals pc demo_request demo_webhook (demo_service_world r) = (w', Inr v) \<and>
     \<not> ie_notification_failed v \<and> t \<in> set (tr_tasks (the (w_runner w'))) \<and> delivery_attempt (fst t) (snd t) (w_incidents w') plugin e"
proof -
  obtain st g pc r where st: "demo_started = Inr st" "as_registry st = Some g" "names g = [''mail'']"
    "as_processor st = Some pc" "as_runner st = Some r"
    and run: "demo_accepts pc r"
    by (rule demo_started_run)
  from run obtain w' v where r: "process_payload demo_externals pc demo_request demo_webhook (demo_service_world r) = (w', Inr v)"
    "ie_state_accepted v" "length (ie_notification_results v) = 1"
    by (auto simp: demo_accepts_def split: prod.splits sum.splits)
  have h: "\<forall>entries. length (lb_plugins_hash demo_libraries entries) \<le> 128" by (simp add: demo_libraries_def)
  have w: "w_runner (demo_service_world r) = Some r" "table_inv (w_incidents (demo_service_world r))"
    "\<forall>x \<in> set (w_incidents (demo_service_world r)). bounded_string (inc_summary x)"
    using demo_world_inv by (simp_all add: demo_service_world_def)
  have n: "names g \<noteq> []" using st(3) by simp
  from started_service_notifies [OF st(1) [unfolded demo_started_def] h st(2) n st(4,5) w(1) refl w(2,3) r(1,2)]
  obtain ts where ts: "\<not> ie_notification_failed v" "w_runner w' = Some (r\<lparr>tr_tasks := tr_tasks r @ ts\<rparr>)"
    "length ts = length (ie_notification_results v)"
    "\<forall>t \<in> set ts. fst t = \<lparr>dp_env = demo_plugin_env, dp_registry = g, dp_send = \<lambda>p e. True\<rparr> \<and>
       (\<exists>plugin e. delivery_attempt (fst t) (snd t) (w_incidents w') plugin e)"
    by (elim conjE exE) (rule that)
  obtain t where t: "t \<in> set ts" using ts(3) r(3) by (cases ts) auto
  from bspec [OF ts(4) t, THEN conjunct2] obtain plugin e where "delivery_attempt (fst t) (snd t) (w_incidents w') plugin e"
    by (elim exE) (rule that)
  moreover have "t \<in> set (tr_tasks (the (w_runner w')))" using t by (simp add: ts(2))
  ultimately show ?thesis using st(1,4,5) r(1) ts(1)
    by (intro exI [of _ st] exI [of _ pc] exI [of _ r] exI [of _ w'] exI [of _ v] exI [of _ t] exI [of _ plugin]
        exI [of _ e] conjI)
qed

end
