(* ===== verification/MigrateSource.thy ===== *)
theory MigrateSource
  imports Rules Topology Plugins
begin

text \<open>
  The source side of the migration CLI (\<open>scripts/migrate_vigilo_config.py\<close>): the documents it reads,
  the issues it reports and the rewriting of tag keys, placeholders and group fields, with the
  preflight checks of rules, topology and plugins.  \<open>str()\<close> of a value that is not a string and
  \<open>re.compile\<close> are parameters.
\<close>

section \<open>Documents\<close>

text \<open>What \<open>yaml.safe_load\<close> returns; a float and any other scalar carry their text.\<close>

datatype yaml =
    YNull
  | YBool bool
  | YInt int
  | YFloat string
  | YStr string
  | YOther string
  | YList "yaml list"
  | YMap "(yaml \<times> yaml) list"

type_synonym ymap = "(yaml \<times> yaml) list"

definition yget :: "string \<Rightarrow> ymap \<Rightarrow> yaml option" where
  "yget k m = map_of m (YStr k)"

definition yget_or :: "string \<Rightarrow> yaml \<Rightarrow> ymap \<Rightarrow> yaml" where
  "yget_or k d m = (case yget k m of None \<Rightarrow> d | Some v \<Rightarrow> v)"

definition is_ystr :: "yaml \<Rightarrow> bool" where
  "is_ystr v = (case v of YStr _ \<Rightarrow> True | _ \<Rightarrow> False)"

definition ymap_or_empty :: "yaml \<Rightarrow> ymap" where
  "ymap_or_empty v = (case v of YMap m \<Rightarrow> m | _ \<Rightarrow> [])"

definition ylist_or_empty :: "yaml \<Rightarrow> yaml list" where
  "ylist_or_empty v = (case v of YList xs \<Rightarrow> xs | _ \<Rightarrow> [])"

text \<open>\<open>str(v)\<close> and the text of a value inside an f-string.\<close>

definition ystr :: "(yaml \<Rightarrow> string) \<Rightarrow> yaml \<Rightarrow> string" where
  "ystr py_str v = (case v of YStr s \<Rightarrow> s | _ \<Rightarrow> py_str v)"

definition enumerated :: "'a list \<Rightarrow> (nat \<times> 'a) list" where
  "enumerated xs = zip [0..<length xs] xs"

definition quoted :: "string \<Rightarrow> string" where
  "quoted s = CHR 0x27 # s @ [CHR 0x27]"

definition indexed :: "string \<Rightarrow> nat \<Rightarrow> string" where
  "indexed s i = s @ ''['' @ nat_str i @ '']''"

section \<open>Issues\<close>

datatype issue_domain = In_inputs | In_rules | In_topology | In_plugins | In_validation | In_promotion

datatype issue_code =
    Duplicate_flag | Invalid_input_path | Invalid_yaml | Invalid_source_document | Missing_top_level_wrapper
  | Unknown_source_field | Unsupported_rule_min_hosts | Unsupported_rule_is_dc_level | Invalid_rule_severity
  | Invalid_rule_priority | Invalid_rule_tags | Invalid_rule_matcher | Duplicate_rule_priority | Empty_actions
  | Invalid_action_entry | Unsupported_tag_wildcard | Invalid_topology_tag_key | Unsupported_group_by
  | Unsupported_summary_placeholder | Missing_topology_target_tag | Unsupported_hostname_topology
  | Invalid_topology_section | Invalid_topology_value | Missing_subnet_field | Unsupported_plugin_section
  | Unsupported_plugin_type | Unsupported_plugin_class | Plaintext_smtp_credentials | Unsupported_plugin_option
  | Unknown_action_plugin | Validation_failure | Promotion_failure_issue

fun domain_value :: "issue_domain \<Rightarrow> string" where
  "domain_value In_inputs = ''inputs''"
| "domain_value In_rules = ''rules''"
| "domain_value In_topology = ''topology''"
| "domain_value In_plugins = ''plugins''"
| "domain_value In_validation = ''validation''"
| "domain_value In_promotion = ''promotion''"

fun code_value :: "issue_code \<Rightarrow> string" where
  "code_value Duplicate_flag = ''duplicate_flag''"
| "code_value Invalid_input_path = ''invalid_input_path''"
| "code_value Invalid_yaml = ''invalid_yaml''"
| "code_value Invalid_source_document = ''invalid_source_document''"
| "code_value Missing_top_level_wrapper = ''missing_top_level_wrapper''"
| "code_value Unknown_source_field = ''unknown_source_field''"
| "code_value Unsupported_rule_min_hosts = ''unsupported_rule_min_hosts''"
| "code_value Unsupported_rule_is_dc_level = ''unsupported_rule_is_dc_level''"
| "code_value Invalid_rule_severity = ''invalid_rule_severity''"
| "code_value Invalid_rule_priority = ''invalid_rule_priority''"
| "code_value Invalid_rule_tags = ''invalid_rule_tags''"
| "code_value Invalid_rule_matcher = ''invalid_rule_matcher''"
| "code_value Duplicate_rule_priority = ''duplicate_rule_priority''"
| "code_value Empty_actions = ''empty_actions''"
| "code_value Invalid_action_entry = ''invalid_action_entry''"
| "code_value Unsupported_tag_wildcard = ''unsupported_tag_wildcard''"
| "code_value Invalid_topology_tag_key = ''invalid_topology_tag_key''"
| "code_value Unsupported_group_by = ''unsupported_group_by''"
| "code_value Unsupported_summary_placeholder = ''unsupported_summary_placeholder''"
| "code_value Missing_topology_target_tag = ''missing_topology_target_tag''"
| "code_value Unsupported_hostname_topology = ''unsupported_hostname_topology''"
| "code_value Invalid_topology_section = ''invalid_topology_section''"
| "code_value Invalid_topology_value = ''invalid_topology_value''"
| "code_value Missing_subnet_field = ''missing_subnet_field''"
| "code_value Unsupported_plugin_section = ''unsupported_plugin_section''"
| "code_value Unsupported_plugin_type = ''unsupported_plugin_type''"
| "code_value Unsupported_plugin_class = ''unsupported_plugin_class''"
| "code_value Plaintext_smtp_credentials = ''plaintext_smtp_credentials''"
| "code_value Unsupported_plugin_option = ''unsupported_plugin_option''"
| "code_value Unknown_action_plugin = ''unknown_action_plugin''"
| "code_value Validation_failure = ''validation_failure''"
| "code_value Promotion_failure_issue = ''promotion_failure''"

record migration_issue =
  mi_domain :: issue_domain
  mi_location :: string
  mi_code :: issue_code
  mi_message :: string
  mi_requirement :: string

text \<open>Every issue of the preflight names the requirement CFG-06.\<close>

definition issue :: "issue_domain \<Rightarrow> string \<Rightarrow> issue_code \<Rightarrow> string \<Rightarrow> migration_issue" where
  "issue domain location code message =
     \<lparr>mi_domain = domain, mi_location = location, mi_code = code, mi_message = message, mi_requirement = ''CFG-06''\<rparr>"

definition located :: "string \<Rightarrow> migration_issue \<Rightarrow> migration_issue" where
  "located loc i = i\<lparr>mi_location := loc @ ''.'' @ mi_location i\<rparr>"

definition issue_if :: "bool \<Rightarrow> migration_issue \<Rightarrow> migration_issue list" where
  "issue_if b i = (if b then [i] else [])"

section \<open>Names and keys\<close>

definition slug_char :: "char \<Rightarrow> bool" where
  "slug_char c \<longleftrightarrow> CHR ''a'' \<le> c \<and> c \<le> CHR ''z'' \<or> CHR ''0'' \<le> c \<and> c \<le> CHR ''9''"

text \<open>\<open>re.sub(r"[^a-z0-9]+", "-", s)\<close>; the flag tells whether the last character was replaced.\<close>

fun dashed :: "bool \<Rightarrow> string \<Rightarrow> string" where
  "dashed after [] = []"
| "dashed after (c # cs) =
     (if slug_char c then c # dashed False cs
      else if after then dashed True cs else CHR ''-'' # dashed True cs)"

definition strip_dashes :: "string \<Rightarrow> string" where
  "strip_dashes s = rev (dropWhile (\<lambda>c. c = CHR ''-'') (rev (dropWhile (\<lambda>c. c = CHR ''-'') s)))"

definition to_slug :: "string \<Rightarrow> string" where
  "to_slug name =
     (let slug = strip_dashes (dashed False (str_lower name)) in if slug = [] then ''rule'' else slug)"

fun unique_slugs_from :: "(string, nat) dict \<Rightarrow> string list \<Rightarrow> string list" where
  "unique_slugs_from seen [] = []"
| "unique_slugs_from seen (name # rest) =
     (let slug = to_slug name;
          n = (case map_of seen slug of None \<Rightarrow> 0 | Some n \<Rightarrow> n)
      in (if n = 0 then slug else slug @ ''-'' @ nat_str n) # unique_slugs_from (dict_set slug (n + 1) seen) rest)"

definition unique_slugs :: "string list \<Rightarrow> string list" where
  "unique_slugs xs = unique_slugs_from [] xs"

text \<open>\<open>^[a-z][a-z0-9_.-]*$\<close>, whose end also matches before a final line feed.\<close>

definition tag_key_re :: "string \<Rightarrow> bool" where
  "tag_key_re s = tag_key_pattern (if s \<noteq> [] \<and> last s = CHR 0x0A then butlast s else s)"

definition to_correlia_tag_key :: "string \<Rightarrow> string option" where
  "to_correlia_tag_key bare =
     (if bare = [] then None
      else let prefixed = (if prefix ''topology.'' bare then bare else ''topology.'' @ bare)
           in if tag_key_re prefixed then Some prefixed else None)"

definition glob_metachars :: string where
  "glob_metachars = ''*?[]''"

definition has_glob_metachar :: "string \<Rightarrow> bool" where
  "has_glob_metachar s = list_ex (\<lambda>c. c \<in> set glob_metachars) s"

section \<open>Rewriting\<close>

definition issues_of :: "(migration_issue + 'a) list \<Rightarrow> migration_issue list" where
  "issues_of rs = List.map_filter (\<lambda>r. case r of Inl i \<Rightarrow> Some i | Inr _ \<Rightarrow> None) rs"

definition values_of :: "(migration_issue + 'a) list \<Rightarrow> 'a list" where
  "values_of rs = List.map_filter (\<lambda>r. case r of Inl _ \<Rightarrow> None | Inr v \<Rightarrow> Some v) rs"

definition rewrite_tag :: "(yaml \<Rightarrow> string) \<Rightarrow> yaml \<times> yaml \<Rightarrow> migration_issue + (string \<times> string)" where
  "rewrite_tag py_str = (\<lambda>(key, val).
     let bad = (\<lambda>code message. Inl (issue In_rules (''match.tags['' @ ystr py_str key @ '']'') code message));
         name = quoted (ystr py_str key)
     in case key of
          YStr k \<Rightarrow>
            (case val of
               YStr v \<Rightarrow>
                 if has_glob_metachar v
                 then bad Unsupported_tag_wildcard (''tag value for '' @ name @ '' contains unsupported fnmatch metacharacters'')
                 else (case to_correlia_tag_key k of
                     None \<Rightarrow> bad Invalid_topology_tag_key
                       (''tag key '' @ name @ '' cannot be converted to a valid topology.* key'')
                   | Some new_key \<Rightarrow> Inr (new_key, v))
             | _ \<Rightarrow> bad Unsupported_tag_wildcard (''tag value for '' @ name @ '' must be a string''))
        | _ \<Rightarrow> bad Invalid_topology_tag_key (''tag key '' @ name @ '' must be a string''))"

definition rewrite_match_tags :: "(yaml \<Rightarrow> string) \<Rightarrow> ymap \<Rightarrow> (string, string) dict \<times> migration_issue list" where
  "rewrite_match_tags py_str tags =
     (let rs = map (rewrite_tag py_str) tags in (dict_merge [] (values_of rs), issues_of rs))"

definition rewrite_placeholder :: "string \<Rightarrow> string \<Rightarrow> string \<times> migration_issue list" where
  "rewrite_placeholder location inner =
     (let placeholder = ''{'' @ inner @ ''}'';
          bad = (\<lambda>message. (placeholder, [issue In_rules location Unsupported_summary_placeholder message]))
      in if inner = [] \<or> \<not> list_all summary_var_char inner
         then bad (''summary placeholder '' @ quoted placeholder @ '' is not a valid identifier'')
         else if inner \<in> set known_normalized_fields then (placeholder, [])
         else (case to_correlia_tag_key inner of
             None \<Rightarrow> bad (''summary placeholder '' @ quoted inner @ '' is not a normalized field or valid topology key'')
           | Some k \<Rightarrow> (''{'' @ k @ ''}'', [])))"

text \<open>The substitution for \<open>\{[^{}]*\}\<close> from the left.\<close>

function rewrite_summary :: "string \<Rightarrow> string \<Rightarrow> string \<times> migration_issue list" where
  "rewrite_summary location s =
     (case s of
        [] \<Rightarrow> ([], [])
      | c # cs \<Rightarrow>
          (let inner = takeWhile (\<lambda>c. c \<noteq> CHR ''{'' \<and> c \<noteq> CHR ''}'') cs;
               rest = drop (length inner) cs
           in if c = CHR ''{'' \<and> rest \<noteq> [] \<and> hd rest = CHR ''}''
              then (let (t, is) = rewrite_placeholder location inner; (ts, iss) = rewrite_summary location (tl rest)
                    in (t @ ts, is @ iss))
              else (let (ts, iss) = rewrite_summary location cs in (c # ts, iss))))"
  by pat_completeness auto
termination
  by (relation "measure (\<lambda>(location, s). length s)") auto

declare rewrite_summary.simps [simp del]

definition rewrite_group_entry :: "nat \<times> yaml \<Rightarrow> migration_issue + string" where
  "rewrite_group_entry = (\<lambda>(idx, entry).
     case entry of
       YStr s \<Rightarrow>
         (let bad = (\<lambda>message. Inl (issue In_rules (''window.group_by['' @ s @ '']'') Unsupported_group_by message))
          in if s \<in> set known_normalized_fields then Inr s
             else if s = ''rule_name''
             then bad (''window.group_by value '' @ quoted ''rule_name'' @ '' is not supported'')
             else (case to_correlia_tag_key s of
                 None \<Rightarrow> bad (''window.group_by value '' @ quoted s @ '' is not a normalized field or valid topology key'')
               | Some k \<Rightarrow> Inr k))
     | _ \<Rightarrow> Inl (issue In_rules (indexed ''window.group_by'' idx) Unsupported_group_by
              ''window.group_by entries must be strings''))"

definition rewrite_group_by :: "yaml list \<Rightarrow> string list \<times> migration_issue list" where
  "rewrite_group_by entries =
     (let rs = map rewrite_group_entry (enumerated entries) in (values_of rs, issues_of rs))"

definition unknown_source_field_issues ::
  "(yaml \<Rightarrow> string) \<Rightarrow> ymap \<Rightarrow> string list \<Rightarrow> issue_domain \<Rightarrow> string \<Rightarrow> migration_issue list" where
  "unknown_source_field_issues py_str source allowed_fields domain location =
     map (\<lambda>(key, _). issue domain (if location = [] then ystr py_str key else location @ ''.'' @ ystr py_str key)
            Unknown_source_field ''unknown source schema field is not supported'')
       (filter (\<lambda>(key, _). \<not> (case key of YStr s \<Rightarrow> s \<in> set allowed_fields | _ \<Rightarrow> False)) source)"

end
