(* ===== verification/MigratePreflight.thy ===== *)
theory MigratePreflight
  imports MigrateSource
begin

text \<open>
  The preflight checks of the migration CLI (\<open>scripts/migrate_vigilo_config.py\<close>), which report every
  field, value or plugin of the source that has no counterpart in Correlia.  What the source asks of
  Python's library is a record: \<open>str()\<close>, \<open>int()\<close> and \<open>repr()\<close> of other values, \<open>re.compile\<close> and
  \<open>fnmatch.translate\<close>.
\<close>

text \<open>
  What \<open>re.compile\<close> does with a text: a pattern, \<open>re.error\<close>, or an exception of another class, as the
  \<open>OverflowError\<close> for a repetition count that is too large and the \<open>RecursionError\<close> for a nesting that
  is too deep.
\<close>

datatype compiled = Compiled pattern | Not_a_regex | Compile_raises exn

record python =
  py_str :: "yaml \<Rightarrow> string"
  py_int :: "yaml \<Rightarrow> int result"
  py_compile :: "string \<Rightarrow> compiled"
  py_translate :: "string \<Rightarrow> string"

section \<open>Rules\<close>

definition rule_source_fields :: "string list" where
  "rule_source_fields =
     [''name'', ''priority'', ''match'', ''window'', ''output_summary'', ''actions'', ''is_dc_level'']"

definition rule_match_source_fields :: "string list" where
  "rule_match_source_fields = [''severity'', ''host'', ''service'', ''tags'']"

definition rule_window_source_fields :: "string list" where
  "rule_window_source_fields = [''group_by'', ''duration_seconds'', ''trigger_threshold'', ''min_hosts'']"

definition preflight_match :: "python \<Rightarrow> string \<Rightarrow> ymap \<Rightarrow> migration_issue list" where
  "preflight_match py loc m =
     unknown_source_field_issues (py_str py) m rule_match_source_fields In_rules (loc @ ''.match'') @
     (case yget ''severity'' m of
        Some (YList (x # xs)) \<Rightarrow> []
      | _ \<Rightarrow> [issue In_rules (loc @ ''.match.severity'') Invalid_rule_severity ''match.severity must be a non-empty list'']) @
     (case yget ''host'' m of
        None \<Rightarrow> []
      | Some (YStr _) \<Rightarrow> []
      | _ \<Rightarrow> [issue In_rules (loc @ ''.match.host'') Invalid_rule_matcher ''match.host must be a string when present'']) @
     (case yget_or ''service'' YNull m of
        YNull \<Rightarrow> []
      | YStr _ \<Rightarrow> []
      | _ \<Rightarrow> [issue In_rules (loc @ ''.match.service'') Invalid_rule_matcher
                ''match.service must be a string or null when present'']) @
     (case yget_or ''tags'' (YMap []) m of
        YMap tags \<Rightarrow> map (located loc) (snd (rewrite_match_tags (py_str py) tags))
      | _ \<Rightarrow> [issue In_rules (loc @ ''.match.tags'') Invalid_rule_tags ''match.tags must be a mapping''])"

definition preflight_priority :: "string \<Rightarrow> ymap \<Rightarrow> migration_issue list" where
  "preflight_priority loc m =
     (let bad = (\<lambda>message. [issue In_rules (loc @ ''.priority'') Invalid_rule_priority message])
      in case yget_or ''priority'' YNull m of
           YNull \<Rightarrow> bad ''priority is required and must be an integer''
         | YInt _ \<Rightarrow> []
         | _ \<Rightarrow> bad ''priority must be an integer'')"

definition preflight_actions :: "string \<Rightarrow> ymap \<Rightarrow> migration_issue list" where
  "preflight_actions loc m =
     (case yget_or ''actions'' (YList []) m of
        YList [] \<Rightarrow> [issue In_rules (loc @ ''.actions'') Empty_actions ''empty actions are not supported'']
      | YList as \<Rightarrow>
          List.map_filter (\<lambda>(i, a). if is_ystr a then None
            else Some (issue In_rules (indexed (loc @ ''.actions'') i) Invalid_action_entry ''action entries must be strings''))
            (enumerated as)
      | _ \<Rightarrow> [issue In_rules (loc @ ''.actions'') Invalid_action_entry ''actions must be a list of strings''])"

definition preflight_rule :: "python \<Rightarrow> nat \<times> yaml \<Rightarrow> migration_issue list" where
  "preflight_rule py = (\<lambda>(idx, rule).
     let loc = indexed ''rules'' idx
     in case rule of
          YMap m \<Rightarrow>
            (let window = ymap_or_empty (yget_or ''window'' (YMap []) m)
             in unknown_source_field_issues (py_str py) m rule_source_fields In_rules loc @
                unknown_source_field_issues (py_str py) window rule_window_source_fields In_rules (loc @ ''.window'') @
                issue_if (yget ''min_hosts'' window \<noteq> None)
                  (issue In_rules (loc @ ''.window.min_hosts'') Unsupported_rule_min_hosts
                     ''window.min_hosts is not supported'') @
                issue_if (yget ''is_dc_level'' m \<noteq> None)
                  (issue In_rules (loc @ ''.is_dc_level'') Unsupported_rule_is_dc_level ''is_dc_level is not supported'') @
                (case yget_or ''match'' (YMap []) m of
                   YMap mb \<Rightarrow> preflight_match py loc mb
                 | _ \<Rightarrow> [issue In_rules (loc @ ''.match'') Invalid_rule_severity ''match block must be a mapping'']) @
                preflight_priority loc m @
                map (located loc) (snd (rewrite_group_by (ylist_or_empty (yget_or ''group_by'' (YList []) window)))) @
                (case yget_or ''output_summary'' (YStr []) m of
                   YStr s \<Rightarrow> snd (rewrite_summary (loc @ ''.output_summary'') s)
                 | _ \<Rightarrow> []) @
                preflight_actions loc m)
        | _ \<Rightarrow> [issue In_rules loc Invalid_rule_priority ''rule entry must be a mapping''])"

definition rule_priorities :: "yaml list \<Rightarrow> int list" where
  "rule_priorities rules =
     List.map_filter (\<lambda>r. case r of
         YMap m \<Rightarrow> (case yget ''priority'' m of Some (YInt p) \<Rightarrow> Some p | _ \<Rightarrow> None)
       | _ \<Rightarrow> None) rules"

fun first_duplicate :: "int list \<Rightarrow> int list \<Rightarrow> int option" where
  "first_duplicate seen [] = None"
| "first_duplicate seen (p # ps) = (if p \<in> set seen then Some p else first_duplicate (p # seen) ps)"

definition preflight_rules :: "python \<Rightarrow> yaml \<Rightarrow> migration_issue list" where
  "preflight_rules py raw =
     (case raw of
        YList rules \<Rightarrow>
          concat (map (preflight_rule py) (enumerated rules)) @
          (case first_duplicate [] (rule_priorities rules) of
             None \<Rightarrow> []
           | Some p \<Rightarrow> [issue In_rules ''rules'' Duplicate_rule_priority (''duplicate priority: '' @ int_str p)])
      | _ \<Rightarrow> [issue In_rules ''rules'' Invalid_rule_severity ''rules must be a list''])"

section \<open>Topology\<close>

definition topology_source_fields :: "string list" where
  "topology_source_fields = [''hostname_patterns'', ''ip_subnets'']"

definition hostname_source_fields :: "string list" where
  "hostname_source_fields = [''name'', ''regex'', ''target_tag'', ''tags'']"

definition subnet_source_fields :: "string list" where
  "subnet_source_fields = [''name'', ''cidr'', ''value'', ''target_tag'']"

definition is_valid_tag_value :: "string \<Rightarrow> bool" where
  "is_valid_tag_value s \<longleftrightarrow> 1 \<le> length s \<and> length s \<le> 256"

text \<open>Only \<open>re.error\<close> is caught.\<close>

definition has_capture :: "python \<Rightarrow> string \<Rightarrow> bool result" where
  "has_capture py regex =
     (case py_compile py regex of
        Compiled p \<Rightarrow> Inr (0 < pat_groups p)
      | Not_a_regex \<Rightarrow> Inr False
      | Compile_raises e \<Rightarrow> Inl e)"

definition preflight_literal_tag :: "python \<Rightarrow> string \<Rightarrow> yaml \<times> yaml \<Rightarrow> migration_issue list" where
  "preflight_literal_tag py loc = (\<lambda>(name, val).
     let tag_location = loc @ ''.tags['' @ ystr (py_str py) name @ '']''
     in case name of
          YStr k \<Rightarrow>
            (case val of
               YStr v \<Rightarrow> issue_if (\<not> is_valid_tag_value v)
                 (issue In_topology tag_location Invalid_topology_value
                    ''hostname pattern literal tag values must be non-empty strings no longer than 256 characters'')
             | _ \<Rightarrow> [issue In_topology tag_location Invalid_topology_value
                      ''hostname pattern literal tag values must be strings'']) @
            issue_if (to_correlia_tag_key k = None)
              (issue In_topology tag_location Invalid_topology_tag_key
                 (''tag name '' @ quoted k @ '' cannot be converted to a valid topology.* key''))
        | _ \<Rightarrow> [issue In_topology tag_location Invalid_topology_tag_key
                 ''hostname pattern literal tag names must be strings''])"

definition invalid_target_tag :: "string \<Rightarrow> string \<Rightarrow> migration_issue list" where
  "invalid_target_tag loc s =
     issue_if (to_correlia_tag_key s = None)
       (issue In_topology (loc @ ''.target_tag'') Invalid_topology_tag_key
          (''target_tag '' @ quoted s @ '' cannot be converted to a valid topology.* key''))"

definition preflight_hostname_tags :: "python \<Rightarrow> string \<Rightarrow> ymap \<Rightarrow> bool \<Rightarrow> migration_issue list" where
  "preflight_hostname_tags py loc m captures =
     (let tags = ymap_or_empty (yget_or ''tags'' (YMap []) m)
      in (case yget_or ''tags'' (YMap []) m of
            YMap _ \<Rightarrow> []
          | _ \<Rightarrow> [issue In_topology (loc @ ''.tags'') Invalid_topology_value ''hostname pattern tags must be a mapping'']) @
         issue_if (captures \<and> yget ''target_tag'' m = None)
           (issue In_topology loc Missing_topology_target_tag ''hostname pattern with capture groups requires target_tag'') @
         issue_if (\<not> captures \<and> tags = [])
           (issue In_topology loc Unsupported_hostname_topology
              ''hostname pattern without capture groups must have literal tags'') @
         (case yget ''target_tag'' m of
            None \<Rightarrow> []
          | Some (YStr s) \<Rightarrow> invalid_target_tag loc s
          | Some _ \<Rightarrow> issue_if captures
              (issue In_topology (loc @ ''.target_tag'') Invalid_topology_value
                 ''hostname pattern target_tag must be a string'')) @
         concat (map (preflight_literal_tag py loc) tags))"

definition preflight_hostname :: "python \<Rightarrow> nat \<times> yaml \<Rightarrow> migration_issue list result" where
  "preflight_hostname py = (\<lambda>(idx, entry).
     let loc = indexed ''topology_rules.hostname_patterns'' idx
     in case entry of
          YMap m \<Rightarrow>
            (let unknown = unknown_source_field_issues (py_str py) m hostname_source_fields In_topology loc
             in case yget_or ''regex'' (YStr []) m of
               YStr regex \<Rightarrow>
                 if regex = []
                 then Inr (unknown @ [issue In_topology (loc @ ''.regex'') Invalid_topology_value
                         ''hostname pattern regex must be a non-empty string''])
                 else rbind (has_capture py regex) (\<lambda>captures. Inr (unknown @ preflight_hostname_tags py loc m captures))
             | _ \<Rightarrow> Inr (unknown @ [issue In_topology (loc @ ''.regex'') Invalid_topology_value
                         ''hostname pattern regex must be a string'']))
        | _ \<Rightarrow> Inr [issue In_topology loc Unsupported_hostname_topology ''hostname pattern entry must be a mapping''])"

definition preflight_subnet :: "python \<Rightarrow> nat \<times> yaml \<Rightarrow> migration_issue list" where
  "preflight_subnet py = (\<lambda>(idx, entry).
     let loc = indexed ''topology_rules.ip_subnets'' idx
     in case entry of
          YMap m \<Rightarrow>
            unknown_source_field_issues (py_str py) m subnet_source_fields In_topology loc @
            map (\<lambda>f. issue In_topology (loc @ ''.'' @ f) Missing_subnet_field
                   (''subnet entry missing required field '' @ quoted f))
              (filter (\<lambda>f. yget f m = None) [''cidr'', ''value'', ''target_tag'']) @
            (case yget ''target_tag'' m of
               None \<Rightarrow> []
             | Some (YStr s) \<Rightarrow> invalid_target_tag loc s
             | Some _ \<Rightarrow> [issue In_topology (loc @ ''.target_tag'') Invalid_topology_value
                         ''subnet target_tag must be a string'']) @
            (case yget ''value'' m of
               None \<Rightarrow> []
             | Some (YStr s) \<Rightarrow> issue_if (\<not> is_valid_tag_value s)
                 (issue In_topology (loc @ ''.value'') Invalid_topology_value
                    ''subnet values must be non-empty strings no longer than 256 characters'')
             | Some _ \<Rightarrow> [issue In_topology (loc @ ''.value'') Invalid_topology_value ''subnet value must be a string''])
        | _ \<Rightarrow> [issue In_topology loc Missing_subnet_field ''subnet entry must be a mapping''])"

definition preflight_section ::
  "string \<Rightarrow> (nat \<times> yaml \<Rightarrow> migration_issue list result) \<Rightarrow> ymap \<Rightarrow> migration_issue list result" where
  "preflight_section name check_entry m =
     (case yget_or name (YList []) m of
        YList entries \<Rightarrow> rbind (rmapM check_entry (enumerated entries)) (\<lambda>issues. Inr (concat issues))
      | _ \<Rightarrow> Inr [issue In_topology (''topology_rules.'' @ name) Invalid_topology_section
               (''topology_rules.'' @ name @ '' must be a list'')])"

definition preflight_topology :: "python \<Rightarrow> yaml \<Rightarrow> migration_issue list result" where
  "preflight_topology py raw =
     (case raw of
        YMap m \<Rightarrow>
          rbind (preflight_section ''hostname_patterns'' (preflight_hostname py) m) (\<lambda>hosts.
          rbind (preflight_section ''ip_subnets'' (\<lambda>entry. Inr (preflight_subnet py entry)) m) (\<lambda>subnets.
          Inr (unknown_source_field_issues (py_str py) m topology_source_fields In_topology ''topology_rules'' @ hosts @ subnets)))
      | _ \<Rightarrow> Inr [issue In_topology ''topology_rules'' Unsupported_hostname_topology ''topology_rules must be a mapping''])"

section \<open>Plugins\<close>

definition allowed_email_config_keys :: "string list" where
  "allowed_email_config_keys =
     [''smtp_host'', ''smtp_port'', ''from_address'', ''to_addresses'', ''subject_prefix'', ''use_tls'']"

definition output_source_fields :: "string list" where
  "output_source_fields = [''module'', ''class'', ''config'']"

definition credential_keys :: "string list" where
  "credential_keys = [''smtp_username'', ''smtp_password'', ''username'', ''password'']"

definition email_module :: string where
  "email_module = ''app.plugins.outputs.email''"

definition email_source_class :: string where
  "email_source_class = ''EmailPlugin''"

definition email_target_class :: string where
  "email_target_class = ''app.plugins.outputs.email.SmtpOutputPlugin''"

text \<open>A search for the opening text followed, anywhere later, by a closing brace.\<close>

fun braced_after :: "string \<Rightarrow> string \<Rightarrow> bool" where
  "braced_after opening [] = False"
| "braced_after opening (c # cs) =
     (prefix opening (c # cs) \<and> CHR ''}'' \<in> set (drop (length opening) (c # cs)) \<or> braced_after opening cs)"

text \<open>The location and the description of every unsupported form in a value.\<close>

fun iter_unsupported_placeholders :: "python \<Rightarrow> yaml \<Rightarrow> string \<Rightarrow> (string \<times> string) list"
  and placeholders_in_list :: "python \<Rightarrow> nat \<Rightarrow> yaml list \<Rightarrow> string \<Rightarrow> (string \<times> string) list"
  and placeholders_in_map :: "python \<Rightarrow> (yaml \<times> yaml) list \<Rightarrow> string \<Rightarrow> (string \<times> string) list" where
  "iter_unsupported_placeholders py (YStr s) location =
     (if braced_after ''${'' s then [(location, ''unsupported ${...} placeholder in value '' @ quoted s)]
      else if braced_after ''{env:'' s then [(location, ''unsupported {env: ...} placeholder in value '' @ quoted s)]
      else [])"
| "iter_unsupported_placeholders py (YMap m) location =
     (if yget ''env'' m \<noteq> None then [(location @ ''.env'', ''unsupported {env: ...} placeholder'')]
      else placeholders_in_map py m location)"
| "iter_unsupported_placeholders py (YList xs) location = placeholders_in_list py 0 xs location"
| "iter_unsupported_placeholders py YNull location = []"
| "iter_unsupported_placeholders py (YBool b) location = []"
| "iter_unsupported_placeholders py (YInt i) location = []"
| "iter_unsupported_placeholders py (YFloat r) location = []"
| "iter_unsupported_placeholders py (YOther r) location = []"
| "placeholders_in_list py i [] location = []"
| "placeholders_in_list py i (x # xs) location =
     iter_unsupported_placeholders py x (indexed location i) @ placeholders_in_list py (Suc i) xs location"
| "placeholders_in_map py [] location = []"
| "placeholders_in_map py ((k, v) # m) location =
     iter_unsupported_placeholders py v (location @ ''.'' @ ystr (py_str py) k) @ placeholders_in_map py m location"

definition placeholder_issues :: "python \<Rightarrow> yaml \<Rightarrow> string \<Rightarrow> migration_issue list" where
  "placeholder_issues py v location =
     map (\<lambda>(loc, description). issue In_plugins loc Unsupported_plugin_option description)
       (iter_unsupported_placeholders py v location)"

definition in_names :: "string list \<Rightarrow> yaml \<Rightarrow> bool" where
  "in_names xs v = (case v of YStr s \<Rightarrow> s \<in> set xs | _ \<Rightarrow> False)"

definition preflight_option :: "python \<Rightarrow> string \<Rightarrow> yaml \<times> yaml \<Rightarrow> migration_issue list" where
  "preflight_option py loc = (\<lambda>(key, val).
     let name = ystr (py_str py) key; location = loc @ ''.config.'' @ name
     in if in_names credential_keys key
        then [issue In_plugins location Plaintext_smtp_credentials
                (''plaintext SMTP credential key '' @ quoted name @ '' is not allowed'')]
        else if \<not> in_names allowed_email_config_keys key
        then [issue In_plugins location Unsupported_plugin_option (''unsupported email plugin option '' @ quoted name)]
        else if key = YStr ''use_tls'' \<and> \<not> (case val of YBool _ \<Rightarrow> True | _ \<Rightarrow> False)
        then [issue In_plugins (loc @ ''.config.use_tls'') Unsupported_plugin_option ''use_tls must be a boolean'']
        else placeholder_issues py val location)"

definition preflight_output_class :: "python \<Rightarrow> string \<Rightarrow> ymap \<Rightarrow> migration_issue list" where
  "preflight_output_class py loc m =
     (let module = yget_or ''module'' (YStr []) m; class_name = yget_or ''class'' (YStr []) m
      in if module \<noteq> YStr email_module
         then (case module of
             YStr s \<Rightarrow>
               if prefix ''app.plugins.outputs.'' s
               then [issue In_plugins (loc @ ''.module'') Unsupported_plugin_type
                       (''output type '' @ quoted s @ '' is not supported; only email outputs are supported'')]
               else [issue In_plugins (loc @ ''.module'') Unsupported_plugin_class
                       (''source module '' @ quoted s @ '' cannot be mapped to '' @ email_target_class)]
           | _ \<Rightarrow> [issue In_plugins (loc @ ''.module'') Unsupported_plugin_class
                    (''source module '' @ quoted (py_str py module) @ '' cannot be mapped to '' @ email_target_class)])
         else if class_name \<noteq> YStr email_source_class
         then [issue In_plugins (loc @ ''.class'') Unsupported_plugin_class
                 (''source class '' @ quoted (ystr (py_str py) class_name) @ '' cannot be mapped to '' @ email_target_class)]
         else (case yget_or ''config'' (YMap []) m of
             YMap config \<Rightarrow> concat (map (preflight_option py loc) config)
           | _ \<Rightarrow> [issue In_plugins (loc @ ''.config'') Unsupported_plugin_option ''email output config must be a mapping'']))"

definition preflight_output :: "python \<Rightarrow> yaml \<times> yaml \<Rightarrow> migration_issue list" where
  "preflight_output py = (\<lambda>(name, output).
     let loc = ''plugins.outputs.'' @ ystr (py_str py) name
     in placeholder_issues py name loc @
        (case output of
           YMap m \<Rightarrow>
             unknown_source_field_issues (py_str py) m output_source_fields In_plugins loc @ preflight_output_class py loc m
         | _ \<Rightarrow> [issue In_plugins loc Unsupported_plugin_class ''output entry must be a mapping'']))"

definition preflight_plugins :: "python \<Rightarrow> yaml \<Rightarrow> migration_issue list" where
  "preflight_plugins py raw =
     (case raw of
        YMap m \<Rightarrow>
          map (\<lambda>(section, _). issue In_plugins (''plugins.'' @ ystr (py_str py) section) Unsupported_plugin_section
                 (''unsupported top-level plugin section '' @ quoted (ystr (py_str py) section)))
            (filter (\<lambda>(section, _). section \<noteq> YStr ''outputs'') m) @
          (case yget_or ''outputs'' (YMap []) m of
             YMap outputs \<Rightarrow> concat (map (preflight_output py) outputs)
           | _ \<Rightarrow> [issue In_plugins ''plugins.outputs'' Unsupported_plugin_section ''plugins.outputs must be a mapping''])
      | _ \<Rightarrow> [issue In_plugins ''plugins'' Unsupported_plugin_section ''plugins configuration must be a mapping''])"

section \<open>Actions\<close>

definition extract_output_names :: "yaml \<Rightarrow> yaml list" where
  "extract_output_names raw =
     (case raw of
        YMap m \<Rightarrow>
          (case yget_or ''outputs'' (YMap []) m of
             YMap outputs \<Rightarrow> List.map_filter (\<lambda>(name, output). case output of YMap _ \<Rightarrow> Some name | _ \<Rightarrow> None) outputs
           | _ \<Rightarrow> [])
      | _ \<Rightarrow> [])"

definition unknown_actions :: "yaml list \<Rightarrow> nat \<times> yaml \<Rightarrow> migration_issue list" where
  "unknown_actions output_names = (\<lambda>(idx, rule).
     List.map_filter (\<lambda>(i, a). case a of
         YStr s \<Rightarrow>
           if a \<in> set output_names then None
           else Some (issue In_rules (indexed (indexed ''rules'' idx @ ''.actions'') i) Unknown_action_plugin
             (''action plugin '' @ quoted s @ '' is not defined in plugins.outputs''))
       | _ \<Rightarrow> None)
       (enumerated (ylist_or_empty (yget_or ''actions'' (YList []) (ymap_or_empty rule)))))"

definition check_action_plugins_exist :: "yaml \<Rightarrow> yaml list \<Rightarrow> migration_issue list" where
  "check_action_plugins_exist raw_rules output_names =
     concat (map (unknown_actions output_names) (enumerated (ylist_or_empty raw_rules)))"

end
