(* ===== verification/MigrateTransform.thy ===== *)
theory MigrateTransform
  imports MigratePreflight
begin

text \<open>
  The target side of the migration CLI: the generated documents (\<open>_transform_rules\<close>,
  \<open>_transform_topology\<close>, \<open>_transform_plugins\<close>) and how the loaders of Correlia read them
  (\<open>model_validate\<close> of the strict pydantic models of \<open>app/config\<close>).  A generated document read back
  from its file is the document that was dumped.
\<close>

section \<open>Generated rules\<close>

definition ydict :: "(string \<times> yaml) list \<Rightarrow> yaml" where
  "ydict kvs = YMap (map (\<lambda>(k, v). (YStr k, v)) kvs)"

definition ystrings :: "(string, string) dict \<Rightarrow> yaml" where
  "ystrings d = ydict (map (\<lambda>(k, v). (k, YStr v)) d)"

definition int_of :: "python \<Rightarrow> yaml \<Rightarrow> int result" where
  "int_of py v = (case v of YInt i \<Rightarrow> Inr i | YBool b \<Rightarrow> Inr (if b then 1 else 0) | _ \<Rightarrow> py_int py v)"

definition source_priority :: "python \<Rightarrow> ymap \<Rightarrow> int result" where
  "source_priority py m = int_of py (yget_or ''priority'' (YInt 0) m)"

definition transform_match :: "python \<Rightarrow> ymap \<Rightarrow> yaml result" where
  "transform_match py m =
     rbind (case yget_or ''host'' (YStr ''*'') m of YStr s \<Rightarrow> Inr s | _ \<Rightarrow> Inl ValueError) (\<lambda>host.
     rbind (case yget_or ''service'' YNull m of
              YNull \<Rightarrow> Inr YNull
            | YStr s \<Rightarrow> Inr (YStr (py_translate py s))
            | _ \<Rightarrow> Inl ValueError) (\<lambda>service.
     rbind (case yget_or ''tags'' (YMap []) m of YMap tags \<Rightarrow> Inr tags | _ \<Rightarrow> Inl ValueError) (\<lambda>tags.
     Inr (ydict
       [(''severities'', yget_or ''severity'' (YList []) m), (''host_pattern'', YStr (py_translate py host)),
        (''service_pattern'', service), (''tags'', ystrings (fst (rewrite_match_tags (py_str py) tags)))]))))"

definition transform_window :: "ymap \<Rightarrow> yaml result" where
  "transform_window m =
     (let entries = ylist_or_empty (yget_or ''group_by'' (YList []) m)
      in rbind (rguard (list_all is_ystr entries) ValueError) (\<lambda>_.
         Inr (ydict
           [(''duration_seconds'', yget_or ''duration_seconds'' (YInt 60) m),
            (''group_by'', YList (map YStr (fst (rewrite_group_by entries)))),
            (''trigger_threshold'', yget_or ''trigger_threshold'' (YInt 1) m)])))"

definition transform_actions :: "ymap \<Rightarrow> yaml list" where
  "transform_actions m =
     map (\<lambda>a. ydict [(''name'', YStr ''create_incident''), (''plugin'', a)])
       (filter is_ystr (ylist_or_empty (yget_or ''actions'' (YList []) m)))"

definition transform_rule :: "python \<Rightarrow> nat \<times> ymap \<Rightarrow> yaml result" where
  "transform_rule py = (\<lambda>(new_priority, m).
     rbind (transform_match py (ymap_or_empty (yget_or ''match'' (YMap []) m))) (\<lambda>match_block.
     rbind (transform_window (ymap_or_empty (yget_or ''window'' (YMap []) m))) (\<lambda>window.
     Inr (ydict
       [(''name'', yget_or ''name'' (YStr (''rule-'' @ nat_str new_priority)) m),
        (''priority'', YInt (int new_priority)), (''match'', match_block), (''window'', window),
        (''output_summary'',
          YStr (case yget_or ''output_summary'' (YStr []) m of
                  YStr s \<Rightarrow> fst (rewrite_summary ''output_summary'' s) | _ \<Rightarrow> [])),
        (''actions'', YList (transform_actions m))]))))"

definition source_rules :: "yaml list \<Rightarrow> ymap list" where
  "source_rules raw = List.map_filter (\<lambda>r. case r of YMap m \<Rightarrow> Some m | _ \<Rightarrow> None) raw"

text \<open>\<open>sorted\<close> with \<open>reverse=True\<close> is stable: descending keys, equal keys in their order.\<close>

definition transform_rules :: "python \<Rightarrow> yaml list \<Rightarrow> yaml result" where
  "transform_rules py raw =
     rbind (rmapM (\<lambda>m. rbind (source_priority py m) (\<lambda>p. Inr (p, m))) (source_rules raw)) (\<lambda>keyed.
     rbind (rmapM (transform_rule py)
              (zip [1..<Suc (length keyed)] (map snd (sort_key (\<lambda>(p, m). - p) keyed)))) (\<lambda>rules.
     Inr (ydict [(''rules'', YList rules)])))"

section \<open>Generated topology\<close>

definition named_or :: "string \<Rightarrow> string \<Rightarrow> ymap \<Rightarrow> yaml" where
  "named_or key d m = yget_or key (YStr d) m"

text \<open>The ids of the entries that are mappings, from their names, and the lookup by position.\<close>

definition entry_ids :: "python \<Rightarrow> string \<Rightarrow> string \<Rightarrow> yaml list \<Rightarrow> string list" where
  "entry_ids py key stem entries =
     unique_slugs (List.map_filter (\<lambda>(i, e). case e of
         YMap m \<Rightarrow> Some (ystr (py_str py) (named_or key (stem @ nat_str i) m))
       | _ \<Rightarrow> None) (enumerated entries))"

definition nth_id :: "string list \<Rightarrow> nat \<Rightarrow> string result" where
  "nth_id ids i = (if i < length ids then Inr (ids ! i) else Inl IndexError)"

definition transform_literal_tags :: "python \<Rightarrow> ymap \<Rightarrow> (string, string) dict" where
  "transform_literal_tags py tags =
     dict_merge [] (List.map_filter (\<lambda>(k, v).
       map_option (\<lambda>new_key. (new_key, ystr (py_str py) v)) (to_correlia_tag_key (ystr (py_str py) k))) tags)"

definition transform_hostname :: "python \<Rightarrow> string list \<Rightarrow> nat \<times> yaml \<Rightarrow> yaml option result" where
  "transform_hostname py ids = (\<lambda>(idx, entry).
     case entry of
       YMap m \<Rightarrow>
         rbind (nth_id ids idx) (\<lambda>rule_id.
         let regex = ystr (py_str py) (yget_or ''regex'' (YStr []) m);
             target = yget_or ''target_tag'' YNull m
         in rbind (has_capture py regex) (\<lambda>captures.
         let groups = (if captures \<and> target \<noteq> YNull
                       then (case to_correlia_tag_key (ystr (py_str py) target) of None \<Rightarrow> [] | Some k \<Rightarrow> [(k, YInt 1)])
                       else [])
         in Inr (Some (ydict
           ([(''id'', YStr rule_id), (''name'', named_or ''name'' rule_id m), (''hostname_pattern'', YStr regex),
             (''tags'', ystrings (transform_literal_tags py (ymap_or_empty (yget_or ''tags'' (YMap []) m))))] @
            (if groups = [] then [] else [(''tag_capture_groups'', ydict groups)]))))))
     | _ \<Rightarrow> Inr None)"

definition transform_subnet :: "python \<Rightarrow> string list \<Rightarrow> nat \<times> yaml \<Rightarrow> yaml option result" where
  "transform_subnet py ids = (\<lambda>(idx, entry).
     case entry of
       YMap m \<Rightarrow>
         rbind (nth_id ids idx) (\<lambda>rule_id.
         let val = ystr (py_str py) (yget_or ''value'' (YStr []) m)
         in Inr (Some (ydict
           [(''id'', YStr rule_id), (''name'', named_or ''name'' rule_id m),
            (''subnet'', YStr (ystr (py_str py) (yget_or ''cidr'' (YStr []) m))),
            (''tags'', ystrings
               (case to_correlia_tag_key (ystr (py_str py) (yget_or ''target_tag'' (YStr []) m)) of
                  None \<Rightarrow> [] | Some k \<Rightarrow> [(k, val)]))])))
     | _ \<Rightarrow> Inr None)"

definition somes :: "'a option list \<Rightarrow> 'a list" where
  "somes xs = List.map_filter id xs"

definition section_entries :: "string \<Rightarrow> ymap \<Rightarrow> yaml list result" where
  "section_entries name m = (case yget_or name (YList []) m of YList xs \<Rightarrow> Inr xs | _ \<Rightarrow> Inl ValueError)"

definition transform_topology :: "python \<Rightarrow> yaml \<Rightarrow> yaml result" where
  "transform_topology py raw =
     (case raw of
        YMap m \<Rightarrow>
          rbind (section_entries ''hostname_patterns'' m) (\<lambda>hosts.
          rbind (section_entries ''ip_subnets'' m) (\<lambda>subnets.
          rbind (rmapM (transform_hostname py (entry_ids py ''name'' ''hostname-'' hosts)) (enumerated hosts)) (\<lambda>hs.
          rbind (rmapM (transform_subnet py (entry_ids py ''target_tag'' ''subnet-'' subnets)) (enumerated subnets)) (\<lambda>ss.
          Inr (ydict [(''hostname_rules'', YList (somes hs)), (''subnet_rules'', YList (somes ss))])))))
      | _ \<Rightarrow> Inl AttributeError)"

section \<open>Generated plugins\<close>

definition transform_options :: "ymap \<Rightarrow> yaml result" where
  "transform_options config =
     rbind (case yget ''use_tls'' config of
              None \<Rightarrow> Inr True
            | Some (YBool b) \<Rightarrow> Inr b
            | Some _ \<Rightarrow> Inl ValueError) (\<lambda>start_tls.
     Inr (ydict
       ([(''host'', yget_or ''smtp_host'' (YStr ''localhost'') config), (''port'', yget_or ''smtp_port'' (YInt 587) config),
         (''from_address'', yget_or ''from_address'' (YStr ''correlia@localhost'') config),
         (''to_addresses'', yget_or ''to_addresses'' (YList [YStr ''ops@localhost'']) config)] @
        (case yget ''subject_prefix'' config of None \<Rightarrow> [] | Some v \<Rightarrow> [(''subject_prefix'', v)]) @
        [(''start_tls'', YBool start_tls)])))"

definition transform_output :: "python \<Rightarrow> yaml \<times> yaml \<Rightarrow> yaml option result" where
  "transform_output py = (\<lambda>(name, output).
     case output of
       YMap m \<Rightarrow>
         rbind (rguard (iter_unsupported_placeholders py name ''name'' = []) ValueError) (\<lambda>_.
         rbind (case yget_or ''config'' (YMap []) m of YMap c \<Rightarrow> Inr c | _ \<Rightarrow> Inl ValueError) (\<lambda>config.
         rbind (rall (\<lambda>(k, v). rguard (\<not> in_names allowed_email_config_keys k \<or>
                   iter_unsupported_placeholders py v (''config.'' @ ystr (py_str py) k) = []) ValueError) config) (\<lambda>_.
         rbind (transform_options config) (\<lambda>options.
         Inr (Some (ydict
           [(''name'', name), (''plugin_type'', YStr ''email''), (''class_path'', YStr email_target_class),
            (''options'', options)]))))))
     | _ \<Rightarrow> Inr None)"

definition transform_plugins :: "python \<Rightarrow> yaml \<Rightarrow> yaml result" where
  "transform_plugins py raw =
     (case raw of
        YMap m \<Rightarrow>
          rbind (case yget_or ''outputs'' (YMap []) m of YMap os \<Rightarrow> Inr os | _ \<Rightarrow> Inl ValueError) (\<lambda>outputs.
          rbind (rmapM (transform_output py) outputs) (\<lambda>entries.
          Inr (ydict [(''outputs'', YList (somes entries))])))
      | _ \<Rightarrow> Inl AttributeError)"

section \<open>How the loaders read a document\<close>

text \<open>
  A strict model with \<open>extra="forbid"\<close>: a mapping whose keys are among the fields and include the
  required ones.  \<open>None\<close> stands for a \<open>ValidationError\<close>.
\<close>

definition model :: "string list \<Rightarrow> string list \<Rightarrow> yaml \<Rightarrow> ymap option" where
  "model fields_allowed required v =
     (case v of
        YMap m \<Rightarrow>
          if list_all (\<lambda>(k, _). in_names fields_allowed k) m \<and> list_all (\<lambda>k. yget k m \<noteq> None) required
          then Some m else None
      | _ \<Rightarrow> None)"

definition str_field :: "yaml \<Rightarrow> string option" where
  "str_field v = (case v of YStr s \<Rightarrow> Some s | _ \<Rightarrow> None)"

definition int_field :: "yaml \<Rightarrow> int option" where
  "int_field v = (case v of YInt i \<Rightarrow> Some i | _ \<Rightarrow> None)"

fun list_field :: "(yaml \<Rightarrow> 'a option) \<Rightarrow> yaml list \<Rightarrow> 'a list option" where
  "list_field f [] = Some []"
| "list_field f (x # xs) = Option.bind (f x) (\<lambda>y. map_option (Cons y) (list_field f xs))"

definition seq_field :: "(yaml \<Rightarrow> 'a option) \<Rightarrow> yaml \<Rightarrow> 'a list option" where
  "seq_field f v = (case v of YList xs \<Rightarrow> list_field f xs | _ \<Rightarrow> None)"

fun dict_entries :: "(yaml \<Rightarrow> 'a option) \<Rightarrow> ymap \<Rightarrow> (string \<times> 'a) list option" where
  "dict_entries f [] = Some []"
| "dict_entries f ((k, v) # m) =
     Option.bind (str_field k) (\<lambda>s. Option.bind (f v) (\<lambda>y. map_option (Cons (s, y)) (dict_entries f m)))"

definition dict_field :: "(yaml \<Rightarrow> 'a option) \<Rightarrow> yaml \<Rightarrow> (string \<times> 'a) list option" where
  "dict_field f v = (case v of YMap m \<Rightarrow> dict_entries f m | _ \<Rightarrow> None)"

definition opt_str_field :: "yaml \<Rightarrow> string option option" where
  "opt_str_field v = (case v of YNull \<Rightarrow> Some None | YStr s \<Rightarrow> Some (Some s) | _ \<Rightarrow> None)"

definition match_config_shape :: "yaml \<Rightarrow> match_config option" where
  "match_config_shape v =
     Option.bind (model [''severities'', ''host_pattern'', ''service_pattern'', ''tags''] [''severities'', ''host_pattern''] v) (\<lambda>m.
     Option.bind (seq_field str_field (yget_or ''severities'' YNull m)) (\<lambda>severities.
     Option.bind (str_field (yget_or ''host_pattern'' YNull m)) (\<lambda>host.
     Option.bind (opt_str_field (yget_or ''service_pattern'' YNull m)) (\<lambda>service.
     Option.bind (dict_field str_field (yget_or ''tags'' (YMap []) m)) (\<lambda>tags.
     Some \<lparr>mcc_severities = severities, mcc_host_pattern = host, mcc_service_pattern = service, mcc_tags = tags\<rparr>)))))"

definition window_shape :: "yaml \<Rightarrow> rule_window option" where
  "window_shape v =
     Option.bind (model [''duration_seconds'', ''group_by'', ''trigger_threshold'']
                        [''duration_seconds'', ''group_by'', ''trigger_threshold''] v) (\<lambda>m.
     Option.bind (int_field (yget_or ''duration_seconds'' YNull m)) (\<lambda>duration.
     Option.bind (seq_field str_field (yget_or ''group_by'' YNull m)) (\<lambda>group_by.
     Option.bind (int_field (yget_or ''trigger_threshold'' YNull m)) (\<lambda>threshold.
     Some \<lparr>rw_duration_seconds = duration, rw_group_by = group_by, rw_trigger_threshold = threshold\<rparr>))))"

definition action_shape :: "yaml \<Rightarrow> rule_action option" where
  "action_shape v =
     Option.bind (model [''name'', ''plugin''] [''name'', ''plugin''] v) (\<lambda>m.
     Option.bind (str_field (yget_or ''name'' YNull m)) (\<lambda>name.
     Option.bind (str_field (yget_or ''plugin'' YNull m)) (\<lambda>plugin.
     Some \<lparr>ra_name = name, ra_plugin = plugin\<rparr>)))"

definition rule_shape :: "yaml \<Rightarrow> rule_config option" where
  "rule_shape v =
     Option.bind (model [''name'', ''priority'', ''match'', ''window'', ''output_summary'', ''actions'']
                        [''name'', ''priority'', ''match'', ''window'', ''output_summary'', ''actions''] v) (\<lambda>m.
     Option.bind (str_field (yget_or ''name'' YNull m)) (\<lambda>name.
     Option.bind (int_field (yget_or ''priority'' YNull m)) (\<lambda>priority.
     Option.bind (match_config_shape (yget_or ''match'' YNull m)) (\<lambda>match_block.
     Option.bind (window_shape (yget_or ''window'' YNull m)) (\<lambda>window.
     Option.bind (str_field (yget_or ''output_summary'' YNull m)) (\<lambda>summary.
     Option.bind (seq_field action_shape (yget_or ''actions'' YNull m)) (\<lambda>actions.
     Some \<lparr>rc_name = name, rc_priority = priority, rc_match = match_block, rc_window = window,
           rc_output_summary = summary, rc_actions = actions\<rparr>)))))))"

text \<open>A file that holds nothing counts as the empty configuration.\<close>

definition rules_document :: "yaml \<Rightarrow> rule_config list result" where
  "rules_document v =
     (case v of
        YNull \<Rightarrow> Inr []
      | _ \<Rightarrow> (case Option.bind (model [''rules''] [] v) (\<lambda>m. seq_field rule_shape (yget_or ''rules'' (YList []) m)) of
                None \<Rightarrow> Inl ValidationError | Some rules \<Rightarrow> Inr rules))"

definition hostname_shape :: "yaml \<Rightarrow> hostname_rule_config option" where
  "hostname_shape v =
     Option.bind (model [''id'', ''name'', ''hostname_pattern'', ''tags'', ''tag_capture_groups'']
                        [''id'', ''name'', ''hostname_pattern'', ''tags''] v) (\<lambda>m.
     Option.bind (str_field (yget_or ''id'' YNull m)) (\<lambda>ident.
     Option.bind (str_field (yget_or ''name'' YNull m)) (\<lambda>name.
     Option.bind (str_field (yget_or ''hostname_pattern'' YNull m)) (\<lambda>pattern.
     Option.bind (dict_field str_field (yget_or ''tags'' YNull m)) (\<lambda>tags.
     Option.bind (dict_field int_field (yget_or ''tag_capture_groups'' (YMap []) m)) (\<lambda>groups.
     Some \<lparr>hc_id = ident, hc_name = name, hc_pattern = pattern, hc_tags = tags, hc_capture_groups = groups\<rparr>))))))"

definition subnet_shape :: "yaml \<Rightarrow> subnet_rule_config option" where
  "subnet_shape v =
     Option.bind (model [''id'', ''name'', ''subnet'', ''tags''] [''id'', ''name'', ''subnet'', ''tags''] v) (\<lambda>m.
     Option.bind (str_field (yget_or ''id'' YNull m)) (\<lambda>ident.
     Option.bind (str_field (yget_or ''name'' YNull m)) (\<lambda>name.
     Option.bind (str_field (yget_or ''subnet'' YNull m)) (\<lambda>subnet.
     Option.bind (dict_field str_field (yget_or ''tags'' YNull m)) (\<lambda>tags.
     Some \<lparr>sc_id = ident, sc_name = name, sc_subnet = subnet, sc_tags = tags\<rparr>)))))"

definition topology_document :: "yaml \<Rightarrow> (hostname_rule_config list \<times> subnet_rule_config list) result" where
  "topology_document v =
     (case v of
        YNull \<Rightarrow> Inr ([], [])
      | _ \<Rightarrow> (case Option.bind (model [''hostname_rules'', ''subnet_rules''] [] v) (\<lambda>m.
                  Option.bind (seq_field hostname_shape (yget_or ''hostname_rules'' (YList []) m)) (\<lambda>hs.
                  map_option (\<lambda>ss. (hs, ss)) (seq_field subnet_shape (yget_or ''subnet_rules'' (YList []) m)))) of
                None \<Rightarrow> Inl ValidationError | Some config \<Rightarrow> Inr config))"

text \<open>An option value; a mapping or a scalar of another type becomes an object, which no option may be.\<close>

fun option_of :: "yaml \<Rightarrow> json" where
  "option_of YNull = JNull"
| "option_of (YBool b) = JBool b"
| "option_of (YInt i) = JInt i"
| "option_of (YFloat r) = JFloat r"
| "option_of (YStr s) = JStr s"
| "option_of (YOther s) = JObj []"
| "option_of (YList xs) = JList (map option_of xs)"
| "option_of (YMap m) = JObj []"

definition entry_shape :: "yaml \<Rightarrow> plugin_entry option" where
  "entry_shape v =
     Option.bind (model [''name'', ''plugin_type'', ''class_path'', ''options''] [''name'', ''plugin_type'', ''class_path''] v) (\<lambda>m.
     Option.bind (str_field (yget_or ''name'' YNull m)) (\<lambda>name.
     Option.bind (str_field (yget_or ''plugin_type'' YNull m)) (\<lambda>plugin_type.
     Option.bind (str_field (yget_or ''class_path'' YNull m)) (\<lambda>class_path.
     Option.bind (dict_field (\<lambda>x. Some (option_of x)) (yget_or ''options'' (YMap []) m)) (\<lambda>options.
     Some \<lparr>pe_name = name, pe_plugin_type = plugin_type, pe_class_path = class_path, pe_options = options\<rparr>)))))"

definition plugins_document :: "yaml \<Rightarrow> plugin_entry list option" where
  "plugins_document v =
     (case v of
        YNull \<Rightarrow> Some []
      | _ \<Rightarrow> Option.bind (model [''outputs''] [] v) (\<lambda>m. seq_field entry_shape (yget_or ''outputs'' (YList []) m)))"

end
