(* ===== verification/MigrationReport.thy ===== *)
theory MigrationReport
  imports PyJson PyTime
begin

text \<open>
  The projection of the last migration report into gauges (\<open>app/processing/metrics.py\<close>): reading the
  report file, validating it and setting the gauges at each scrape.  The file system's answers,
  \<open>json.loads\<close> and \<open>datetime.fromisoformat\<close> are parameters.
\<close>

section \<open>Vocabulary\<close>

definition migration_report_max_bytes :: nat where
  "migration_report_max_bytes = 65536"

definition migration_report_version :: int where
  "migration_report_version = 1"

definition migration_report_max_issue_count :: int where
  "migration_report_max_issue_count = 1000"

text \<open>The first instant of 2020.\<close>

definition migration_report_min_completed_at :: int where
  "migration_report_min_completed_at = 1577836800 * second"

datatype migration_report_status =
    Report_disabled | Report_absent | Report_valid | Report_malformed | Report_oversized
  | Report_unsupported_version | Report_future_timestamp | Report_invalid_summary | Report_unsafe_file
  | Report_read_error

definition migration_outcomes :: "string list" where
  "migration_outcomes = [''success'', ''failure'']"

definition migration_failure_codes :: "string list" where
  "migration_failure_codes =
     [''none'', ''argument'', ''input_validation'', ''source_validation'', ''cataloged_incompatibility'',
      ''staged_validation'', ''promotion_failure'']"

definition migration_report_domains :: "string list" where
  "migration_report_domains = [''inputs'', ''rules'', ''topology'', ''plugins'', ''validation'', ''promotion'']"

definition migration_report_issue_codes :: "string list" where
  "migration_report_issue_codes =
     [''duplicate_flag'', ''invalid_input_path'', ''invalid_yaml'', ''invalid_source_document'',
      ''missing_top_level_wrapper'', ''unknown_source_field'', ''unsupported_rule_min_hosts'',
      ''unsupported_rule_is_dc_level'', ''invalid_rule_severity'', ''invalid_rule_priority'',
      ''invalid_rule_tags'', ''invalid_rule_matcher'', ''duplicate_rule_priority'', ''empty_actions'',
      ''invalid_action_entry'', ''unsupported_tag_wildcard'', ''invalid_topology_tag_key'',
      ''unsupported_group_by'', ''unsupported_summary_placeholder'', ''missing_topology_target_tag'',
      ''unsupported_hostname_topology'', ''invalid_topology_section'', ''invalid_topology_value'',
      ''missing_subnet_field'', ''unsupported_plugin_section'', ''unsupported_plugin_type'',
      ''unsupported_plugin_class'', ''plaintext_smtp_credentials'', ''unsupported_plugin_option'',
      ''unknown_action_plugin'', ''validation_failure'', ''promotion_failure'']"

section \<open>Validation\<close>

text \<open>Membership in a frozenset of strings hashes the value: a list or a dict raises.\<close>

definition in_strings :: "string list \<Rightarrow> json \<Rightarrow> bool result" where
  "in_strings xs v =
     (case v of
        JStr s \<Rightarrow> Inr (s \<in> set xs)
      | JList _ \<Rightarrow> Inl TypeError
      | JObj _ \<Rightarrow> Inl TypeError
      | _ \<Rightarrow> Inr False)"

definition is_str :: "json \<Rightarrow> bool" where
  "is_str v = (case v of JStr _ \<Rightarrow> True | _ \<Rightarrow> False)"

definition has_keys :: "string list \<Rightarrow> (string \<times> json) list \<Rightarrow> bool" where
  "has_keys ks kvs \<longleftrightarrow> set (dict_keys kvs) = set ks"

definition get_key :: "string \<Rightarrow> (string \<times> json) list \<Rightarrow> json" where
  "get_key k kvs = (case map_of kvs k of None \<Rightarrow> JNull | Some v \<Rightarrow> v)"

definition issue_valid :: "json \<Rightarrow> bool result" where
  "issue_valid issue =
     (case issue of
        JObj kvs \<Rightarrow>
          if \<not> has_keys [''domain'', ''location'', ''code'', ''message'', ''requirement''] kvs then Inr False
          else rbind (in_strings migration_report_domains (get_key ''domain'' kvs)) (\<lambda>d.
               if \<not> d then Inr False
               else rbind (in_strings migration_report_issue_codes (get_key ''code'' kvs)) (\<lambda>c.
                    Inr (c \<and> list_all (\<lambda>(k, v). is_str v) kvs)))
      | _ \<Rightarrow> Inr False)"

fun issues_valid :: "json list \<Rightarrow> bool result" where
  "issues_valid [] = Inr True"
| "issues_valid (i # is) = rbind (issue_valid i) (\<lambda>b. if b then issues_valid is else Inr False)"

definition generated_valid :: "json \<Rightarrow> bool" where
  "generated_valid g =
     (case g of
        JNull \<Rightarrow> True
      | JObj kvs \<Rightarrow> has_keys [''rules'', ''topology'', ''plugins''] kvs \<and> list_all (\<lambda>(k, v). is_str v) kvs
      | _ \<Rightarrow> False)"

text \<open>Comparison with the integer 1.\<close>

definition equals_one :: "json \<Rightarrow> bool" where
  "equals_one v =
     (case v of JInt i \<Rightarrow> i = migration_report_version | JBool b \<Rightarrow> b | JFloat r \<Rightarrow> r = ''1.0'' | _ \<Rightarrow> False)"

text \<open>The accepted summary: outcome, failure code and the instant of completion.\<close>

type_synonym migration_summary = "string \<times> string \<times> int"

definition counts_valid :: "nat \<Rightarrow> int \<Rightarrow> bool \<Rightarrow> bool" where
  "counts_valid emitted issue_count truncated \<longleftrightarrow>
     0 \<le> issue_count \<and> issue_count \<le> migration_report_max_issue_count \<and> int emitted \<le> issue_count \<and>
     \<not> (truncated \<and> issue_count < migration_report_max_issue_count \<and> int emitted = issue_count) \<and>
     (truncated \<or> issue_count = int emitted)"

definition summary_valid :: "bool \<Rightarrow> nat \<Rightarrow> (string \<times> json) list \<Rightarrow> bool result" where
  "summary_valid ok emitted summary =
     rbind (in_strings migration_outcomes (get_key ''outcome'' summary)) (\<lambda>o_ok.
     if \<not> o_ok then Inr False
     else rbind (in_strings migration_failure_codes (get_key ''failure_code'' summary)) (\<lambda>f_ok.
     Inr (f_ok \<and>
       (case (get_key ''issue_count'' summary, get_key ''issues_truncated'' summary) of
          (JInt n, JBool truncated) \<Rightarrow> counts_valid emitted n truncated
        | _ \<Rightarrow> False) \<and>
       is_str (get_key ''completed_at'' summary) \<and>
       (get_key ''outcome'' summary = JStr ''success'') = ok \<and>
       (get_key ''outcome'' summary = JStr ''success'') = (get_key ''failure_code'' summary = JStr ''none''))))"

fun str_of :: "json \<Rightarrow> string" where
  "str_of (JStr s) = s"
| "str_of _ = []"

type_synonym report_reading = "migration_report_status \<times> migration_summary option"

definition completion ::
  "(string \<Rightarrow> datetime option) \<Rightarrow> int \<Rightarrow> (string \<times> json) list \<Rightarrow> report_reading" where
  "completion fromisoformat now summary =
     (case fromisoformat (str_replace ''Z'' ''+00:00'' (str_of (get_key ''completed_at'' summary))) of
        None \<Rightarrow> (Report_invalid_summary, None)
      | Some d \<Rightarrow>
          if \<not> is_aware d \<or> instant d < migration_report_min_completed_at \<or> now < instant d
          then (Report_future_timestamp, None)
          else (Report_valid, Some (str_of (get_key ''outcome'' summary), str_of (get_key ''failure_code'' summary),
                  instant d)))"

definition validate_migration_report ::
  "(string \<Rightarrow> datetime option) \<Rightarrow> int \<Rightarrow> json \<Rightarrow> report_reading result" where
  "validate_migration_report fromisoformat now report =
     (case report of
        JObj kvs \<Rightarrow>
          if \<not> has_keys [''ok'', ''errors'', ''generated'', ''metrics_summary''] kvs then Inr (Report_malformed, None)
          else (case (get_key ''ok'' kvs, get_key ''errors'' kvs) of
              (JBool ok, JList errors) \<Rightarrow>
                if \<not> generated_valid (get_key ''generated'' kvs) then Inr (Report_malformed, None)
                else rbind (issues_valid errors) (\<lambda>valid.
                  if \<not> valid then Inr (Report_invalid_summary, None)
                  else if ok \<and> (get_key ''generated'' kvs = JNull \<or> errors \<noteq> []) \<or>
                     \<not> ok \<and> get_key ''generated'' kvs \<noteq> JNull then Inr (Report_malformed, None)
                  else (case get_key ''metrics_summary'' kvs of
                      JObj summary \<Rightarrow>
                        if \<not> has_keys [''version'', ''outcome'', ''failure_code'', ''issue_count'',
                             ''issues_truncated'', ''completed_at''] summary then Inr (Report_invalid_summary, None)
                        else if \<not> equals_one (get_key ''version'' summary) then Inr (Report_unsupported_version, None)
                        else rbind (summary_valid ok (length errors) summary) (\<lambda>b.
                          Inr (if b then completion fromisoformat now summary else (Report_invalid_summary, None)))
                    | _ \<Rightarrow> Inr (Report_invalid_summary, None)))
            | _ \<Rightarrow> Inr (Report_malformed, None))
      | _ \<Rightarrow> Inr (Report_malformed, None))"

section \<open>The file\<close>

text \<open>
  What opening the path without following a link finds; a regular file has its size and what one
  read of at most \<open>migration_report_max_bytes + 1\<close> bytes returns.
\<close>

datatype report_file = Missing_file | Open_error | Stat_error | Special_file | Regular_file nat "bytes option"

text \<open>\<open>json.loads\<close> after decoding: \<open>Inr None\<close> for the three errors the reader expects.\<close>

type_synonym loads = "bytes \<Rightarrow> json option result"

definition read_migration_report_snapshot ::
  "loads \<Rightarrow> (string \<Rightarrow> datetime option) \<Rightarrow> int \<Rightarrow> report_file \<Rightarrow> report_reading result" where
  "read_migration_report_snapshot loads fromisoformat now file =
     (case file of
        Missing_file \<Rightarrow> Inr (Report_absent, None)
      | Open_error \<Rightarrow> Inr (Report_unsafe_file, None)
      | Stat_error \<Rightarrow> Inr (Report_read_error, None)
      | Special_file \<Rightarrow> Inr (Report_unsafe_file, None)
      | Regular_file st_size content \<Rightarrow>
          if migration_report_max_bytes < st_size then Inr (Report_oversized, None)
          else (case content of
              None \<Rightarrow> Inr (Report_read_error, None)
            | Some data \<Rightarrow>
                if migration_report_max_bytes < length data then Inr (Report_oversized, None)
                else rbind (loads data) (\<lambda>parsed.
                  case parsed of
                    None \<Rightarrow> Inr (Report_malformed, None)
                  | Some report \<Rightarrow> validate_migration_report fromisoformat now report)))"

section \<open>The projection\<close>

record projection =
  pj_path :: "string option"
  pj_status :: migration_report_status
  pj_summary :: "migration_summary option"

definition configure_migration_report_projection :: "string option \<Rightarrow> projection" where
  "configure_migration_report_projection path =
     \<lparr>pj_path = path, pj_status = (if path = None then Report_disabled else Report_absent), pj_summary = None\<rparr>"

text \<open>One refresh; an exception leaves the projection as it was.\<close>

definition refresh_migration_report_projection ::
  "loads \<Rightarrow> (string \<Rightarrow> datetime option) \<Rightarrow> int \<Rightarrow> (string \<Rightarrow> report_file) \<Rightarrow> projection \<Rightarrow> projection \<times> unit result" where
  "refresh_migration_report_projection loads fromisoformat now files p =
     (case pj_path p of
        None \<Rightarrow> (p\<lparr>pj_status := Report_disabled\<rparr>, Inr ())
      | Some path \<Rightarrow>
          (case read_migration_report_snapshot loads fromisoformat now (files path) of
             Inl e \<Rightarrow> (p, Inl e)
           | Inr (status, summary) \<Rightarrow>
               (p\<lparr>pj_status := status, pj_summary := (case summary of None \<Rightarrow> pj_summary p | Some s \<Rightarrow> Some s)\<rparr>, Inr ())))"

record migration_gauges =
  mg_status :: "migration_report_status \<Rightarrow> int"
  mg_outcome :: "string \<Rightarrow> int"
  mg_failure_code :: "string \<Rightarrow> int"
  mg_completed_at :: int

definition apply_migration_report_gauges :: "projection \<Rightarrow> migration_gauges" where
  "apply_migration_report_gauges p =
     (let one = (\<lambda>b. if b then 1 else 0)
      in \<lparr>mg_status = (\<lambda>s. one (s = pj_status p)),
          mg_outcome = (\<lambda>s. case pj_summary p of None \<Rightarrow> 0 | Some (outcome, _, _) \<Rightarrow> one (s = outcome)),
          mg_failure_code = (\<lambda>s. case pj_summary p of None \<Rightarrow> 0 | Some (_, code, _) \<Rightarrow> one (s = code)),
          mg_completed_at = (case pj_summary p of None \<Rightarrow> 0 | Some (_, _, completed) \<Rightarrow> completed)\<rparr>)"

text \<open>A scrape: the refresh, then the text of all collectors, here the gauges of this projection.\<close>

definition render_metrics ::
  "loads \<Rightarrow> (string \<Rightarrow> datetime option) \<Rightarrow> int \<Rightarrow> (string \<Rightarrow> report_file) \<Rightarrow> projection \<Rightarrow>
     projection \<times> migration_gauges result" where
  "render_metrics loads fromisoformat now files p =
     (case refresh_migration_report_projection loads fromisoformat now files p of
        (p', Inl e) \<Rightarrow> (p', Inl e)
      | (p', Inr _) \<Rightarrow> (p', Inr (apply_migration_report_gauges p')))"

section \<open>What a reading guarantees\<close>

definition summary_ok :: "int \<Rightarrow> migration_summary \<Rightarrow> bool" where
  "summary_ok now = (\<lambda>(outcome, code, completed).
     outcome \<in> set migration_outcomes \<and> code \<in> set migration_failure_codes \<and>
     (outcome = ''success'' \<longleftrightarrow> code = ''none'') \<and>
     migration_report_min_completed_at \<le> completed \<and> completed \<le> now)"

lemma in_strings_True: "in_strings xs v = Inr True \<longleftrightarrow> (\<exists>s. v = JStr s \<and> s \<in> set xs)"
  by (cases v) (auto simp: in_strings_def)

lemma summary_valid_True:
  assumes "summary_valid ok emitted summary = Inr True"
  shows "\<exists>outcome code. get_key ''outcome'' summary = JStr outcome \<and> get_key ''failure_code'' summary = JStr code \<and>
    outcome \<in> set migration_outcomes \<and> code \<in> set migration_failure_codes \<and> (outcome = ''success'' \<longleftrightarrow> code = ''none'')"
  using assms by (auto simp: summary_valid_def result_simps in_strings_True split: if_splits)

lemma validate_sound:
  assumes "validate_migration_report fromiso now report = Inr (status, summary)"
  shows "(status = Report_valid \<longleftrightarrow> summary \<noteq> None) \<and> (\<forall>x. summary = Some x \<longrightarrow> summary_ok now x)"
  using assms
  by (auto simp: validate_migration_report_def completion_def result_simps Let_def summary_ok_def
      split: json.splits if_splits option.splits dest!: summary_valid_True)

lemma read_sound:
  assumes "read_migration_report_snapshot loads fromiso now file = Inr (status, summary)"
  shows "(status = Report_valid \<longleftrightarrow> summary \<noteq> None) \<and> (\<forall>x. summary = Some x \<longrightarrow> summary_ok now x)"
  using assms
  by (auto simp: read_migration_report_snapshot_def result_simps split: report_file.splits if_splits option.splits
      dest!: validate_sound)

text \<open>A history of scrapes, each with its time and the files it finds.\<close>

fun scrapes ::
  "loads \<Rightarrow> (string \<Rightarrow> datetime option) \<Rightarrow> (int \<times> (string \<Rightarrow> report_file)) list \<Rightarrow> projection \<Rightarrow> projection" where
  "scrapes loads fromiso [] p = p"
| "scrapes loads fromiso ((now, files) # rest) p =
     scrapes loads fromiso rest (fst (render_metrics loads fromiso now files p))"

lemma summary_ok_later: "summary_ok now x \<Longrightarrow> now \<le> now' \<Longrightarrow> summary_ok now' x"
  by (auto simp: summary_ok_def)

lemma fst_render_metrics:
  "fst (render_metrics loads fromiso now files p) = fst (refresh_migration_report_projection loads fromiso now files p)"
  by (auto simp: render_metrics_def split: prod.split sum.split)

text \<open>
  What a history of scrapes shows of one path: the summary of the last scrape that read a valid report,
  and the status of the last scrape whose reading did not raise.
\<close>

fun valid_readings ::
  "loads \<Rightarrow> (string \<Rightarrow> datetime option) \<Rightarrow> string \<Rightarrow> (int \<times> (string \<Rightarrow> report_file)) list \<Rightarrow> migration_summary list" where
  "valid_readings loads fromiso path [] = []"
| "valid_readings loads fromiso path ((now, files) # rest) =
     (case read_migration_report_snapshot loads fromiso now (files path) of
        Inr (status, Some x) \<Rightarrow>
          (if status = Report_valid then [x] else []) @ valid_readings loads fromiso path rest
      | _ \<Rightarrow> valid_readings loads fromiso path rest)"

fun statuses_read ::
  "loads \<Rightarrow> (string \<Rightarrow> datetime option) \<Rightarrow> string \<Rightarrow> (int \<times> (string \<Rightarrow> report_file)) list \<Rightarrow> migration_report_status list" where
  "statuses_read loads fromiso path [] = []"
| "statuses_read loads fromiso path ((now, files) # rest) =
     (case read_migration_report_snapshot loads fromiso now (files path) of
        Inl e \<Rightarrow> statuses_read loads fromiso path rest
      | Inr (status, _) \<Rightarrow> status # statuses_read loads fromiso path rest)"

definition last_of :: "'a list \<Rightarrow> 'a option" where
  "last_of xs = (if xs = [] then None else Some (last xs))"

lemma last_of_simps [simp]:
  "last_of [] = None" "last_of (x # xs) = (case last_of xs of None \<Rightarrow> Some x | Some y \<Rightarrow> Some y)"
  by (simp_all add: last_of_def)

lemma last_of_mem: "last_of xs = Some x \<Longrightarrow> x \<in> set xs"
  by (auto simp: last_of_def split: if_splits)

lemma scrapes_shown:
  assumes "pj_path p = Some path"
  shows "pj_path (scrapes loads fromiso hist p) = Some path \<and>
    pj_summary (scrapes loads fromiso hist p) =
      (case last_of (valid_readings loads fromiso path hist) of None \<Rightarrow> pj_summary p | Some x \<Rightarrow> Some x) \<and>
    pj_status (scrapes loads fromiso hist p) =
      (case last_of (statuses_read loads fromiso path hist) of None \<Rightarrow> pj_status p | Some st \<Rightarrow> st)"
  using assms
proof (induction loads fromiso hist p rule: scrapes.induct)
  case (2 loads fromiso now files rest p)
  let ?p = "fst (render_metrics loads fromiso now files p)"
  let ?read = "read_migration_report_snapshot loads fromiso now (files path)"
  have path: "pj_path ?p = Some path"
    using 2(2) by (auto simp: fst_render_metrics refresh_migration_report_projection_def split: sum.split)
  note IH = 2(1) [OF path]
  show ?case
  proof (cases ?read)
    case (Inl e)
    with 2(2) have p: "?p = p" by (simp add: fst_render_metrics refresh_migration_report_projection_def)
    show ?thesis unfolding scrapes.simps p using IH [unfolded p] Inl by simp
  next
    case (Inr r)
    obtain status summary where r: "r = (status, summary)" by (cases r)
    have p: "?p = p\<lparr>pj_status := status, pj_summary := (case summary of None \<Rightarrow> pj_summary p | Some s \<Rightarrow> Some s)\<rparr>"
      using 2(2) Inr r by (simp add: fst_render_metrics refresh_migration_report_projection_def)
    have valid: "status = Report_valid \<longleftrightarrow> summary \<noteq> None"
      using read_sound [OF Inr [unfolded r]] by simp
    show ?thesis
      unfolding scrapes.simps using IH [unfolded p] Inr r valid unfolding p
      by (cases summary) (auto split: option.split)
  qed
qed simp

lemma valid_readings_ok:
  assumes "x \<in> set (valid_readings loads fromiso path hist)" "\<forall>(now, files) \<in> set hist. now \<le> stop"
  shows "summary_ok stop x"
  using assms
proof (induction hist)
  case (Cons entry rest)
  obtain now files where entry: "entry = (now, files)" by (cases entry)
  have rest: "\<forall>(now, files) \<in> set rest. now \<le> stop" and now: "now \<le> stop"
    using Cons.prems(2) entry by auto
  show ?case
  proof (cases "x \<in> set (valid_readings loads fromiso path rest)")
    case True
    from Cons.IH [OF True rest] show ?thesis .
  next
    case False
    with Cons.prems(1) entry have "read_migration_report_snapshot loads fromiso now (files path) = Inr (Report_valid, Some x)"
      by (auto split: sum.splits option.splits if_splits)
    from read_sound [OF this] now show ?thesis by (auto intro: summary_ok_later)
  qed
qed simp

lemma valid_status_read:
  "last_of (statuses_read loads fromiso path hist) = Some Report_valid \<Longrightarrow> valid_readings loads fromiso path hist \<noteq> []"
proof (induction hist)
  case (Cons entry rest)
  obtain now files where entry: "entry = (now, files)" by (cases entry)
  show ?case
  proof (cases "last_of (statuses_read loads fromiso path rest)")
    case None
    with Cons.prems entry obtain summary where
      "read_migration_report_snapshot loads fromiso now (files path) = Inr (Report_valid, summary)"
      by (auto split: sum.splits)
    with read_sound [OF this] entry show ?thesis by auto
  next
    case (Some st)
    with Cons entry show ?thesis
      by (auto split: sum.splits option.splits)
  qed
qed simp

text \<open>
  C17: whatever the report file held at the scrapes of a history, valid, malformed, unreadable or
  raising, the gauges show the last good report.  The status is the one of the last scrape whose reading
  did not raise (absent before any).  The outcome, the failure code and the completion time are those of the
  last valid report of the history, however many invalid ones followed it, and zero without one: exactly
  one outcome and one failure code are set once a valid report was seen, success exactly with the code
  none, and the completion time lies between the first instant of 2020 and the last scrape.  With no
  path configured the status is disabled and nothing else is ever set.
\<close>

theorem migration_gauges_consistent:
  assumes "\<forall>(now, files) \<in> set hist. now \<le> stop"
    and "g = apply_migration_report_gauges (scrapes loads fromiso hist (configure_migration_report_projection path))"
    and "good = (case path of None \<Rightarrow> None | Some p \<Rightarrow> last_of (valid_readings loads fromiso p hist))"
    and "shown = (case path of None \<Rightarrow> Report_disabled
      | Some p \<Rightarrow> (case last_of (statuses_read loads fromiso p hist) of None \<Rightarrow> Report_absent | Some st \<Rightarrow> st))"
  shows "mg_status g = (\<lambda>s. if s = shown then 1 else 0) \<and>
    (shown = Report_valid \<longrightarrow> good \<noteq> None) \<and>
    (case good of
       None \<Rightarrow> mg_outcome g = (\<lambda>_. 0) \<and> mg_failure_code g = (\<lambda>_. 0) \<and> mg_completed_at g = 0
     | Some (outcome, code, completed) \<Rightarrow>
         mg_outcome g = (\<lambda>x. if x = outcome then 1 else 0) \<and> mg_failure_code g = (\<lambda>x. if x = code then 1 else 0) \<and>
         mg_completed_at g = completed \<and>
         outcome \<in> set migration_outcomes \<and> code \<in> set migration_failure_codes \<and>
         (outcome = ''success'' \<longleftrightarrow> code = ''none'') \<and>
         migration_report_min_completed_at \<le> completed \<and> completed \<le> stop)"
proof (cases path)
  case None
  have "pj_path p = None \<Longrightarrow> pj_status p = Report_disabled \<Longrightarrow> scrapes loads fromiso hist p = p" for p
    by (induction loads fromiso hist p rule: scrapes.induct)
      (simp_all add: fst_render_metrics refresh_migration_report_projection_def)
  with None show ?thesis
    by (simp add: assms(2-4) configure_migration_report_projection_def apply_migration_report_gauges_def fun_eq_iff)
next
  case (Some p)
  note shown = scrapes_shown [of "configure_migration_report_projection path" p loads fromiso hist]
  have g: "mg_status g = (\<lambda>s. if s = shown then 1 else 0)" "pj_summary (scrapes loads fromiso hist (configure_migration_report_projection path)) = good"
    using shown Some
    by (auto simp: assms(2-4) configure_migration_report_projection_def apply_migration_report_gauges_def fun_eq_iff
        split: option.splits)
  have good: "good \<noteq> None" if "shown = Report_valid"
    using that valid_status_read [of loads fromiso p hist] Some
    by (cases good) (auto simp: assms(3,4) last_of_def split: option.splits if_splits)
  have "summary_ok stop x" if "good = Some x" for x
    using that Some valid_readings_ok [OF last_of_mem assms(1)] by (auto simp: assms(3))
  with g good show ?thesis
    by (auto simp: assms(2) apply_migration_report_gauges_def summary_ok_def split: option.split)
qed

end
