(* ===== verification/AsciiJson.thy ===== *)
theory AsciiJson
  imports PyJson
begin

text \<open>
  \<open>json.dumps(value, sort_keys=True, separators=(",", ":"))\<close> with its default \<open>ensure_ascii\<close>, which the
  migration report and the log lines use, and the length of its encoding.
\<close>

text \<open>
  \<open>json.dumps\<close> with its default \<open>ensure_ascii\<close>.  The keys of an object stand in the
  order given: the callers pass objects whose keys are sorted, as \<open>sort_keys\<close> would leave them.
\<close>

definition ascii_escape_char :: "char \<Rightarrow> string" where
  "ascii_escape_char c =
     (let n = char_code c
      in if 127 \<le> n then [CHR 0x5C, CHR ''u'', CHR ''0'', CHR ''0'', hex_digit (n div 16), hex_digit (n mod 16)]
         else json_escape_char c)"

definition ascii_quote :: "string \<Rightarrow> string" where
  "ascii_quote s = CHR 0x22 # concat (map ascii_escape_char s) @ [CHR 0x22]"

fun ascii_dumps :: "json \<Rightarrow> string" where
  "ascii_dumps JNull = ''null''"
| "ascii_dumps (JBool b) = (if b then ''true'' else ''false'')"
| "ascii_dumps (JInt i) = int_str i"
| "ascii_dumps (JFloat r) = r"
| "ascii_dumps (JStr s) = ascii_quote s"
| "ascii_dumps (JList xs) = ''['' @ str_join '','' (map ascii_dumps xs) @ '']''"
| "ascii_dumps (JObj kvs) =
     ''{'' @ str_join '','' (map (\<lambda>(k, v). ascii_quote k @ '':'' @ v) (map (\<lambda>(k, v). (k, ascii_dumps v)) kvs)) @ ''}''"

lemma byte_length_concat: "byte_length (concat ss) = sum_list (map byte_length ss)"
  by (induction ss) simp_all

lemma char_code_hex: "i < 16 \<Longrightarrow> char_code (hex_digit i) < 128"
proof -
  assume "i < 16"
  moreover have "\<forall>i \<in> set [0..<16]. char_code (hex_digit i) < 128" by code_simp
  ultimately show ?thesis by simp
qed

lemma char_code_less: "char_code c < 256"
  by (simp add: char_code_def)

lemma byte_length_escape: "1 \<le> byte_length (ascii_escape_char c) \<and> byte_length (ascii_escape_char c) \<le> 6"
proof -
  have "char_code c div 16 < 16" using char_code_less [of c] by (simp add: div_less_iff_less_mult)
  then have hex: "char_code (hex_digit (char_code c div 16)) < 128" "char_code (hex_digit (char_code c mod 16)) < 128"
    by (simp_all add: char_code_hex)
  have c: "char_code CHR 0x5C < 128" "char_code (CHR ''u'') < 128" "char_code (CHR ''0'') < 128"
    "char_code CHR 0x22 < 128" "char_code (CHR ''n'') < 128" "char_code (CHR ''r'') < 128" "char_code (CHR ''t'') < 128"
    "char_code (CHR ''f'') < 128" "char_code (CHR ''b'') < 128"
    by (simp_all add: char_code_def)
  show ?thesis
    using hex by (simp add: ascii_escape_char_def json_escape_char_def Let_def c)
qed

lemma byte_length_ascii_quote:
  "byte_length (ascii_quote s) = 2 + (\<Sum>c \<leftarrow> s. byte_length (ascii_escape_char c))"
proof -
  have "byte_length [CHR 0x22] = 1" by (simp add: char_code_def)
  moreover have "byte_length (CHR 0x22 # t) = Suc (byte_length t)" for t by (simp add: char_code_def)
  ultimately show ?thesis by (simp add: ascii_quote_def byte_length_concat comp_def)
qed

lemma byte_length_ascii_quote_le: "byte_length (ascii_quote s) \<le> 6 * length s + 2"
proof -
  have "(\<Sum>c \<leftarrow> s. byte_length (ascii_escape_char c)) \<le> 6 * length s"
    by (induction s) (simp_all add: byte_length_escape add_mono)
  then show ?thesis by (simp add: byte_length_ascii_quote)
qed

lemma byte_length_ascii_quote_ge: "2 + length s \<le> byte_length (ascii_quote s)"
proof -
  have "length s \<le> (\<Sum>c \<leftarrow> s. byte_length (ascii_escape_char c))"
  proof (induction s)
    case (Cons c s)
    with byte_length_escape [of c] show ?case by simp
  qed simp
  then show ?thesis by (simp add: byte_length_ascii_quote)
qed

text \<open>The bytes of an object: of its keys and values, the separators and the braces.\<close>

lemma byte_length_ascii_obj:
  "byte_length (ascii_dumps (JObj kvs)) =
     2 + (\<Sum>(k, v) \<leftarrow> kvs. byte_length (ascii_quote k) + 1 + byte_length (ascii_dumps v)) + (length kvs - 1)"
proof -
  have "byte_length '':'' = 1" "byte_length (CHR '':'' # t) = Suc (byte_length t)" for t by (simp_all add: char_code_def)
  then have "sum_list (map byte_length (map (\<lambda>(k, v). ascii_quote k @ '':'' @ v) (map (\<lambda>(k, v). (k, ascii_dumps v)) kvs))) =
      (\<Sum>(k, v) \<leftarrow> kvs. byte_length (ascii_quote k) + 1 + byte_length (ascii_dumps v))"
    by (induction kvs) auto
  then show ?thesis by (simp add: byte_length_join char_code_def)
qed

lemma byte_length_ascii_list:
  "byte_length (ascii_dumps (JList xs)) = 2 + (\<Sum>x \<leftarrow> xs. byte_length (ascii_dumps x)) + (length xs - 1)"
  by (simp add: byte_length_join char_code_def comp_def)

end
