(* ===== verification/MigrateRun.thy ===== *)
theory MigrateRun
  imports MigrateTransform MigrationReport Startup AsciiJson
begin

text \<open>
  The run of the migration CLI (\<open>scripts/migrate_vigilo_config.py\<close>): validation of the input paths,
  staging with validation by Correlia's own loaders, promotion with rollback, the report and \<open>main\<close>.
  \<open>argparse\<close> is a parameter; each step on the file system succeeds or raises as a function says.
\<close>

section \<open>Promotion\<close>

datatype target = Rules_yaml | Topology_yaml | Plugins_yaml

definition targets :: "target list" where
  "targets = [Rules_yaml, Topology_yaml, Plugins_yaml]"

fun target_name :: "target \<Rightarrow> string" where
  "target_name Rules_yaml = ''rules.yaml''"
| "target_name Topology_yaml = ''topology.yaml''"
| "target_name Plugins_yaml = ''plugins.yaml''"

text \<open>The output directory: whether it exists, whether it holds other entries, and the three files.\<close>

record out_dir =
  od_exists :: bool
  od_others :: bool
  od_files :: "target \<Rightarrow> yaml option"

datatype fs_step =
    Make_out_dir | Make_backup_dir | Back_up target | Replace target | Restore target | Remove target | Remove_out_dir

text \<open>The backups, in the order of the targets; the flag is \<open>False\<close> after an exception.\<close>

fun back_up :: "(fs_step \<Rightarrow> bool) \<Rightarrow> (target \<Rightarrow> yaml option) \<Rightarrow> target list \<Rightarrow> (target \<times> yaml) list \<times> bool" where
  "back_up ok fs [] = ([], True)"
| "back_up ok fs (t # ts) =
     (case fs t of
        None \<Rightarrow> back_up ok fs ts
      | Some content \<Rightarrow>
          if ok (Back_up t) then (let (saved, done_all) = back_up ok fs ts in ((t, content) # saved, done_all))
          else ([], False))"

text \<open>The replacements: the directory afterwards and the files promoted before an exception.\<close>

fun replace_all ::
  "(fs_step \<Rightarrow> bool) \<Rightarrow> (target \<Rightarrow> yaml) \<Rightarrow> target list \<Rightarrow> (target \<Rightarrow> yaml option) \<Rightarrow>
     (target \<Rightarrow> yaml option) \<times> target list \<times> bool" where
  "replace_all ok staged [] fs = (fs, [], True)"
| "replace_all ok staged (t # ts) fs =
     (if ok (Replace t)
      then (let (fs', promoted, done_all) = replace_all ok staged ts (fs(t \<mapsto> staged t)) in (fs', t # promoted, done_all))
      else (fs, [], False))"

text \<open>The rollback stops at its first exception.\<close>

fun restore_all :: "(fs_step \<Rightarrow> bool) \<Rightarrow> (target \<times> yaml) list \<Rightarrow> (target \<Rightarrow> yaml option) \<Rightarrow> (target \<Rightarrow> yaml option) \<times> bool" where
  "restore_all ok [] fs = (fs, True)"
| "restore_all ok ((t, content) # saved) fs =
     (if ok (Restore t) then restore_all ok saved (fs(t \<mapsto> content)) else (fs, False))"

fun remove_all :: "(fs_step \<Rightarrow> bool) \<Rightarrow> target list \<Rightarrow> (target \<Rightarrow> yaml option) \<Rightarrow> (target \<Rightarrow> yaml option) \<times> bool" where
  "remove_all ok [] fs = (fs, True)"
| "remove_all ok (t # ts) fs = (if ok (Remove t) then remove_all ok ts (fs(t := None)) else (fs, False))"

definition is_empty_dir :: "out_dir \<Rightarrow> bool" where
  "is_empty_dir d \<longleftrightarrow> \<not> od_others d \<and> list_all (\<lambda>t. od_files d t = None) targets"

definition roll_back ::
  "(fs_step \<Rightarrow> bool) \<Rightarrow> bool \<Rightarrow> (target \<times> yaml) list \<Rightarrow> target list \<Rightarrow> out_dir \<Rightarrow> out_dir" where
  "roll_back ok created saved promoted d =
     (let (fs1, restored) = restore_all ok saved (od_files d)
      in if \<not> restored then d\<lparr>od_files := fs1\<rparr>
         else let (fs2, removed) = remove_all ok (filter (\<lambda>t. t \<notin> fst ` set saved) promoted) fs1;
                  d2 = d\<lparr>od_files := fs2\<rparr>
              in if removed \<and> created \<and> od_exists d2 \<and> is_empty_dir d2 \<and> ok Remove_out_dir
                 then d2\<lparr>od_exists := False\<rparr> else d2)"

definition promote :: "(fs_step \<Rightarrow> bool) \<Rightarrow> (target \<Rightarrow> yaml) \<Rightarrow> out_dir \<Rightarrow> out_dir \<times> bool" where
  "promote ok staged d =
     (let created = \<not> od_exists d
      in if \<not> ok Make_out_dir then (d, False)
         else let d1 = d\<lparr>od_exists := True\<rparr>
              in if \<not> ok Make_backup_dir then (roll_back ok created [] [] d1, False)
                 else let (saved, backed_up) = back_up ok (od_files d1) targets
                      in if \<not> backed_up then (roll_back ok created saved [] d1, False)
                         else let (fs, promoted, replaced) = replace_all ok staged targets (od_files d1);
                                  d2 = d1\<lparr>od_files := fs\<rparr>
                              in if replaced then (d2, True) else (roll_back ok created saved promoted d2, False))"

section \<open>Staged validation\<close>

definition validate_staged ::
  "('c, 'p) plugin_env \<Rightarrow> libraries \<Rightarrow> (target \<Rightarrow> yaml) \<Rightarrow> unit result" where
  "validate_staged env lib staged =
     rbind (case plugins_document (staged Plugins_yaml) of
              None \<Rightarrow> Inl ValidationError
            | Some entries \<Rightarrow> load_plugin_registry_config (lb_plugins_hash lib) entries) (\<lambda>_.
     rbind (case load_plugin_registry env (lb_plugins_hash lib) (plugins_document (staged Plugins_yaml)) of
              Inl e \<Rightarrow> Inl RuntimeError
            | Inr g \<Rightarrow> Inr g) (\<lambda>g.
     rbind (rbind (rules_document (staged Rules_yaml))
              (load_rules_config (lb_re_compile lib) (lb_rules_hash lib) [''create_incident''] (names g))) (\<lambda>_.
     rbind (rbind (topology_document (staged Topology_yaml))
              (\<lambda>(hs, ss). load_topology_config (lb_re_compile lib) (lb_ip_network lib) hs ss)) (\<lambda>_.
     Inr ()))))"

text \<open>
  The issues of a failed validation.  \<open>details\<close> are the errors of a pydantic \<open>ValidationError\<close>: the index
  of the rule for one about its \<open>trigger_threshold\<close>, \<open>None\<close> for any other.
\<close>

definition cfg07 :: "issue_domain \<Rightarrow> string \<Rightarrow> issue_code \<Rightarrow> string \<Rightarrow> migration_issue" where
  "cfg07 domain location code message = (issue domain location code message)\<lparr>mi_requirement := ''CFG-07''\<rparr>"

definition staged_validation_issues :: "nat option list \<Rightarrow> migration_issue list" where
  "staged_validation_issues details =
     (let threshold = List.map_filter (map_option (\<lambda>i.
            cfg07 In_rules (indexed ''rules'' i @ ''.window.trigger_threshold'') Validation_failure
              (''trigger_threshold must be an integer from 1 through '' @ nat_str max_window_fingerprints))) details
      in if threshold \<noteq> [] \<and> None \<notin> set details then threshold
         else threshold @ [cfg07 In_validation ''staging'' Validation_failure ''generated config failed validation''])"

section \<open>Input paths\<close>

text \<open>Paths as \<open>str(Path)\<close> prints them; \<open>Path.suffix\<close> ignores the leading dots of the last component.\<close>

definition path_suffix :: "string \<Rightarrow> string" where
  "path_suffix path =
     (let name = dropWhile (\<lambda>c. c = CHR ''.'') (rev (takeWhile (\<lambda>c. c \<noteq> CHR ''/'') (rev path)))
      in if CHR ''.'' \<in> set name then CHR ''.'' # rev (takeWhile (\<lambda>c. c \<noteq> CHR ''.'') (rev name)) else [])"

record files =
  fl_exists :: "string \<Rightarrow> bool"
  fl_is_file :: "string \<Rightarrow> bool"

definition validate_input_path :: "files \<Rightarrow> string \<Rightarrow> string \<Rightarrow> migration_issue list" where
  "validate_input_path fl path flag =
     (let bad = (\<lambda>message. [issue In_inputs (flag @ ''='' @ path) Invalid_input_path (flag @ message)])
      in if has_glob_metachar path then bad '' path contains glob metacharacters''
         else if str_lower (path_suffix path) \<notin> {''.yaml'', ''.yml''} then bad '' path must end in .yaml or .yml''
         else if \<not> fl_exists fl path then bad '' path does not exist''
         else if \<not> fl_is_file fl path then bad '' path is not a regular file''
         else [])"

fun extract_report_path :: "string list \<Rightarrow> string option" where
  "extract_report_path [] = None"
| "extract_report_path (a # rest) =
     (if a = ''--report-path'' then
        (case rest of [] \<Rightarrow> None | p # _ \<Rightarrow> if prefix ''-'' p then None else Some p)
      else if prefix ''--report-path='' a then
        (let v = drop 14 a in if v = [] \<or> prefix ''-'' v then None else Some v)
      else extract_report_path rest)"

section \<open>The report\<close>

definition migration_summary_max_issues :: nat where
  "migration_summary_max_issues = 1000"

definition issue_json :: "migration_issue \<Rightarrow> json" where
  "issue_json i =
     JObj [(''code'', JStr (code_value (mi_code i))), (''domain'', JStr (domain_value (mi_domain i))),
           (''location'', JStr (mi_location i)), (''message'', JStr (mi_message i)),
           (''requirement'', JStr (mi_requirement i))]"

record migration_report =
  mr_ok :: bool
  mr_errors :: "migration_issue list"
  mr_generated :: "string option"          \<comment> \<open>the output directory\<close>
  mr_failure_code :: string
  mr_issue_count :: nat
  mr_issues_truncated :: bool
  mr_completed_at :: string

definition generated_json :: "string \<Rightarrow> json" where
  "generated_json out_dir =
     JObj [(''plugins'', JStr (out_dir @ ''/plugins.yaml'')), (''rules'', JStr (out_dir @ ''/rules.yaml'')),
           (''topology'', JStr (out_dir @ ''/topology.yaml''))]"

definition metrics_summary_json :: "migration_report \<Rightarrow> (string \<times> json) list" where
  "metrics_summary_json r =
     [(''completed_at'', JStr (mr_completed_at r)), (''failure_code'', JStr (mr_failure_code r)),
      (''issue_count'', JInt (int (mr_issue_count r))), (''issues_truncated'', JBool (mr_issues_truncated r)),
      (''outcome'', JStr (if mr_ok r then ''success'' else ''failure'')), (''version'', JInt 1)]"

definition report_json :: "migration_report \<Rightarrow> json" where
  "report_json r =
     JObj [(''errors'', JList (map issue_json (mr_errors r))),
           (''generated'', (case mr_generated r of None \<Rightarrow> JNull | Some d \<Rightarrow> generated_json d)),
           (''metrics_summary'', JObj (metrics_summary_json r)), (''ok'', JBool (mr_ok r))]"

definition serialize_report :: "migration_report \<Rightarrow> string" where
  "serialize_report r = ascii_dumps (report_json r)"

text \<open>The loop over the issues, given whether one was emitted before and the size so far.\<close>

fun emit_errors :: "bool \<Rightarrow> nat \<Rightarrow> migration_issue list \<Rightarrow> migration_issue list" where
  "emit_errors some size_so_far [] = []"
| "emit_errors some size_so_far (i # is) =
     (let new_size = size_so_far + (if some then 1 else 0) + byte_length (ascii_dumps (issue_json i))
      in if migration_report_max_bytes < new_size then [] else i # emit_errors True new_size is)"

definition build_report ::
  "string \<Rightarrow> bool \<Rightarrow> migration_issue list \<Rightarrow> string option \<Rightarrow> string \<Rightarrow> migration_report" where
  "build_report completed_at ok issues out_dir failure_code =
     (let issue_count = min (length issues) migration_summary_max_issues;
          r = \<lparr>mr_ok = ok, mr_errors = [], mr_generated = (if ok then out_dir else None),
               mr_failure_code = failure_code, mr_issue_count = issue_count,
               mr_issues_truncated = (issue_count < length issues), mr_completed_at = completed_at\<rparr>;
          errors = emit_errors False (byte_length (serialize_report r) + 1) issues
      in r\<lparr>mr_errors := errors, mr_issues_truncated := (length errors < length issues)\<rparr>)"

text \<open>The bytes of the published file.\<close>

definition report_bytes :: "migration_report \<Rightarrow> bytes" where
  "report_bytes r = utf8_encode (serialize_report r @ [CHR 0x0A])"

record terminal_line =
  tl_ok :: bool
  tl_failure_code :: string
  tl_issue_count :: nat
  tl_issues_truncated :: bool

definition print_terminal :: "bool \<Rightarrow> string \<Rightarrow> nat \<Rightarrow> bool \<Rightarrow> terminal_line" where
  "print_terminal ok failure_code issue_count truncated =
     \<lparr>tl_ok = ok, tl_failure_code = failure_code, tl_issue_count = min issue_count migration_summary_max_issues,
      tl_issues_truncated = (truncated \<or> migration_summary_max_issues < issue_count)\<rparr>"

section \<open>The run\<close>

record arguments =
  arg_rules :: string
  arg_topology :: string
  arg_plugins :: string
  arg_out_dir :: string
  arg_report_path :: "string option"

text \<open>\<open>--help\<close> prints the usage and ends the program through \<open>SystemExit\<close>.\<close>

datatype parsed = Parsed arguments | Parse_error | Duplicate string | Help

datatype loaded = Document yaml | Load_failure | Load_raises exn

text \<open>Everything outside the program that a run meets.\<close>

record ('c, 'p) surroundings =
  su_parse :: "string list \<Rightarrow> parsed"
  su_files :: files
  su_load :: "string \<Rightarrow> loaded"
  su_python :: python
  su_env :: "('c, 'p) plugin_env"
  su_lib :: libraries
  su_details :: "exn \<Rightarrow> nat option list"   \<comment> \<open>the errors of a \<open>ValidationError\<close>\<close>
  su_staging_ok :: bool
  su_step :: "fs_step \<Rightarrow> bool"
  su_write_ok :: bool
  su_completed_at :: string

text \<open>What a run leaves: the output directory, the published report, if any, and the line printed.\<close>

record run_state =
  rn_out :: out_dir
  rn_report :: "bytes option"
  rn_terminal :: "terminal_line option"

definition finish ::
  "('c, 'p) surroundings \<Rightarrow> string option \<Rightarrow> bool \<Rightarrow> migration_issue list \<Rightarrow> string option \<Rightarrow> string \<Rightarrow> int \<Rightarrow>
     run_state \<Rightarrow> run_state \<times> int result" where
  "finish su report_path ok issues out_dir failure_code exit_code s =
     (let report = build_report (su_completed_at su) ok issues out_dir failure_code
      in if report_path \<noteq> None \<and> \<not> su_write_ok su
         then (s\<lparr>rn_terminal := Some (print_terminal False ''report_emission'' 0 False)\<rparr>, Inr 1)
         else (s\<lparr>rn_report := (if report_path = None then rn_report s else Some (report_bytes report)),
                 rn_terminal := Some (print_terminal ok failure_code (length issues)
                   (migration_summary_max_issues < length issues))\<rparr>, Inr exit_code))"

text \<open>One source document: its wrapped value, or the default, and the issues.\<close>

definition unwrap :: "python \<Rightarrow> issue_domain \<Rightarrow> string \<Rightarrow> yaml \<Rightarrow> yaml \<Rightarrow> yaml \<times> migration_issue list" where
  "unwrap py domain wrapper dflt doc =
     (let d = domain_value domain
      in case doc of
           YMap m \<Rightarrow>
             (yget_or wrapper dflt m,
              unknown_source_field_issues (py_str py) m [wrapper] domain [] @
              issue_if (yget wrapper m = None)
                (issue domain wrapper Missing_top_level_wrapper
                   (d @ '' source document is missing top-level '' @ quoted wrapper)))
         | _ \<Rightarrow> (dflt, [issue domain d Invalid_source_document (d @ '' source document must be a mapping'')]))"

definition preflight :: "python \<Rightarrow> yaml \<Rightarrow> yaml \<Rightarrow> yaml \<Rightarrow> (yaml \<times> yaml \<times> migration_issue list) result" where
  "preflight py raw_rules raw_topology raw_plugins =
     (let (rules, rule_issues) = unwrap py In_rules ''rules'' (YList []) raw_rules;
          (topology, topology_issues) = unwrap py In_topology ''topology_rules'' (YMap []) raw_topology
      in rbind (preflight_topology py topology) (\<lambda>section_issues.
         Inr (rules, topology,
           rule_issues @ topology_issues @ preflight_rules py rules @ section_issues @
           preflight_plugins py raw_plugins @ check_action_plugins_exist rules (extract_output_names raw_plugins))))"

definition transform :: "python \<Rightarrow> yaml \<Rightarrow> yaml \<Rightarrow> yaml \<Rightarrow> (target \<Rightarrow> yaml) result" where
  "transform py rules topology plugins =
     rbind (transform_rules py (ylist_or_empty rules)) (\<lambda>r.
     rbind (transform_topology py topology) (\<lambda>t.
     rbind (transform_plugins py plugins) (\<lambda>p.
     Inr (case_target r t p))))"

definition stage_and_promote ::
  "('c, 'p) surroundings \<Rightarrow> arguments \<Rightarrow> (target \<Rightarrow> yaml) \<Rightarrow> run_state \<Rightarrow> run_state \<times> int result" where
  "stage_and_promote su a staged s =
     (if \<not> su_staging_ok su then (s, Inl OSError)
      else case validate_staged (su_env su) (su_lib su) staged of
          Inl e \<Rightarrow>
            finish su (arg_report_path a) False
              (staged_validation_issues (if e = ValidationError then su_details su e else [])) None ''staged_validation'' 1 s
        | Inr _ \<Rightarrow>
            (case promote (su_step su) staged (rn_out s) of
               (d, False) \<Rightarrow>
                 finish su (arg_report_path a) False
                   [cfg07 In_promotion ''output'' Promotion_failure_issue ''generated config could not be promoted'']
                   None ''promotion_failure'' 1 (s\<lparr>rn_out := d\<rparr>)
             | (d, True) \<Rightarrow> finish su (arg_report_path a) True [] (Some (arg_out_dir a)) ''none'' 0 (s\<lparr>rn_out := d\<rparr>)))"

text \<open>The three documents in their order; an expected failure is an issue, another exception ends the run.\<close>

definition load_source :: "('c, 'p) surroundings \<Rightarrow> issue_domain \<times> string \<Rightarrow> (yaml + migration_issue) result" where
  "load_source su = (\<lambda>(domain, path).
     case su_load su path of
       Document v \<Rightarrow> Inr (Inl (if v = YNull then YMap [] else v))
     | Load_failure \<Rightarrow> Inr (Inr (issue domain path Invalid_yaml ''could not read or parse YAML''))
     | Load_raises e \<Rightarrow> Inl e)"

definition convert ::
  "('c, 'p) surroundings \<Rightarrow> arguments \<Rightarrow> yaml \<Rightarrow> yaml \<Rightarrow> yaml \<Rightarrow> run_state \<Rightarrow> run_state \<times> int result" where
  "convert su a raw_rules raw_topology raw_plugins s =
     (case preflight (su_python su) raw_rules raw_topology raw_plugins of
        Inl e \<Rightarrow> (s, Inl e)
      | Inr (rules, topology, issues) \<Rightarrow>
          if issues \<noteq> [] then finish su (arg_report_path a) False issues None ''cataloged_incompatibility'' 1 s
          else case transform (su_python su) rules topology raw_plugins of
              Inl e \<Rightarrow> (s, Inl e)
            | Inr staged \<Rightarrow> stage_and_promote su a staged s)"

definition migrate :: "('c, 'p) surroundings \<Rightarrow> arguments \<Rightarrow> run_state \<Rightarrow> run_state \<times> int result" where
  "migrate su a s =
     (let path_issues = validate_input_path (su_files su) (arg_rules a) ''--rules'' @
            validate_input_path (su_files su) (arg_topology a) ''--topology'' @
            validate_input_path (su_files su) (arg_plugins a) ''--plugins''
      in if path_issues \<noteq> [] then finish su (arg_report_path a) False path_issues None ''input_validation'' 1 s
         else case rmapM (load_source su) [(In_rules, arg_rules a), (In_topology, arg_topology a), (In_plugins, arg_plugins a)] of
             Inr [Inl raw_rules, Inl raw_topology, Inl raw_plugins] \<Rightarrow> convert su a raw_rules raw_topology raw_plugins s
           | Inr docs \<Rightarrow>
               finish su (arg_report_path a) False (List.map_filter (case_sum (\<lambda>_. None) Some) docs) None
                 ''source_validation'' 1 s
           | Inl e \<Rightarrow> (s, Inl e))"

definition main :: "('c, 'p) surroundings \<Rightarrow> string list \<Rightarrow> run_state \<Rightarrow> run_state \<times> int result" where
  "main su argv s =
     (case su_parse su argv of
        Parse_error \<Rightarrow> finish su (extract_report_path argv) False [] None ''argument'' 2 s
      | Duplicate option_string \<Rightarrow>
          finish su (extract_report_path argv) False
            [issue In_inputs (''flag='' @ option_string) Duplicate_flag
               (''flag '' @ quoted option_string @ '' may only be specified once'')]
            None ''argument'' 1 s
      | Help \<Rightarrow> (s, Inl SystemExit)
      | Parsed a \<Rightarrow> migrate su a s)"

end
