(* ===== verification/MigrateSound.thy ===== *)
theory MigrateSound
  imports MigrateRun
begin

text \<open>
  A clean preflight is enough: sources without an issue are transformed without an exception.
\<close>

lemma rmapM_total:
  assumes "\<And>x. x \<in> set xs \<Longrightarrow> \<exists>y. f x = Inr y"
  shows "\<exists>ys. rmapM f xs = Inr ys"
  using assms
proof (induction xs)
  case (Cons x xs)
  obtain y where "f x = Inr y" using Cons.prems by fastforce
  moreover obtain ys where "rmapM f xs = Inr ys" using Cons by fastforce
  ultimately show ?case by simp
qed simp

lemma rall_total: "(\<And>x. x \<in> set xs \<Longrightarrow> f x = Inr ()) \<Longrightarrow> rall f xs = Inr ()"
  by (induction xs) auto

lemma enumerated_set: "(i, x) \<in> set (enumerated xs) \<longleftrightarrow> i < length xs \<and> x = xs ! i"
  by (force simp: enumerated_def in_set_zip)

lemma enumerated_obtain: "x \<in> set xs \<Longrightarrow> \<exists>i. (i, x) \<in> set (enumerated xs)"
  by (metis enumerated_set in_set_conv_nth)

lemma map_filter_Nil: "List.map_filter f xs = [] \<longleftrightarrow> (\<forall>x \<in> set xs. f x = None)"
  by (induction xs) (auto simp: List.map_filter_def)

section \<open>Rules\<close>

lemma group_entries_strings:
  assumes "snd (rewrite_group_by entries) = []"
  shows "list_all is_ystr entries"
proof -
  have "is_ystr (entries ! i)" if "i < length entries" for i
  proof -
    have "(i, entries ! i) \<in> set (enumerated entries)" using that by (simp add: enumerated_set)
    with assms have "\<not> (\<exists>x. rewrite_group_entry (i, entries ! i) = Inl x)"
      by (auto simp: rewrite_group_by_def issues_of_def map_filter_Nil Let_def split: sum.splits)
    then show ?thesis by (cases "entries ! i") (auto simp: rewrite_group_entry_def is_ystr_def)
  qed
  then show ?thesis by (auto simp: list_all_length)
qed

lemma transform_match_total:
  assumes "preflight_match py loc m = []"
  shows "\<exists>v. transform_match py m = Inr v"
proof -
  have "\<exists>h. yget_or ''host'' (YStr ''*'') m = YStr h"
    using assms by (auto simp: preflight_match_def yget_or_def split: option.splits yaml.splits)
  moreover have "yget_or ''service'' YNull m = YNull \<or> (\<exists>s. yget_or ''service'' YNull m = YStr s)"
    using assms by (auto simp: preflight_match_def split: yaml.splits)
  moreover have "\<exists>tags. yget_or ''tags'' (YMap []) m = YMap tags"
    using assms by (auto simp: preflight_match_def split: yaml.splits)
  ultimately show ?thesis by (auto simp: transform_match_def)
qed

lemma preflight_rule_clean:
  assumes "preflight_rule py (i, rule) = []"
  shows "\<exists>m p. rule = YMap m \<and> yget ''priority'' m = Some (YInt p) \<and> (\<forall>k. \<exists>v. transform_rule py (k, m) = Inr v)"
proof (cases rule)
  case (YMap m)
  let ?window = "ymap_or_empty (yget_or ''window'' (YMap []) m)"
  have p: "preflight_priority (indexed ''rules'' i) m = []"
    and g: "snd (rewrite_group_by (ylist_or_empty (yget_or ''group_by'' (YList []) ?window))) = []"
    and mb: "\<exists>mb. yget_or ''match'' (YMap []) m = YMap mb \<and> preflight_match py (indexed ''rules'' i) mb = []"
    using assms YMap by (auto simp: preflight_rule_def Let_def split: yaml.splits)
  from p have "\<exists>p. yget ''priority'' m = Some (YInt p)"
    by (auto simp: preflight_priority_def yget_or_def split: option.splits yaml.splits)
  moreover from mb obtain v where "transform_match py (ymap_or_empty (yget_or ''match'' (YMap []) m)) = Inr v"
    using transform_match_total by (fastforce simp: ymap_or_empty_def)
  moreover from group_entries_strings [OF g] obtain w where "transform_window ?window = Inr w"
    by (simp add: transform_window_def Let_def)
  ultimately show ?thesis using YMap by (auto simp: transform_rule_def)
qed (use assms in \<open>simp_all add: preflight_rule_def Let_def\<close>)

lemma preflight_rules_clean:
  assumes "preflight_rules py raw = []"
  shows "\<exists>rules. raw = YList rules \<and> (\<forall>r \<in> set rules. \<exists>m p. r = YMap m \<and> yget ''priority'' m = Some (YInt p) \<and>
    (\<forall>k. \<exists>v. transform_rule py (k, m) = Inr v)) \<and> first_duplicate [] (rule_priorities rules) = None"
proof (cases raw)
  case (YList rules)
  with assms have c: "\<forall>x \<in> set (enumerated rules). preflight_rule py x = []"
    and d: "first_duplicate [] (rule_priorities rules) = None"
    by (auto simp: preflight_rules_def split: option.splits)
  have "\<exists>m p. r = YMap m \<and> yget ''priority'' m = Some (YInt p) \<and> (\<forall>k. \<exists>v. transform_rule py (k, m) = Inr v)"
    if "r \<in> set rules" for r
  proof -
    from enumerated_obtain [OF that] obtain i where "(i, r) \<in> set (enumerated rules)" by blast
    with c have "preflight_rule py (i, r) = []" by blast
    then show ?thesis by (rule preflight_rule_clean)
  qed
  with YList d show ?thesis by blast
qed (use assms in \<open>simp_all add: preflight_rules_def\<close>)

lemma transform_rules_total:
  assumes "preflight_rules py raw = []"
  shows "\<exists>v. transform_rules py (ylist_or_empty raw) = Inr v"
proof -
  from preflight_rules_clean [OF assms] obtain rules where raw: "raw = YList rules"
    and r: "\<And>r. r \<in> set rules \<Longrightarrow> \<exists>m p. r = YMap m \<and> yget ''priority'' m = Some (YInt p) \<and>
      (\<forall>k. \<exists>v. transform_rule py (k, m) = Inr v)" by blast
  have src: "m \<in> set (source_rules rules) \<Longrightarrow> YMap m \<in> set rules" for m
    by (induction rules) (auto simp: source_rules_def List.map_filter_def split: yaml.splits)
  obtain keyed where k: "rmapM (\<lambda>m. rbind (source_priority py m) (\<lambda>p. Inr (p, m))) (source_rules rules) = Inr keyed"
  proof -
    have "\<exists>y. rbind (source_priority py m) (\<lambda>p. Inr (p, m)) = Inr y" if "m \<in> set (source_rules rules)" for m
      using r [OF src [OF that]] by (auto simp: source_priority_def yget_or_def int_of_def)
    from rmapM_total [where f = "\<lambda>m. rbind (source_priority py m) (\<lambda>p. Inr (p, m))", OF this] that
    show thesis by blast
  qed
  have "snd ` set keyed \<subseteq> set (source_rules rules)"
    using rmapM_origin [OF k] by (fastforce simp: result_simps)
  have "\<exists>y. transform_rule py x = Inr y"
    if "x \<in> set (zip [1..<Suc (length keyed)] (map snd (sort_key (\<lambda>(p, m). - p) keyed)))" for x
  proof -
    obtain n m where x: "x = (n, m)" by (cases x)
    with that have "m \<in> snd ` set keyed" by (auto dest: set_zip_rightD)
    with \<open>snd ` set keyed \<subseteq> set (source_rules rules)\<close> have "YMap m \<in> set rules" using src by blast
    with r [OF this] x show ?thesis by auto
  qed
  then obtain ys where "rmapM (transform_rule py)
      (zip [1..<Suc (length keyed)] (map snd (sort_key (\<lambda>(p, m). - p) keyed))) = Inr ys"
    using rmapM_total [where f = "transform_rule py"] by blast
  then show ?thesis using k by (simp add: transform_rules_def raw ylist_or_empty_def del: upt_Suc)
qed

section \<open>Topology\<close>

lemma preflight_section_clean:
  assumes "preflight_section name chk m = Inr []" "\<And>i e. chk (i, e) = Inr [] \<Longrightarrow> P e"
  shows "\<exists>entries. section_entries name m = Inr entries \<and> (\<forall>e \<in> set entries. P e)"
proof -
  from assms(1) obtain entries issues where e: "yget_or name (YList []) m = YList entries"
    and i: "rmapM chk (enumerated entries) = Inr issues" "concat issues = []"
    by (auto simp: preflight_section_def result_simps split: yaml.splits)
  have c: "\<forall>x \<in> set (enumerated entries). chk x = Inr []"
  proof
    fix x assume "x \<in> set (enumerated entries)"
    then obtain n where n: "n < length (enumerated entries)" "x = enumerated entries ! n"
      by (metis in_set_conv_nth)
    from i(1) have "list_all2 (\<lambda>x y. chk x = Inr y) (enumerated entries) issues" by (simp add: rmapM_eq_Inr)
    with n have "n < length issues" "chk x = Inr (issues ! n)" by (auto simp: list_all2_conv_all_nth)
    moreover have "issues ! n = []" using i(2) nth_mem [OF \<open>n < length issues\<close>] by (simp only: concat_eq_Nil_conv)
    ultimately show "chk x = Inr []" by simp
  qed
  have "P x" if "x \<in> set entries" for x
    using enumerated_obtain [OF that] c assms(2) by blast
  with e show ?thesis by (simp add: section_entries_def)
qed

lemma unique_slugs_from_length [simp]: "length (unique_slugs_from seen xs) = length xs"
  by (induction seen xs rule: unique_slugs_from.induct) (simp_all add: Let_def)

lemma map_filter_all:
  assumes "length is = length es" "\<And>i e. e \<in> set es \<Longrightarrow> g (i, e) \<noteq> None"
  shows "length (List.map_filter g (zip is es)) = length es"
  using assms
proof (induction "is" es rule: list_induct2)
  case (Cons i "is" e es)
  have "g (i, e) \<noteq> None" using Cons.prems by simp
  moreover have "length (List.map_filter g (zip is es)) = length es" using Cons by simp
  ultimately show ?case by (auto simp: List.map_filter_def)
qed (simp add: List.map_filter_def)

lemma entry_ids_length:
  assumes "\<forall>e \<in> set entries. \<exists>m. e = YMap m"
  shows "length (entry_ids py key stem entries) = length entries"
  unfolding entry_ids_def unique_slugs_def unique_slugs_from_length enumerated_def
  by (rule map_filter_all) (use assms in auto)

lemma enumerated_total:
  assumes "\<forall>e \<in> set entries. \<exists>m. e = YMap m"
    and "\<And>i m. i < length entries \<Longrightarrow> YMap m \<in> set entries \<Longrightarrow> \<exists>v. f (i, YMap m) = Inr v"
  shows "\<exists>vs. rmapM f (enumerated entries) = Inr vs"
proof (rule rmapM_total)
  fix x assume "x \<in> set (enumerated entries)"
  moreover obtain i e where "x = (i, e)" by (metis surj_pair)
  ultimately have x: "x = (i, entries ! i)" "i < length entries" by (simp_all add: enumerated_set)
  then obtain m where m: "entries ! i = YMap m" using assms(1) nth_mem by blast
  moreover have "entries ! i \<in> set entries" using x(2) by simp
  ultimately show "\<exists>y. f x = Inr y" using x assms(2) by simp
qed

text \<open>A clean entry is a mapping with a text as its regex, whose compilation did not raise.\<close>

definition compilable_entry :: "python \<Rightarrow> yaml \<Rightarrow> bool" where
  "compilable_entry py e \<longleftrightarrow>
     (\<exists>m regex captures. e = YMap m \<and> yget_or ''regex'' (YStr []) m = YStr regex \<and> has_capture py regex = Inr captures)"

lemma preflight_hostname_compilable: "preflight_hostname py (i, e) = Inr [] \<Longrightarrow> compilable_entry py e"
  by (cases e) (auto simp: preflight_hostname_def compilable_entry_def Let_def result_simps split: yaml.splits if_splits)

lemma preflight_subnet_map: "preflight_subnet py (i, e) = [] \<Longrightarrow> \<exists>m. e = YMap m"
  by (cases e) (simp_all add: preflight_subnet_def Let_def)

lemma transform_topology_total:
  assumes "preflight_topology py raw = Inr []"
  shows "\<exists>v. transform_topology py raw = Inr v"
proof (cases raw)
  case (YMap m)
  with assms have c: "preflight_section ''hostname_patterns'' (preflight_hostname py) m = Inr []"
    "preflight_section ''ip_subnets'' (\<lambda>entry. Inr (preflight_subnet py entry)) m = Inr []"
    by (auto simp: preflight_topology_def result_simps)
  obtain hosts where h: "section_entries ''hostname_patterns'' m = Inr hosts" "\<forall>e \<in> set hosts. compilable_entry py e"
    using preflight_section_clean [OF c(1)] preflight_hostname_compilable [of py] by blast
  obtain subnets where s: "section_entries ''ip_subnets'' m = Inr subnets" "\<forall>e \<in> set subnets. \<exists>m. e = YMap m"
    using preflight_section_clean [OF c(2), of "\<lambda>e. \<exists>m. e = YMap m"] preflight_subnet_map [of py] by blast
  from h(2) have maps: "\<forall>e \<in> set hosts. \<exists>m. e = YMap m" by (auto simp: compilable_entry_def)
  have "\<exists>v. transform_hostname py (entry_ids py ''name'' ''hostname-'' hosts) (i, YMap e) = Inr v"
    if "i < length hosts" "YMap e \<in> set hosts" for i e
  proof -
    from h(2) that(2) obtain regex captures where "yget_or ''regex'' (YStr []) e = YStr regex" "has_capture py regex = Inr captures"
      by (auto simp: compilable_entry_def)
    with that(1) show ?thesis
      by (simp add: transform_hostname_def nth_id_def entry_ids_length [OF maps] Let_def ystr_def)
  qed
  then have "\<exists>vs. rmapM (transform_hostname py (entry_ids py ''name'' ''hostname-'' hosts)) (enumerated hosts) = Inr vs"
    by (rule enumerated_total [OF maps])
  moreover have "\<exists>vs. rmapM (transform_subnet py (entry_ids py ''target_tag'' ''subnet-'' subnets)) (enumerated subnets) = Inr vs"
    by (rule enumerated_total [OF s(2)]) (simp add: transform_subnet_def nth_id_def entry_ids_length [OF s(2)] Let_def)
  ultimately show ?thesis using h(1) s(1) YMap by (auto simp: transform_topology_def)
qed (use assms in \<open>simp_all add: preflight_topology_def\<close>)

section \<open>Plugins\<close>

text \<open>Whether a value holds an unsupported form does not depend on where it stands.\<close>

lemma placeholders_anywhere:
  "iter_unsupported_placeholders py v loc = [] \<longrightarrow> iter_unsupported_placeholders py v loc' = []"
  "placeholders_in_list py i xs loc = [] \<longrightarrow> placeholders_in_list py j xs loc' = []"
  "placeholders_in_map py m loc = [] \<longrightarrow> placeholders_in_map py m loc' = []"
proof (induction py v loc and py i xs loc and py m loc arbitrary: loc' and j loc' and loc'
    rule: iter_unsupported_placeholders_placeholders_in_list_placeholders_in_map.induct)
  case (2 py m location)
  show ?case
  proof (cases "yget ''env'' m = None")
    case True
    then have "\<not> yget ''env'' m \<noteq> None" by simp
    from 2 [OF this] show ?thesis unfolding iter_unsupported_placeholders.simps if_not_P [OF \<open>\<not> yget ''env'' m \<noteq> None\<close>] .
  qed simp
next
  case (3 py xs location)
  show ?case unfolding iter_unsupported_placeholders.simps by (rule 3)
next
  case (10 py i x xs location)
  show ?case unfolding placeholders_in_list.simps append_is_Nil_conv using 10 by blast
next
  case (12 py k v m location)
  show ?case unfolding placeholders_in_map.simps append_is_Nil_conv using 12 by blast
qed simp_all

lemma transform_output_total:
  assumes "preflight_output py (name, entry) = []"
  shows "\<exists>v. transform_output py (name, entry) = Inr v"
proof (cases entry)
  case (YMap m)
  let ?loc = "''plugins.outputs.'' @ ystr (py_str py) name"
  have n: "iter_unsupported_placeholders py name ''name'' = []"
    and c: "preflight_output_class py ?loc m = []"
    using assms YMap placeholders_anywhere(1) [of py name ?loc "''name''"]
    by (auto simp: preflight_output_def Let_def placeholder_issues_def)
  from c obtain config where config: "yget_or ''config'' (YMap []) m = YMap config"
    and o: "\<forall>x \<in> set config. preflight_option py ?loc x = []"
    by (auto simp: preflight_output_class_def Let_def split: if_splits yaml.splits)
  have allowed: "in_names allowed_email_config_keys k \<and> (k = YStr ''use_tls'' \<longrightarrow> (\<exists>b. v = YBool b)) \<and>
      iter_unsupported_placeholders py v loc = []" if "(k, v) \<in> set config" for k v loc
  proof -
    from o that have p: "preflight_option py ?loc (k, v) = []" by blast
    then have *: "in_names allowed_email_config_keys k" "k = YStr ''use_tls'' \<longrightarrow> (\<exists>b. v = YBool b)"
      "iter_unsupported_placeholders py v (?loc @ ''.config.'' @ ystr (py_str py) k) = []"
      by (auto simp: preflight_option_def Let_def placeholder_issues_def split: if_splits yaml.splits)
    from *(3) have "iter_unsupported_placeholders py v loc = []" using placeholders_anywhere(1) by blast
    with * show ?thesis by blast
  qed
  have "rall (\<lambda>(k, v). rguard (\<not> in_names allowed_email_config_keys k \<or>
      iter_unsupported_placeholders py v (''config.'' @ ystr (py_str py) k) = []) ValueError) config = Inr ()"
    by (rule rall_total) (use allowed in auto)
  moreover have "\<exists>v. transform_options config = Inr v"
  proof (cases "yget ''use_tls'' config")
    case (Some v)
    then have "(YStr ''use_tls'', v) \<in> set config" by (simp add: yget_def map_of_SomeD)
    with allowed Some show ?thesis by (fastforce simp: transform_options_def)
  qed (simp add: transform_options_def)
  ultimately show ?thesis using YMap n config by (auto simp: transform_output_def)
qed (use assms in \<open>simp_all add: preflight_output_def Let_def\<close>)

lemma transform_plugins_total:
  assumes "preflight_plugins py raw = []"
  shows "\<exists>v. transform_plugins py raw = Inr v"
proof (cases raw)
  case (YMap m)
  with assms obtain outputs where o: "yget_or ''outputs'' (YMap []) m = YMap outputs"
    and c: "\<forall>x \<in> set outputs. preflight_output py x = []"
    by (auto simp: preflight_plugins_def split: yaml.splits)
  have "\<exists>v. transform_output py x = Inr v" if "x \<in> set outputs" for x
    using c that transform_output_total [of py "fst x" "snd x"] by auto
  from rmapM_total [where f = "transform_output py", OF this]
  obtain es where "rmapM (transform_output py) outputs = Inr es" by blast
  with o YMap show ?thesis by (simp add: transform_plugins_def)
qed (use assms in \<open>simp_all add: preflight_plugins_def\<close>)

lemma transform_total:
  assumes "preflight py raw_rules raw_topology raw_plugins = Inr (rules, topology, [])"
  shows "\<exists>staged. transform py rules topology raw_plugins = Inr staged"
proof -
  from assms have "preflight_rules py rules = []" "preflight_topology py topology = Inr []" "preflight_plugins py raw_plugins = []"
    by (auto simp: preflight_def result_simps split: prod.splits)
  from transform_rules_total [OF this(1)] transform_topology_total [OF this(2)] transform_plugins_total [OF this(3)]
  show ?thesis by (auto simp: transform_def)
qed

text \<open>The only exception of the checks is one that \<open>re.compile\<close> raises beside \<open>re.error\<close>.\<close>

lemma preflight_total:
  assumes "\<And>regex e. py_compile py regex \<noteq> Compile_raises e"
  shows "\<exists>r. preflight py raw_rules raw_topology raw_plugins = Inr r"
proof -
  have capture: "\<exists>b. has_capture py regex = Inr b" for regex
    using assms by (cases "py_compile py regex") (auto simp: has_capture_def)
  have entry: "\<exists>is. preflight_hostname py (i, e) = Inr is" for i e
  proof (cases e)
    case (YMap m)
    show ?thesis
    proof (cases "yget_or ''regex'' (YStr []) m")
      case (YStr regex)
      then show ?thesis using YMap capture [of regex] by (auto simp: preflight_hostname_def Let_def)
    qed (simp_all add: YMap preflight_hostname_def Let_def)
  qed (simp_all add: preflight_hostname_def Let_def)
  have section_total: "\<exists>is. preflight_section name chk m = Inr is" if "\<And>x. \<exists>is. chk x = Inr is" for name chk m
  proof (cases "yget_or name (YList []) m")
    case (YList entries)
    then show ?thesis using rmapM_total [of "enumerated entries" chk] that by (auto simp: preflight_section_def)
  qed (simp_all add: preflight_section_def)
  have "\<exists>is. preflight_topology py raw = Inr is" for raw
  proof (cases raw)
    case (YMap m)
    have "\<exists>is. preflight_hostname py x = Inr is" for x using entry by (cases x) simp
    from section_total [of "preflight_hostname py" "''hostname_patterns''" m, OF this]
      section_total [of "\<lambda>entry. Inr (preflight_subnet py entry)" "''ip_subnets''" m]
    show ?thesis by (auto simp: preflight_topology_def YMap)
  qed (simp_all add: preflight_topology_def)
  then obtain section_issues where "preflight_topology py raw = Inr (section_issues raw)" for raw by metis
  then show ?thesis by (simp add: preflight_def split_def Let_def)
qed

section \<open>Priorities\<close>

definition old_priority :: "ymap \<Rightarrow> int" where
  "old_priority m = (case yget ''priority'' m of Some (YInt p) \<Rightarrow> p | _ \<Rightarrow> 0)"

lemma first_duplicate_None: "first_duplicate seen ps = None \<Longrightarrow> distinct ps \<and> set ps \<inter> set seen = {}"
  by (induction seen ps rule: first_duplicate.induct) (auto split: if_splits)

lemma clean_sources_maps:
  assumes "\<forall>r \<in> set rules. \<exists>m p. r = YMap m \<and> yget ''priority'' m = Some (YInt p)"
  shows "rules = map YMap (source_rules rules)" "rule_priorities rules = map old_priority (source_rules rules)"
    "\<forall>m \<in> set (source_rules rules). source_priority py m = Inr (old_priority m)"
  using assms
  by (induction rules)
    (auto simp: source_rules_def rule_priorities_def List.map_filter_def old_priority_def source_priority_def
      yget_or_def int_of_def)

lemma rmapM_pure: "\<forall>x \<in> set xs. f x = Inr (g x) \<Longrightarrow> rmapM f xs = Inr (map g xs)"
  by (induction xs) auto

lemma sorted_distinct_strict:
  fixes f :: "'a \<Rightarrow> int"
  shows "sorted (map (\<lambda>x. - f x) xs) \<Longrightarrow> distinct (map f xs) \<Longrightarrow> sorted_wrt (\<lambda>x y. f y < f x) xs"
proof (induction xs)
  case (Cons x xs)
  have "f y < f x" if "y \<in> set xs" for y
  proof -
    from Cons.prems(1) that have "f y \<le> f x" by simp
    moreover from Cons.prems(2) that have "f y \<noteq> f x" by (metis distinct.simps(2) image_eqI list.set_map list.simps(9))
    ultimately show ?thesis by simp
  qed
  with Cons show ?case by simp
qed simp

lemma sort_key_paired:
  fixes g :: "'a \<Rightarrow> int"
  shows "sort_key (\<lambda>(p, m). - p) (map (\<lambda>m. (g m, m)) ms) = map (\<lambda>m. (g m, m)) (sort_key (\<lambda>m. - g m) ms)"
proof -
  have "insort_key (\<lambda>(p, m). - p) (g x, x) (map (\<lambda>m. (g m, m)) xs) = map (\<lambda>m. (g m, m)) (insort_key (\<lambda>m. - g m) x xs)"
    for x xs by (induction xs) auto
  then show ?thesis by (induction ms) (simp_all add: sort_key_def)
qed

lemma transformed_rules_order:
  assumes "preflight_rules py (YList raw) = []" "transform_rules py raw = Inr doc"
  shows "\<exists>ms rules. doc = ydict [(''rules'', YList rules)] \<and> mset (map YMap ms) = mset raw \<and> length rules = length raw \<and>
    sorted_wrt (\<lambda>m m'. old_priority m' < old_priority m) ms \<and>
    (\<forall>i < length raw. transform_rule py (Suc i, ms ! i) = Inr (rules ! i))"
proof -
  note c = preflight_rules_clean [OF assms(1)]
  then have maps: "\<forall>r \<in> set raw. \<exists>m p. r = YMap m \<and> yget ''priority'' m = Some (YInt p)"
    and dup: "first_duplicate [] (rule_priorities raw) = None" by auto
  note src = clean_sources_maps [OF maps]
  let ?ms = "source_rules raw"
  let ?sorted = "sort_key (\<lambda>m. - old_priority m) ?ms"
  have keyed: "rmapM (\<lambda>m. rbind (source_priority py m) (\<lambda>p. Inr (p, m))) ?ms = Inr (map (\<lambda>m. (old_priority m, m)) ?ms)"
    by (rule rmapM_pure) (use src(3) in simp)
  have "map snd (sort_key (\<lambda>(p, m). - p) (map (\<lambda>m. (old_priority m, m)) ?ms)) = ?sorted"
    by (simp add: sort_key_paired comp_def)
  then obtain rules where r: "rmapM (transform_rule py) (zip [1..<Suc (length ?ms)] ?sorted) = Inr rules"
    and doc: "doc = ydict [(''rules'', YList rules)]"
    using assms(2) keyed by (auto simp: transform_rules_def result_simps simp del: upt_Suc)
  have raw: "raw = map YMap ?ms" by (rule src(1))
  then have len: "length ?ms = length raw" by (metis length_map)
  have "length rules = length raw" using rmapM_eq_Inr_length [OF r] len by (simp del: upt_Suc)
  moreover have "mset (map YMap ?sorted) = mset raw" by (subst (2) raw) (simp only: mset_map mset_sort)
  moreover have "sorted_wrt (\<lambda>m m'. old_priority m' < old_priority m) ?sorted"
  proof (rule sorted_distinct_strict)
    have "distinct (map old_priority ?ms)" using first_duplicate_None [OF dup] src(2) by simp
    then have "distinct (map old_priority ms)" if "mset ms = mset ?ms" for ms
      using that by (metis mset_eq_imp_distinct_iff mset_map)
    then show "distinct (map old_priority ?sorted)" by simp
  qed simp
  moreover have "transform_rule py (Suc i, ?sorted ! i) = Inr (rules ! i)" if "i < length raw" for i
    using r that len unfolding rmapM_eq_Inr list_all2_conv_all_nth
    by (auto simp: nth_append simp del: upt_Suc)
  ultimately show ?thesis using doc by blast
qed

end
