(* ===== verification/MigratePromotion.thy ===== *)
theory MigratePromotion
  imports MigrateSound
begin

text \<open>
  Promotion and the report: what a run leaves in the output directory, and that every report it
  publishes is one the service accepts.
\<close>

section \<open>Promotion\<close>

lemma back_up_facts:
  "back_up ok fs ts = (saved, b) \<Longrightarrow>
     (\<forall>(t, content) \<in> set saved. fs t = Some content) \<and> (b \<longrightarrow> fst ` set saved = {t \<in> set ts. fs t \<noteq> None})"
proof (induction ts arbitrary: saved b)
  case (Cons t ts)
  show ?case
  proof (cases "fs t")
    case None
    with Cons show ?thesis by auto
  next
    case (Some content)
    obtain saved' b' where r: "back_up ok fs ts = (saved', b')" by (cases "back_up ok fs ts")
    show ?thesis
    proof (cases "ok (Back_up t)")
      case True
      with Cons.prems r Some have eq: "saved = (t, content) # saved'" "b = b'" by auto
      from Cons.IH [OF r] Some have "\<forall>(t, content) \<in> set saved. fs t = Some content" by (simp add: eq)
      moreover have "fst ` set saved = {x \<in> set (t # ts). fs x \<noteq> None}" if b
      proof -
        have "fst ` set saved = insert t {x \<in> set ts. fs x \<noteq> None}" using Cons.IH [OF r] that by (simp add: eq)
        also have "\<dots> = {x \<in> set (t # ts). fs x \<noteq> None}" using Some by auto
        finally show ?thesis .
      qed
      ultimately show ?thesis by blast
    next
      case False
      with Cons.prems Some show ?thesis by auto
    qed
  qed
qed simp

lemma replace_all_facts:
  "replace_all ok staged ts fs = (fs', promoted, b) \<Longrightarrow>
     fs' = (\<lambda>t. if t \<in> set promoted then Some (staged t) else fs t) \<and> set promoted \<subseteq> set ts \<and> (b \<longrightarrow> promoted = ts)"
proof (induction ts arbitrary: fs fs' promoted b)
  case (Cons t ts)
  show ?case
  proof (cases "ok (Replace t)")
    case True
    obtain fs1 p1 b1 where r: "replace_all ok staged ts (fs(t \<mapsto> staged t)) = (fs1, p1, b1)"
      by (metis prod_cases3)
    from Cons.prems True r have eq: "fs' = fs1" "promoted = t # p1" "b = b1" by auto
    from Cons.IH [OF r] have "fs1 = (\<lambda>x. if x \<in> set p1 then Some (staged x) else (fs(t \<mapsto> staged t)) x)"
      "set p1 \<subseteq> set ts" "b1 \<longrightarrow> p1 = ts" by blast+
    then show ?thesis unfolding eq by (intro conjI ext) auto
  next
    case False
    with Cons.prems show ?thesis by auto
  qed
qed auto

lemma restore_all_ok:
  assumes "\<forall>t. ok (Restore t)" "\<forall>(t, content) \<in> set saved. orig t = Some content"
  shows "restore_all ok saved fs = (\<lambda>t. if t \<in> fst ` set saved then orig t else fs t, True)"
  using assms(2)
proof (induction saved arbitrary: fs)
  case (Cons x saved)
  then show ?case using assms(1) by (cases x) (auto simp: fun_eq_iff)
qed simp

lemma remove_all_ok:
  assumes "\<forall>t. ok (Remove t)"
  shows "remove_all ok ts fs = (\<lambda>t. if t \<in> set ts then None else fs t, True)"
  using assms by (induction ts arbitrary: fs) (auto simp: fun_eq_iff)

text \<open>The rollback undoes what was promoted, whatever that was.\<close>

lemma roll_back_restores:
  assumes "\<forall>t. ok (Restore t) \<and> ok (Remove t)" "ok Remove_out_dir"
    and "\<forall>(t, content) \<in> set saved. od_files d t = Some content"
    and "\<forall>t \<in> set promoted. od_files d t = None \<or> t \<in> fst ` set saved"
    and "fs = (\<lambda>t. if t \<in> set promoted then Some (staged t) else od_files d t)"
    and "\<not> od_exists d \<longrightarrow> is_empty_dir d"
  shows "roll_back ok (\<not> od_exists d) saved promoted (d\<lparr>od_exists := True, od_files := fs\<rparr>) = d"
proof -
  let ?new = "filter (\<lambda>t. t \<notin> fst ` set saved) promoted"
  let ?fs1 = "\<lambda>t. if t \<in> fst ` set saved then od_files d t else fs t"
  have "(\<lambda>t. if t \<in> set ?new then None else ?fs1 t) = od_files d"
    using assms(4) by (auto simp: assms(5) fun_eq_iff)
  then have removed: "remove_all ok ?new ?fs1 = (od_files d, True)"
    using assms(1) remove_all_ok [of ok ?new ?fs1] by simp
  have "restore_all ok saved fs = (?fs1, True)" using assms(1,3) by (intro restore_all_ok) auto
  with removed show ?thesis
    using assms(2,6) by (cases d) (auto simp: roll_back_def Let_def is_empty_dir_def)
qed

lemma promote_facts:
  assumes "promote ok staged d = (d', b)" "\<forall>t. ok (Restore t) \<and> ok (Remove t)" "ok Remove_out_dir"
    and "\<not> od_exists d \<longrightarrow> is_empty_dir d"
  shows "if b then od_exists d' \<and> od_others d' = od_others d \<and> od_files d' = (\<lambda>t. Some (staged t)) else d' = d"
proof -
  have undone: "roll_back ok (\<not> od_exists d) saved [] (d\<lparr>od_exists := True\<rparr>) = d"
    if "\<forall>(t, content) \<in> set saved. od_files d t = Some content" for saved
    using roll_back_restores [OF assms(2,3) that, of "[]" "od_files d" staged] assms(4) by simp
  obtain saved bb where b: "back_up ok (od_files d) targets = (saved, bb)" by (metis surj_pair)
  note bf = back_up_facts [OF b]
  obtain fs promoted rb where r: "replace_all ok staged targets (od_files d) = (fs, promoted, rb)"
    by (metis prod_cases3)
  note rf = replace_all_facts [OF r]
  show ?thesis
  proof (cases "ok Make_out_dir \<and> ok Make_backup_dir \<and> bb")
    case False
    with assms(1) b undone [of "[]"] undone bf show ?thesis by (auto simp: promote_def Let_def split: if_splits)
  next
    case True
    have all: "t \<in> set targets" for t by (cases t) (simp_all add: targets_def)
    have pf: "\<forall>t \<in> set promoted. od_files d t = None \<or> t \<in> fst ` set saved" using True bf all by auto
    have "roll_back ok (\<not> od_exists d) saved promoted (d\<lparr>od_exists := True, od_files := fs\<rparr>) = d"
      by (rule roll_back_restores [OF assms(2,3) _ pf _ assms(4)]) (use bf rf in auto)
    moreover have "rb \<Longrightarrow> fs = (\<lambda>t. Some (staged t))" using rf all by (auto simp: fun_eq_iff)
    ultimately show ?thesis using assms(1) True b r by (auto simp: promote_def Let_def split: if_splits)
  qed
qed

section \<open>The size of a report\<close>

definition issue_bytes :: "migration_issue \<Rightarrow> nat" where
  "issue_bytes i = byte_length (ascii_dumps (issue_json i))"

lemma issue_bytes_ge: "66 \<le> issue_bytes i"
proof -
  have k: "6 \<le> byte_length (ascii_quote ''code'')" "8 \<le> byte_length (ascii_quote ''domain'')"
    "10 \<le> byte_length (ascii_quote ''location'')" "9 \<le> byte_length (ascii_quote ''message'')"
    "13 \<le> byte_length (ascii_quote ''requirement'')"
    using byte_length_ascii_quote_ge [of "''code''"] byte_length_ascii_quote_ge [of "''domain''"]
      byte_length_ascii_quote_ge [of "''location''"] byte_length_ascii_quote_ge [of "''message''"]
      byte_length_ascii_quote_ge [of "''requirement''"] by simp_all
  have q: "2 \<le> byte_length (ascii_quote s)" for s using byte_length_ascii_quote_ge [of s] by linarith
  show ?thesis
    unfolding issue_bytes_def issue_json_def byte_length_ascii_obj
    using k q [of "code_value (mi_code i)"] q [of "domain_value (mi_domain i)"] q [of "mi_location i"]
      q [of "mi_message i"] q [of "mi_requirement i"]
    by simp
qed

lemma sum_issue_bytes: "(\<Sum>i \<leftarrow> is. byte_length (ascii_dumps (issue_json i))) = (\<Sum>i \<leftarrow> is. issue_bytes i)"
  by (simp add: issue_bytes_def)

lemma emit_errors_size:
  assumes "n \<le> migration_report_max_bytes"
  shows "n + (\<Sum>i \<leftarrow> emit_errors some n is. issue_bytes i) +
      (if some then length (emit_errors some n is) else length (emit_errors some n is) - 1) \<le> migration_report_max_bytes"
  using assms
proof (induction "some" n "is" rule: emit_errors.induct)
  case (2 some n i "is")
  show ?case
  proof (cases "migration_report_max_bytes < n + (if some then 1 else 0) + byte_length (ascii_dumps (issue_json i))")
    case True
    then have e: "emit_errors some n (i # is) = []" by (simp add: Let_def)
    then show ?thesis using 2(2) unfolding e by simp
  next
    case False
    then have e: "emit_errors some n (i # is) =
        i # emit_errors True (n + (if some then 1 else 0) + byte_length (ascii_dumps (issue_json i))) is"
      by (simp add: Let_def)
    show ?thesis
      using 2(1) [OF refl False] False unfolding e by (cases "some") (simp_all add: issue_bytes_def)
  qed
qed simp

lemma emit_errors_prefix: "prefix (emit_errors some n is) is"
  by (induction "some" n "is" rule: emit_errors.induct) (auto simp: Let_def)

lemma emit_errors_few:
  assumes "n \<le> migration_report_max_bytes"
  shows "length (emit_errors some n is) < migration_summary_max_issues"
proof -
  have "66 * length es \<le> (\<Sum>i \<leftarrow> es. issue_bytes i)" for es
  proof (induction es)
    case (Cons i es)
    with issue_bytes_ge [of i] show ?case by simp
  qed simp
  from this [of "emit_errors some n is"] emit_errors_size [OF assms, of "some" "is"] show ?thesis
    by (simp add: migration_report_max_bytes_def migration_summary_max_issues_def)
qed

lemma serialize_report_size:
  "byte_length (serialize_report r) =
     (\<Sum>i \<leftarrow> mr_errors r. issue_bytes i) + (length (mr_errors r) - 1) +
     byte_length (ascii_dumps (case mr_generated r of None \<Rightarrow> JNull | Some d \<Rightarrow> generated_json d)) +
     byte_length (ascii_dumps (JObj (metrics_summary_json r))) +
     byte_length (ascii_dumps (JBool (mr_ok r))) +
     (11 + byte_length (ascii_quote ''errors'') + byte_length (ascii_quote ''generated'') +
      byte_length (ascii_quote ''metrics_summary'') + byte_length (ascii_quote ''ok''))"
  unfolding serialize_report_def report_json_def
  by (subst byte_length_ascii_obj) (simp del: ascii_dumps.simps add: byte_length_ascii_list comp_def sum_issue_bytes)

lemma metrics_summary_size:
  "byte_length (ascii_dumps (JObj (metrics_summary_json r))) =
     byte_length (ascii_quote (mr_completed_at r)) + byte_length (ascii_quote (mr_failure_code r)) +
     byte_length (int_str (int (mr_issue_count r))) + byte_length (if mr_issues_truncated r then ''true'' else ''false'') +
     byte_length (ascii_quote (if mr_ok r then ''success'' else ''failure'')) +
     (13 + byte_length (int_str 1) + byte_length (ascii_quote ''completed_at'') + byte_length (ascii_quote ''failure_code'') +
      byte_length (ascii_quote ''issue_count'') + byte_length (ascii_quote ''issues_truncated'') +
      byte_length (ascii_quote ''outcome'') + byte_length (ascii_quote ''version''))"
  unfolding metrics_summary_json_def byte_length_ascii_obj by simp

lemma serialize_report_errors:
  assumes "mr_errors r = []" "mr_issues_truncated r \<longrightarrow> b"
  shows "byte_length (serialize_report (r\<lparr>mr_errors := es, mr_issues_truncated := b\<rparr>)) \<le>
    byte_length (serialize_report r) + (\<Sum>i \<leftarrow> es. issue_bytes i) + (length es - 1)"
proof -
  have "byte_length ''true'' \<le> byte_length ''false''" by (simp add: char_code_def)
  with assms show ?thesis by (auto simp: serialize_report_size metrics_summary_size simp del: ascii_dumps.simps)
qed

lemma byte_length_le: "byte_length s \<le> 2 * length s"
proof (induction s)
  case (Cons c s)
  have "length (utf8_char c) \<le> 2" by (simp add: utf8_char_def Let_def)
  with Cons show ?case by (simp add: byte_length_Cons)
qed simp

lemma int_str_size: "n \<le> 1000 \<Longrightarrow> byte_length (int_str (int n)) \<le> 8"
proof -
  assume "n \<le> 1000"
  then have "length (int_str (int n)) \<le> 4"
    by (simp add: int_str_def int_digits.simps)
  then show ?thesis using byte_length_le [of "int_str (int n)"] by linarith
qed

lemma serialize_report_base:
  assumes "mr_errors r = []" "length (mr_failure_code r) \<le> 30" "length (mr_completed_at r) \<le> 100"
    and "mr_issue_count r \<le> 1000" "\<forall>d. mr_generated r = Some d \<longrightarrow> length d \<le> 3000"
  shows "byte_length (serialize_report r) + 1 \<le> migration_report_max_bytes"
proof -
  note q = byte_length_ascii_quote_le
  have generated: "byte_length (ascii_dumps (case mr_generated r of None \<Rightarrow> JNull | Some d \<Rightarrow> generated_json d)) \<le> 55000"
  proof (cases "mr_generated r")
    case None
    then show ?thesis using byte_length_le [of "''null''"] by simp
  next
    case (Some d)
    then show ?thesis
      using q [of "d @ ''/plugins.yaml''"] q [of "d @ ''/rules.yaml''"] q [of "d @ ''/topology.yaml''"]
        q [of "''plugins''"] q [of "''rules''"] q [of "''topology''"] assms(5)
      by (auto simp: generated_json_def byte_length_ascii_obj simp del: ascii_dumps.simps(7))
  qed
  have "byte_length (ascii_dumps (JObj (metrics_summary_json r))) \<le> 2000"
    unfolding metrics_summary_size
    using q [of "mr_completed_at r"] q [of "mr_failure_code r"] q [of "''completed_at''"] q [of "''failure_code''"]
      q [of "''issue_count''"] q [of "''issues_truncated''"] q [of "''outcome''"] q [of "''version''"]
      q [of "''success''"] q [of "''failure''"] int_str_size [OF assms(4)] int_str_size [of 1]
      byte_length_le [of "''true''"] byte_length_le [of "''false''"] assms(2,3)
    by (auto split: if_splits)
  moreover have "byte_length (ascii_dumps (JBool (mr_ok r))) \<le> 10"
    using byte_length_le [of "''true''"] byte_length_le [of "''false''"] by simp
  ultimately show ?thesis
    unfolding serialize_report_size assms(1) migration_report_max_bytes_def
    using generated q [of "''errors''"] q [of "''generated''"] q [of "''metrics_summary''"] q [of "''ok''"]
    by (simp del: ascii_dumps.simps)
qed

section \<open>The report as the service reads it\<close>

lemma code_in_vocabulary: "code_value c \<in> set migration_report_issue_codes"
  by (cases c) (simp_all add: migration_report_issue_codes_def)

lemma domain_in_vocabulary: "domain_value d \<in> set migration_report_domains"
  by (cases d) (simp_all add: migration_report_domains_def)

lemma issues_valid_written: "issues_valid (map issue_json is) = Inr True"
proof (induction "is")
  case (Cons i "is")
  have "issue_valid (issue_json i) = Inr True"
    using code_in_vocabulary [of "mi_code i"] domain_in_vocabulary [of "mi_domain i"]
    by (auto simp: issue_valid_def issue_json_def has_keys_def get_key_def in_strings_def is_str_def)
  with Cons show ?case by simp
qed simp

definition report_arguments_ok :: "bool \<Rightarrow> migration_issue list \<Rightarrow> string option \<Rightarrow> string \<Rightarrow> bool" where
  "report_arguments_ok ok issues out code \<longleftrightarrow>
     (if ok then issues = [] \<and> code = ''none'' \<and> out \<noteq> None else code \<in> set migration_failure_codes \<and> code \<noteq> ''none'')"

lemma build_report_fields:
  "mr_ok (build_report completed ok issues out code) = ok"
  "mr_generated (build_report completed ok issues out code) = (if ok then out else None)"
  "mr_failure_code (build_report completed ok issues out code) = code"
  "mr_issue_count (build_report completed ok issues out code) = min (length issues) migration_summary_max_issues"
  "mr_completed_at (build_report completed ok issues out code) = completed"
  "mr_issues_truncated (build_report completed ok issues out code) \<longleftrightarrow>
     length (mr_errors (build_report completed ok issues out code)) < length issues"
  by (simp_all add: build_report_def Let_def)

lemma build_report_size:
  assumes "report_arguments_ok ok issues out code" "length completed \<le> 100" "\<forall>d. out = Some d \<longrightarrow> length d \<le> 3000"
  shows "length (report_bytes (build_report completed ok issues out code)) \<le> migration_report_max_bytes"
    "length (mr_errors (build_report completed ok issues out code)) < migration_summary_max_issues"
    "prefix (mr_errors (build_report completed ok issues out code)) issues"
proof -
  let ?n = "min (length issues) migration_summary_max_issues"
  let ?r = "\<lparr>mr_ok = ok, mr_errors = [], mr_generated = (if ok then out else None), mr_failure_code = code,
     mr_issue_count = ?n, mr_issues_truncated = (?n < length issues), mr_completed_at = completed\<rparr>"
  let ?size = "byte_length (serialize_report ?r) + 1"
  let ?es = "emit_errors False ?size issues"
  have b: "build_report completed ok issues out code = ?r\<lparr>mr_errors := ?es, mr_issues_truncated := (length ?es < length issues)\<rparr>"
    by (simp add: build_report_def Let_def)
  have code: "length code \<le> 30"
    using assms(1) by (auto simp: report_arguments_ok_def migration_failure_codes_def split: if_splits)
  have size: "?size \<le> migration_report_max_bytes"
    by (rule serialize_report_base) (use assms(2,3) code in \<open>auto simp: migration_summary_max_issues_def\<close>)
  have few: "length ?es < migration_summary_max_issues" by (rule emit_errors_few [OF size])
  then have "mr_issues_truncated ?r \<longrightarrow> length ?es < length issues" by auto
  with serialize_report_errors [of ?r "length ?es < length issues" ?es]
  have "byte_length (serialize_report (build_report completed ok issues out code)) \<le>
      byte_length (serialize_report ?r) + (\<Sum>i \<leftarrow> ?es. issue_bytes i) + (length ?es - 1)"
    unfolding b by simp
  moreover have "length (report_bytes r) = byte_length (serialize_report r) + 1" for r
  proof -
    have "length (report_bytes r) = byte_length (serialize_report r @ [CHR 0x0A])" by (simp add: report_bytes_def byte_length_def)
    also have "\<dots> = byte_length (serialize_report r) + 1" by (simp add: char_code_def)
    finally show ?thesis .
  qed
  ultimately show "length (report_bytes (build_report completed ok issues out code)) \<le> migration_report_max_bytes"
    using emit_errors_size [OF size, of False issues] by simp
  show "length (mr_errors (build_report completed ok issues out code)) < migration_summary_max_issues"
    "prefix (mr_errors (build_report completed ok issues out code)) issues"
    using few emit_errors_prefix [of False ?size issues] unfolding b by simp_all
qed

lemma build_report_accepted:
  assumes "report_arguments_ok ok issues out code" "length completed \<le> 100" "\<forall>d. out = Some d \<longrightarrow> length d \<le> 3000"
    and "fromiso (str_replace ''Z'' ''+00:00'' completed) = Some done_at" "is_aware done_at"
    and "migration_report_min_completed_at \<le> instant done_at" "instant done_at \<le> now"
  shows "validate_migration_report fromiso now (report_json (build_report completed ok issues out code)) =
    Inr (Report_valid, Some (if ok then ''success'' else ''failure'', code, instant done_at))"
proof -
  let ?r = "build_report completed ok issues out code"
  note f = build_report_fields [of completed ok issues out code]
  note size = build_report_size [OF assms(1-3)]
  have counts: "counts_valid (length (mr_errors ?r)) (int (mr_issue_count ?r)) (mr_issues_truncated ?r)"
    using size(2) prefix_length_le [OF size(3)] f
    by (auto simp: counts_valid_def migration_report_max_issue_count_def migration_summary_max_issues_def min_def)
  have summary: "summary_valid ok (length (mr_errors ?r)) (metrics_summary_json ?r) = Inr True"
    using counts assms(1)
    by (auto simp: summary_valid_def metrics_summary_json_def get_key_def in_strings_def is_str_def f
        migration_outcomes_def report_arguments_ok_def migration_failure_codes_def split: if_splits)
  have generated: "generated_valid (case mr_generated ?r of None \<Rightarrow> JNull | Some d \<Rightarrow> generated_json d)"
    by (auto simp: generated_valid_def generated_json_def has_keys_def is_str_def split: option.splits)
  have errors: "ok \<longrightarrow> mr_errors ?r = []"
    using assms(1) size(3) by (auto simp: report_arguments_ok_def)
  have completion: "completion fromiso now (metrics_summary_json ?r) =
      (Report_valid, Some (if ok then ''success'' else ''failure'', code, instant done_at))"
    using assms(4-7) by (simp add: completion_def metrics_summary_json_def get_key_def f)
  have keys: "has_keys [''version'', ''outcome'', ''failure_code'', ''issue_count'', ''issues_truncated'', ''completed_at'']
      (metrics_summary_json ?r)" "equals_one (get_key ''version'' (metrics_summary_json ?r))"
    by (auto simp: has_keys_def metrics_summary_json_def equals_one_def get_key_def migration_report_version_def)
  show ?thesis
    using generated errors assms(1) completion
    by (auto simp: validate_migration_report_def report_json_def has_keys_def [of "[''ok'', ''errors'', ''generated'', ''metrics_summary'']"]
        get_key_def [of "''ok''"] get_key_def [of "''errors''"] get_key_def [of "''generated''"] get_key_def [of "''metrics_summary''"]
        f issues_valid_written summary keys report_arguments_ok_def generated_json_def split: option.splits if_splits)
qed

section \<open>How a run ends\<close>

lemma finish_facts:
  assumes "finish su report_path ok issues out code exit_code s = (s', res)"
  shows "rn_out s' = rn_out s" "res = Inr exit_code \<or> report_path \<noteq> None \<and> \<not> su_write_ok su \<and> res = Inr 1"
    "rn_report s' = rn_report s \<or>
       report_path \<noteq> None \<and> res = Inr exit_code \<and>
       rn_report s' = Some (report_bytes (build_report (su_completed_at su) ok issues out code))"
  using assms by (auto simp: finish_def Let_def split: if_splits)

text \<open>
  A report of a run: its arguments, with the exit code and, for a success, the directory whose files
  it names.
\<close>

definition report_of_run ::
  "('c, 'p) surroundings \<Rightarrow> string list \<Rightarrow> bool \<Rightarrow> migration_issue list \<Rightarrow> string option \<Rightarrow> string \<Rightarrow> int \<Rightarrow> bool" where
  "report_of_run su argv ok issues out code exit_code \<longleftrightarrow>
     report_arguments_ok ok issues out code \<and> ok = (exit_code = 0) \<and>
     (case out of None \<Rightarrow> True | Some d \<Rightarrow> (case su_parse su argv of Parsed a \<Rightarrow> d = arg_out_dir a | _ \<Rightarrow> False))"

definition reports :: "('c, 'p) surroundings \<Rightarrow> string list \<Rightarrow> run_state \<Rightarrow> run_state \<Rightarrow> int \<Rightarrow> bool" where
  "reports su argv s s' n \<longleftrightarrow>
     rn_report s' = rn_report s \<or>
     (\<exists>ok issues out code. report_of_run su argv ok issues out code n \<and>
        rn_report s' = Some (report_bytes (build_report (su_completed_at su) ok issues out code)))"

definition ends ::
  "('c, 'p) surroundings \<Rightarrow> string list \<Rightarrow> run_state \<Rightarrow> bool \<Rightarrow> run_state \<times> int result \<Rightarrow> bool" where
  "ends su argv s promoted r \<longleftrightarrow>
     (case r of
        (s', Inl e) \<Rightarrow> s' = s \<and> \<not> promoted
      | (s', Inr n) \<Rightarrow>
          (promoted \<longrightarrow> n = 0 \<or> n = 1 \<and> \<not> su_write_ok su) \<and> (\<not> promoted \<longrightarrow> n = 1 \<or> n = 2) \<and>
          reports su argv s s' n)"

lemma ends_finish:
  assumes "report_of_run su argv ok issues out code n" "ok \<longleftrightarrow> promoted" "n \<in> {0, 1, 2}" "rn_report s0 = rn_report s"
  shows "ends su argv s promoted (finish su report_path ok issues out code n s0)"
proof -
  obtain s' res where f: "finish su report_path ok issues out code n s0 = (s', res)" by (metis surj_pair)
  note ff = finish_facts [OF f]
  from assms(1,2) have n: "n = 0 \<longleftrightarrow> promoted" by (simp add: report_of_run_def)
  from ff(2) obtain k where k: "res = Inr k" "k = n \<or> \<not> su_write_ok su \<and> k = 1" by auto
  moreover have "reports su argv s s' k"
    using ff(3) k(1) assms(1,4) unfolding reports_def by (metis sum.inject(2))
  ultimately show ?thesis using n assms(3) unfolding f ends_def by auto
qed

lemma report_of_failure:
  "code \<in> set migration_failure_codes \<Longrightarrow> code \<noteq> ''none'' \<Longrightarrow> n \<noteq> 0 \<Longrightarrow> report_of_run su argv False issues None code n"
  by (simp add: report_of_run_def report_arguments_ok_def)

text \<open>What has been promoted, in full or not at all, and from which sources.\<close>

definition promoted_from ::
  "('c, 'p) surroundings \<Rightarrow> arguments \<Rightarrow> (target \<Rightarrow> yaml) \<Rightarrow> out_dir \<Rightarrow> out_dir \<Rightarrow> bool" where
  "promoted_from su a staged d d' \<longleftrightarrow>
     validate_staged (su_env su) (su_lib su) staged = Inr () \<and> promote (su_step su) staged d = (d', True)"

definition kept :: "('c, 'p) surroundings \<Rightarrow> out_dir \<Rightarrow> out_dir \<Rightarrow> bool" where
  "kept su d d' \<longleftrightarrow> d' = d \<or> (\<exists>staged. promote (su_step su) staged d = (d', False))"

lemma stage_and_promote_ends:
  assumes "su_parse su argv = Parsed a" "stage_and_promote su a staged s = r"
  shows "\<exists>promoted. ends su argv s promoted r \<and>
    (if promoted then promoted_from su a staged (rn_out s) (rn_out (fst r)) else kept su (rn_out s) (rn_out (fst r)))"
proof (cases "su_staging_ok su")
  case False
  then have "r = (s, Inl OSError)" using assms(2) by (simp add: stage_and_promote_def)
  then show ?thesis by (intro exI [of _ False]) (simp add: ends_def kept_def)
next
  case True
  have fst: "rn_out (fst (finish su p ok issues out code n s0)) = rn_out s0" for p ok issues out code n s0
    by (simp add: finish_def Let_def)
  show ?thesis
  proof (cases "validate_staged (su_env su) (su_lib su) staged")
    case (Inl e)
    let ?r = "finish su (arg_report_path a) False
              (staged_validation_issues (if e = ValidationError then su_details su e else [])) None ''staged_validation'' 1 s"
    from assms(2) True Inl have "r = ?r" by (simp add: stage_and_promote_def)
    moreover have "ends su argv s False ?r"
      by (rule ends_finish) (simp_all add: report_of_failure migration_failure_codes_def)
    ultimately show ?thesis by (intro exI [of _ False]) (simp add: fst kept_def)
  next
    case (Inr u)
    show ?thesis
    proof (cases "promote (su_step su) staged (rn_out s)")
      case (Pair d done_all)
      show ?thesis
      proof (cases done_all)
        case True
        let ?r = "finish su (arg_report_path a) True [] (Some (arg_out_dir a)) ''none'' 0 (s\<lparr>rn_out := d\<rparr>)"
        from assms(2) \<open>su_staging_ok su\<close> Inr Pair True have "r = ?r" by (simp add: stage_and_promote_def)
        moreover have "ends su argv s True ?r"
          by (rule ends_finish) (simp_all add: report_of_run_def report_arguments_ok_def assms(1))
        ultimately show ?thesis using Pair True Inr
          by (intro exI [of _ True]) (simp add: fst promoted_from_def)
      next
        case False
        let ?r = "finish su (arg_report_path a) False
                 [cfg07 In_promotion ''output'' Promotion_failure_issue ''generated config could not be promoted'']
                 None ''promotion_failure'' 1 (s\<lparr>rn_out := d\<rparr>)"
        from assms(2) \<open>su_staging_ok su\<close> Inr Pair False have "r = ?r" by (simp add: stage_and_promote_def)
        moreover have "ends su argv s False ?r"
          by (rule ends_finish) (simp_all add: report_of_failure migration_failure_codes_def)
        ultimately show ?thesis using Pair False by (intro exI [of _ False]) (auto simp: fst kept_def)
      qed
    qed
  qed
qed

text \<open>The whole run: how it ended and, if it promoted, from which sources.\<close>

definition staged_from :: "('c, 'p) surroundings \<Rightarrow> arguments \<Rightarrow> (target \<Rightarrow> yaml) \<Rightarrow> bool" where
  "staged_from su a staged \<longleftrightarrow>
     (case rmapM (load_source su) [(In_rules, arg_rules a), (In_topology, arg_topology a), (In_plugins, arg_plugins a)] of
        Inr [Inl raw_rules, Inl raw_topology, Inl raw_plugins] \<Rightarrow>
          (case preflight (su_python su) raw_rules raw_topology raw_plugins of
             Inr (rules, topology, issues) \<Rightarrow> issues = [] \<and> transform (su_python su) rules topology raw_plugins = Inr staged
           | Inl e \<Rightarrow> False)
      | _ \<Rightarrow> False)"

definition settled :: "('c, 'p) surroundings \<Rightarrow> string list \<Rightarrow> run_state \<Rightarrow> run_state \<times> int result \<Rightarrow> bool" where
  "settled su argv s r \<longleftrightarrow>
     (\<exists>promoted. ends su argv s promoted r \<and>
        (if promoted
         then \<exists>a staged. su_parse su argv = Parsed a \<and> staged_from su a staged \<and>
                promoted_from su a staged (rn_out s) (rn_out (fst r))
         else kept su (rn_out s) (rn_out (fst r))))"

lemma settled_failure:
  assumes "code \<in> set migration_failure_codes" "code \<noteq> ''none''" "n \<in> {1, 2}"
  shows "settled su argv s (finish su report_path False issues None code n s)"
proof -
  have "ends su argv s False (finish su report_path False issues None code n s)"
    by (rule ends_finish) (use assms in \<open>auto simp: report_of_failure\<close>)
  moreover have "rn_out (fst (finish su report_path False issues None code n s)) = rn_out s"
    by (simp add: finish_def Let_def)
  ultimately show ?thesis unfolding settled_def by (intro exI [of _ False]) (simp add: kept_def)
qed

lemma settled_raise: "settled su argv s (s, Inl e)"
  unfolding settled_def by (intro exI [of _ False]) (simp add: ends_def kept_def)

lemma settled_convert:
  assumes "su_parse su argv = Parsed a"
    and "rmapM (load_source su) [(In_rules, arg_rules a), (In_topology, arg_topology a), (In_plugins, arg_plugins a)] =
      Inr [Inl raw_rules, Inl raw_topology, Inl raw_plugins]"
  shows "settled su argv s (convert su a raw_rules raw_topology raw_plugins s)"
proof (cases "preflight (su_python su) raw_rules raw_topology raw_plugins")
  case (Inl e)
  then show ?thesis by (simp add: convert_def settled_raise)
next
  case (Inr checked)
  then obtain rules topology issues where
    p: "preflight (su_python su) raw_rules raw_topology raw_plugins = Inr (rules, topology, issues)"
    by (metis prod_cases3)
  show ?thesis
  proof (cases "issues = []")
    case False
    with p show ?thesis by (simp add: convert_def settled_failure migration_failure_codes_def)
  next
    case True
    show ?thesis
    proof (cases "transform (su_python su) rules topology raw_plugins")
      case (Inl e)
      with p True show ?thesis by (simp add: convert_def settled_raise)
    next
      case (Inr staged)
      with p True assms(2) have from_sources: "staged_from su a staged" by (simp add: staged_from_def)
      have "convert su a raw_rules raw_topology raw_plugins s = stage_and_promote su a staged s"
        using p True Inr by (simp add: convert_def)
      with stage_and_promote_ends [OF assms(1) refl, where staged = staged and s = s] from_sources assms(1) show ?thesis
        unfolding settled_def by (metis (no_types, lifting))
    qed
  qed
qed

lemma settled_main: "settled su argv s (main su argv s)"
proof (cases "su_parse su argv")
  case Parse_error
  then show ?thesis by (simp add: main_def settled_failure migration_failure_codes_def)
next
  case (Duplicate flag)
  then show ?thesis by (simp add: main_def settled_failure migration_failure_codes_def)
next
  case Help
  then show ?thesis by (simp add: main_def settled_raise)
next
  case (Parsed a)
  let ?sources = "[(In_rules, arg_rules a), (In_topology, arg_topology a), (In_plugins, arg_plugins a)]"
  have input: "settled su argv s (finish su p False issues None ''input_validation'' 1 s)"
    and source: "settled su argv s (finish su p False issues None ''source_validation'' 1 s)" for p issues
    by (simp_all add: settled_failure migration_failure_codes_def)
  have "settled su argv s
      (case rmapM (load_source su) ?sources of
         Inr [Inl raw_rules, Inl raw_topology, Inl raw_plugins] \<Rightarrow> convert su a raw_rules raw_topology raw_plugins s
       | Inr docs \<Rightarrow> finish su (arg_report_path a) False (List.map_filter (case_sum (\<lambda>_. None) Some) docs) None
                 ''source_validation'' 1 s
       | Inl e \<Rightarrow> (s, Inl e))"
    using settled_convert [OF Parsed] by (auto simp: settled_raise source split: sum.split list.split)
  then show ?thesis using Parsed input by (simp add: main_def migrate_def Let_def)
qed

section \<open>When a run returns\<close>

lemma stage_and_promote_returns:
  "su_staging_ok su \<Longrightarrow> \<exists>n. snd (stage_and_promote su a staged s) = Inr n"
  by (auto simp: stage_and_promote_def finish_def Let_def split: sum.split prod.split bool.split)

lemma convert_returns:
  assumes "su_staging_ok su" "\<And>regex e. py_compile (su_python su) regex \<noteq> Compile_raises e"
  shows "\<exists>n. snd (convert su a raw_rules raw_topology raw_plugins s) = Inr n"
proof -
  obtain rules topology issues where
    p: "preflight (su_python su) raw_rules raw_topology raw_plugins = Inr (rules, topology, issues)"
    using preflight_total [OF assms(2)] by (metis prod_cases3)
  show ?thesis
  proof (cases "issues = []")
    case False
    with p show ?thesis by (simp add: convert_def finish_def Let_def)
  next
    case True
    with p transform_total obtain staged where "transform (su_python su) rules topology raw_plugins = Inr staged" by blast
    with p True stage_and_promote_returns [OF assms(1)] show ?thesis by (simp add: convert_def)
  qed
qed

lemma main_returns:
  assumes "su_staging_ok su" "\<And>path e. su_load su path \<noteq> Load_raises e"
    and "\<And>regex e. py_compile (su_python su) regex \<noteq> Compile_raises e" "su_parse su argv \<noteq> Help"
  shows "\<exists>n. snd (main su argv s) = Inr n"
proof -
  have f: "\<exists>n. snd (finish su p ok issues out code k s0) = Inr n" for p ok issues out code k s0
    by (simp add: finish_def Let_def)
  have "\<exists>y. load_source su x = Inr y" for x
    using assms(2) by (cases x) (auto simp: load_source_def split: loaded.split)
  then obtain docs where d: "rmapM (load_source su) xs = Inr (docs xs)" for xs
    using rmapM_total [where f = "load_source su"] by metis
  have m: "\<exists>n. snd (migrate su a s) = Inr n" for a
    using f convert_returns [OF assms(1,3)] unfolding migrate_def d
    by (auto simp: Let_def split: list.split sum.split)
  show ?thesis using f m assms(4) by (auto simp: main_def split: parsed.split)
qed

end
