(* ===== verification/MigrationProps.thy ===== *)
theory MigrationProps
  imports MigratePromotion
begin

text \<open>
  The properties of the migration CLI: a run promotes a validated configuration in full or leaves the
  output directory as it was, it returns, the service accepts its report, the order of the rules is
  kept, and Correlia starts on the files of a successful run.
\<close>

section \<open>The output directory\<close>

lemma main_ends:
  assumes "main su argv s = (s', Inr n)"
  shows "n \<in> {0, 1, 2}" "reports su argv s s' n"
  using settled_main [of su argv s] unfolding assms settled_def ends_def by auto

lemma run_promotes_or_keeps:
  assumes "main su argv s = (s', res)"
    and "\<forall>t. su_step su (Restore t) \<and> su_step su (Remove t)" "su_step su Remove_out_dir"
    and "\<not> od_exists (rn_out s) \<longrightarrow> is_empty_dir (rn_out s)"
  shows "rn_out s' = rn_out s \<and> res \<noteq> Inr 0 \<or>
    (\<exists>a staged. su_parse su argv = Parsed a \<and> staged_from su a staged \<and>
       validate_staged (su_env su) (su_lib su) staged = Inr () \<and>
       od_exists (rn_out s') \<and> od_others (rn_out s') = od_others (rn_out s) \<and>
       od_files (rn_out s') = (\<lambda>t. Some (staged t)) \<and> (res = Inr 0 \<or> res = Inr 1 \<and> \<not> su_write_ok su))"
proof -
  from settled_main [of su argv s] obtain promoted where e: "ends su argv s promoted (s', res)"
    and p: "if promoted
         then \<exists>a staged. su_parse su argv = Parsed a \<and> staged_from su a staged \<and>
                promoted_from su a staged (rn_out s) (rn_out s')
         else kept su (rn_out s) (rn_out s')"
    unfolding assms(1) settled_def fst_conv by blast
  show ?thesis
  proof (cases promoted)
    case False
    with p promote_facts [OF _ assms(2-4)] have "rn_out s' = rn_out s" by (fastforce simp: kept_def)
    moreover have "res \<noteq> Inr 0" using e False by (auto simp: ends_def)
    ultimately show ?thesis by blast
  next
    case True
    with p obtain a staged where *: "su_parse su argv = Parsed a" "staged_from su a staged"
      "validate_staged (su_env su) (su_lib su) staged = Inr ()"
      "promote (su_step su) staged (rn_out s) = (rn_out s', True)"
      by (auto simp: promoted_from_def)
    from promote_facts [OF *(4) assms(2-4)] have "od_exists (rn_out s')" "od_others (rn_out s') = od_others (rn_out s)"
      "od_files (rn_out s') = (\<lambda>t. Some (staged t))" by simp_all
    moreover have "res = Inr 0 \<or> res = Inr 1 \<and> \<not> su_write_ok su"
      using e True by (auto simp: ends_def split: sum.splits)
    ultimately show ?thesis using *(1-3) by blast
  qed
qed

text \<open>
  C12: a run of the migration fails closed.  When the rollback can restore and remove what it promoted,
  the run either leaves the output directory exactly as it was and does not return 0, or it has
  replaced all three files at once by documents that were generated from sources with a clean
  preflight and that Correlia's own loaders accept; then it returns 0, or 1 when only the report
  could not be written.
\<close>

theorem migration_fails_closed:
  assumes "main su argv s = (s', res)"
    and "\<forall>t. su_step su (Restore t) \<and> su_step su (Remove t)" "su_step su Remove_out_dir"
    and "\<not> od_exists (rn_out s) \<longrightarrow> is_empty_dir (rn_out s)"
  shows "rn_out s' = rn_out s \<and> res \<noteq> Inr 0 \<or>
    (\<exists>a staged. su_parse su argv = Parsed a \<and> staged_from su a staged \<and>
       validate_staged (su_env su) (su_lib su) staged = Inr () \<and>
       od_exists (rn_out s') \<and> od_others (rn_out s') = od_others (rn_out s) \<and>
       od_files (rn_out s') = (\<lambda>t. Some (staged t)) \<and> (res = Inr 0 \<or> res = Inr 1 \<and> \<not> su_write_ok su))"
  by (rule run_promotes_or_keeps [OF assms])

text \<open>
  The documents whose values \<open>str()\<close> can print: CPython refuses an integer of more than 4300 digits, which
  a document can hold in hexadecimal form.
\<close>

definition printable_bound :: int where
  "printable_bound = 10 ^ 4300"


lemma small_printable: "i < 1000000 \<Longrightarrow> i < printable_bound"
proof -
  have "(10 :: int) ^ 6 \<le> 10 ^ n" if "6 \<le> n" for n
    using that by (rule power_increasing) simp
  from this [of 4300] show "i < 1000000 \<Longrightarrow> i < printable_bound"
    unfolding printable_bound_def by (rule order.strict_trans2 [rotated]) simp_all
qed


section \<open>The report\<close>

text \<open>
  C14: every report that a run publishes is accepted by the service.  It has at most 65536 bytes, and
  once \<open>json.loads\<close> reads back what \<open>json.dumps\<close> wrote, the next scrape shows the status valid, the
  outcome success exactly when the run returned 0, the failure code of the report and its time of
  completion, whatever the projection showed before.
\<close>

theorem published_report_accepted:
  assumes "main su argv s = (s', res)" "rn_report s' = Some data" "rn_report s \<noteq> Some data"
    and "length (su_completed_at su) \<le> 100" "\<forall>a. su_parse su argv = Parsed a \<longrightarrow> length (arg_out_dir a) \<le> 3000"
    and "fromiso (str_replace ''Z'' ''+00:00'' (su_completed_at su)) = Some done_at" "is_aware done_at"
    and "migration_report_min_completed_at \<le> instant done_at" "instant done_at \<le> now"
  shows "length data \<le> migration_report_max_bytes \<and>
    (\<exists>r. data = report_bytes r \<and>
      (\<forall>loads p path. loads data = Inr (Some (report_json r)) \<and> pj_path p = Some path \<longrightarrow>
        (\<exists>g. snd (render_metrics loads fromiso now (\<lambda>_. Regular_file (length data) (Some data)) p) = Inr g \<and>
          mg_status g = (\<lambda>st. if st = Report_valid then 1 else 0) \<and>
          mg_outcome g = (\<lambda>x. if x = (if res = Inr 0 then ''success'' else ''failure'') then 1 else 0) \<and>
          mg_failure_code g = (\<lambda>x. if x = mr_failure_code r then 1 else 0) \<and>
          mg_completed_at g = instant done_at)))"
proof -
  have "\<exists>n. res = Inr n"
  proof (cases res)
    case (Inl e)
    with settled_main [of su argv s] assms(1-3) show ?thesis by (auto simp: settled_def ends_def)
  qed blast
  then obtain n where n: "res = Inr n" by blast
  from main_ends(2) [OF assms(1) [unfolded n]] assms(2,3) obtain ok issues out code where
    rr: "report_of_run su argv ok issues out code n"
    and d: "data = report_bytes (build_report (su_completed_at su) ok issues out code)"
    unfolding reports_def by auto
  from rr have args: "report_arguments_ok ok issues out code" and ok: "ok = (n = 0)"
    unfolding report_of_run_def by blast+
  have out: "\<forall>d. out = Some d \<longrightarrow> length d \<le> 3000"
    using rr assms(5) by (cases "su_parse su argv") (auto simp: report_of_run_def)
  let ?r = "build_report (su_completed_at su) ok issues out code"
  have size: "length data \<le> migration_report_max_bytes"
    using build_report_size(1) [OF args assms(4) out] by (simp add: d)
  note valid = build_report_accepted [where fromiso = fromiso and done_at = done_at, OF args assms(4) out assms(6-9)]
  have "\<exists>g. snd (render_metrics loads fromiso now (\<lambda>_. Regular_file (length data) (Some data)) p) = Inr g \<and>
          mg_status g = (\<lambda>st. if st = Report_valid then 1 else 0) \<and>
          mg_outcome g = (\<lambda>x. if x = (if res = Inr 0 then ''success'' else ''failure'') then 1 else 0) \<and>
          mg_failure_code g = (\<lambda>x. if x = mr_failure_code ?r then 1 else 0) \<and>
          mg_completed_at g = instant done_at"
    if "loads data = Inr (Some (report_json ?r))" "pj_path p = Some path" for loads p path
  proof -
    have "read_migration_report_snapshot loads fromiso now (Regular_file (length data) (Some data)) =
        Inr (Report_valid, Some (if ok then ''success'' else ''failure'', code, instant done_at))"
      using size that(1) valid by (simp add: read_migration_report_snapshot_def)
    with that(2) show ?thesis
      by (auto simp: render_metrics_def refresh_migration_report_projection_def apply_migration_report_gauges_def
          Let_def build_report_fields ok n)
  qed
  with size d show ?thesis by blast
qed

section \<open>The order of the rules\<close>

text \<open>
  C16: the generated rules are the source rules, each once, renumbered from 1: Correlia evaluates
  ascending priorities, the source descending ones, and the rule that came first there comes first
  here.  The i-th generated rule is the transformation of the source rule with the i-th greatest
  priority.
\<close>

theorem rule_order_kept:
  assumes "preflight_rules py (YList raw) = []" "transform_rules py raw = Inr doc"
  shows "\<exists>ms rules. doc = ydict [(''rules'', YList rules)] \<and> mset (map YMap ms) = mset raw \<and> length rules = length raw \<and>
    sorted_wrt (\<lambda>m m'. old_priority m' < old_priority m) ms \<and>
    (\<forall>i < length raw. transform_rule py (Suc i, ms ! i) = Inr (rules ! i) \<and>
       yget ''priority'' (ymap_or_empty (rules ! i)) = Some (YInt (int (Suc i))))"
proof -
  have "yget ''priority'' (ymap_or_empty rule) = Some (YInt (int k))" if "transform_rule py (k, m) = Inr rule" for k m rule
    using that by (auto simp: transform_rule_def result_simps ydict_def ymap_or_empty_def yget_def)
  with transformed_rules_order [OF assms] show ?thesis by blast
qed

section \<open>The service on the migrated files\<close>

text \<open>
  C13: Correlia starts on what a successful run left: with settings that name the three files, whose
  reading gives the promoted documents, and with valid intervals of the workers, startup succeeds:
  the registry holds the plugins of the promoted file, the rules are the ones the loader reads from the
  promoted rules, checked against the names of those plugins, the topology is the one it reads from the
  promoted topology, and the processor of the alerts is built from these rules and this topology.
\<close>

theorem migrated_configuration_starts:
  assumes "main su argv s = (s', Inr 0)"
    and "\<forall>t. su_step su (Restore t) \<and> su_step su (Remove t)" "su_step su Remove_out_dir"
    and "\<not> od_exists (rn_out s) \<longrightarrow> is_empty_dir (rn_out s)"
    and "st_plugins_path st = Some plugins" "st_rules_path st = Some rules" "st_topology_path st = Some topology"
    and "cf_plugins fs plugins = plugins_document (the (od_files (rn_out s') Plugins_yaml))"
    and "\<forall>again. cf_rules fs again rules = rules_document (the (od_files (rn_out s') Rules_yaml))"
    and "\<forall>again. cf_topology fs again topology = topology_document (the (od_files (rn_out s') Topology_yaml))"
    and "new_lifecycle_worker (st_lifecycle_scan_interval_seconds st) (st_lifecycle_batch_size st) = Inr w"
    and "new_sweep_worker (st_rate_limit_sweep_interval_seconds st) = Inr sw"
  shows "\<exists>app g. lifespan_start (su_env su) send (su_lib su) fs st new_app_state = Inr app \<and>
    as_registry app = Some g \<and>
    Inr g = load_plugin_registry (su_env su) (lb_plugins_hash (su_lib su)) (cf_plugins fs plugins) \<and>
    (\<exists>rules h hosts subnets.
       as_rules app = Some (rules, h) \<and> as_topology app = Some (hosts, subnets) \<and>
       rbind (rules_document (the (od_files (rn_out s') Rules_yaml)))
         (load_rules_config (lb_re_compile (su_lib su)) (lb_rules_hash (su_lib su)) [''create_incident''] (names g)) =
           Inr (rules, h) \<and>
       rbind (topology_document (the (od_files (rn_out s') Topology_yaml)))
         (\<lambda>(hs, ss). load_topology_config (lb_re_compile (su_lib su)) (lb_ip_network (su_lib su)) hs ss) =
           Inr (hosts, subnets) \<and>
       as_processor app = Some (build_icinga2_processor (Some (subnets, hosts)) (Some rules) True (Some g)
         (st_audit_raw_payload_max_bytes st) (st_audit_raw_payload_hmac_key st))) \<and>
    as_worker app = Some (over_loop loop_start w)"
proof -
  obtain staged where v: "validate_staged (su_env su) (su_lib su) staged = Inr ()"
    and f: "od_files (rn_out s') = (\<lambda>t. Some (staged t))"
    using run_promotes_or_keeps [OF assms(1-4)] by blast
  from v obtain g where g: "load_plugin_registry (su_env su) (lb_plugins_hash (su_lib su)) (cf_plugins fs plugins) = Inr g"
    and r: "rbind (rules_document (staged Rules_yaml))
              (load_rules_config (lb_re_compile (su_lib su)) (lb_rules_hash (su_lib su)) [''create_incident''] (names g)) \<noteq> Inl e"
    and t: "rbind (topology_document (staged Topology_yaml))
              (\<lambda>(hs, ss). load_topology_config (lb_re_compile (su_lib su)) (lb_ip_network (su_lib su)) hs ss) \<noteq> Inl e" for e
    unfolding validate_staged_def assms(8) f option.sel
    by (auto simp: result_simps split: sum.splits option.splits)
  obtain rs h where rules: "rbind (rules_document (staged Rules_yaml))
      (load_rules_config (lb_re_compile (su_lib su)) (lb_rules_hash (su_lib su)) [''create_incident''] (names g)) = Inr (rs, h)"
    using r by (metis obj_sumE surj_pair)
  obtain hs ss where topology: "rbind (topology_document (staged Topology_yaml))
      (\<lambda>(hs, ss). load_topology_config (lb_re_compile (su_lib su)) (lb_ip_network (su_lib su)) hs ss) = Inr (hs, ss)"
    using t by (metis obj_sumE surj_pair)
  have c: "read_rules (su_lib su) fs again (names g) rules = Inr (rs, h)"
    "read_topology (su_lib su) fs again topology = Inr (hs, ss)" for again
    using rules topology by (simp_all add: read_rules_def read_topology_def assms(9,10) f)
  have "\<exists>app. lifespan_start (su_env su) send (su_lib su) fs st new_app_state = Inr app \<and>
      as_registry app = Some g \<and> as_rules app = Some (rs, h) \<and> as_topology app = Some (hs, ss) \<and>
      as_processor app = Some (build_icinga2_processor (Some (ss, hs)) (Some rs) True (Some g)
         (st_audit_raw_payload_max_bytes st) (st_audit_raw_payload_hmac_key st)) \<and>
      as_worker app = Some (over_loop loop_start w)"
    using g assms(11,12)
    by (simp add: c lifespan_start_def start_registry_def start_config_def start_runner_def start_processor_def
        start_workers_def new_app_state_def assms(5-7) sbind_def raised_def ensured_def register_def
        registered_task_names_def new_task_runner_def)
  then show ?thesis
    using g rules topology by (auto simp: f)
qed

end
