(* ===== verification/WitnessesMigration.thy ===== *)
theory WitnessesMigration
  imports WitnessesService MigrationProps
begin

text \<open>
  The properties of the migration, applied to a run over three small source documents that is
  promoted, and to a history of scrapes.
\<close>

definition demo_source_rule :: "int \<Rightarrow> yaml" where
  "demo_source_rule p = ydict
     [(''name'', YStr ''hosts''), (''priority'', YInt p),
      (''match'', ydict [(''severity'', YList [YStr ''CRITICAL'']), (''host'', YStr ''web'')]),
      (''window'', ydict [(''group_by'', YList [YStr ''host'']), (''duration_seconds'', YInt 300)]),
      (''output_summary'', YStr ''down: {host}''), (''actions'', YList [YStr ''mail''])]"

definition demo_source :: "string \<Rightarrow> loaded" where
  "demo_source path = Document (
     if path = ''rules.yaml'' then ydict [(''rules'', YList [demo_source_rule 10])]
     else if path = ''topology.yaml'' then ydict [(''topology_rules'', YMap [])]
     else ydict [(''outputs'', ydict [(''mail'', ydict
       [(''module'', YStr email_module), (''class'', YStr email_source_class), (''config'', YMap [])])])])"

definition demo_arguments :: arguments where
  "demo_arguments =
     \<lparr>arg_rules = ''rules.yaml'', arg_topology = ''topology.yaml'', arg_plugins = ''plugins.yaml'',
      arg_out_dir = ''out'', arg_report_path = Some ''report.json''\<rparr>"

definition demo_python :: python where
  "demo_python =
     \<lparr>py_str = (\<lambda>_. []), py_int = (\<lambda>_. Inl ValueError), py_compile = (\<lambda>p. Compiled (demo_pattern p)), py_translate = id\<rparr>"

definition demo_surroundings :: "(string, string) surroundings" where
  "demo_surroundings =
     \<lparr>su_parse = (\<lambda>_. Parsed demo_arguments), su_files = \<lparr>fl_exists = (\<lambda>_. True), fl_is_file = (\<lambda>_. True)\<rparr>,
      su_load = demo_source, su_python = demo_python, su_env = demo_plugin_env, su_lib = demo_libraries,
      su_details = (\<lambda>_. []), su_staging_ok = True, su_step = (\<lambda>_. True), su_write_ok = True,
      su_completed_at = ''2023-11-14T22:13:20Z''\<rparr>"

definition demo_before :: run_state where
  "demo_before =
     \<lparr>rn_out = \<lparr>od_exists = False, od_others = False, od_files = (\<lambda>_. None)\<rparr>, rn_report = None, rn_terminal = None\<rparr>"

text \<open>The run, step by step.\<close>

definition demo_rules_source :: yaml where
  "demo_rules_source = ydict [(''rules'', YList [demo_source_rule 10])]"

definition demo_topology_source :: yaml where
  "demo_topology_source = ydict [(''topology_rules'', YMap [])]"

definition demo_plugins_source :: yaml where
  "demo_plugins_source = ydict [(''outputs'', ydict [(''mail'', ydict
     [(''module'', YStr email_module), (''class'', YStr email_source_class), (''config'', YMap [])])])]"

definition demo_staged :: "(target \<Rightarrow> yaml) result" where
  "demo_staged = transform demo_python (YList [demo_source_rule 10]) (YMap []) demo_plugins_source"

lemma demo_preflight:
  "preflight demo_python demo_rules_source demo_topology_source demo_plugins_source = Inr (YList [demo_source_rule 10], YMap [], [])"
  by code_simp

lemma demo_staged_valid:
  "case demo_staged of Inl _ \<Rightarrow> False | Inr d \<Rightarrow> \<not> isl (validate_staged demo_plugin_env demo_libraries d)"
  by code_simp

lemma demo_staged_promoted:
  "case demo_staged of Inl _ \<Rightarrow> False | Inr d \<Rightarrow> snd (promote (\<lambda>_. True) d (rn_out demo_before))"
  by code_simp

lemma demo_paths:
  "validate_input_path (su_files demo_surroundings) ''rules.yaml'' ''--rules'' = []"
  "validate_input_path (su_files demo_surroundings) ''topology.yaml'' ''--topology'' = []"
  "validate_input_path (su_files demo_surroundings) ''plugins.yaml'' ''--plugins'' = []"
  by code_simp+

lemma demo_migration_run:
  obtains s' data where "main demo_surroundings [] demo_before = (s', Inr 0)" "rn_report s' = Some data"
proof -
  obtain staged where t: "demo_staged = Inr staged" and v: "\<not> isl (validate_staged demo_plugin_env demo_libraries staged)"
    and p: "snd (promote (\<lambda>_. True) staged (rn_out demo_before))"
  proof (cases demo_staged)
    case (Inl e)
    from demo_staged_valid show thesis unfolding Inl sum.case by blast
  next
    case (Inr d)
    from demo_staged_valid demo_staged_promoted that [OF Inr] show thesis unfolding Inr sum.case by blast
  qed
  obtain d where d: "promote (\<lambda>_. True) staged (rn_out demo_before) = (d, True)" using p by (metis prod.collapse)
  obtain u where u: "validate_staged demo_plugin_env demo_libraries staged = Inr u"
    using v by (cases "validate_staged demo_plugin_env demo_libraries staged") auto
  have su: "su_parse demo_surroundings = (\<lambda>_. Parsed demo_arguments)" "su_load demo_surroundings = demo_source"
    "su_python demo_surroundings = demo_python" "su_env demo_surroundings = demo_plugin_env"
    "su_lib demo_surroundings = demo_libraries" "su_staging_ok demo_surroundings" "su_step demo_surroundings = (\<lambda>_. True)"
    "su_write_ok demo_surroundings"
    by (simp_all add: demo_surroundings_def)
  have args: "arg_rules demo_arguments = ''rules.yaml''" "arg_topology demo_arguments = ''topology.yaml''"
    "arg_plugins demo_arguments = ''plugins.yaml''" "arg_report_path demo_arguments = Some ''report.json''"
    by (simp_all add: demo_arguments_def)
  have loads: "load_source demo_surroundings (In_rules, ''rules.yaml'') = Inr (Inl demo_rules_source)"
    "load_source demo_surroundings (In_topology, ''topology.yaml'') = Inr (Inl demo_topology_source)"
    "load_source demo_surroundings (In_plugins, ''plugins.yaml'') = Inr (Inl demo_plugins_source)"
    by (simp_all add: load_source_def su demo_source_def demo_rules_source_def demo_topology_source_def
        demo_plugins_source_def ydict_def)
  have c: "convert demo_surroundings demo_arguments demo_rules_source demo_topology_source demo_plugins_source demo_before =
      stage_and_promote demo_surroundings demo_arguments staged demo_before"
    using t by (simp add: convert_def su demo_preflight demo_staged_def)
  have "stage_and_promote demo_surroundings demo_arguments staged demo_before =
      finish demo_surroundings (Some ''report.json'') True [] (Some (arg_out_dir demo_arguments)) ''none'' 0
        (demo_before\<lparr>rn_out := d\<rparr>)"
    by (simp add: stage_and_promote_def su u d args)
  with c have "main demo_surroundings [] demo_before =
      finish demo_surroundings (Some ''report.json'') True [] (Some (arg_out_dir demo_arguments)) ''none'' 0
        (demo_before\<lparr>rn_out := d\<rparr>)"
    by (simp add: main_def migrate_def su args loads demo_paths)
  then show thesis by (intro that) (auto simp: finish_def Let_def su)
qed

lemma demo_before_ok:
  "\<forall>t. su_step demo_surroundings (Restore t) \<and> su_step demo_surroundings (Remove t)"
  "su_step demo_surroundings Remove_out_dir"
  "\<not> od_exists (rn_out demo_before) \<longrightarrow> is_empty_dir (rn_out demo_before)"
  by (simp_all add: demo_surroundings_def demo_before_def is_empty_dir_def targets_def)

theorem migration_fails_closed_witness:
  "\<exists>s' staged. main demo_surroundings [] demo_before = (s', Inr 0) \<and>
     validate_staged demo_plugin_env demo_libraries staged = Inr () \<and> od_files (rn_out s') = (\<lambda>t. Some (staged t))"
proof -
  obtain s' data where m: "main demo_surroundings [] demo_before = (s', Inr 0)" by (rule demo_migration_run)
  from migration_fails_closed [OF m demo_before_ok] m show ?thesis
    by (auto simp: demo_surroundings_def)
qed


theorem published_report_accepted_witness:
  "\<exists>s' data. main demo_surroundings [] demo_before = (s', Inr 0) \<and> rn_report s' = Some data \<and>
     length data \<le> migration_report_max_bytes"
proof -
  obtain s' data where m: "main demo_surroundings [] demo_before = (s', Inr 0)" and d: "rn_report s' = Some data"
    by (rule demo_migration_run)
  have "rn_report demo_before \<noteq> Some data" by (simp add: demo_before_def)
  from published_report_accepted [OF m d this, where fromiso = "\<lambda>_. Some (utc_datetime demo_start)" and now = demo_start]
  have "length data \<le> migration_report_max_bytes"
    by (simp add: demo_surroundings_def demo_arguments_def migration_report_min_completed_at_def demo_start_def demo_start_def)
  with m d show ?thesis by blast
qed

definition demo_two_rules :: "yaml list" where
  "demo_two_rules = [demo_source_rule 10, demo_source_rule 20]"

theorem rule_order_kept_witness:
  "\<exists>doc ms rules. transform_rules demo_python demo_two_rules = Inr doc \<and> doc = ydict [(''rules'', YList rules)] \<and>
     length rules = 2 \<and> map old_priority ms = [20, 10]"
proof -
  have p: "preflight_rules demo_python (YList demo_two_rules) = []" by code_simp
  have "\<not> isl (transform_rules demo_python demo_two_rules)" by code_simp
  then obtain doc where d: "transform_rules demo_python demo_two_rules = Inr doc"
    by (cases "transform_rules demo_python demo_two_rules") auto
  from rule_order_kept [OF p d] obtain ms rules where o1: "doc = ydict [(''rules'', YList rules)]"
    "mset (map YMap ms) = mset demo_two_rules" "length rules = length demo_two_rules"
    "sorted_wrt (\<lambda>m m'. old_priority m' < old_priority m) ms" by blast
  obtain m1 m2 where m12: "demo_two_rules = [YMap m1, YMap m2]" "old_priority m1 = 10" "old_priority m2 = 20"
    by (simp add: demo_two_rules_def demo_source_rule_def ydict_def old_priority_def yget_def)
  have "length ms = 2" using arg_cong [OF o1(2), of size] by (simp add: m12)
  then obtain a b where ms: "ms = [a, b]" by (auto simp: length_Suc_conv numeral_2_eq_2)
  with o1(2) have "{#a, b#} = {#m1, m2#}" by (auto simp: m12 add_eq_conv_ex)
  with o1(4) m12(2,3) have "map old_priority ms = [20, 10]" by (auto simp: ms add_eq_conv_ex)
  moreover have "length rules = 2" using o1(3) by (simp add: m12(1))
  ultimately show ?thesis using d o1(1) by (intro exI [of _ doc] exI [of _ ms] exI [of _ rules] conjI)
qed

definition demo_migrated_files :: "run_state \<Rightarrow> config_files" where
  "demo_migrated_files s =
     \<lparr>cf_plugins = (\<lambda>_. plugins_document (the (od_files (rn_out s) Plugins_yaml))),
      cf_rules = (\<lambda>again _. rules_document (the (od_files (rn_out s) Rules_yaml))),
      cf_topology = (\<lambda>again _. topology_document (the (od_files (rn_out s) Topology_yaml)))\<rparr>"

theorem migrated_configuration_starts_witness:
  "\<exists>s' app. main demo_surroundings [] demo_before = (s', Inr 0) \<and>
     lifespan_start demo_plugin_env (\<lambda>p e. True) demo_libraries (demo_migrated_files s')
       (demo_service_settings\<lparr>st_topology_path := Some ''topology''\<rparr>) new_app_state = Inr app \<and> as_rules app \<noteq> None"
proof -
  obtain s' data where m: "main demo_surroundings [] demo_before = (s', Inr 0)" by (rule demo_migration_run)
  let ?st = "demo_service_settings\<lparr>st_topology_path := Some ''topology''\<rparr>"
  obtain w sw where w: "new_lifecycle_worker (st_lifecycle_scan_interval_seconds ?st) (st_lifecycle_batch_size ?st) = Inr w"
    and sw: "new_sweep_worker (st_rate_limit_sweep_interval_seconds ?st) = Inr sw"
    by (simp add: demo_service_settings_def demo_settings_def new_lifecycle_worker_def new_sweep_worker_def)
  have st: "st_plugins_path ?st = Some ''plugins''" "st_rules_path ?st = Some ''rules''"
    "st_topology_path ?st = Some ''topology''" by (simp_all add: demo_service_settings_def)
  have su: "su_env demo_surroundings = demo_plugin_env" "su_lib demo_surroundings = demo_libraries"
    by (simp_all add: demo_surroundings_def)
  have files: "cf_plugins (demo_migrated_files s') ''plugins'' = plugins_document (the (od_files (rn_out s') Plugins_yaml))"
    "\<forall>again. cf_rules (demo_migrated_files s') again ''rules'' = rules_document (the (od_files (rn_out s') Rules_yaml))"
    "\<forall>again. cf_topology (demo_migrated_files s') again ''topology'' =
       topology_document (the (od_files (rn_out s') Topology_yaml))"
    by (simp_all add: demo_migrated_files_def)
  have "\<exists>app. lifespan_start demo_plugin_env (\<lambda>p e. True) demo_libraries (demo_migrated_files s') ?st new_app_state = Inr app \<and>
      as_rules app \<noteq> None"
    using migrated_configuration_starts [where send = "\<lambda>p e. True", OF m demo_before_ok st files w sw, unfolded su]
    by (elim exE conjE) (intro exI conjI, assumption, simp)
  with m show ?thesis by blast
qed

text \<open>A valid report at the first scrape, then the file is gone: the gauges keep the report.\<close>

definition demo_report :: json where
  "demo_report =
     JObj [(''ok'', JBool True), (''errors'', JList []),
       (''generated'', JObj [(''rules'', JStr ''r''), (''topology'', JStr ''t''), (''plugins'', JStr ''p'')]),
       (''metrics_summary'', JObj [(''version'', JInt 1), (''outcome'', JStr ''success''), (''failure_code'', JStr ''none''),
          (''issue_count'', JInt 0), (''issues_truncated'', JBool False), (''completed_at'', JStr ''now'')])]"

definition demo_scrapes :: "(int \<times> (string \<Rightarrow> report_file)) list" where
  "demo_scrapes = [(demo_start, \<lambda>_. Regular_file 0 (Some [])), (demo_start + 1, \<lambda>_. Missing_file)]"

definition demo_report_gauges :: migration_gauges where
  "demo_report_gauges = apply_migration_report_gauges
     (scrapes (\<lambda>_. Inr (Some demo_report)) (\<lambda>_. Some (utc_datetime demo_start)) demo_scrapes
       (configure_migration_report_projection (Some ''report.json'')))"

lemma demo_report_valid:
  "validate_migration_report (\<lambda>_. Some (utc_datetime demo_start)) demo_start demo_report =
     Inr (Report_valid, Some (''success'', ''none'', demo_start))"
  by code_simp

lemma demo_snapshots:
  "read_migration_report_snapshot (\<lambda>_. Inr (Some demo_report)) (\<lambda>_. Some (utc_datetime demo_start)) demo_start
     (Regular_file 0 (Some [])) = Inr (Report_valid, Some (''success'', ''none'', demo_start))"
  "read_migration_report_snapshot loads fromiso now Missing_file = Inr (Report_absent, None)"
  by (simp_all add: read_migration_report_snapshot_def demo_report_valid)

lemma demo_readings:
  "last_of (valid_readings (\<lambda>_. Inr (Some demo_report)) (\<lambda>_. Some (utc_datetime demo_start)) ''report.json'' demo_scrapes) =
     Some (''success'', ''none'', demo_start)"
  "last_of (statuses_read (\<lambda>_. Inr (Some demo_report)) (\<lambda>_. Some (utc_datetime demo_start)) ''report.json'' demo_scrapes) =
     Some Report_absent"
  by (simp_all add: demo_scrapes_def demo_snapshots)

theorem migration_gauges_consistent_witness:
  "mg_status demo_report_gauges Report_absent = 1 \<and> mg_outcome demo_report_gauges ''success'' = 1 \<and>
   mg_failure_code demo_report_gauges ''none'' = 1 \<and> mg_completed_at demo_report_gauges = demo_start"
proof -
  have "\<forall>(now, files) \<in> set demo_scrapes. now \<le> demo_start + 1" by (simp add: demo_scrapes_def)
  from migration_gauges_consistent [OF this demo_report_gauges_def refl refl] show ?thesis
    by (simp add: demo_readings)
qed

end
