(* ===== verification/Schema.thy ===== *)
theory Schema
  imports Prelude
begin

text \<open>
  The database schema: the tables declared in \<open>app/persistence/models.py\<close>, the migrations of
  \<open>migrations/versions\<close> as lists of DDL statements, and what the check constraints ask of a row.
\<close>

section \<open>Tables and statements\<close>

datatype sql_type = Sql_uuid | Sql_string | Sql_integer | Sql_boolean | Sql_jsonb | Sql_timestamp

record column =
  cl_name :: string
  cl_type :: sql_type
  cl_nullable :: bool
  cl_primary_key :: bool
  cl_default :: "string option"

datatype check =
    Check_in string "string list"
  | Check_at_least string int
  | Check_le string string
  | Check_json_array string
  | Check_json_object string

record table_def =
  td_columns :: "column list"
  td_checks :: "(string \<times> check list) list"

datatype index_key = Key_column string | Key_expression string

record index_def =
  ix_table :: string
  ix_keys :: "index_key list"
  ix_unique :: bool
  ix_where :: "(string \<times> string) option"
  ix_using :: "string option"

record schema =
  sc_tables :: "(string, table_def) dict"
  sc_indexes :: "(string, index_def) dict"

definition empty_schema :: schema where
  "empty_schema = \<lparr>sc_tables = [], sc_indexes = []\<rparr>"

datatype ddl =
    Create_table string table_def
  | Drop_table string
  | Add_column string column
  | Drop_column string string
  | Create_index string index_def
  | Drop_index string

definition remove_key :: "'k \<Rightarrow> ('k, 'v) dict \<Rightarrow> ('k, 'v) dict" where
  "remove_key k d = filter (\<lambda>(k', v). k' \<noteq> k) d"

fun check_columns :: "check \<Rightarrow> string list" where
  "check_columns (Check_in c vs) = [c]"
| "check_columns (Check_at_least c n) = [c]"
| "check_columns (Check_le a b) = [a, b]"
| "check_columns (Check_json_array c) = [c]"
| "check_columns (Check_json_object c) = [c]"

definition key_columns :: "index_def \<Rightarrow> string list" where
  "key_columns ix = List.map_filter (\<lambda>k. case k of Key_column c \<Rightarrow> Some c | Key_expression e \<Rightarrow> None) (ix_keys ix)"

definition column_names :: "table_def \<Rightarrow> string list" where
  "column_names d = map cl_name (td_columns d)"

definition checks_on :: "string \<Rightarrow> string \<times> check list \<Rightarrow> bool" where
  "checks_on c = (\<lambda>(n, cs). list_ex (\<lambda>x. c \<in> set (check_columns x)) cs)"

definition table_ok :: "table_def \<Rightarrow> bool" where
  "table_ok d \<longleftrightarrow> distinct (column_names d) \<and>
     list_all (\<lambda>(n, cs). list_all (\<lambda>x. set (check_columns x) \<subseteq> set (column_names d)) cs) (td_checks d)"

definition set_table :: "string \<Rightarrow> table_def \<Rightarrow> schema \<Rightarrow> schema" where
  "set_table t d s = s\<lparr>sc_tables := dict_set t d (sc_tables s)\<rparr>"

text \<open>
  One statement; \<open>None\<close> when PostgreSQL rejects it.  A dropped table takes its indexes with it, a
  dropped column the indexes and checks that name it.
\<close>

fun run_ddl :: "ddl \<Rightarrow> schema \<Rightarrow> schema option" where
  "run_ddl (Create_table t d) s =
     (if t \<in> set (dict_keys (sc_tables s)) \<or> \<not> table_ok d then None
      else Some (s\<lparr>sc_tables := sc_tables s @ [(t, d)]\<rparr>))"
| "run_ddl (Drop_table t) s =
     (if t \<notin> set (dict_keys (sc_tables s)) then None
      else Some (s\<lparr>sc_tables := remove_key t (sc_tables s),
                   sc_indexes := filter (\<lambda>(n, ix). ix_table ix \<noteq> t) (sc_indexes s)\<rparr>))"
| "run_ddl (Add_column t c) s =
     (case map_of (sc_tables s) t of
        None \<Rightarrow> None
      | Some d \<Rightarrow>
          if cl_name c \<in> set (column_names d) then None
          else Some (set_table t (d\<lparr>td_columns := td_columns d @ [c]\<rparr>) s))"
| "run_ddl (Drop_column t c) s =
     (case map_of (sc_tables s) t of
        None \<Rightarrow> None
      | Some d \<Rightarrow>
          if c \<notin> set (column_names d) then None
          else Some (set_table t
            (d\<lparr>td_columns := filter (\<lambda>x. cl_name x \<noteq> c) (td_columns d),
               td_checks := filter (\<lambda>x. \<not> checks_on c x) (td_checks d)\<rparr>)
            (s\<lparr>sc_indexes := filter (\<lambda>(n, ix). ix_table ix \<noteq> t \<or> c \<notin> set (key_columns ix)) (sc_indexes s)\<rparr>)))"
| "run_ddl (Create_index n ix) s =
     (case map_of (sc_tables s) (ix_table ix) of
        None \<Rightarrow> None
      | Some d \<Rightarrow>
          if n \<in> set (dict_keys (sc_indexes s)) \<or> \<not> set (key_columns ix) \<subseteq> set (column_names d) then None
          else Some (s\<lparr>sc_indexes := sc_indexes s @ [(n, ix)]\<rparr>))"
| "run_ddl (Drop_index n) s =
     (if n \<notin> set (dict_keys (sc_indexes s)) then None else Some (s\<lparr>sc_indexes := remove_key n (sc_indexes s)\<rparr>))"

fun run_all :: "ddl list \<Rightarrow> schema \<Rightarrow> schema option" where
  "run_all [] s = Some s"
| "run_all (d # ds) s = Option.bind (run_ddl d s) (run_all ds)"

section \<open>The migrations\<close>

definition col :: "string \<Rightarrow> sql_type \<Rightarrow> bool \<Rightarrow> string option \<Rightarrow> column" where
  "col n t nullable dflt =
     \<lparr>cl_name = n, cl_type = t, cl_nullable = nullable, cl_primary_key = False, cl_default = dflt\<rparr>"

definition key_col :: "string option \<Rightarrow> column" where
  "key_col dflt = \<lparr>cl_name = ''id'', cl_type = Sql_uuid, cl_nullable = False, cl_primary_key = True, cl_default = dflt\<rparr>"

definition plain_index :: "string \<Rightarrow> string list \<Rightarrow> index_def" where
  "plain_index t cs = \<lparr>ix_table = t, ix_keys = map Key_column cs, ix_unique = False, ix_where = None, ix_using = None\<rparr>"

definition severities_check :: check where
  "severities_check = Check_in ''severity'' [''OK'', ''WARNING'', ''UNKNOWN'', ''CRITICAL'']"

definition incidents_table :: table_def where
  "incidents_table =
     \<lparr>td_columns =
       [key_col None, col ''rule_name'' Sql_string False None, col ''group_key'' Sql_string False None,
         col ''status'' Sql_string False None, col ''severity'' Sql_string False None,
         col ''summary'' Sql_string False None, col ''event_count'' Sql_integer False (Some ''1''),
         col ''affected_hosts'' Sql_jsonb False (Some ''[]''), col ''affected_services'' Sql_jsonb False (Some ''[]''),
         col ''decision_context'' Sql_jsonb False (Some ''{}''), col ''start_time'' Sql_timestamp False None,
         col ''last_update_time'' Sql_timestamp False None, col ''acknowledged_at'' Sql_timestamp True None,
         col ''acknowledged_by'' Sql_string True None, col ''resolved_at'' Sql_timestamp True None,
         col ''closed_at'' Sql_timestamp True None, col ''created_at'' Sql_timestamp False (Some ''now()''),
         col ''updated_at'' Sql_timestamp False (Some ''now()'')],
        td_checks =
        [(''ck_incidents_status'', [Check_in ''status'' [''OPEN'', ''RESOLVED'', ''CLOSED'']]),
         (''ck_incidents_severity'', [severities_check]),
         (''ck_incidents_event_count_positive'', [Check_at_least ''event_count'' 1])]\<rparr>"

definition upgrade_0001 :: "ddl list" where
  "upgrade_0001 =
     [Create_table ''incidents'' incidents_table,
      Create_index ''incidents_one_open_per_rule_group''
        \<lparr>ix_table = ''incidents'', ix_keys = [Key_column ''rule_name'', Key_column ''group_key''], ix_unique = True,
         ix_where = Some (''status'', ''OPEN''), ix_using = None\<rparr>]"

definition downgrade_0001 :: "ddl list" where
  "downgrade_0001 = [Drop_index ''incidents_one_open_per_rule_group'', Drop_table ''incidents'']"

definition upgrade_0002 :: "ddl list" where
  "upgrade_0002 =
     [Add_column ''incidents'' (col ''window_state'' Sql_jsonb False (Some ''{}'')),
      Add_column ''incidents'' (col ''threshold_crossed'' Sql_boolean False (Some ''false'')),
      Add_column ''incidents'' (col ''notified_at'' Sql_timestamp True None)]"

definition downgrade_0002 :: "ddl list" where
  "downgrade_0002 =
     [Drop_column ''incidents'' ''notified_at'', Drop_column ''incidents'' ''threshold_crossed'',
      Drop_column ''incidents'' ''window_state'']"

definition incident_events_table :: table_def where
  "incident_events_table =
     \<lparr>td_columns =
       [key_col (Some ''gen_random_uuid()''), col ''accepted_at'' Sql_timestamp False (Some ''now()''),
         col ''event_timestamp'' Sql_timestamp False None, col ''source_id'' Sql_string False None,
         col ''fingerprint'' Sql_string False None, col ''event_type'' Sql_string False None,
         col ''severity'' Sql_string False None, col ''host'' Sql_string False None,
         col ''service'' Sql_string True None, col ''incident_ids'' Sql_jsonb False (Some ''[]''),
         col ''incident_effect'' Sql_string False None, col ''decision_summary'' Sql_jsonb False (Some ''{}''),
         col ''normalized_event'' Sql_jsonb False (Some ''{}''), col ''raw_payload'' Sql_jsonb False (Some ''{}''),
         col ''raw_payload_original_byte_length'' Sql_integer False None,
         col ''raw_payload_stored_byte_length'' Sql_integer False None,
         col ''raw_payload_truncated'' Sql_boolean False (Some ''false''),
         col ''redaction_version'' Sql_integer False None, col ''redacted_path_count'' Sql_integer False None,
         col ''raw_payload_hmac'' Sql_string False None],
        td_checks =
        [(''ck_incident_events_event_type'', [Check_in ''event_type'' [''PROBLEM'', ''RECOVERY'']]),
         (''ck_incident_events_severity'', [severities_check]),
         (''ck_incident_events_incident_effect'',
            [Check_in ''incident_effect'' [''none'', ''inserted'', ''updated'', ''resolved'', ''affected_set_shrunk'']]),
         (''ck_incident_events_incident_ids_array'', [Check_json_array ''incident_ids'']),
         (''ck_incident_events_decision_summary_object'', [Check_json_object ''decision_summary'']),
         (''ck_incident_events_normalized_event_object'', [Check_json_object ''normalized_event'']),
         (''ck_incident_events_raw_payload_object'', [Check_json_object ''raw_payload'']),
         (''ck_incident_events_raw_payload_byte_lengths_non_negative'',
            [Check_at_least ''raw_payload_original_byte_length'' 0, Check_at_least ''raw_payload_stored_byte_length'' 0]),
         (''ck_incident_events_raw_payload_stored_lte_original'',
            [Check_le ''raw_payload_stored_byte_length'' ''raw_payload_original_byte_length'']),
         (''ck_incident_events_redaction_version_positive'', [Check_at_least ''redaction_version'' 1]),
         (''ck_incident_events_redacted_path_count_non_negative'', [Check_at_least ''redacted_path_count'' 0])]\<rparr>"

definition upgrade_0003 :: "ddl list" where
  "upgrade_0003 =
     [Create_table ''incident_events'' incident_events_table,
      Create_index ''ix_incident_events_accepted_at_id'' (plain_index ''incident_events'' [''accepted_at'', ''id'']),
      Create_index ''ix_incident_events_incident_ids_gin''
        ((plain_index ''incident_events'' [''incident_ids''])\<lparr>ix_using := Some ''gin''\<rparr>),
      Create_index ''ix_incident_events_fingerprint'' (plain_index ''incident_events'' [''fingerprint'']),
      Create_index ''ix_incident_events_source_id'' (plain_index ''incident_events'' [''source_id'']),
      Create_index ''ix_incident_events_event_type'' (plain_index ''incident_events'' [''event_type'']),
      Create_index ''ix_incident_events_severity'' (plain_index ''incident_events'' [''severity'']),
      Create_index ''ix_incident_events_host'' (plain_index ''incident_events'' [''host'']),
      Create_index ''ix_incident_events_service'' (plain_index ''incident_events'' [''service'']),
      Create_index ''ix_incident_events_incident_effect'' (plain_index ''incident_events'' [''incident_effect'']),
      Create_index ''ix_incident_events_event_timestamp'' (plain_index ''incident_events'' [''event_timestamp'']),
      Create_index ''ix_incident_events_no_dispatch_reason''
        ((plain_index ''incident_events'' [])\<lparr>ix_keys := [Key_expression ''decision_summary ->> no_dispatch_reason'']\<rparr>)]"

definition downgrade_0003 :: "ddl list" where
  "downgrade_0003 =
     [Drop_index ''ix_incident_events_no_dispatch_reason'', Drop_index ''ix_incident_events_event_timestamp'',
      Drop_index ''ix_incident_events_incident_effect'', Drop_index ''ix_incident_events_service'',
      Drop_index ''ix_incident_events_host'', Drop_index ''ix_incident_events_severity'',
      Drop_index ''ix_incident_events_event_type'', Drop_index ''ix_incident_events_source_id'',
      Drop_index ''ix_incident_events_fingerprint'', Drop_index ''ix_incident_events_incident_ids_gin'',
      Drop_index ''ix_incident_events_accepted_at_id'', Drop_table ''incident_events'']"

text \<open>A revision: its name, the one before it, and its two lists.\<close>

record revision =
  rv_revision :: string
  rv_down_revision :: "string option"
  rv_upgrade :: "ddl list"
  rv_downgrade :: "ddl list"

definition revisions :: "revision list" where
  "revisions =
     [\<lparr>rv_revision = ''0001_create_incidents'', rv_down_revision = None,
       rv_upgrade = upgrade_0001, rv_downgrade = downgrade_0001\<rparr>,
      \<lparr>rv_revision = ''0002_add_threshold_state'', rv_down_revision = Some ''0001_create_incidents'',
       rv_upgrade = upgrade_0002, rv_downgrade = downgrade_0002\<rparr>,
      \<lparr>rv_revision = ''0003_create_incident_events'', rv_down_revision = Some ''0002_add_threshold_state'',
       rv_upgrade = upgrade_0003, rv_downgrade = downgrade_0003\<rparr>]"

definition upgrade_head :: "schema \<Rightarrow> schema option" where
  "upgrade_head = run_all (concat (map rv_upgrade revisions))"

definition downgrade_base :: "schema \<Rightarrow> schema option" where
  "downgrade_base = run_all (concat (map rv_downgrade (rev revisions)))"

section \<open>The declared tables\<close>

text \<open>The columns of the models: name, type, nullability and primary key.\<close>

type_synonym declared = "string \<times> sql_type \<times> bool \<times> bool"

definition declared_of :: "column \<Rightarrow> declared" where
  "declared_of c = (cl_name c, cl_type c, cl_nullable c, cl_primary_key c)"

definition field :: "string \<Rightarrow> sql_type \<Rightarrow> declared" where
  "field n t = (n, t, False, False)"

definition optional :: "string \<Rightarrow> sql_type \<Rightarrow> declared" where
  "optional n t = (n, t, True, False)"

definition incident_columns :: "declared list" where
  "incident_columns =
     [(''id'', Sql_uuid, False, True), field ''rule_name'' Sql_string, field ''group_key'' Sql_string,
      field ''status'' Sql_string, field ''severity'' Sql_string, field ''summary'' Sql_string,
      field ''event_count'' Sql_integer, field ''affected_hosts'' Sql_jsonb, field ''affected_services'' Sql_jsonb,
      field ''decision_context'' Sql_jsonb, field ''window_state'' Sql_jsonb, field ''threshold_crossed'' Sql_boolean,
      optional ''notified_at'' Sql_timestamp, field ''start_time'' Sql_timestamp,
      field ''last_update_time'' Sql_timestamp, optional ''acknowledged_at'' Sql_timestamp,
      optional ''acknowledged_by'' Sql_string, optional ''resolved_at'' Sql_timestamp,
      optional ''closed_at'' Sql_timestamp, field ''created_at'' Sql_timestamp, field ''updated_at'' Sql_timestamp]"

definition incident_event_columns :: "declared list" where
  "incident_event_columns =
     [(''id'', Sql_uuid, False, True), field ''accepted_at'' Sql_timestamp, field ''event_timestamp'' Sql_timestamp,
      field ''source_id'' Sql_string, field ''fingerprint'' Sql_string, field ''event_type'' Sql_string,
      field ''severity'' Sql_string, field ''host'' Sql_string, optional ''service'' Sql_string,
      field ''incident_ids'' Sql_jsonb, field ''incident_effect'' Sql_string, field ''decision_summary'' Sql_jsonb,
      field ''normalized_event'' Sql_jsonb, field ''raw_payload'' Sql_jsonb,
      field ''raw_payload_original_byte_length'' Sql_integer, field ''raw_payload_stored_byte_length'' Sql_integer,
      field ''raw_payload_truncated'' Sql_boolean, field ''redaction_version'' Sql_integer,
      field ''redacted_path_count'' Sql_integer, field ''raw_payload_hmac'' Sql_string]"

definition declared_tables :: "(string \<times> declared list) list" where
  "declared_tables = [(''incidents'', incident_columns), (''incident_events'', incident_event_columns)]"

section \<open>Undoing a migration\<close>

fun undo :: "ddl \<Rightarrow> ddl" where
  "undo (Create_table t d) = Drop_table t"
| "undo (Add_column t c) = Drop_column t (cl_name c)"
| "undo (Create_index n ix) = Drop_index n"
| "undo d = d"

fun creates :: "ddl \<Rightarrow> bool" where
  "creates (Create_table t d) = True"
| "creates (Add_column t c) = True"
| "creates (Create_index n ix) = True"
| "creates d = False"

definition schema_ok :: "schema \<Rightarrow> bool" where
  "schema_ok s \<longleftrightarrow>
     list_all (\<lambda>(t, d). table_ok d) (sc_tables s) \<and>
     list_all (\<lambda>(n, ix). case map_of (sc_tables s) (ix_table ix) of
         None \<Rightarrow> False | Some d \<Rightarrow> set (key_columns ix) \<subseteq> set (column_names d)) (sc_indexes s)"

lemma remove_key_snoc: "k \<notin> set (dict_keys d) \<Longrightarrow> remove_key k (d @ [(k, v)]) = d"
  by (induction d) (auto simp: remove_key_def)

lemma dict_set_same: "map_of d k = Some v \<Longrightarrow> dict_set k v d = d"
  by (induction d) auto

lemma dict_set_in: "(k', v') \<in> set (dict_set k v d) \<Longrightarrow> (k', v') \<in> set d \<or> (k', v') = (k, v)"
  by (induction d) (auto split: if_splits)

lemma filter_all: "(\<And>x. x \<in> set xs \<Longrightarrow> P x) \<Longrightarrow> filter P xs = xs"
  by (induction xs) auto

lemma column_names_add: "column_names (d\<lparr>td_columns := td_columns d @ [c]\<rparr>) = column_names d @ [cl_name c]"
  by (simp add: column_names_def)

lemma schema_ok_index:
  "schema_ok s \<Longrightarrow> (n, ix) \<in> set (sc_indexes s) \<Longrightarrow>
     \<exists>d. map_of (sc_tables s) (ix_table ix) = Some d \<and> set (key_columns ix) \<subseteq> set (column_names d)"
  by (auto simp: schema_ok_def list_all_iff split: option.splits)

lemma run_ddl_ok:
  assumes "schema_ok s" "creates d" "run_ddl d s = Some s'"
  shows "schema_ok s'"
proof (cases d)
  case (Create_table t td)
  with assms have s': "s' = s\<lparr>sc_tables := sc_tables s @ [(t, td)]\<rparr>" and ok: "table_ok td" "t \<notin> set (dict_keys (sc_tables s))"
    by (auto split: if_splits)
  have "list_all (\<lambda>(n, ix). case map_of (sc_tables s @ [(t, td)]) (ix_table ix) of
         None \<Rightarrow> False | Some d \<Rightarrow> set (key_columns ix) \<subseteq> set (column_names d)) (sc_indexes s)"
    using schema_ok_index [OF assms(1)] by (fastforce simp: list_all_iff map_add_def split: option.splits)
  with assms(1) ok show ?thesis by (simp add: s' schema_ok_def)
next
  case (Add_column t c)
  with assms(3) obtain td where td: "map_of (sc_tables s) t = Some td" "cl_name c \<notin> set (column_names td)"
    and s': "s' = set_table t (td\<lparr>td_columns := td_columns td @ [c]\<rparr>) s"
    by (auto split: option.splits if_splits)
  have ok: "table_ok td" using assms(1) map_of_SomeD [OF td(1)] by (auto simp: schema_ok_def list_all_iff)
  then have new: "table_ok (td\<lparr>td_columns := td_columns td @ [c]\<rparr>)"
    using td(2) unfolding table_ok_def column_names_add list_all_iff by fastforce
  have "list_all (\<lambda>(t, d). table_ok d) (sc_tables s')"
    using assms(1) new unfolding s' set_table_def list_all_iff schema_ok_def by (auto dest!: dict_set_in)
  moreover have "list_all (\<lambda>(n, ix). case map_of (sc_tables s') (ix_table ix) of
         None \<Rightarrow> False | Some d \<Rightarrow> set (key_columns ix) \<subseteq> set (column_names d)) (sc_indexes s')"
    using schema_ok_index [OF assms(1)] td(1)
    by (fastforce simp: s' set_table_def list_all_iff map_of_dict_set column_names_add)
  ultimately show ?thesis by (simp add: schema_ok_def)
next
  case (Create_index n ix)
  with assms show ?thesis by (auto simp: schema_ok_def split: option.splits if_splits)
qed (use assms(2) in auto)

lemma run_ddl_undo:
  assumes "schema_ok s" "creates d" "run_ddl d s = Some s'"
  shows "run_ddl (undo d) s' = Some s"
proof (cases d)
  case (Create_table t td)
  with assms have s': "s' = s\<lparr>sc_tables := sc_tables s @ [(t, td)]\<rparr>" and new: "t \<notin> set (dict_keys (sc_tables s))"
    by (auto split: if_splits)
  have "ix_table ix \<noteq> t" if "(n, ix) \<in> set (sc_indexes s)" for n ix
    using schema_ok_index [OF assms(1) that] new by (auto simp: map_of_eq_None_iff [symmetric])
  then have "filter (\<lambda>(n, ix). ix_table ix \<noteq> t) (sc_indexes s) = sc_indexes s" by (intro filter_all) auto
  with new Create_table show ?thesis by (simp add: s' remove_key_snoc)
next
  case (Add_column t c)
  with assms(3) obtain td where td: "map_of (sc_tables s) t = Some td" "cl_name c \<notin> set (column_names td)"
    and s': "s' = set_table t (td\<lparr>td_columns := td_columns td @ [c]\<rparr>) s"
    by (auto split: option.splits if_splits)
  have ok: "table_ok td" using assms(1) map_of_SomeD [OF td(1)] by (auto simp: schema_ok_def list_all_iff)
  have "cl_name c \<notin> set (key_columns ix)" if "(n, ix) \<in> set (sc_indexes s)" "ix_table ix = t" for n ix
    using schema_ok_index [OF assms(1) that(1)] that(2) td by auto
  then have ixs: "filter (\<lambda>(n, ix). ix_table ix \<noteq> t \<or> cl_name c \<notin> set (key_columns ix)) (sc_indexes s) = sc_indexes s"
    by (intro filter_all) auto
  have checks: "filter (\<lambda>x. \<not> checks_on (cl_name c) x) (td_checks td) = td_checks td"
    using ok td(2) by (intro filter_all) (fastforce simp: checks_on_def table_ok_def list_all_iff list_ex_iff)
  have cols: "filter (\<lambda>x. cl_name x \<noteq> cl_name c) (td_columns td @ [c]) = td_columns td"
    using td(2) by (simp, intro filter_all) (metis column_names_def image_eqI list.set_map)
  show ?thesis
    using td(1) ixs checks cols Add_column
    by (simp add: s' set_table_def map_of_dict_set column_names_add dict_set_same)
next
  case (Create_index n ix)
  with assms show ?thesis by (auto simp: remove_key_snoc split: option.splits if_splits)
qed (use assms(2) in auto)

lemma run_all_append: "run_all (xs @ ys) s = Option.bind (run_all xs s) (run_all ys)"
  by (induction xs arbitrary: s) (auto split: bind_splits)

lemma run_all_undo:
  assumes "schema_ok s" "list_all creates ds" "run_all ds s = Some s'"
  shows "schema_ok s' \<and> run_all (rev (map undo ds)) s' = Some s"
  using assms
proof (induction ds arbitrary: s)
  case (Cons d ds)
  obtain s1 where s1: "run_ddl d s = Some s1" "run_all ds s1 = Some s'"
    using Cons.prems(3) by (auto split: bind_splits)
  have ok: "schema_ok s1" using run_ddl_ok [OF Cons.prems(1) _ s1(1)] Cons.prems(2) by simp
  from Cons.IH [OF ok _ s1(2)] Cons.prems(2) have "schema_ok s'" "run_all (rev (map undo ds)) s' = Some s1" by simp_all
  with run_ddl_undo [OF Cons.prems(1) _ s1(1)] Cons.prems(2) show ?case by (simp add: run_all_append)
qed simp

lemma downgrades_undo:
  "list_all (\<lambda>rv. list_all creates (rv_upgrade rv) \<and> rv_downgrade rv = rev (map undo (rv_upgrade rv))) revisions"
  by (simp add: revisions_def upgrade_0001_def upgrade_0002_def upgrade_0003_def downgrade_0001_def downgrade_0002_def
      downgrade_0003_def col_def)

text \<open>
  C21: every migration can be taken back.  On any consistent schema that accepts the upgrade of a
  revision, the downgrade of that revision succeeds afterwards and restores exactly that schema,
  tables, columns, checks and indexes; the upgraded schema is consistent again.
\<close>

theorem downgrade_undoes_upgrade:
  assumes "rv \<in> set revisions" "schema_ok s" "run_all (rv_upgrade rv) s = Some s'"
  shows "schema_ok s' \<and> run_all (rv_downgrade rv) s' = Some s"
  using run_all_undo [OF assms(2) _ assms(3)] downgrades_undo assms(1) by (auto simp: list_all_iff)

end
