(* ===== verification/SchemaRows.thy ===== *)
theory SchemaRows
  imports Schema AuditServing
begin

text \<open>
  The rows that the service writes, seen by the migrated schema: the documents of the JSON columns, the
  type of each column and the check constraints.
\<close>

section \<open>Cells\<close>

datatype cell =
    Cell_null
  | Cell_uuid uuid
  | Cell_text string
  | Cell_int int
  | Cell_bool bool
  | Cell_json json
  | Cell_time int

type_synonym cells = "(string \<times> cell) list"

text \<open>The type \<open>integer\<close> of PostgreSQL has four bytes.\<close>

definition int4 :: "int \<Rightarrow> bool" where
  "int4 i \<longleftrightarrow> - (2 ^ 31) \<le> i \<and> i < 2 ^ 31"

text \<open>A text and a JSON document hold no NUL character.\<close>

definition cell_fits :: "column \<Rightarrow> cell \<Rightarrow> bool" where
  "cell_fits c v =
     (case v of
        Cell_null \<Rightarrow> cl_nullable c
      | Cell_uuid u \<Rightarrow> cl_type c = Sql_uuid
      | Cell_text s \<Rightarrow> cl_type c = Sql_string \<and> no_nul s
      | Cell_int i \<Rightarrow> cl_type c = Sql_integer \<and> int4 i
      | Cell_bool b \<Rightarrow> cl_type c = Sql_boolean
      | Cell_json j \<Rightarrow> cl_type c = Sql_jsonb \<and> json_no_nul j
      | Cell_time t \<Rightarrow> cl_type c = Sql_timestamp)"

text \<open>A check constraint rejects a row only when it is false: a comparison with NULL is unknown.\<close>

definition check_holds :: "cells \<Rightarrow> check \<Rightarrow> bool" where
  "check_holds row x =
     (case x of
        Check_in c vs \<Rightarrow> (case map_of row c of Some (Cell_text s) \<Rightarrow> s \<in> set vs | v \<Rightarrow> v = Some Cell_null)
      | Check_at_least c n \<Rightarrow> (case map_of row c of Some (Cell_int i) \<Rightarrow> n \<le> i | v \<Rightarrow> v = Some Cell_null)
      | Check_le a b \<Rightarrow>
          (case (map_of row a, map_of row b) of
             (Some (Cell_int i), Some (Cell_int j)) \<Rightarrow> i \<le> j
           | (v, w) \<Rightarrow> v = Some Cell_null \<or> w = Some Cell_null)
      | Check_json_array c \<Rightarrow> (case map_of row c of Some (Cell_json (JList _)) \<Rightarrow> True | v \<Rightarrow> v = Some Cell_null)
      | Check_json_object c \<Rightarrow> (case map_of row c of Some (Cell_json (JObj _)) \<Rightarrow> True | v \<Rightarrow> v = Some Cell_null))"

definition row_accepted :: "table_def \<Rightarrow> cells \<Rightarrow> bool" where
  "row_accepted d row \<longleftrightarrow>
     list_all (\<lambda>c. case map_of row (cl_name c) of None \<Rightarrow> False | Some v \<Rightarrow> cell_fits c v) (td_columns d) \<and>
     list_all (\<lambda>(n, cs). list_all (check_holds row) cs) (td_checks d)"

section \<open>Documents\<close>

text \<open>
  \<open>model_dump(mode="json")\<close> of the models that are stored as JSON; \<open>time_text\<close> is the text of a timestamp.
  A column that was never written holds the document \<open>{}\<close>.
\<close>

definition strings_json :: "string list \<Rightarrow> json" where
  "strings_json xs = JList (map JStr xs)"

definition opt_int_json :: "int option \<Rightarrow> json" where
  "opt_int_json x = (case x of None \<Rightarrow> JNull | Some i \<Rightarrow> JInt i)"

definition opt_bool_json :: "bool option \<Rightarrow> json" where
  "opt_bool_json x = (case x of None \<Rightarrow> JNull | Some b \<Rightarrow> JBool b)"

fun category_text :: "notification_category \<Rightarrow> string" where
  "category_text Dispatched = ''dispatched''"
| "category_text Missing_plugin = ''missing_plugin''"
| "category_text Missing_incident = ''missing_incident''"
| "category_text Plugin_exception = ''plugin_exception''"
| "category_text Dispatch_failed = ''dispatch_failed''"

definition delivery_record_json :: "delivery_record \<Rightarrow> json" where
  "delivery_record_json d =
     JObj [(''schema_version'', JInt 1), (''plugin_name'', JStr (dr_plugin_name d)),
       (''result'', JObj [(''success'', JBool (nr_success (dr_result d))),
          (''category'', JStr (category_text (nr_category (dr_result d)))), (''message'', JStr (nr_message (dr_result d)))])]"

definition decision_context_json :: "decision_context \<Rightarrow> json" where
  "decision_context_json d =
     (if d = empty_context then JObj []
      else JObj ([(''schema_version'', JInt 1), (''fingerprint'', opt_json (dc_fingerprint d)),
        (''source_id'', opt_json (dc_source_id d)), (''rule_name'', opt_json (dc_rule_name d)),
        (''group_key'', opt_json (dc_group_key d)), (''matched_rule_names'', strings_json (dc_matched_rule_names d)),
        (''enrichment_refs'', strings_json (dc_enrichment_refs d)), (''event_count'', opt_int_json (dc_event_count d)),
        (''config_hash'', opt_json (dc_config_hash d)), (''notes'', JObj (map (\<lambda>(k, v). (k, JStr v)) (dc_notes d))),
        (''threshold_count'', opt_int_json (dc_threshold_count d)), (''counted_count'', opt_int_json (dc_counted_count d)),
        (''threshold_crossed'', opt_bool_json (dc_threshold_crossed d)),
        (''first_threshold_transition'', opt_bool_json (dc_first_threshold_transition d)),
        (''replay'', opt_bool_json (dc_replay d)), (''action_names'', strings_json (dc_action_names d))] @
        (case dc_results d of
           None \<Rightarrow> []
         | Some rs \<Rightarrow> [(''notification_delivery_results'', JList (map delivery_record_json rs))])))"

definition window_state_json :: "(int \<Rightarrow> string) \<Rightarrow> window_state option \<Rightarrow> json" where
  "window_state_json time_text w =
     (case w of
        None \<Rightarrow> JObj []
      | Some x \<Rightarrow>
          JObj [(''schema_version'', JInt 2), (''window_started_at'', JStr (time_text (ws_window_started_at x))),
            (''window_ended_at'', JStr (time_text (ws_window_ended_at x))), (''window_seconds'', JInt (ws_window_seconds x)),
            (''threshold_count'', JInt (ws_threshold_count x)),
            (''counted_fingerprint_timestamps'', JObj (map (\<lambda>(f, t). (f, JStr (time_text t))) (ws_counted x))),
            (''counted_count'', JInt (ws_counted_count x)), (''max_size'', JInt (ws_max_size x)),
            (''active_objects'', JList (map (\<lambda>obj. JObj [(''host'', JStr (io_host obj)), (''service'', opt_json (io_service obj))])
               (ws_active_objects x)))])"

fun audit_effect_value :: "audit_effect \<Rightarrow> string" where
  "audit_effect_value Effect_none = ''none''"
| "audit_effect_value Effect_inserted = ''inserted''"
| "audit_effect_value Effect_updated = ''updated''"
| "audit_effect_value Effect_resolved = ''resolved''"
| "audit_effect_value Effect_shrunk = ''affected_set_shrunk''"

fun decision_kind_text :: "decision_kind \<Rightarrow> string" where
  "decision_kind_text Kind_problem = ''problem''"
| "decision_kind_text Kind_recovery = ''recovery''"
| "decision_kind_text Kind_noop = ''noop''"

fun resolution_text :: "recovery_resolution \<Rightarrow> string" where
  "resolution_text Resolution_noop = ''noop''"
| "resolution_text Resolution_shrunk = ''affected_set_shrunk''"
| "resolution_text Resolution_resolved = ''resolved''"

definition audit_summary_json :: "audit_summary \<Rightarrow> json" where
  "audit_summary_json a =
     JObj [(''schema_version'', JInt 1), (''decision_kind'', JStr (decision_kind_text (as_decision_kind a))),
       (''incident_effect'', JStr (audit_effect_value (as_incident_effect a))), (''rule_name'', opt_json (as_rule_name a)),
       (''group_key'', opt_json (as_group_key a)), (''incident_ids'', strings_json (as_incident_ids a)),
       (''affected_incident_count'', JInt (as_affected_incident_count a)),
       (''incident_ids_truncated'', JBool (as_incident_ids_truncated a)), (''decision_reason'', opt_json (as_decision_reason a)),
       (''no_dispatch_reason'', opt_json (as_no_dispatch_reason a)),
       (''notification_intent'', JStr (if as_dispatch_planned a then ''dispatch_planned'' else ''no_dispatch'')),
       (''counted_count'', opt_int_json (as_counted_count a)), (''threshold_count'', opt_int_json (as_threshold_count a)),
       (''threshold_crossed'', opt_bool_json (as_threshold_crossed a)), (''replay'', opt_bool_json (as_replay a)),
       (''first_threshold_transition'', opt_bool_json (as_first_threshold_transition a)),
       (''recovery_resolution'', opt_json (map_option resolution_text (as_recovery_resolution a))),
       (''affected_object_removed'', opt_bool_json (as_affected_object_removed a))]"

section \<open>Rows\<close>

definition opt_cell :: "('a \<Rightarrow> cell) \<Rightarrow> 'a option \<Rightarrow> cell" where
  "opt_cell f v = (case v of None \<Rightarrow> Cell_null | Some x \<Rightarrow> f x)"

definition incident_cells :: "(int \<Rightarrow> string) \<Rightarrow> incident \<Rightarrow> cells" where
  "incident_cells time_text r =
     [(''id'', Cell_uuid (inc_id r)), (''rule_name'', Cell_text (inc_rule_name r)),
      (''group_key'', Cell_text (inc_group_key r)), (''status'', Cell_text (incident_status_value (inc_status r))),
      (''severity'', Cell_text (inc_severity r)), (''summary'', Cell_text (inc_summary r)),
      (''event_count'', Cell_int (inc_event_count r)),
      (''affected_hosts'', Cell_json (strings_json (inc_affected_hosts r))),
      (''affected_services'', Cell_json (strings_json (inc_affected_services r))),
      (''decision_context'', Cell_json (decision_context_json (inc_decision_context r))),
      (''window_state'', Cell_json (window_state_json time_text (inc_window_state r))),
      (''threshold_crossed'', Cell_bool (inc_threshold_crossed r)),
      (''notified_at'', opt_cell Cell_time (inc_notified_at r)), (''start_time'', Cell_time (inc_start_time r)),
      (''last_update_time'', Cell_time (inc_last_update_time r)),
      (''acknowledged_at'', opt_cell Cell_time (inc_acknowledged_at r)),
      (''acknowledged_by'', opt_cell Cell_text (inc_acknowledged_by r)),
      (''resolved_at'', opt_cell Cell_time (inc_resolved_at r)), (''closed_at'', opt_cell Cell_time (inc_closed_at r)),
      (''created_at'', Cell_time (inc_created_at r)), (''updated_at'', Cell_time (inc_updated_at r))]"

definition audit_cells :: "audit_event \<Rightarrow> cells" where
  "audit_cells r =
     [(''id'', Cell_uuid (ae_id r)), (''accepted_at'', Cell_time (ae_accepted_at r)),
      (''event_timestamp'', Cell_time (ae_event_timestamp r)), (''source_id'', Cell_text (ae_source_id r)),
      (''fingerprint'', Cell_text (ae_fingerprint r)), (''event_type'', Cell_text (ae_event_type r)),
      (''severity'', Cell_text (ae_severity r)), (''host'', Cell_text (ae_host r)),
      (''service'', opt_cell Cell_text (ae_service r)),
      (''incident_ids'', Cell_json (strings_json (ae_incident_ids r))),
      (''incident_effect'', Cell_text (audit_effect_value (ae_incident_effect r))),
      (''decision_summary'', Cell_json (audit_summary_json (ae_decision_summary r))),
      (''normalized_event'', Cell_json (JObj (ae_normalized_event r))), (''raw_payload'', Cell_json (JObj (ae_raw_payload r))),
      (''raw_payload_original_byte_length'', Cell_int (ae_original_byte_length r)),
      (''raw_payload_stored_byte_length'', Cell_int (ae_stored_byte_length r)),
      (''raw_payload_truncated'', Cell_bool (ae_truncated r)),
      (''redaction_version'', Cell_int (ae_redaction_version r)),
      (''redacted_path_count'', Cell_int (ae_redacted_path_count r)),
      (''raw_payload_hmac'', Cell_text (ae_payload_hmac r))]"

section \<open>The migrated schema\<close>

definition migrated :: schema where
  "migrated = the (upgrade_head empty_schema)"

definition migrated_table :: "string \<Rightarrow> table_def" where
  "migrated_table t = the (map_of (sc_tables migrated) t)"

lemma upgrade_head_migrated: "upgrade_head empty_schema = Some migrated"
proof -
  have "upgrade_head empty_schema \<noteq> None" by code_simp
  then show ?thesis by (auto simp: migrated_def)
qed

lemma migrated_tables:
  "migrated_table ''incidents'' = incidents_table\<lparr>td_columns := td_columns incidents_table @
     [col ''window_state'' Sql_jsonb False (Some ''{}''), col ''threshold_crossed'' Sql_boolean False (Some ''false''),
      col ''notified_at'' Sql_timestamp True None]\<rparr>"
  "migrated_table ''incident_events'' = incident_events_table"
  by code_simp+

lemma same_mset:
  "distinct xs \<Longrightarrow> distinct ys \<Longrightarrow> list_all (\<lambda>x. x \<in> set ys) xs \<Longrightarrow> list_all (\<lambda>y. y \<in> set xs) ys \<Longrightarrow> mset xs = mset ys"
  by (auto simp: list_all_iff set_eq_iff_mset_eq_distinct [symmetric])

text \<open>
  C20: the migrations build what the code declares.  Run from an empty database they succeed and give
  exactly the two declared tables; each has, up to the order of the columns, exactly the columns of
  its model, with the same types, nullability and key, and the one unique index of the schema is the
  partial index that makes an open incident unique for its rule and group.
\<close>

theorem migrations_match_models:
  "\<exists>s. upgrade_head empty_schema = Some s \<and> dict_keys (sc_tables s) = map fst declared_tables \<and>
     list_all (\<lambda>(t, ds). \<exists>d. map_of (sc_tables s) t = Some d \<and> mset (map declared_of (td_columns d)) = mset ds) declared_tables \<and>
     filter (\<lambda>(n, ix). ix_unique ix) (sc_indexes s) =
       [(''incidents_one_open_per_rule_group'',
         \<lparr>ix_table = ''incidents'', ix_keys = [Key_column ''rule_name'', Key_column ''group_key''], ix_unique = True,
          ix_where = Some (''status'', ''OPEN''), ix_using = None\<rparr>)]"
proof -
  have "dict_keys (sc_tables migrated) = map fst declared_tables" by code_simp
  moreover have "list_all (\<lambda>(t, ds). case map_of (sc_tables migrated) t of None \<Rightarrow> False
      | Some d \<Rightarrow> distinct ds \<and> distinct (map declared_of (td_columns d)) \<and>
          list_all (\<lambda>x. x \<in> set ds) (map declared_of (td_columns d)) \<and>
          list_all (\<lambda>x. x \<in> set (map declared_of (td_columns d))) ds) declared_tables"
    by code_simp
  then have "list_all (\<lambda>(t, ds). \<exists>d. map_of (sc_tables migrated) t = Some d \<and> mset (map declared_of (td_columns d)) = mset ds)
      declared_tables"
    by (rule list.pred_mono_strong) (auto simp del: mset_map intro!: same_mset split: option.splits)
  moreover have "filter (\<lambda>(n, ix). ix_unique ix) (sc_indexes migrated) =
       [(''incidents_one_open_per_rule_group'',
         \<lparr>ix_table = ''incidents'', ix_keys = [Key_column ''rule_name'', Key_column ''group_key''], ix_unique = True,
          ix_where = Some (''status'', ''OPEN''), ix_using = None\<rparr>)]"
    by code_simp
  ultimately show ?thesis using upgrade_head_migrated by blast
qed

section \<open>Every row is accepted\<close>

text \<open>
  The incidents that PostgreSQL can represent: no NUL in a text or a document, a count of four bytes.
\<close>

definition representable :: "(int \<Rightarrow> string) \<Rightarrow> incident \<Rightarrow> bool" where
  "representable time_text r \<longleftrightarrow>
     no_nul (inc_rule_name r) \<and> no_nul (inc_group_key r) \<and> no_nul (inc_summary r) \<and>
     (case inc_acknowledged_by r of None \<Rightarrow> True | Some operator \<Rightarrow> no_nul operator) \<and>
     list_all no_nul (inc_affected_hosts r) \<and> list_all no_nul (inc_affected_services r) \<and>
     json_no_nul (decision_context_json (inc_decision_context r)) \<and>
     json_no_nul (window_state_json time_text (inc_window_state r)) \<and> int4 (inc_event_count r)"

lemma strings_json_facts [simp]:
  "json_no_nul (strings_json xs) = list_all no_nul xs" "\<exists>ys. strings_json xs = JList ys"
  by (simp_all add: strings_json_def list_all_iff)

lemma document_objects: "\<exists>kvs. decision_context_json d = JObj kvs" "\<exists>kvs. window_state_json time_text w = JObj kvs"
  by (auto simp: decision_context_json_def window_state_json_def split: option.split)

lemma json_checks:
  "map_of row c = Some (Cell_json (strings_json xs)) \<Longrightarrow> check_holds row (Check_json_array c)"
  "map_of row c = Some (Cell_json (decision_context_json d)) \<Longrightarrow> check_holds row (Check_json_object c)"
  "map_of row c = Some (Cell_json (window_state_json time_text w)) \<Longrightarrow> check_holds row (Check_json_object c)"
  "map_of row c = Some (Cell_json (audit_summary_json a)) \<Longrightarrow> check_holds row (Check_json_object c)"
  "map_of row c = Some (Cell_json (JObj kvs)) \<Longrightarrow> check_holds row (Check_json_object c)"
  using document_objects(1) [of d] document_objects(2) [of time_text w]
  by (auto simp: check_holds_def strings_json_def audit_summary_json_def)

lemma known_texts_no_nul:
  "inc_severity r \<in> {''OK'', ''WARNING'', ''UNKNOWN'', ''CRITICAL''} \<Longrightarrow> no_nul (inc_severity r)"
  "no_nul (incident_status_value st)" "no_nul (audit_effect_value eff)"
  "no_nul (decision_kind_text k)" "no_nul (resolution_text res)"
proof -
  show "inc_severity r \<in> {''OK'', ''WARNING'', ''UNKNOWN'', ''CRITICAL''} \<Longrightarrow> no_nul (inc_severity r)"
    by (auto simp: no_nul_def)
  show "no_nul (incident_status_value st)" by (cases st) (simp_all add: no_nul_def)
  show "no_nul (audit_effect_value eff)" by (cases eff) (simp_all add: no_nul_def)
  show "no_nul (decision_kind_text k)" by (cases k) (simp_all add: no_nul_def)
  show "no_nul (resolution_text res)" by (cases res) (simp_all add: no_nul_def)
qed

lemma cell_fits_simps:
  "cell_fits c (Cell_uuid u) \<longleftrightarrow> cl_type c = Sql_uuid" "cell_fits c (Cell_text s) \<longleftrightarrow> cl_type c = Sql_string \<and> no_nul s"
  "cell_fits c (Cell_int i) \<longleftrightarrow> cl_type c = Sql_integer \<and> int4 i" "cell_fits c (Cell_bool b) \<longleftrightarrow> cl_type c = Sql_boolean"
  "cell_fits c (Cell_json j) \<longleftrightarrow> cl_type c = Sql_jsonb \<and> json_no_nul j" "cell_fits c (Cell_time t) \<longleftrightarrow> cl_type c = Sql_timestamp"
  by (simp_all add: cell_fits_def)

lemma cell_fits_optional:
  assumes "cl_nullable c"
  shows "cl_type c = Sql_timestamp \<Longrightarrow> cell_fits c (opt_cell Cell_time v)"
    "cl_type c = Sql_string \<Longrightarrow> cell_fits c (opt_cell Cell_text x) \<longleftrightarrow> (case x of None \<Rightarrow> True | Some s \<Rightarrow> no_nul s)"
  using assms by (auto simp: cell_fits_def opt_cell_def split: option.split)

lemma incident_cells_fit:
  assumes "no_nul (inc_severity r)"
  shows "list_all (\<lambda>c. case map_of (incident_cells time_text r) (cl_name c) of None \<Rightarrow> False | Some v \<Rightarrow> cell_fits c v)
      (td_columns (migrated_table ''incidents'')) \<longleftrightarrow> representable time_text r"
  using assms known_texts_no_nul(2) [of "inc_status r"]
  by (simp add: migrated_tables incidents_table_def key_col_def col_def incident_cells_def cell_fits_simps
      cell_fits_optional representable_def conj_ac)

lemma incident_checks_hold:
  assumes "inc_severity r \<in> {''OK'', ''WARNING'', ''UNKNOWN'', ''CRITICAL''}" "1 \<le> inc_event_count r"
  shows "list_all (\<lambda>(n, cs). list_all (check_holds (incident_cells time_text r)) cs) (td_checks (migrated_table ''incidents''))"
proof -
  have "incident_status_value (inc_status r) \<in> {''OPEN'', ''RESOLVED'', ''CLOSED''}"
    by (cases "inc_status r") simp_all
  with assms show ?thesis
    by (simp add: migrated_tables incidents_table_def incident_cells_def check_holds_def severities_check_def)
qed

lemma incident_row_accepted:
  assumes "incident_inv r"
  shows "row_accepted (migrated_table ''incidents'') (incident_cells time_text r) \<longleftrightarrow> representable time_text r"
proof -
  have known: "inc_severity r \<in> {''OK'', ''WARNING'', ''UNKNOWN'', ''CRITICAL''}" "1 \<le> inc_event_count r"
    using assms(1) by (simp_all add: incident_inv_def severity_known_def)
  show ?thesis
    unfolding row_accepted_def incident_cells_fit [OF known_texts_no_nul(1) [OF known(1)]]
    using incident_checks_hold [OF known] by simp
qed

text \<open>What the summary of an audit row adds to the texts that the insertion checks.\<close>

definition summary_texts_covered :: "audit_event \<Rightarrow> bool" where
  "summary_texts_covered r \<longleftrightarrow>
     set (as_incident_ids (ae_decision_summary r)) \<subseteq> set (ae_incident_ids r) \<and>
     (\<forall>s. as_no_dispatch_reason (ae_decision_summary r) = Some s \<longrightarrow>
        no_nul s \<or> as_decision_reason (ae_decision_summary r) = Some s)"

lemma audit_summary_no_nul:
  assumes "row_storable r" "summary_texts_covered r"
  shows "json_no_nul (audit_summary_json (ae_decision_summary r))"
proof -
  let ?a = "ae_decision_summary r"
  have opt: "json_no_nul (opt_json x)" if "\<And>s. x = Some s \<Longrightarrow> no_nul s" for x
    using that by (simp add: opt_json_def split: option.split)
  have plain: "json_no_nul (opt_int_json i)" "json_no_nul (opt_bool_json b)" for i b
    by (simp_all add: opt_int_json_def opt_bool_json_def split: option.split)
  have ids: "list_all no_nul (as_incident_ids ?a)"
    using assms by (auto simp: row_storable_def summary_texts_covered_def list_all_iff)
  have "json_no_nul (opt_json (as_rule_name ?a))" "json_no_nul (opt_json (as_group_key ?a))"
    "json_no_nul (opt_json (as_decision_reason ?a))" "json_no_nul (opt_json (as_no_dispatch_reason ?a))"
    "json_no_nul (opt_json (map_option resolution_text (as_recovery_resolution ?a)))"
    using assms by (auto intro!: opt simp: row_storable_def summary_texts_covered_def known_texts_no_nul)
  then show ?thesis
    unfolding audit_summary_json_def using plain ids
    by (simp add: known_texts_no_nul) (simp add: no_nul_def)
qed

lemma audit_row_accepted:
  assumes "event_type_of (ae_event_type r) = Inr ty" "ae_severity r \<in> {''OK'', ''WARNING'', ''UNKNOWN'', ''CRITICAL''}"
    and "0 \<le> ae_stored_byte_length r" "ae_stored_byte_length r \<le> ae_original_byte_length r"
    and "ae_redaction_version r = redaction_version" "0 \<le> ae_redacted_path_count r"
    and "row_storable r" "summary_texts_covered r"
  shows "row_accepted (migrated_table ''incident_events'') (audit_cells r)"
proof -
  have effect: "audit_effect_value (ae_incident_effect r) \<in> {''none'', ''inserted'', ''updated'', ''resolved'', ''affected_set_shrunk''}"
    by (cases "ae_incident_effect r") simp_all
  have type: "ae_event_type r \<in> {''PROBLEM'', ''RECOVERY''}"
    using assms(1) by (auto simp: event_type_of_def split: if_splits)
  have storable: "list_all no_nul [ae_source_id r, ae_fingerprint r, ae_event_type r, ae_severity r, ae_host r, ae_payload_hmac r]"
    "case ae_service r of None \<Rightarrow> True | Some s \<Rightarrow> no_nul s" "list_all no_nul (ae_incident_ids r)"
    "json_no_nul (JObj (ae_normalized_event r))" "json_no_nul (JObj (ae_raw_payload r))"
    "int4 (ae_original_byte_length r)" "int4 (ae_stored_byte_length r)" "int4 (ae_redaction_version r)" "int4 (ae_redacted_path_count r)"
    using assms(7) by (auto simp: row_storable_def int4_def int4_ok_def)
  show ?thesis
    using assms(2-6) effect type storable audit_summary_no_nul [OF assms(7,8)] known_texts_no_nul(3) [of "ae_incident_effect r"]
    by (simp add: migrated_tables row_accepted_def incident_events_table_def key_col_def col_def audit_cells_def cell_fits_def
        check_holds_def [of _ "Check_in c vs" for c vs] check_holds_def [of _ "Check_at_least c n" for c n]
        check_holds_def [of _ "Check_le a b" for a b] json_checks severities_check_def opt_cell_def redaction_version_def
        split: option.splits)
qed

lemma built_summary_covered:
  assumes "build_audit_summary m matched_rules a lr reason = Inr summary"
  shows "summary_texts_covered (audit_row x e lr summary redacted)"
proof -
  have texts: "no_nul (no_dispatch_reason_value r)" for r
    by (cases r) (simp_all add: no_nul_def)
  show ?thesis
  proof (cases lr)
    case (Some l)
    with assms have "summary = \<lparr>as_decision_kind = Kind_recovery, as_incident_effect = recovery_incident_effect l,
         as_rule_name = None, as_group_key = None, as_incident_ids = map uuid_str (take audit_incident_ids_cap (lr_incident_ids l)),
         as_affected_incident_count = int (length (lr_incident_ids l)),
         as_incident_ids_truncated = (audit_incident_ids_cap < length (lr_incident_ids l)),
         as_decision_reason = Some ''source_recovery'', as_no_dispatch_reason = None,
         as_dispatch_planned = False, as_counted_count = None, as_threshold_count = None,
         as_threshold_crossed = None, as_replay = None, as_first_threshold_transition = None,
         as_recovery_resolution = Some (recovery_resolution_for_audit l),
         as_affected_object_removed = Some (lr_affected_object_removed l)\<rparr>"
      by (simp add: build_audit_summary_def build_recovery_audit_summary_def incident_ids_for_audit_def
          audit_summary_validate_def split: if_splits)
    with Some show ?thesis
      by (auto simp: summary_texts_covered_def audit_row_def dest: in_set_takeD)
  next
    case None
    with assms texts show ?thesis
      by (auto simp: summary_texts_covered_def audit_row_def build_audit_summary_def build_problem_audit_summary_def
          build_noop_audit_summary_def audit_summary_validate_def or_else_def no_nul_def Let_def
          split: option.splits if_splits)
  qed
qed

text \<open>
  C19: the types and the check constraints of the migrated schema reject nothing that a request writes.
  Every audit row that it stores has a value of the right type in each column, without a NUL character
  and within four bytes where the column is an integer, a JSON array or object where a constraint asks
  for one, and satisfies all check constraints; a row with a NUL is refused by its insertion.  Every
  incident of a table that satisfies the invariant, and so of every reachable one, is accepted exactly
  when PostgreSQL can represent it, that is, when none of its texts and documents holds a NUL and its
  count fits four bytes.
\<close>

theorem written_rows_accepted:
  assumes "process_payload x pc q p w = (w', res)" "table_inv (w_incidents w)"
  shows "(\<forall>r \<in> set (w_incidents w').
       row_accepted (migrated_table ''incidents'') (incident_cells time_text r) \<longleftrightarrow> representable time_text r) \<and>
    (\<forall>row \<in> set (drop (length (w_audit w)) (w_audit w')).
       row_accepted (migrated_table ''incident_events'') (audit_cells row))"
proof
  obtain ds where "db_run (w_incidents w) ds (w_incidents w')" using ingress_run [OF assms(1)] by blast
  from db_run_inv [OF this assms(2)] have "\<forall>r \<in> set (w_incidents w'). incident_inv r"
    by (simp add: table_inv_def list_all_iff)
  then show "\<forall>r \<in> set (w_incidents w').
       row_accepted (migrated_table ''incidents'') (incident_cells time_text r) \<longleftrightarrow> representable time_text r"
    by (simp add: incident_row_accepted)
  show "\<forall>row \<in> set (drop (length (w_audit w)) (w_audit w')).
       row_accepted (migrated_table ''incident_events'') (audit_cells row)"
  proof
    fix row assume new: "row \<in> set (drop (length (w_audit w)) (w_audit w'))"
    from assms(1) show "row_accepted (migrated_table ''incident_events'') (audit_cells row)"
    proof (cases rule: process_payload_cases)
      case (unchanged ms)
      with new show ?thesis by simp
    next
      case (committed event e ds d ms ms' t' a' c)
      from committed(4) obtain summary redacted where
        sm: "build_audit_summary (matched d) (matched_rules_of d) (cm_aggregation c) (cm_lifecycle c) (noop_reason_of d) = Inr summary"
        and rp: "redact_payload (x_hmac x) (Some (payload_json (x_time_json x) p)) (pc_max_bytes pc) (pc_hmac_key pc) = Inr redacted"
        and r: "cm_row c = (audit_row x e (cm_lifecycle c) summary redacted)\<lparr>ae_id := rq_audit_id q, ae_accepted_at := rq_now q\<rparr>"
        and a': "a' = w_audit w @ [cm_row c]" and storable: "row_storable (cm_row c)"
        by (rule ingress_transactionD)
      have "w_audit w' = a'"
        using after_commit_submitted [OF committed(5)] planned_cases [of "cm_aggregation c"]
        by (auto simp: submitted_def)
      with new a' have mine: "row = cm_row c" by simp
      then have row: "row = (audit_row x e (cm_lifecycle c) summary redacted)\<lparr>ae_id := rq_audit_id q, ae_accepted_at := rq_now q\<rparr>"
        by (simp add: r)
      have "dict_wf (payload_json (x_time_json x) p)" by (simp add: payload_json_def dict_wf_def)
      note f = redact_payload_facts [OF rp this]
      have "0 \<le> object_bytes d" for d by (simp add: object_bytes_def)
      with f rp have bytes: "0 \<le> ae_stored_byte_length row" "ae_stored_byte_length row \<le> ae_original_byte_length row"
        "ae_redaction_version row = redaction_version" "0 \<le> ae_redacted_path_count row"
        by (auto simp: row audit_row_def redact_payload_def Let_def split: if_splits prod.splits)
      have "\<exists>ty. event_type_of (ae_event_type row) = Inr ty"
        by (cases "ev_event_type e") (simp_all add: row audit_row_def event_type_of_def)
      moreover have "ae_severity row \<in> {''OK'', ''WARNING'', ''UNKNOWN'', ''CRITICAL''}"
        using severity_known_value [of "ev_severity e"] by (simp add: row audit_row_def severity_known_def)
      moreover have "summary_texts_covered row"
        using built_summary_covered [OF sm, of x e redacted] by (simp add: row summary_texts_covered_def)
      ultimately show ?thesis using audit_row_accepted bytes storable mine by blast
    qed
  qed
qed

end
