(* ===== verification/Logging.thy ===== *)
theory Logging
  imports AsciiJson PyTime
begin

text \<open>
  The JSON log lines (\<open>app/processing/logging.py\<close>): the allowlist of fields, the closed vocabularies of
  the operational events, the extras that callers build and the formatter.  An object carries what
  \<open>str()\<close> gives for it; a time of creation is in microseconds.
\<close>

section \<open>Values\<close>

text \<open>A float carries its text; any other object carries what \<open>str()\<close> gives, and whether it is hashable.\<close>

datatype log_value =
    Lg_none
  | Lg_bool bool
  | Lg_int int
  | Lg_float string
  | Lg_str string
  | Lg_object bool string

type_synonym log_fields = "(string, log_value) dict"

fun is_scalar :: "log_value \<Rightarrow> bool" where
  "is_scalar (Lg_object h s) = False"
| "is_scalar v = True"

fun scalar_json :: "log_value \<Rightarrow> json" where
  "scalar_json Lg_none = JNull"
| "scalar_json (Lg_bool b) = JBool b"
| "scalar_json (Lg_int i) = JInt i"
| "scalar_json (Lg_float r) = JFloat r"
| "scalar_json (Lg_str s) = JStr s"
| "scalar_json (Lg_object h s) = JStr s"

section \<open>Vocabularies\<close>

definition safe_log_keys :: "string list" where
  "safe_log_keys =
     [''event'', ''event_type'', ''incident_id'', ''rule_name'', ''group_key'', ''status'', ''severity'', ''reason'',
      ''category'', ''plugin_name'', ''task_name'', ''exception_type'', ''effect'', ''operator'', ''count'',
      ''matched_rule_count'', ''notification_count'', ''closure_count'', ''expired_count'', ''previous_host_count'',
      ''previous_service_count'', ''affected_object_removed'', ''healthy'', ''ready'', ''route_class'', ''identity_hash'',
      ''content_length'', ''retry_after'', ''limit'', ''window_seconds'', ''operation'', ''outcome'', ''failure_code'',
      ''issue_count'', ''issues_truncated'', ''entry_position'', ''state'']"

text \<open>The attributes of a fresh \<open>LogRecord\<close> of the standard library.\<close>

definition reserved_log_keys :: "string list" where
  "reserved_log_keys =
     [''name'', ''msg'', ''args'', ''levelname'', ''levelno'', ''pathname'', ''filename'', ''module'', ''exc_info'',
      ''exc_text'', ''stack_info'', ''lineno'', ''funcName'', ''created'', ''msecs'', ''relativeCreated'', ''thread'',
      ''threadName'', ''processName'', ''process'', ''taskName'']"

text \<open>A field of an operational event has its words, is a flag, or is a small count.\<close>

datatype field_schema = Words "string list" | Flag | Count_field

definition operational_event_schemas :: "(string \<times> (string \<times> field_schema) list) list" where
  "operational_event_schemas =
     [(''compatibility_mutation'',
        [(''event'', Words [''compatibility_mutation'']),
         (''operation'', Words [''patch'', ''patch_acknowledge'', ''patch_close'', ''delete_close'']),
         (''outcome'', Words [''success'', ''not_found'', ''invalid_status'', ''invalid_transition''])]),
      (''audit_write'',
        [(''event'', Words [''audit_write'']), (''outcome'', Words [''success'', ''failure''])]),
      (''migration_terminal'',
        [(''event'', Words [''migration_terminal'']), (''outcome'', Words [''success'', ''failure'']),
         (''failure_code'', Words [''none'', ''argument'', ''input_validation'', ''source_validation'',
            ''cataloged_incompatibility'', ''staged_validation'', ''promotion_failure'', ''report_emission'']),
         (''issue_count'', Count_field), (''issues_truncated'', Flag)]),
      (''plugin_load'',
        [(''event'', Words [''plugin_load'']), (''outcome'', Words [''success'', ''failure'']),
         (''category'', Words [''email'', ''unknown'']),
         (''failure_code'', Words [''none'', ''registry_entry'', ''module_or_class'', ''interface'', ''constructor'', ''status'']),
         (''entry_position'', Count_field)]),
      (''notification_submission'',
        [(''event'', Words [''notification_submission'']),
         (''outcome'', Words [''accepted'', ''missing_runner'', ''missing_plugin'', ''submit_failed''])]),
      (''notification_delivery'',
        [(''event'', Words [''notification_delivery'']), (''outcome'', Words [''success'', ''failure'']),
         (''category'', Words [''dispatched'', ''missing_plugin'', ''missing_incident'', ''plugin_exception'', ''dispatch_failed''])]),
      (''readiness'',
        [(''event'', Words [''readiness'']),
         (''category'', Words [''aggregate'', ''database'', ''settings'', ''rules_config'', ''topology_config'',
            ''plugin_registry'', ''plugins'', ''lifecycle_worker'', ''email'']),
         (''state'', Words [''ready'', ''not_ready'', ''not_configured''])])]"

section \<open>Filtering\<close>

text \<open>
  Membership in a frozenset: an object that is not hashable raises, and a number equal to 0 or 1 is a
  member of the flags.
\<close>

definition is_flag :: "log_value \<Rightarrow> bool" where
  "is_flag v = (case v of
     Lg_bool b \<Rightarrow> True
   | Lg_int i \<Rightarrow> i = 0 \<or> i = 1
   | Lg_float r \<Rightarrow> r \<in> {''0.0'', ''-0.0'', ''1.0''}
   | _ \<Rightarrow> False)"

definition small_count :: "string \<Rightarrow> log_value \<Rightarrow> bool" where
  "small_count key v =
     (case v of Lg_int i \<Rightarrow> 0 \<le> i \<and> i \<le> (if key = ''issue_count'' then 1000 else 100) | _ \<Rightarrow> False)"

definition field_allowed :: "string \<Rightarrow> field_schema \<Rightarrow> log_value \<Rightarrow> bool result" where
  "field_allowed key schema v =
     (case schema of
        Count_field \<Rightarrow> Inr (small_count key v)
      | Flag \<Rightarrow> (case v of Lg_object False s \<Rightarrow> Inl TypeError | _ \<Rightarrow> Inr (is_flag v))
      | Words ws \<Rightarrow>
          (case v of Lg_object False s \<Rightarrow> Inl TypeError | Lg_str s \<Rightarrow> Inr (s \<in> set ws) | _ \<Rightarrow> Inr False))"

definition get_field :: "string \<Rightarrow> log_fields \<Rightarrow> log_value" where
  "get_field k fs = (case map_of fs k of None \<Rightarrow> Lg_none | Some v \<Rightarrow> v)"

fun filter_schema :: "(string \<times> field_schema) list \<Rightarrow> log_fields \<Rightarrow> log_fields result" where
  "filter_schema [] fs = Inr []"
| "filter_schema ((key, schema) # rest) fs =
     rbind (field_allowed key schema (get_field key fs)) (\<lambda>allowed.
     rbind (filter_schema rest fs) (\<lambda>out.
     Inr (if allowed then (key, get_field key fs) # out else out)))"

definition schema_of :: "log_fields \<Rightarrow> (string \<times> field_schema) list option" where
  "schema_of fs = (case map_of fs ''event'' of Some (Lg_str e) \<Rightarrow> map_of operational_event_schemas e | _ \<Rightarrow> None)"

definition safe_field :: "string \<times> log_value \<Rightarrow> bool" where
  "safe_field = (\<lambda>(k, v). k \<in> set safe_log_keys \<and> k \<notin> set reserved_log_keys \<and> is_scalar v)"

definition filter_operational_event_fields :: "log_fields \<Rightarrow> log_fields result" where
  "filter_operational_event_fields fs =
     (case schema_of fs of None \<Rightarrow> Inr (filter safe_field fs) | Some schema \<Rightarrow> filter_schema schema fs)"

fun scalar_or_str :: "log_value \<Rightarrow> log_value" where
  "scalar_or_str (Lg_object h s) = Lg_str s"
| "scalar_or_str v = v"

definition safe_log_extra :: "log_fields \<Rightarrow> log_fields result" where
  "safe_log_extra fs =
     filter_operational_event_fields
       (map (\<lambda>(k, v). (k, scalar_or_str v))
          (filter (\<lambda>(k, v). k \<in> set safe_log_keys \<and> k \<notin> set reserved_log_keys) fs))"

definition operational_log_extra :: "log_fields \<Rightarrow> log_fields result" where
  "operational_log_extra fs = filter_operational_event_fields fs"

section \<open>The formatter\<close>

text \<open>\<open>isoformat(timespec="milliseconds")\<close> of an instant in UTC.\<close>

definition log_timestamp :: "int \<Rightarrow> string" where
  "log_timestamp created =
     (let day = 86400 * second;
          (y, m, dd) = civil_from_days (created div day);
          us = created mod day; sec = us div second
      in pad_int 4 y @ ''-'' @ pad_int 2 m @ ''-'' @ pad_int 2 dd @ ''T'' @
         pad_int 2 (sec div 3600) @ '':'' @ pad_int 2 (sec div 60 mod 60) @ '':'' @ pad_int 2 (sec mod 60) @
         ''.'' @ pad_int 3 (us mod second div 1000) @ ''+00:00'')"

text \<open>A record: \<open>lg_dict\<close> is its \<open>__dict__\<close>, the standard attributes followed by the extra.\<close>

record log_record =
  lg_created :: int
  lg_levelname :: string
  lg_name :: string
  lg_message :: string
  lg_dict :: log_fields

definition log_payload :: "log_record \<Rightarrow> log_fields result" where
  "log_payload r =
     rbind (filter_operational_event_fields (lg_dict r)) (\<lambda>fs.
     Inr (dict_merge [(''ts'', Lg_str (log_timestamp (lg_created r))), (''level'', Lg_str (lg_levelname r)),
                      (''logger'', Lg_str (lg_name r)), (''msg'', Lg_str (lg_message r))] fs))"

definition format_record :: "log_record \<Rightarrow> string result" where
  "format_record r =
     rbind (log_payload r) (\<lambda>fs.
     Inr (ascii_dumps (JObj (sort_key fst (map (\<lambda>(k, v). (k, scalar_json v)) fs)))))"

text \<open>\<open>Logger.makeRecord\<close>: an extra may not replace an attribute of the record.\<close>

definition make_record :: "log_record \<Rightarrow> log_fields \<Rightarrow> log_record result" where
  "make_record r extra =
     (if list_ex (\<lambda>(k, v). k \<in> {''message'', ''asctime''} \<or> k \<in> set (dict_keys (lg_dict r))) extra then Inl KeyError
      else Inr (r\<lparr>lg_dict := lg_dict r @ extra\<rparr>))"

section \<open>What a line holds\<close>

lemma scalar_scalar_or_str: "is_scalar (scalar_or_str v)"
  by (cases v) auto

lemma field_allowed_none: "field_allowed k schema Lg_none = Inr False"
  by (cases schema) (simp_all add: field_allowed_def small_count_def is_flag_def)

lemma field_allowed_scalar: "field_allowed k schema v = Inr True \<Longrightarrow> is_scalar v"
  by (cases schema; cases v) (auto simp: field_allowed_def small_count_def is_flag_def split: if_splits bool.splits)

lemma filter_schema_Cons:
  "filter_schema ((key, schema) # rest) fs = Inr out \<longleftrightarrow>
     (\<exists>allowed out'. field_allowed key schema (get_field key fs) = Inr allowed \<and> filter_schema rest fs = Inr out' \<and>
        out = (if allowed then (key, get_field key fs) # out' else out'))"
  by (auto simp: result_simps)

lemma filter_schema_sound:
  "filter_schema schema fs = Inr out \<Longrightarrow> (k, v) \<in> set out \<Longrightarrow>
     v = get_field k fs \<and> (\<exists>sc. (k, sc) \<in> set schema \<and> field_allowed k sc v = Inr True)"
  by (induction schema fs arbitrary: out rule: filter_schema.induct)
    (fastforce simp: filter_schema_Cons simp del: filter_schema.simps(2) split: if_splits)+

lemma filter_schema_keys: "filter_schema schema fs = Inr out \<Longrightarrow> set (dict_keys out) \<subseteq> fst ` set schema"
  by (force dest: filter_schema_sound)

lemma filter_schema_distinct:
  "filter_schema schema fs = Inr out \<Longrightarrow> distinct (map fst schema) \<Longrightarrow> dict_wf out"
proof (induction schema arbitrary: out)
  case (Cons x rest)
  obtain key sc where x: "x = (key, sc)" by (cases x)
  from Cons.prems(1) obtain allowed out' where a: "filter_schema rest fs = Inr out'"
    "out = (if allowed then (key, get_field key fs) # out' else out')"
    unfolding x filter_schema_Cons by blast
  from filter_schema_keys [OF a(1)] Cons.prems(2) have "key \<notin> set (dict_keys out')" by (auto simp: x)
  moreover have "dict_wf out'" using Cons a(1) by simp
  ultimately show ?case using a(2) by (simp add: dict_wf_def)
qed (simp add: dict_wf_def)

text \<open>Every schema has distinct fields that are safe, the first of which is the name of its event.\<close>

lemma schemas_ok:
  assumes "map_of operational_event_schemas e = Some schema"
  shows "distinct (map fst schema)" "set (map fst schema) \<subseteq> set safe_log_keys"
    "map_of schema ''event'' = Some (Words [e])"
proof -
  have "\<forall>x \<in> set operational_event_schemas. distinct (map fst (snd x)) \<and>
      set (map fst (snd x)) \<subseteq> set safe_log_keys \<and> map_of (snd x) ''event'' = Some (Words [fst x])"
    by code_simp
  from bspec [OF this map_of_SomeD [OF assms]] show "distinct (map fst schema)" "set (map fst schema) \<subseteq> set safe_log_keys"
    "map_of schema ''event'' = Some (Words [e])" unfolding fst_conv snd_conv by blast+
qed

lemma safe_not_reserved: "k \<in> set safe_log_keys \<Longrightarrow> k \<notin> set reserved_log_keys \<and> k \<notin> {''ts'', ''level'', ''logger'', ''msg''}"
proof -
  have "\<forall>k \<in> set safe_log_keys. k \<notin> set reserved_log_keys \<and> k \<notin> {''ts'', ''level'', ''logger'', ''msg''}" by code_simp
  then show "k \<in> set safe_log_keys \<Longrightarrow> k \<notin> set reserved_log_keys \<and> k \<notin> {''ts'', ''level'', ''logger'', ''msg''}" by blast
qed

text \<open>A second filtering changes nothing.\<close>

lemma filter_schema_again:
  assumes "\<And>k sc. (k, sc) \<in> set schema \<Longrightarrow>
      \<exists>b. field_allowed k sc (get_field k fs) = Inr b \<and> get_field k gs = (if b then get_field k fs else Lg_none)"
  shows "filter_schema schema gs = filter_schema schema fs"
  using assms
proof (induction schema)
  case (Cons x rest)
  obtain k sc where x: "x = (k, sc)" by (cases x)
  obtain b where b: "field_allowed k sc (get_field k fs) = Inr b" "get_field k gs = (if b then get_field k fs else Lg_none)"
    using Cons.prems [of k sc] by (auto simp: x)
  have "filter_schema rest gs = filter_schema rest fs" using Cons.prems by (intro Cons.IH) auto
  with b show ?case by (cases b) (simp_all add: x field_allowed_none)
qed simp

lemma filter_schema_get:
  assumes "filter_schema schema fs = Inr out" "distinct (map fst schema)" "(k, sc) \<in> set schema"
  shows "\<exists>b. field_allowed k sc (get_field k fs) = Inr b \<and> get_field k out = (if b then get_field k fs else Lg_none)"
  using assms
proof (induction schema arbitrary: out)
  case (Cons x rest)
  obtain key sc' where x: "x = (key, sc')" by (cases x)
  from Cons.prems(1) obtain allowed out' where a: "field_allowed key sc' (get_field key fs) = Inr allowed"
    "filter_schema rest fs = Inr out'" "out = (if allowed then (key, get_field key fs) # out' else out')"
    unfolding x filter_schema_Cons by blast
  from filter_schema_keys [OF a(2)] Cons.prems(2) have n: "map_of out' key = None"
    by (auto simp: map_of_eq_None_iff x)
  show ?case
  proof (cases "(k, sc) = x")
    case True
    with a n show ?thesis by (auto simp: get_field_def x)
  next
    case False
    with Cons.prems(3) have r: "(k, sc) \<in> set rest" by simp
    with Cons.prems(2) have "k \<noteq> key" by (force simp: x)
    then have "get_field k out = get_field k out'" by (simp add: a(3) get_field_def)
    with Cons.IH [OF a(2)] Cons.prems(2) r show ?thesis by simp
  qed
qed simp

lemma filter_idempotent:
  assumes "filter_operational_event_fields fs = Inr out" "dict_wf fs"
  shows "filter_operational_event_fields out = Inr out"
proof (cases "schema_of fs")
  case None
  with assms(1) have out: "out = filter safe_field fs" by (simp add: filter_operational_event_fields_def)
  have m: "map_of out k = (case map_of fs k of Some v \<Rightarrow> if safe_field (k, v) then Some v else None | None \<Rightarrow> None)" for k
    using assms(2) unfolding out dict_wf_def
    by (induction fs) (auto simp: map_of_eq_None_iff split: option.splits)
  have "schema_of out = None"
    using None by (auto simp: schema_of_def m split: option.splits log_value.splits)
  then show ?thesis by (simp add: filter_operational_event_fields_def out)
next
  case (Some schema)
  with assms(1) have f: "filter_schema schema fs = Inr out" by (simp add: filter_operational_event_fields_def)
  from Some obtain e where e: "map_of fs ''event'' = Some (Lg_str e)" "map_of operational_event_schemas e = Some schema"
    by (auto simp: schema_of_def split: option.splits log_value.splits)
  note ok = schemas_ok [OF e(2)]
  from filter_schema_get [OF f ok(1) map_of_SomeD [OF ok(3)]] e(1) have "get_field ''event'' out = Lg_str e"
    by (auto simp: get_field_def field_allowed_def)
  then have "schema_of out = Some schema"
    using e(2) by (auto simp: schema_of_def get_field_def split: option.splits)
  moreover have "filter_schema schema out = filter_schema schema fs"
    by (rule filter_schema_again) (rule filter_schema_get [OF f ok(1)])
  ultimately show ?thesis using f by (simp add: filter_operational_event_fields_def)
qed

lemma filter_out:
  assumes "filter_operational_event_fields fs = Inr out" "dict_wf fs"
  shows "dict_wf out" "\<forall>(k, v) \<in> set out. k \<in> set safe_log_keys \<and> is_scalar v"
proof -
  show "dict_wf out"
  proof (cases "schema_of fs")
    case None
    with assms show ?thesis
      by (auto simp: filter_operational_event_fields_def dict_wf_def intro: distinct_map_filter)
  next
    case (Some schema)
    then obtain e where "map_of operational_event_schemas e = Some schema"
      by (auto simp: schema_of_def split: option.splits log_value.splits)
    from schemas_ok(1) [OF this] Some assms(1) show ?thesis
      by (auto simp: filter_operational_event_fields_def intro: filter_schema_distinct)
  qed
  show "\<forall>(k, v) \<in> set out. k \<in> set safe_log_keys \<and> is_scalar v"
  proof (cases "schema_of fs")
    case None
    with assms(1) show ?thesis by (auto simp: filter_operational_event_fields_def safe_field_def)
  next
    case (Some schema)
    then obtain e where e: "map_of operational_event_schemas e = Some schema"
      by (auto simp: schema_of_def split: option.splits log_value.splits)
    from Some assms(1) have "filter_schema schema fs = Inr out" by (simp add: filter_operational_event_fields_def)
    with schemas_ok(2) [OF e] show ?thesis by (fastforce dest: filter_schema_sound field_allowed_scalar)
  qed
qed

text \<open>The attributes of a record are not fields of a line, so its payload is what the extra held.\<close>

lemma filter_standard:
  assumes "set (dict_keys standard) \<inter> set safe_log_keys = {}"
  shows "filter_operational_event_fields (standard @ extra) = filter_operational_event_fields extra"
proof -
  have n: "map_of standard k = None" if "k \<in> set safe_log_keys" for k
    using assms that by (auto simp: map_of_eq_None_iff)
  have "''event'' \<in> set safe_log_keys" by (simp add: safe_log_keys_def)
  from n [OF this] have same: "schema_of (standard @ extra) = schema_of extra"
    by (simp add: schema_of_def map_add_def split: option.split)
  have g: "get_field k (standard @ extra) = get_field k extra" if "k \<in> set safe_log_keys" for k
    using n [OF that] by (simp add: get_field_def map_add_def split: option.split)
  have "filter safe_field standard = []"
    using assms by (fastforce simp: safe_field_def filter_empty_conv)
  moreover have "filter_schema schema (standard @ extra) = filter_schema schema extra"
    if "set (map fst schema) \<subseteq> set safe_log_keys" for schema
    using that
  proof (induction schema)
    case (Cons x schema)
    obtain k sc where x: "x = (k, sc)" by (cases x)
    with Cons.prems g have "get_field k (standard @ extra) = get_field k extra" by auto
    with Cons show ?case by (simp add: x cong: if_cong)
  qed simp
  moreover have "set (map fst schema) \<subseteq> set safe_log_keys" if "schema_of extra = Some schema" for schema
    using that schemas_ok(2) by (auto simp: schema_of_def split: option.splits log_value.splits)
  ultimately show ?thesis
    by (cases "schema_of extra") (simp_all add: filter_operational_event_fields_def same)
qed

text \<open>What a reader of an operational event may rely on.\<close>

definition closed_value :: "string \<Rightarrow> field_schema \<Rightarrow> log_value \<Rightarrow> bool" where
  "closed_value k schema v \<longleftrightarrow>
     (case schema of
        Words ws \<Rightarrow> \<exists>w \<in> set ws. v = Lg_str w
      | Flag \<Rightarrow> v \<in> {Lg_bool True, Lg_bool False, Lg_int 0, Lg_int 1} \<or> (\<exists>r. v = Lg_float r)
      | Count_field \<Rightarrow> \<exists>i. v = Lg_int i \<and> 0 \<le> i \<and> i \<le> 1000 \<and> (k \<noteq> ''issue_count'' \<longrightarrow> i \<le> 100))"

lemma field_allowed_closed: "field_allowed k schema v = Inr True \<Longrightarrow> closed_value k schema v"
  by (cases schema; cases v)
    (auto simp: field_allowed_def closed_value_def small_count_def is_flag_def split: if_splits bool.splits)

text \<open>
  C22: a log line shows the extra its caller built, and nothing else of the record.  The extra that
  \<open>safe_log_extra\<close> or \<open>operational_log_extra\<close> gives passes the formatter's own filter unchanged, beside
  the four standard fields; its keys are allowlisted and its values are scalars.  An operational
  event shows only words of its closed vocabulary, flags and small counts.
\<close>

theorem log_line_closed:
  assumes "safe_log_extra fs = Inr extra \<or> operational_log_extra fs = Inr extra" "dict_wf fs"
    and "make_record r extra = Inr r'" "set (dict_keys (lg_dict r)) \<inter> set safe_log_keys = {}"
  shows "log_payload r' = Inr ([(''ts'', Lg_str (log_timestamp (lg_created r))), (''level'', Lg_str (lg_levelname r)),
      (''logger'', Lg_str (lg_name r)), (''msg'', Lg_str (lg_message r))] @ extra) \<and>
    (\<forall>(k, v) \<in> set extra. k \<in> set safe_log_keys \<and> is_scalar v) \<and>
    (\<forall>schema. schema_of extra = Some schema \<longrightarrow>
       (\<forall>(k, v) \<in> set extra. \<exists>sc. (k, sc) \<in> set schema \<and> closed_value k sc v))"
proof -
  obtain gs where gs: "filter_operational_event_fields gs = Inr extra" "dict_wf gs"
  proof (cases "safe_log_extra fs = Inr extra")
    case True
    let ?gs = "map (\<lambda>(k, v). (k, scalar_or_str v)) (filter (\<lambda>(k, v). k \<in> set safe_log_keys \<and> k \<notin> set reserved_log_keys) fs)"
    have "map fst ?gs = map fst (filter (\<lambda>(k, v). k \<in> set safe_log_keys \<and> k \<notin> set reserved_log_keys) fs)"
      by (simp add: comp_def split_def)
    with assms(2) have "dict_wf ?gs" unfolding dict_wf_def by (simp only: distinct_map_filter)
    with True that show thesis by (simp add: safe_log_extra_def)
  next
    case False
    with assms(1,2) that show thesis by (simp add: operational_log_extra_def)
  qed
  note out = filter_out [OF gs]
  have r': "lg_dict r' = lg_dict r @ extra" "lg_created r' = lg_created r" "lg_levelname r' = lg_levelname r"
    "lg_name r' = lg_name r" "lg_message r' = lg_message r"
    using assms(3) by (auto simp: make_record_def split: if_splits)
  have again: "filter_operational_event_fields (lg_dict r') = Inr extra"
    using filter_standard [OF assms(4), of extra] filter_idempotent [OF gs] by (simp add: r')
  have fresh: "dict_merge d e = d @ e" if "distinct (dict_keys e)" "set (dict_keys e) \<inter> set (dict_keys d) = {}"
    for d e :: log_fields
    using that
  proof (induction e arbitrary: d)
    case (Cons x e)
    have "dict_set (fst x) (snd x) d = d @ [x]"
      using Cons.prems(2) by (induction d) auto
    with Cons show ?case by (auto simp: dict_merge_def split_def)
  qed (simp add: dict_merge_def)
  have keys: "set (dict_keys extra) \<inter> {''ts'', ''level'', ''logger'', ''msg''} = {}"
    using out(2) safe_not_reserved by fastforce
  have "log_payload r' = Inr ([(''ts'', Lg_str (log_timestamp (lg_created r))), (''level'', Lg_str (lg_levelname r)),
      (''logger'', Lg_str (lg_name r)), (''msg'', Lg_str (lg_message r))] @ extra)"
    using again out(1) keys by (simp only: log_payload_def rbind_Inr r') (subst fresh; simp add: dict_wf_def)
  moreover have "\<forall>(k, v) \<in> set extra. \<exists>sc. (k, sc) \<in> set schema \<and> closed_value k sc v"
    if "schema_of extra = Some schema" for schema
  proof -
    have "filter_schema schema extra = Inr extra"
      using filter_idempotent [OF gs] that by (simp add: filter_operational_event_fields_def)
    then show ?thesis by (auto dest!: filter_schema_sound field_allowed_closed)
  qed
  ultimately show ?thesis using out(2) by blast
qed

end
