(* ===== verification/Ownership.thy ===== *)
theory Ownership
  imports PyJson
begin

text \<open>
  The ownership of a verification project on a Docker daemon (\<open>scripts/cleanup_verification.py\<close>) and
  the wrapper that runs a command under it (\<open>scripts/verification.py\<close>).  The daemon is a parameter
  that may answer anything: a function of the commands and answers so far, so that other processes,
  timeouts and failures are all among its behaviours.  \<open>json.loads\<close> is a parameter; a receipt file is
  what reading and parsing it gives.
\<close>

section \<open>Commands\<close>

datatype resource = Container | Volume | Network

definition resources :: "resource list" where
  "resources = [Container, Volume, Network]"

text \<open>The calls of \<open>docker\<close>, with the name, labels, image or identifier they pass.\<close>

datatype docker_command =
    Compose_config
  | Create_claim string string string string   \<comment> \<open>name, project label, invocation label, image\<close>
  | Inspect_claim string
  | Remove_claim string
  | List_labelled resource string
  | List_volumes
  | Remove_resource resource string

fun removing :: "docker_command \<Rightarrow> bool" where
  "removing (Remove_claim i) = True"
| "removing (Remove_resource k i) = True"
| "removing c = False"

text \<open>
  The exit code and the standard output; \<open>Unavailable\<close> when the call cannot be made or times out,
  \<open>Undecodable\<close> when the output of a finished call is not valid UTF-8.
\<close>

datatype reply = Unavailable | Undecodable | Completed int string

type_synonym trace = "(docker_command \<times> reply) list"
type_synonym daemon = "trace \<Rightarrow> docker_command \<Rightarrow> reply"

datatype receipt = No_receipt | Unreadable_receipt | Json_receipt json

record ownership =
  ow_trace :: trace
  ow_receipt :: receipt

type_synonym 'a program = "ownership \<Rightarrow> ownership \<times> 'a result"

definition return :: "'a \<Rightarrow> 'a program" where
  "return a s = (s, Inr a)"

definition raise :: "exn \<Rightarrow> 'a program" where
  "raise e s = (s, Inl e)"

definition chain :: "'a program \<Rightarrow> ('a \<Rightarrow> 'b program) \<Rightarrow> 'b program" where
  "chain p f s = (case p s of (s1, Inl e) \<Rightarrow> (s1, Inl e) | (s1, Inr a) \<Rightarrow> f a s1)"

definition require :: "bool \<Rightarrow> exn \<Rightarrow> unit program" where
  "require b e = (if b then return () else raise e)"

text \<open>
  \<open>subprocess.run(text=True)\<close> raises \<open>UnicodeDecodeError\<close>, a \<open>ValueError\<close>, for an output it cannot decode; the
  command has been carried out.
\<close>

definition docker :: "daemon \<Rightarrow> docker_command \<Rightarrow> reply program" where
  "docker dm c s =
     (let r = dm (ow_trace s) c
      in (s\<lparr>ow_trace := ow_trace s @ [(c, r)]\<rparr>, if r = Undecodable then Inl ValueError else Inr r))"

definition succeeded :: "reply \<Rightarrow> bool" where
  "succeeded r = (case r of Completed code output \<Rightarrow> code = 0 | _ \<Rightarrow> False)"

definition stdout :: "reply \<Rightarrow> string" where
  "stdout r = (case r of Completed code output \<Rightarrow> output | _ \<Rightarrow> [])"

section \<open>Identifiers\<close>

definition lower_alnum :: "char \<Rightarrow> bool" where
  "lower_alnum c \<longleftrightarrow> CHR ''a'' \<le> c \<and> c \<le> CHR ''z'' \<or> CHR ''0'' \<le> c \<and> c \<le> CHR ''9''"

definition hex_string :: "nat \<Rightarrow> string \<Rightarrow> bool" where
  "hex_string n s \<longleftrightarrow>
     length s = n \<and> list_all (\<lambda>c. CHR ''a'' \<le> c \<and> c \<le> CHR ''f'' \<or> CHR ''0'' \<le> c \<and> c \<le> CHR ''9'') s"

definition project_pattern :: "string \<Rightarrow> bool" where
  "project_pattern s \<longleftrightarrow>
     prefix ''correlia-verify-'' s \<and>
     (let r = drop 16 s
      in r \<noteq> [] \<and> length r \<le> 48 \<and> list_all (\<lambda>c. lower_alnum c \<or> c = CHR ''-'') r \<and> lower_alnum (hd r) \<and> lower_alnum (last r))"

definition validate_project :: "string \<Rightarrow> unit program" where
  "validate_project project = require (project_pattern project) ValueError"

definition validate_invocation :: "string \<Rightarrow> unit program" where
  "validate_invocation invocation = require (hex_string 32 invocation) ValueError"

definition postgres_data_volume :: "string \<Rightarrow> string" where
  "postgres_data_volume project = project @ ''_postgres-data''"

definition claim_name :: "string \<Rightarrow> string" where
  "claim_name project = project @ ''-verification-owner''"

fun split_words :: "string \<Rightarrow> string \<Rightarrow> string list" where
  "split_words w [] = (if w = [] then [] else [rev w])"
| "split_words w (c # cs) =
     (if is_space c then (if w = [] then split_words [] cs else rev w # split_words [] cs)
      else split_words (c # w) cs)"

definition str_split :: "string \<Rightarrow> string list" where
  "str_split s = split_words [] s"

section \<open>The claim\<close>

definition json_get :: "string \<Rightarrow> json \<Rightarrow> json option" where
  "json_get k v = (case v of JObj kvs \<Rightarrow> map_of kvs k | _ \<Rightarrow> None)"

definition claim_image :: "daemon \<Rightarrow> (string \<Rightarrow> json option) \<Rightarrow> string program" where
  "claim_image dm loads =
     chain (docker dm Compose_config) (\<lambda>r.
     chain (require (succeeded r) RuntimeError) (\<lambda>_.
     case Option.bind (Option.bind (Option.bind (loads (stdout r)) (json_get ''services'')) (json_get ''postgres'')) (json_get ''image'') of
       Some (JStr img) \<Rightarrow> if str_strip img = [] then raise RuntimeError else return img
     | _ \<Rightarrow> raise RuntimeError))"

text \<open>What an inspection tells: the identifier and the invocation of the claim, if it is one.\<close>

definition identity_of :: "string \<Rightarrow> json \<Rightarrow> (string \<times> string) option" where
  "identity_of project recorded =
     (case (json_get ''Id'' recorded, Option.bind (json_get ''Config'' recorded) (json_get ''Labels'')) of
        (Some (JStr identifier), Some labels) \<Rightarrow>
          (case json_get ''correlia.verification.invocation'' labels of
             Some (JStr invocation) \<Rightarrow>
               if hex_string 64 identifier \<and> json_get ''Name'' recorded = Some (JStr (CHR ''/'' # claim_name project)) \<and>
                  json_get ''correlia.verification.project'' labels = Some (JStr project) \<and> hex_string 32 invocation
               then Some (identifier, invocation) else None
           | _ \<Rightarrow> None)
      | _ \<Rightarrow> None)"

definition read_identity :: "(string \<Rightarrow> json option) \<Rightarrow> string \<Rightarrow> reply \<Rightarrow> (string \<times> string) option result" where
  "read_identity loads project r =
     (case r of
        Unavailable \<Rightarrow> Inl RuntimeError
      | Undecodable \<Rightarrow> Inl ValueError
      | Completed code output \<Rightarrow>
          if code \<noteq> 0 then Inr None
          else (case loads output of None \<Rightarrow> Inl RuntimeError | Some recorded \<Rightarrow> Inr (identity_of project recorded)))"

definition claim_identity ::
  "daemon \<Rightarrow> (string \<Rightarrow> json option) \<Rightarrow> string \<Rightarrow> (string \<times> string) option program" where
  "claim_identity dm loads project =
     chain (docker dm (Inspect_claim (claim_name project))) (\<lambda>r.
     case read_identity loads project r of Inl e \<Rightarrow> raise e | Inr i \<Rightarrow> return i)"

definition release_claim :: "daemon \<Rightarrow> string \<Rightarrow> unit program" where
  "release_claim dm identifier =
     chain (docker dm (Remove_claim identifier)) (\<lambda>r. require (succeeded r) RuntimeError)"

section \<open>Acquisition\<close>

fun inspect_resources :: "daemon \<Rightarrow> string \<Rightarrow> resource list \<Rightarrow> unit program" where
  "inspect_resources dm project [] = return ()"
| "inspect_resources dm project (k # ks) =
     chain (docker dm (List_labelled k project)) (\<lambda>r.
     chain (require (succeeded r) RuntimeError) (\<lambda>_.
     chain (require (str_strip (stdout r) = []) RuntimeError) (\<lambda>_.
     inspect_resources dm project ks)))"

definition receipt_json :: "string \<Rightarrow> string \<Rightarrow> string \<Rightarrow> json" where
  "receipt_json project invocation identifier =
     JObj [(''project'', JStr project), (''invocation'', JStr invocation), (''claim'', JStr identifier)]"

text \<open>
  Exclusive creation fails when the file exists or the disk refuses it; a write that fails later leaves
  whatever it had reached.
\<close>

datatype disk = Writes | Leaves receipt | Refuses

definition write_receipt :: "disk \<Rightarrow> json \<Rightarrow> unit program" where
  "write_receipt disk j s =
     (if ow_receipt s \<noteq> No_receipt then (s, Inl RuntimeError)
      else (case disk of
              Writes \<Rightarrow> (s\<lparr>ow_receipt := Json_receipt j\<rparr>, Inr ())
            | Leaves f \<Rightarrow> (s\<lparr>ow_receipt := f\<rparr>, Inl RuntimeError)
            | Refuses \<Rightarrow> (s, Inl RuntimeError)))"

definition check_namespace ::
  "daemon \<Rightarrow> (string \<Rightarrow> json option) \<Rightarrow> disk \<Rightarrow> string \<Rightarrow> string \<Rightarrow> string \<Rightarrow> unit program" where
  "check_namespace dm loads disk project invocation identifier =
     chain (inspect_resources dm project resources) (\<lambda>_.
     chain (docker dm List_volumes) (\<lambda>r.
     chain (require (succeeded r) RuntimeError) (\<lambda>_.
     chain (require (postgres_data_volume project \<notin> set (str_split (stdout r))) RuntimeError) (\<lambda>_.
     chain (claim_identity dm loads project) (\<lambda>i.
     chain (require (i = Some (identifier, invocation)) RuntimeError) (\<lambda>_.
     write_receipt disk (receipt_json project invocation identifier)))))))"

text \<open>
  The marker is released when the checks raise \<open>RuntimeError\<close>, so not when an output cannot be decoded; a
  release that fails raises in their place.
\<close>

definition checked_or_released ::
  "daemon \<Rightarrow> (string \<Rightarrow> json option) \<Rightarrow> disk \<Rightarrow> string \<Rightarrow> string \<Rightarrow> string \<Rightarrow> unit program" where
  "checked_or_released dm loads disk project invocation identifier s =
     (case check_namespace dm loads disk project invocation identifier s of
        (s1, Inr u) \<Rightarrow> (s1, Inr u)
      | (s1, Inl e) \<Rightarrow>
          if e = RuntimeError then chain (release_claim dm identifier) (\<lambda>_. raise e) s1 else (s1, Inl e))"

definition receipt_exists :: "bool program" where
  "receipt_exists s = (s, Inr (ow_receipt s \<noteq> No_receipt))"

definition acquire ::
  "daemon \<Rightarrow> (string \<Rightarrow> json option) \<Rightarrow> disk \<Rightarrow> string \<Rightarrow> string \<Rightarrow> unit program" where
  "acquire dm loads disk project invocation =
     chain (validate_project project) (\<lambda>_.
     chain (validate_invocation invocation) (\<lambda>_.
     chain receipt_exists (\<lambda>exists.
     chain (require (\<not> exists) RuntimeError) (\<lambda>_.
     chain (claim_image dm loads) (\<lambda>img.
     chain (docker dm (Create_claim (claim_name project) project invocation img)) (\<lambda>claim.
     chain (require (succeeded claim) RuntimeError) (\<lambda>_.
     chain (require (hex_string 64 (str_strip (stdout claim))) RuntimeError) (\<lambda>_.
     checked_or_released dm loads disk project invocation (str_strip (stdout claim))))))))))"

section \<open>Cleanup\<close>

text \<open>The identifier that a receipt records for the project and the invocation.\<close>

definition receipt_claim :: "string \<Rightarrow> string \<Rightarrow> receipt \<Rightarrow> string option" where
  "receipt_claim project invocation f =
     (case f of
        Json_receipt j \<Rightarrow>
          if json_get ''project'' j = Some (JStr project) \<and> json_get ''invocation'' j = Some (JStr invocation)
          then (case json_get ''claim'' j of
                  Some (JStr identifier) \<Rightarrow> if hex_string 64 identifier then Some identifier else None
                | _ \<Rightarrow> None)
          else None
      | _ \<Rightarrow> None)"

definition read_receipt :: "string \<Rightarrow> string \<Rightarrow> string option program" where
  "read_receipt project invocation s =
     (s, if ow_receipt s = Unreadable_receipt then Inl RuntimeError
         else Inr (receipt_claim project invocation (ow_receipt s)))"

definition owned_claim ::
  "daemon \<Rightarrow> (string \<Rightarrow> json option) \<Rightarrow> string \<Rightarrow> string \<Rightarrow> string option program" where
  "owned_claim dm loads project invocation =
     chain (validate_project project) (\<lambda>_.
     chain (validate_invocation invocation) (\<lambda>_.
     chain (read_receipt project invocation) (\<lambda>recorded.
     case recorded of
       None \<Rightarrow> return None
     | Some identifier \<Rightarrow>
         chain (claim_identity dm loads project) (\<lambda>i.
         return (if i = Some (identifier, invocation) then Some identifier else None)))))"

definition has_ownership ::
  "daemon \<Rightarrow> (string \<Rightarrow> json option) \<Rightarrow> string \<Rightarrow> string \<Rightarrow> bool program" where
  "has_ownership dm loads project invocation =
     chain (owned_claim dm loads project invocation) (\<lambda>i. return (i \<noteq> None))"

text \<open>The removals of one listing and of all; the result tells whether a call failed.\<close>

fun remove_listed :: "daemon \<Rightarrow> resource \<Rightarrow> string list \<Rightarrow> bool program" where
  "remove_listed dm k [] = return False"
| "remove_listed dm k (i # is) =
     chain (docker dm (Remove_resource k i)) (\<lambda>r.
     chain (remove_listed dm k is) (\<lambda>failed. return (\<not> succeeded r \<or> failed)))"

fun remove_resources :: "daemon \<Rightarrow> string \<Rightarrow> resource list \<Rightarrow> bool program" where
  "remove_resources dm project [] = return False"
| "remove_resources dm project (k # ks) =
     chain (docker dm (List_labelled k project)) (\<lambda>r.
     chain (if succeeded r then remove_listed dm k (str_split (stdout r)) else return True) (\<lambda>failed.
     chain (remove_resources dm project ks) (\<lambda>failed'. return (failed \<or> failed'))))"

fun check_removed :: "daemon \<Rightarrow> string \<Rightarrow> resource list \<Rightarrow> bool program" where
  "check_removed dm project [] = return False"
| "check_removed dm project (k # ks) =
     chain (docker dm (List_labelled k project)) (\<lambda>r.
     chain (check_removed dm project ks) (\<lambda>failed.
     return (\<not> succeeded r \<or> str_strip (stdout r) \<noteq> [] \<or> failed)))"

definition cleanup_resources :: "daemon \<Rightarrow> string \<Rightarrow> unit program" where
  "cleanup_resources dm project =
     chain (remove_resources dm project resources) (\<lambda>failed.
     chain (check_removed dm project resources) (\<lambda>failed'.
     require (\<not> failed \<and> \<not> failed') RuntimeError))"

text \<open>A missing receipt is no error; the file system may refuse to remove one that is there.\<close>

definition unlink_receipt :: "bool \<Rightarrow> unit program" where
  "unlink_receipt unlinkable s =
     (if ow_receipt s = No_receipt \<or> unlinkable then (s\<lparr>ow_receipt := No_receipt\<rparr>, Inr ()) else (s, Inl OSError))"

definition cleanup_owned ::
  "daemon \<Rightarrow> (string \<Rightarrow> json option) \<Rightarrow> bool \<Rightarrow> string \<Rightarrow> string \<Rightarrow> bool \<Rightarrow> bool program" where
  "cleanup_owned dm loads unlinkable project invocation release =
     chain (owned_claim dm loads project invocation) (\<lambda>owned.
     case owned of
       None \<Rightarrow> return False
     | Some identifier \<Rightarrow>
         chain (cleanup_resources dm project) (\<lambda>_.
         chain (claim_identity dm loads project) (\<lambda>i.
         chain (require (i = Some (identifier, invocation)) RuntimeError) (\<lambda>_.
         chain (if release then chain (release_claim dm identifier) (\<lambda>_. unlink_receipt unlinkable) else return ()) (\<lambda>_.
         return True)))))"

definition cleanup :: "daemon \<Rightarrow> (string \<Rightarrow> json option) \<Rightarrow> string \<Rightarrow> unit program" where
  "cleanup dm loads project =
     chain (validate_project project) (\<lambda>_.
     chain (claim_identity dm loads project) (\<lambda>claim.
     chain (cleanup_resources dm project) (\<lambda>_.
     case claim of None \<Rightarrow> return () | Some (identifier, invocation) \<Rightarrow> release_claim dm identifier)))"

section \<open>The command line\<close>

text \<open>
  A project, an invocation and whether a receipt is named, each from the arguments or the environment.
  The result is the exit code.
\<close>

definition first_nonempty :: "string option \<Rightarrow> string option \<Rightarrow> string option" where
  "first_nonempty a b = (case a of Some (c # cs) \<Rightarrow> Some (c # cs) | _ \<Rightarrow> b)"

definition with_project :: "string option \<Rightarrow> (string \<Rightarrow> 'a program) \<Rightarrow> 'a program" where
  "with_project project f = (case project of None \<Rightarrow> raise ValueError | Some p \<Rightarrow> f p)"

definition cleanup_main ::
  "daemon \<Rightarrow> (string \<Rightarrow> json option) \<Rightarrow> bool \<Rightarrow> bool \<Rightarrow> string option \<Rightarrow> string option \<Rightarrow> string option \<Rightarrow> bool \<Rightarrow>
   ownership \<Rightarrow> ownership \<times> int" where
  "cleanup_main dm loads unlinkable owned project environment_project invocation receipt_named s =
     (let p = (if owned
               then (case first_nonempty invocation None of
                       None \<Rightarrow> return ()
                     | Some i \<Rightarrow>
                         if \<not> receipt_named then return ()
                         else with_project (first_nonempty project environment_project) (\<lambda>q.
                                chain (cleanup_owned dm loads unlinkable q i True) (\<lambda>_. return ())))
               else with_project project (cleanup dm loads))
      in case p s of (s1, Inl e) \<Rightarrow> (s1, 1) | (s1, Inr u) \<Rightarrow> (s1, 0))"

end
