(* ===== verification/OwnershipProps.thy ===== *)
theory OwnershipProps
  imports Ownership
begin

text \<open>
  What the ownership protocol may do to a daemon, whatever the daemon answers: proof rules that follow
  a program through its commands, then the acquisition and the cleanup.
\<close>

section \<open>Rules for programs\<close>

text \<open>Every command of \<open>new\<close> satisfies \<open>P\<close> together with the commands and answers before it.\<close>

fun allowed :: "(trace \<Rightarrow> docker_command \<Rightarrow> bool) \<Rightarrow> trace \<Rightarrow> trace \<Rightarrow> bool" where
  "allowed P t [] = True"
| "allowed P t ((c, r) # new) = (P t c \<and> allowed P (t @ [(c, r)]) new)"

lemma allowed_append [simp]: "allowed P t (new @ new') = (allowed P t new \<and> allowed P (t @ new) new')"
  by (induction P t new rule: allowed.induct) auto

text \<open>A program issues only allowed commands and leaves a state and a result that satisfy \<open>Q\<close>.\<close>

definition runs ::
  "(trace \<Rightarrow> docker_command \<Rightarrow> bool) \<Rightarrow> 'a program \<Rightarrow> ownership \<Rightarrow> (ownership \<Rightarrow> 'a result \<Rightarrow> bool) \<Rightarrow> bool" where
  "runs P p s Q \<longleftrightarrow>
     (\<exists>new. ow_trace (fst (p s)) = ow_trace s @ new \<and> allowed P (ow_trace s) new) \<and> Q (fst (p s)) (snd (p s))"

definition after :: "ownership \<Rightarrow> docker_command \<Rightarrow> reply \<Rightarrow> ownership" where
  "after s c r = s\<lparr>ow_trace := ow_trace s @ [(c, r)]\<rparr>"

lemma after_simps [simp]:
  "ow_trace (after s c r) = ow_trace s @ [(c, r)]" "ow_receipt (after s c r) = ow_receipt s"
  by (simp_all add: after_def)

lemma succeeded_simps [simp]: "\<not> succeeded Unavailable" "\<not> succeeded Undecodable"
  by (simp_all add: succeeded_def)

lemma runs_return: "Q s (Inr a) \<Longrightarrow> runs P (return a) s Q"
  by (simp add: runs_def return_def)

lemma runs_raise: "Q s (Inl e) \<Longrightarrow> runs P (raise e) s Q"
  by (simp add: runs_def raise_def)

lemma runs_require: "(\<not> b \<Longrightarrow> Q s (Inl e)) \<Longrightarrow> (b \<Longrightarrow> Q s (Inr ())) \<Longrightarrow> runs P (require b e) s Q"
  by (simp add: require_def runs_return runs_raise)

lemma runs_docker:
  assumes "P (ow_trace s) c" "\<And>r. r \<noteq> Undecodable \<Longrightarrow> Q (after s c r) (Inr r)" "Q (after s c Undecodable) (Inl ValueError)"
  shows "runs P (docker dm c) s Q"
  using assms by (cases "dm (ow_trace s) c = Undecodable") (auto simp: runs_def docker_def Let_def after_def)

lemma runs_chain:
  assumes "runs P p s R" "\<And>s1 e. R s1 (Inl e) \<Longrightarrow> Q s1 (Inl e)" "\<And>s1 a. R s1 (Inr a) \<Longrightarrow> runs P (f a) s1 Q"
  shows "runs P (chain p f) s Q"
proof -
  obtain s1 x where p: "p s = (s1, x)"
    by (cases "p s")
  obtain new where new: "ow_trace s1 = ow_trace s @ new" "allowed P (ow_trace s) new" "R s1 x"
    using assms(1) by (auto simp: runs_def p)
  show ?thesis
  proof (cases x)
    case (Inl e)
    then show ?thesis
      using new assms(2) by (auto simp: runs_def chain_def p)
  next
    case (Inr a)
    then have "runs P (f a) s1 Q"
      using new assms(3) by simp
    then obtain new' where "ow_trace (fst (f a s1)) = ow_trace s1 @ new'" "allowed P (ow_trace s1) new'"
        "Q (fst (f a s1)) (snd (f a s1))"
      by (auto simp: runs_def)
    then show ?thesis
      using new Inr by (auto simp: runs_def chain_def p)
  qed
qed

lemma runs_weaken: "runs P p s R \<Longrightarrow> (\<And>s1 x. R s1 x \<Longrightarrow> Q s1 x) \<Longrightarrow> runs P p s Q"
  by (auto simp: runs_def)

lemma runs_chain_docker:
  assumes "P (ow_trace s) c" "\<And>r. runs P (f r) (after s c r) Q" "Q (after s c Undecodable) (Inl ValueError)"
  shows "runs P (chain (docker dm c) f) s Q"
  by (rule runs_chain [where R = "\<lambda>s1 x. \<exists>r. s1 = after s c r \<and> x = (if r = Undecodable then Inl ValueError else Inr r)"])
    (use assms in \<open>auto intro!: runs_docker split: if_splits\<close>)

lemma runs_chain_require:
  "(\<not> b \<Longrightarrow> Q s (Inl e)) \<Longrightarrow> (b \<Longrightarrow> runs P (f ()) s Q) \<Longrightarrow> runs P (chain (require b e) f) s Q"
  by (rule runs_chain [where R = "\<lambda>s1 x. s1 = s \<and> (if b then x = Inr () else x = Inl e)"])
    (auto intro: runs_require split: if_splits)

text \<open>Following a program whose commands are none of the last two kinds.\<close>

lemmas runs_intros = runs_return runs_raise runs_chain_docker runs_chain_require

text \<open>A state reached by commands that remove nothing.\<close>

definition removes_nothing :: "trace \<Rightarrow> bool" where
  "removes_nothing t \<longleftrightarrow> list_all (\<lambda>(c, r). \<not> removing c) t"

lemma removes_nothing_simps [simp]:
  "removes_nothing []" "removes_nothing ((c, r) # t) \<longleftrightarrow> \<not> removing c \<and> removes_nothing t"
  "removes_nothing (t @ t') \<longleftrightarrow> removes_nothing t \<and> removes_nothing t'"
  by (simp_all add: removes_nothing_def)


definition extends :: "ownership \<Rightarrow> trace \<Rightarrow> ownership \<Rightarrow> bool" where
  "extends s new s1 \<longleftrightarrow> ow_trace s1 = ow_trace s @ new \<and> ow_receipt s1 = ow_receipt s"

definition clear :: "reply \<Rightarrow> bool" where
  "clear r \<longleftrightarrow> succeeded r \<and> str_strip (stdout r) = []"

definition all_clear :: "string \<Rightarrow> resource list \<Rightarrow> trace \<Rightarrow> bool" where
  "all_clear project ks t \<longleftrightarrow> (\<forall>k\<in>set ks. \<exists>r. (List_labelled k project, r) \<in> set t \<and> clear r)"

text \<open>The errors of a command: \<open>ValueError\<close> only for an output that cannot be decoded.\<close>

definition command_error :: "reply \<Rightarrow> exn \<Rightarrow> bool" where
  "command_error r e \<longleftrightarrow> e = RuntimeError \<or> e = ValueError \<and> r = Undecodable"

lemma command_error_simps [simp]: "command_error r RuntimeError" "command_error Undecodable ValueError"
  by (simp_all add: command_error_def)

lemma read_identity_error: "read_identity loads project r = Inl e \<Longrightarrow> command_error r e"
  by (auto simp: read_identity_def command_error_def split: reply.splits option.splits if_splits)

lemma runs_claim_identity:
  assumes "P (ow_trace s) (Inspect_claim (claim_name project))"
    and "\<And>r i. read_identity loads project r = Inr i \<Longrightarrow> Q (after s (Inspect_claim (claim_name project)) r) (Inr i)"
    and "\<And>r e. command_error r e \<Longrightarrow> Q (after s (Inspect_claim (claim_name project)) r) (Inl e)"
  shows "runs P (claim_identity dm loads project) s Q"
  unfolding claim_identity_def
proof (rule runs_chain_docker, rule assms(1))
  fix r
  show "runs P (case read_identity loads project r of Inl e \<Rightarrow> raise e | Inr i \<Rightarrow> return i)
      (after s (Inspect_claim (claim_name project)) r) Q"
    using assms(2,3) by (cases "read_identity loads project r") (auto intro!: runs_return runs_raise dest: read_identity_error)
qed (simp add: assms(3))

section \<open>Listings and removals\<close>

fun observing :: "docker_command \<Rightarrow> bool" where
  "observing (Create_claim n p v m) = False"
| "observing c = (\<not> removing c)"

definition observes :: "trace \<Rightarrow> bool" where
  "observes t \<longleftrightarrow> list_all (\<lambda>(c, r). observing c) t"

lemma observes_simps [simp]:
  "observes []" "observes ((c, r) # t) \<longleftrightarrow> observing c \<and> observes t"
  "observes (t @ t') \<longleftrightarrow> observes t \<and> observes t'"
  by (simp_all add: observes_def)

lemma observes_removes_nothing: "observes t \<Longrightarrow> removes_nothing t"
  by (induction t) (auto elim: observing.elims)

lemma observes_creates_nothing: "observes t \<Longrightarrow> (Create_claim n p v m, r) \<notin> set t"
  by (auto simp: observes_def list_all_iff)

text \<open>The error of a program that observes: \<open>ValueError\<close> only after an output that cannot be decoded.\<close>

definition error_of :: "trace \<Rightarrow> exn \<Rightarrow> bool" where
  "error_of t e \<longleftrightarrow> e = RuntimeError \<or> e = ValueError \<and> Undecodable \<in> snd ` set t"

lemma error_of_simps [simp]:
  "error_of t RuntimeError" "error_of (t @ [(c, Undecodable)]) ValueError" "error_of [(c, Undecodable)] ValueError"
  by (simp_all add: error_of_def)

lemma error_of_mono: "error_of t e \<Longrightarrow> set t \<subseteq> set t' \<Longrightarrow> error_of t' e"
  by (auto simp: error_of_def)

lemma command_error_of: "command_error r e \<Longrightarrow> (c, r) \<in> set t \<Longrightarrow> error_of t e"
  by (force simp: command_error_def error_of_def)

definition inspected :: "string \<Rightarrow> resource list \<Rightarrow> ownership \<Rightarrow> unit result \<Rightarrow> ownership \<Rightarrow> bool" where
  "inspected project ks s x s1 \<longleftrightarrow>
     (\<exists>new. extends s new s1 \<and> observes new \<and>
        (case x of Inl e \<Rightarrow> error_of new e | Inr u \<Rightarrow> all_clear project ks new))"

lemma inspected_error: "inspected project ks s (Inl RuntimeError) s"
  by (auto simp: inspected_def extends_def intro!: exI [of _ "[]"])

lemma inspected_refl: "inspected project [] s (Inr u) s"
  by (auto simp: inspected_def extends_def all_clear_def intro!: exI [of _ "[]"])

lemma inspected_step:
  assumes "inspected project ks (after s (List_labelled k project) r) x s1" "x = Inr () \<Longrightarrow> clear r"
  shows "inspected project (k # ks) s x s1"
proof -
  obtain new where "extends (after s (List_labelled k project) r) new s1" "observes new"
      "case x of Inl e \<Rightarrow> error_of new e | Inr u \<Rightarrow> all_clear project ks new"
    using assms(1) by (auto simp: inspected_def)
  then show ?thesis
    using assms(2)
    by (auto simp: inspected_def extends_def all_clear_def split: sum.splits elim: error_of_mono
        intro!: exI [of _ "(List_labelled k project, r) # new"])
qed

lemma runs_inspect_resources:
  assumes "\<And>t k. P t (List_labelled k project)"
  shows "runs P (inspect_resources dm project ks) s (\<lambda>s1 x. inspected project ks s x s1)"
proof (induction ks arbitrary: s)
  case Nil
  then show ?case
    by (auto intro: runs_return inspected_refl)
next
  case (Cons k ks)
  show ?case
    unfolding inspect_resources.simps
  proof (intro runs_chain_docker runs_chain_require)
    fix r
    show "P (ow_trace s) (List_labelled k project)"
      by (rule assms)
    let ?s = "after s (List_labelled k project) r"
    have failed: "inspected project (k # ks) s (Inl RuntimeError) ?s"
      by (rule inspected_step [where r = r]) (auto simp: inspected_error)
    then show "inspected project (k # ks) s (Inl RuntimeError) ?s"
      by simp
    show "inspected project (k # ks) s (Inl RuntimeError) ?s"
      by (rule failed)
    show "inspected project (k # ks) s (Inl ValueError) (after s (List_labelled k project) Undecodable)"
      by (auto simp: inspected_def extends_def intro!: exI [of _ "[(List_labelled k project, Undecodable)]"])
    assume "succeeded r" "str_strip (stdout r) = []"
    then show "runs P (inspect_resources dm project ks) ?s (\<lambda>s1 x. inspected project (k # ks) s x s1)"
      by (intro runs_weaken [OF Cons.IH]) (auto elim!: inspected_step simp: clear_def)
  qed
qed

text \<open>Removals are allowed when their resource was listed, whatever else has happened since.\<close>

definition removals_succeed :: "trace \<Rightarrow> bool" where
  "removals_succeed t \<longleftrightarrow> list_all (\<lambda>(c, r). removing c \<longrightarrow> succeeded r) t"

lemma removals_succeed_simps [simp]:
  "removals_succeed []" "removals_succeed ((c, r) # t) \<longleftrightarrow> (removing c \<longrightarrow> succeeded r) \<and> removals_succeed t"
  "removals_succeed (t @ t') \<longleftrightarrow> removals_succeed t \<and> removals_succeed t'"
  by (simp_all add: removals_succeed_def)


text \<open>The commands between two states; without a failure every removal among them succeeded.\<close>

definition claim_kept :: "trace \<Rightarrow> bool" where
  "claim_kept t \<longleftrightarrow> (\<forall>i r. (Remove_claim i, r) \<in> set t \<longrightarrow> \<not> succeeded r)"

lemma claim_kept_simps [simp]:
  "claim_kept []" "claim_kept ((c, r) # t) \<longleftrightarrow> ((\<forall>i. c = Remove_claim i \<longrightarrow> \<not> succeeded r) \<and> claim_kept t)"
  "claim_kept (t @ t') \<longleftrightarrow> claim_kept t \<and> claim_kept t'"
  by (auto simp: claim_kept_def)
















section \<open>Acquisition and cleanup\<close>

text \<open>The removals of an acquisition: only the container that a creation of this call has returned.\<close>

definition created :: "string \<Rightarrow> string \<Rightarrow> trace \<Rightarrow> string \<Rightarrow> bool" where
  "created project invocation t identifier \<longleftrightarrow>
     (\<exists>img r. (Create_claim (claim_name project) project invocation img, r) \<in> set t \<and>
              succeeded r \<and> str_strip (stdout r) = identifier \<and> hex_string 64 identifier)"

definition own_marker :: "string \<Rightarrow> string \<Rightarrow> trace \<Rightarrow> docker_command \<Rightarrow> bool" where
  "own_marker project invocation t c \<longleftrightarrow>
     (removing c \<longrightarrow> (\<exists>identifier. c = Remove_claim identifier \<and> created project invocation t identifier))"

text \<open>
  The removals of a cleanup: resources it listed, while the inspected claim is the recorded one, and the
  claim itself right after an inspection that shows it.
\<close>

definition identified :: "(string \<Rightarrow> json option) \<Rightarrow> string \<Rightarrow> string \<Rightarrow> trace \<Rightarrow> string \<Rightarrow> bool" where
  "identified loads project invocation t identifier \<longleftrightarrow>
     (\<exists>r. (Inspect_claim (claim_name project), r) \<in> set t \<and>
          read_identity loads project r = Inr (Some (identifier, invocation)))"









lemma runs_release:
  assumes "P (ow_trace s) (Remove_claim i)"
    "\<And>r. succeeded r \<Longrightarrow> runs P p (after s (Remove_claim i) r) Q"
    "\<And>r e. \<not> succeeded r \<Longrightarrow> command_error r e \<Longrightarrow> Q (after s (Remove_claim i) r) (Inl e)"
  shows "runs P (chain (release_claim dm i) (\<lambda>_. p)) s Q"
  unfolding release_claim_def
proof (rule runs_chain [where R = "\<lambda>s1 x. \<exists>r. s1 = after s (Remove_claim i) r \<and>
      (case x of Inl e \<Rightarrow> \<not> succeeded r \<and> command_error r e | Inr u \<Rightarrow> succeeded r)"], goal_cases)
  case 1
  show ?case
  proof (rule runs_chain_docker, rule assms(1))
    fix r
    show "runs P (require (succeeded r) RuntimeError) (after s (Remove_claim i) r)
        (\<lambda>s1 x. \<exists>r. s1 = after s (Remove_claim i) r \<and>
          (case x of Inl e \<Rightarrow> \<not> succeeded r \<and> command_error r e | Inr u \<Rightarrow> succeeded r))"
      by (rule runs_require) (auto intro: exI [of _ r])
  qed (auto intro: exI [of _ Undecodable])
qed (use assms(2,3) in auto)





section \<open>Acquisition\<close>

text \<open>
  Which container holds a name after a history of commands, from whatever processes: the one that the last
  confirmed creation under it returned, until its removal is issued.
\<close>

fun held :: "string \<Rightarrow> string option \<Rightarrow> trace \<Rightarrow> string option" where
  "held n h [] = h"
| "held n h ((c, r) # t) =
     held n (case c of
         Create_claim m p v img \<Rightarrow> if m = n \<and> succeeded r then Some (str_strip (stdout r)) else h
       | Remove_claim i \<Rightarrow> if h = Some i then None else h
       | Remove_resource Container i \<Rightarrow> if h = Some i then None else h
       | _ \<Rightarrow> h) t"

lemma held_append [simp]: "held n h (t @ t') = held n (held n h t) t'"
  by (induction n h t rule: held.induct) simp_all

lemma held_observes: "observes t \<Longrightarrow> held n h t = h"
  by (induction n h t rule: held.induct) (auto split: docker_command.splits)

text \<open>What Docker documents: a name in use cannot be given to another container.\<close>

definition names_exclusive :: "daemon \<Rightarrow> bool" where
  "names_exclusive dm \<longleftrightarrow> (\<forall>t n p v img. held n None t \<noteq> None \<longrightarrow> \<not> succeeded (dm t (Create_claim n p v img)))"

text \<open>Commands that leave the container \<open>i\<close> and create no other under the name.\<close>

definition leaves_marker :: "string \<Rightarrow> string \<Rightarrow> trace \<Rightarrow> bool" where
  "leaves_marker n i t \<longleftrightarrow>
     list_all (\<lambda>(c, r). c \<noteq> Remove_claim i \<and> c \<noteq> Remove_resource Container i \<and>
       (\<forall>p v img. c = Create_claim n p v img \<longrightarrow> \<not> succeeded r)) t"

lemma held_leaves_marker: "leaves_marker n i t \<Longrightarrow> held n (Some i) t = Some i"
  by (induction t) (auto simp: leaves_marker_def split: docker_command.split resource.split)

text \<open>An acquisition that fails and leaves everything as it was.\<close>

definition refused :: "ownership \<Rightarrow> ownership \<times> unit result \<Rightarrow> bool" where
  "refused s r \<longleftrightarrow>
     (case r of
        (s2, x) \<Rightarrow>
          (\<exists>e new. x = Inl e \<and> ow_trace s2 = ow_trace s @ new \<and> ow_receipt s2 = ow_receipt s \<and> removes_nothing new \<and>
             (\<forall>n p v img q. (Create_claim n p v img, q) \<in> set new \<longrightarrow> \<not> succeeded q)))"

lemma refused_self: "refused s (s, Inl e)"
  by (auto simp: refused_def intro!: exI [of _ "[]"])

lemma claim_image_trace: "fst (claim_image dm loads s) = after s Compose_config (dm (ow_trace s) Compose_config)"
  by (auto simp: claim_image_def chain_def docker_def require_def return_def raise_def after_def Let_def
      split: option.split json.split)

lemma chain_steps:
  "chain (require b e) f s = (if b then f () s else (s, Inl e))"
  "chain receipt_exists g s = g (ow_receipt s \<noteq> No_receipt) s"
  by (simp_all add: chain_def require_def return_def raise_def receipt_exists_def)

lemma acquire_refused:
  assumes "names_exclusive dm" "held (claim_name project) None (ow_trace s) \<noteq> None"
  shows "refused s (acquire dm loads disk project invocation s)"
proof -
  let ?s1 = "after s Compose_config (dm (ow_trace s) Compose_config)"
  have compose: "refused s (?s1, Inl e)" for e
    by (auto simp: refused_def intro!: exI [of _ "[(Compose_config, dm (ow_trace s) Compose_config)]"])
  have create: "refused s (chain (docker dm (Create_claim (claim_name project) project invocation img))
      (\<lambda>claim. chain (require (succeeded claim) RuntimeError) (\<lambda>_. f claim)) ?s1)" for img f
  proof -
    let ?c = "Create_claim (claim_name project) project invocation img"
    have failed: "\<not> succeeded (dm (ow_trace ?s1) ?c)"
      using assms by (simp add: names_exclusive_def)
    have "refused s (after ?s1 ?c (dm (ow_trace ?s1) ?c), Inl e)" for e
      using failed
      by (auto simp: refused_def
          intro!: exI [of _ "[(Compose_config, dm (ow_trace s) Compose_config), (?c, dm (ow_trace ?s1) ?c)]"])
    with failed show ?thesis
      by (cases "dm (ow_trace ?s1) ?c = Undecodable")
        (auto simp: chain_def docker_def require_def raise_def Let_def after_def)
  qed
  obtain x where claim_image: "claim_image dm loads s = (?s1, x)"
    using claim_image_trace [of dm loads s] by (metis prod.collapse)
  show ?thesis
    unfolding acquire_def validate_project_def validate_invocation_def
    by (cases x) (simp_all add: chain_steps refused_self chain_def [where p = "claim_image dm loads"] claim_image compose create)
qed

definition acquired_or_released ::
  "(string \<Rightarrow> json option) \<Rightarrow> disk \<Rightarrow> string \<Rightarrow> string \<Rightarrow> receipt \<Rightarrow> ownership \<Rightarrow> unit result \<Rightarrow> bool" where
  "acquired_or_released loads disk project invocation f s1 x \<longleftrightarrow>
     (case x of
        Inr u \<Rightarrow>
          f = No_receipt \<and> removes_nothing (ow_trace s1) \<and> all_clear project resources (ow_trace s1) \<and>
          (\<exists>r. (List_volumes, r) \<in> set (ow_trace s1) \<and> succeeded r \<and>
               postgres_data_volume project \<notin> set (str_split (stdout r))) \<and>
          (\<exists>i. created project invocation (ow_trace s1) i \<and> held (claim_name project) None (ow_trace s1) = Some i \<and>
               identified loads project invocation (ow_trace s1) i \<and>
               receipt_claim project invocation (ow_receipt s1) = Some i)
      | Inl e \<Rightarrow>
          (ow_receipt s1 = f \<or> f = No_receipt \<and> disk = Leaves (ow_receipt s1)) \<and>
          (\<forall>i. created project invocation (ow_trace s1) i \<longrightarrow>
               (\<exists>r. (Remove_claim i, r) \<in> set (ow_trace s1)) \<or>
               e = ValueError \<and> Undecodable \<in> snd ` set (ow_trace s1)))"

lemma receipt_claim_written:
  "hex_string 64 i \<Longrightarrow> receipt_claim project invocation (Json_receipt (receipt_json project invocation i)) = Some i"
  by (simp add: receipt_claim_def receipt_json_def json_get_def)

lemma own_marker_quiet: "\<not> removing c \<Longrightarrow> own_marker project invocation t c"
  by (simp add: own_marker_def)

text \<open>The checks between the creation of the marker and the receipt.\<close>

definition namespace_checked ::
  "(string \<Rightarrow> json option) \<Rightarrow> disk \<Rightarrow> string \<Rightarrow> string \<Rightarrow> string \<Rightarrow> ownership \<Rightarrow> ownership \<Rightarrow> unit result \<Rightarrow> bool" where
  "namespace_checked loads disk project invocation i s s1 x \<longleftrightarrow>
     (\<exists>new. ow_trace s1 = ow_trace s @ new \<and> observes new \<and>
       (case x of
          Inl e \<Rightarrow> error_of new e \<and> (ow_receipt s1 = ow_receipt s \<or> ow_receipt s = No_receipt \<and> disk = Leaves (ow_receipt s1))
        | Inr u \<Rightarrow>
            ow_receipt s = No_receipt \<and> ow_receipt s1 = Json_receipt (receipt_json project invocation i) \<and>
            all_clear project resources new \<and> identified loads project invocation new i \<and>
            (\<exists>r. (List_volumes, r) \<in> set new \<and> succeeded r \<and> postgres_data_volume project \<notin> set (str_split (stdout r)))))"

lemma namespace_checked_error:
  assumes "ow_trace s1 = ow_trace s @ new" "ow_receipt s1 = ow_receipt s" "observes new" "error_of new e"
  shows "namespace_checked loads disk project invocation i s s1 (Inl e)"
  using assms by (auto simp: namespace_checked_def)

lemma runs_check_namespace:
  "runs (own_marker project invocation) (check_namespace dm loads disk project invocation i) s
     (namespace_checked loads disk project invocation i s)"
  unfolding check_namespace_def
proof (rule runs_chain [OF runs_inspect_resources], goal_cases)
  case (1 t k)
  then show ?case
    by (simp add: own_marker_quiet)
next
  case (2 s1 e)
  then show ?case
    by (auto simp: inspected_def extends_def intro: namespace_checked_error)
next
  case (3 s1 u)
  then obtain new where s1: "ow_trace s1 = ow_trace s @ new" "ow_receipt s1 = ow_receipt s" "observes new"
      "all_clear project resources new"
    by (auto simp: inspected_def extends_def)
  show ?case
  proof (intro runs_chain_docker runs_chain_require)
    fix r
    let ?s1 = "after s1 List_volumes r"
    show "own_marker project invocation (ow_trace s1) List_volumes"
      by (simp add: own_marker_quiet)
    show "namespace_checked loads disk project invocation i s ?s1 (Inl RuntimeError)"
      "namespace_checked loads disk project invocation i s ?s1 (Inl RuntimeError)"
      using s1 by (auto intro: namespace_checked_error [where new = "new @ [(List_volumes, r)]"])
    show "namespace_checked loads disk project invocation i s (after s1 List_volumes Undecodable) (Inl ValueError)"
      using s1 by (auto intro: namespace_checked_error [where new = "new @ [(List_volumes, Undecodable)]"])
    assume ok: "succeeded r" "postgres_data_volume project \<notin> set (str_split (stdout r))"
    show "runs (own_marker project invocation)
        (chain (claim_identity dm loads project) (\<lambda>ia. chain (require (ia = Some (i, invocation)) RuntimeError)
            (\<lambda>_. write_receipt disk (receipt_json project invocation i)))) ?s1
        (namespace_checked loads disk project invocation i s)"
    proof (rule runs_chain [where R = "\<lambda>s2 x. \<exists>q. s2 = after ?s1 (Inspect_claim (claim_name project)) q \<and>
          (case x of Inl e \<Rightarrow> command_error q e | Inr ia \<Rightarrow> read_identity loads project q = Inr ia)"], goal_cases)
      case 1
      show ?case
        by (rule runs_claim_identity) (auto simp: own_marker_quiet)
    next
      case (2 s2 e)
      then obtain q where s2: "s2 = after ?s1 (Inspect_claim (claim_name project)) q" "command_error q e"
        by auto
      have "error_of (new @ [(List_volumes, r), (Inspect_claim (claim_name project), q)]) e"
        by (rule command_error_of [OF s2(2), where c = "Inspect_claim (claim_name project)"]) simp
      then show ?case
        using s1 s2(1) by (auto intro!: namespace_checked_error)
    next
      case (3 s2 ia)
      then obtain q where s2: "s2 = after ?s1 (Inspect_claim (claim_name project)) q" "read_identity loads project q = Inr ia"
        by auto
      have trace: "ow_trace s2 = ow_trace s @ new @ [(List_volumes, r), (Inspect_claim (claim_name project), q)]"
          "ow_receipt s2 = ow_receipt s"
        using s1 s2 by auto
      show ?case
      proof (rule runs_chain_require)
        show "namespace_checked loads disk project invocation i s s2 (Inl RuntimeError)"
          using trace s1 by (auto intro!: namespace_checked_error)
        assume "ia = Some (i, invocation)"
        then have "identified loads project invocation (new @ [(List_volumes, r), (Inspect_claim (claim_name project), q)]) i"
          using s2 by (auto simp: identified_def)
        then show "runs (own_marker project invocation) (write_receipt disk (receipt_json project invocation i)) s2
            (namespace_checked loads disk project invocation i s)"
          using trace s1 ok
          by (auto simp: runs_def write_receipt_def namespace_checked_def all_clear_def split: disk.splits)
      qed
    qed
  qed
qed

lemma acquisition_refused:
  assumes "ow_receipt s = f" "\<And>i. \<not> created project invocation (ow_trace s) i"
  shows "acquired_or_released loads disk project invocation f s (Inl e)"
  using assms by (simp add: acquired_or_released_def)

lemma runs_checked_or_released:
  assumes trace: "ow_trace s = [(Compose_config, q), (Create_claim (claim_name project) project invocation img, r)]"
    and made: "succeeded r" "hex_string 64 (str_strip (stdout r))" and "ow_receipt s = f"
  shows "runs (own_marker project invocation) (checked_or_released dm loads disk project invocation (str_strip (stdout r))) s
           (acquired_or_released loads disk project invocation f)"
proof -
  let ?i = "str_strip (stdout r)"
  let ?P = "own_marker project invocation"
  obtain s1 x where check: "check_namespace dm loads disk project invocation ?i s = (s1, x)"
    by (cases "check_namespace dm loads disk project invocation ?i s")
  have run: "runs ?P (check_namespace dm loads disk project invocation ?i) s (namespace_checked loads disk project invocation ?i s)"
    by (rule runs_check_namespace)
  obtain new where new: "ow_trace s1 = ow_trace s @ new" "observes new" "allowed ?P (ow_trace s) new"
      "namespace_checked loads disk project invocation ?i s s1 x"
    using run by (auto simp: runs_def check namespace_checked_def)
  have mine: "created project invocation (ow_trace s1) ?i"
    using trace new(1) made by (auto simp: created_def)
  have only: "created project invocation (ow_trace s1) j \<longleftrightarrow> j = ?i" for j
    using trace new(1) made observes_creates_nothing [OF new(2)] by (auto simp: created_def)
  show ?thesis
  proof (cases x)
    case (Inr u)
    then have "acquired_or_released loads disk project invocation f s1 (Inr u)"
      using new(4) trace mine assms new(1,2) held_observes [OF new(2)]
      by (auto simp: namespace_checked_def acquired_or_released_def receipt_claim_written all_clear_def identified_def
          observes_removes_nothing split: prod.splits)
    then show ?thesis
      using new(1,3) Inr by (auto simp: runs_def checked_or_released_def check)
  next
    case (Inl e)
    then have e: "error_of new e"
        "ow_receipt s1 = f \<or> f = No_receipt \<and> disk = Leaves (ow_receipt s1)"
      using new(1,4) assms(4) by (auto simp: namespace_checked_def)
    have released: "runs ?P (chain (release_claim dm ?i) (\<lambda>_. raise e)) s1 (acquired_or_released loads disk project invocation f)"
    proof (rule runs_release)
      show "?P (ow_trace s1) (Remove_claim ?i)"
        using mine by (simp add: own_marker_def)
      have after: "acquired_or_released loads disk project invocation f (after s1 (Remove_claim ?i) q) (Inl a)" for q a
        using e(2) only by (auto simp: acquired_or_released_def created_def)
      then show "acquired_or_released loads disk project invocation f (after s1 (Remove_claim ?i) q) (Inl a)" for q a
        by simp
      show "runs ?P (raise e) (after s1 (Remove_claim ?i) q) (acquired_or_released loads disk project invocation f)" for q
        by (rule runs_raise, rule after)
    qed
    show ?thesis
    proof (cases "e = RuntimeError")
      case True
      with released show ?thesis
        using new(1,3) Inl by (auto simp: runs_def checked_or_released_def check)
    next
      case False
      with e new(1) have "acquired_or_released loads disk project invocation f s1 (Inl e)"
        by (force simp: acquired_or_released_def error_of_def)
      with False show ?thesis
        using new(1,3) Inl by (auto simp: runs_def checked_or_released_def check)
    qed
  qed
qed

lemma runs_acquire:
  "runs (own_marker project invocation) (acquire dm loads disk project invocation) \<lparr>ow_trace = [], ow_receipt = f\<rparr>
     (acquired_or_released loads disk project invocation f)"
proof -
  let ?s = "\<lparr>ow_trace = [], ow_receipt = f\<rparr>"
  let ?P = "own_marker project invocation"
  let ?Q = "acquired_or_released loads disk project invocation f"
  have image: "runs ?P (claim_image dm loads) ?s (\<lambda>s1 x. \<exists>q. s1 = after ?s Compose_config q)"
    unfolding claim_image_def
    by (auto intro!: runs_intros simp: own_marker_quiet split: option.split json.split if_splits)
  have create: "runs ?P
      (chain (docker dm (Create_claim (claim_name project) project invocation img)) (\<lambda>claim.
       chain (require (succeeded claim) RuntimeError) (\<lambda>_.
       chain (require (hex_string 64 (str_strip (stdout claim))) RuntimeError) (\<lambda>_.
       checked_or_released dm loads disk project invocation (str_strip (stdout claim)))))) (after ?s Compose_config q) ?Q" for img q
    by (intro runs_chain_docker runs_chain_require runs_checked_or_released acquisition_refused)
      (auto simp: own_marker_quiet created_def)
  have exist: "runs ?P receipt_exists ?s (\<lambda>s1 x. s1 = ?s \<and> x = Inr (f \<noteq> No_receipt))"
    by (simp add: runs_def receipt_exists_def)
  have refused: "?Q ?s (Inl e)" for e
    by (simp add: acquisition_refused created_def)
  have rest: "runs ?P (chain (claim_image dm loads) (\<lambda>img.
      chain (docker dm (Create_claim (claim_name project) project invocation img)) (\<lambda>claim.
       chain (require (succeeded claim) RuntimeError) (\<lambda>_.
       chain (require (hex_string 64 (str_strip (stdout claim))) RuntimeError) (\<lambda>_.
       checked_or_released dm loads disk project invocation (str_strip (stdout claim))))))) ?s ?Q"
    by (rule runs_chain [OF image]) (auto intro!: acquisition_refused create simp: created_def)
  show ?thesis
    unfolding acquire_def validate_project_def validate_invocation_def
  proof (intro runs_chain_require refused runs_chain [OF exist], goal_cases)
    case (1 s1 e)
    then show ?case
      by simp
  next
    case (2 s1 there)
    then have "s1 = ?s"
      by simp
    with refused show ?case
      by (simp only:)
  next
    case (3 s1 there)
    then have "s1 = ?s"
      by simp
    with rest show ?case
      by (simp only:)
  qed
qed

text \<open>
  C24: the only removal an acquisition issues is of the marker that its own creation returned, never of a
  container found by name.  Success means an empty namespace, a marker that the daemon identifies with
  this invocation, and a receipt that records it.  After an error nothing but what a failing write left
  has become a receipt, and the removal of a marker whose creation was confirmed has been issued, except
  when the output of a command could not be decoded: that error is no \<open>RuntimeError\<close>, and the marker
  stays.  A creation without an identifier in its answer is never taken as one's own, so nothing is
  removed after it.  An acquisition that succeeded excludes every other of the project on a
  daemon that gives a name to one container only: whatever runs in between, as long as it leaves the
  marker, a later acquisition, by whatever invocation and with whatever files, fails without creating or
  removing anything.
\<close>

theorem acquire_exclusive:
  assumes "acquire dm loads disk project invocation \<lparr>ow_trace = [], ow_receipt = f\<rparr> = (s1, x)"
  shows "allowed (own_marker project invocation) [] (ow_trace s1) \<and>
         acquired_or_released loads disk project invocation f s1 x \<and>
         (\<forall>i dm' loads' disk' invocation' t f'.
            x = Inr () \<and> receipt_claim project invocation (ow_receipt s1) = Some i \<and>
            leaves_marker (claim_name project) i t \<and> names_exclusive dm' \<longrightarrow>
            refused \<lparr>ow_trace = ow_trace s1 @ t, ow_receipt = f'\<rparr>
              (acquire dm' loads' disk' project invocation' \<lparr>ow_trace = ow_trace s1 @ t, ow_receipt = f'\<rparr>))"
proof (intro conjI allI impI)
  have *: "allowed (own_marker project invocation) [] (ow_trace s1) \<and>
      acquired_or_released loads disk project invocation f s1 x"
    using runs_acquire [of project invocation dm loads disk f] assms by (simp add: runs_def)
  then show "allowed (own_marker project invocation) [] (ow_trace s1)"
    "acquired_or_released loads disk project invocation f s1 x" by blast+
  fix i dm' loads' disk' invocation' t f'
  assume later: "x = Inr () \<and> receipt_claim project invocation (ow_receipt s1) = Some i \<and>
            leaves_marker (claim_name project) i t \<and> names_exclusive dm'"
  with * have "held (claim_name project) None (ow_trace s1) = Some i"
    by (auto simp: acquired_or_released_def)
  with later have "held (claim_name project) None (ow_trace s1 @ t) \<noteq> None"
    by (simp add: held_leaves_marker)
  with later acquire_refused [of dm' project "\<lparr>ow_trace = ow_trace s1 @ t, ow_receipt = f'\<rparr>"]
  show "refused \<lparr>ow_trace = ow_trace s1 @ t, ow_receipt = f'\<rparr>
      (acquire dm' loads' disk' project invocation' \<lparr>ow_trace = ow_trace s1 @ t, ow_receipt = f'\<rparr>)"
    by simp
qed

end
