(* ===== verification/VerificationRun.thy ===== *)
theory VerificationRun
  imports OwnershipProps
begin

text \<open>
  The wrapper of the verification tasks (\<open>scripts/verification.py\<close>).  The command is a parameter that
  may act on the daemon and on the receipt; the content of the lock file before and after the run, the
  fresh identifiers and what the disk refuses are parameters as well.
\<close>

type_synonym variables = "string \<rightharpoonup> string"

datatype run_outcome = Returned int | Not_launched | Interrupted

type_synonym launcher = "string list \<Rightarrow> variables \<Rightarrow> ownership \<Rightarrow> ownership \<times> run_outcome"

definition audit_command :: "string list" where
  "audit_command = [''uv'', ''--no-config'', ''--preview-features'', ''audit'', ''audit'', ''--locked'']"

definition strip_separator :: "string list \<Rightarrow> string list" where
  "strip_separator command = (if take 1 command = [''--''] then drop 1 command else command)"

definition kept_variable :: "string \<Rightarrow> bool" where
  "kept_variable k \<longleftrightarrow>
     (\<not> prefix ''UV_'' k \<or> k \<in> {''UV_PYTHON'', ''UV_PYTHON_DOWNLOADS'', ''UV_CACHE_DIR''}) \<and>
     k \<notin> {''VIRTUAL_ENV'', ''PYTEST_ADDOPTS'', ''PYTEST_PLUGINS''}"

definition command_environment :: "variables \<Rightarrow> variables" where
  "command_environment env = (\<lambda>k. if kept_variable k then env k else None)"

definition isolated_task :: "string \<Rightarrow> bool" where
  "isolated_task task \<longleftrightarrow> task = ''test'' \<or> task = ''test:deployment''"

definition project_variable :: string where "project_variable = ''CORRELIA_VERIFICATION_PROJECT''"
definition invocation_variable :: string where "invocation_variable = ''CORRELIA_VERIFICATION_INVOCATION''"
definition receipt_variable :: string where "receipt_variable = ''CORRELIA_VERIFICATION_RECEIPT''"

text \<open>\<open>environment.setdefault\<close>: an inherited project is used as it is.\<close>

definition task_project :: "string \<Rightarrow> variables \<Rightarrow> string \<Rightarrow> string option \<times> variables" where
  "task_project task env fresh =
     (if isolated_task task
      then (case env project_variable of
              Some p \<Rightarrow> (Some p, env)
            | None \<Rightarrow> let p = ''correlia-verify-'' @ fresh in (Some p, env(project_variable \<mapsto> p)))
      else (None, env))"

definition receipt_path :: "string \<Rightarrow> string \<Rightarrow> string" where
  "receipt_path tempdir invocation = tempdir @ ''/correlia-verification-'' @ invocation @ ''.json''"

definition claimed_environment :: "string \<Rightarrow> string \<Rightarrow> variables \<Rightarrow> variables" where
  "claimed_environment tempdir invocation env =
     env(invocation_variable \<mapsto> invocation, receipt_variable \<mapsto> receipt_path tempdir invocation)"

definition exports :: "variables \<Rightarrow> string option" where
  "exports env = (case env ''GITHUB_ENV'' of None \<Rightarrow> None | Some p \<Rightarrow> if p = [] then None else Some p)"

definition outcome_code :: "run_outcome \<Rightarrow> int" where
  "outcome_code r = (case r of Returned n \<Rightarrow> n | Not_launched \<Rightarrow> 1 | Interrupted \<Rightarrow> 130)"

definition or_failed :: "int \<Rightarrow> int" where
  "or_failed n = (if n = 0 then 1 else n)"

record verification =
  vr_tempdir :: string
  vr_project_id :: string        \<comment> \<open>\<open>uuid4().hex\<close>\<close>
  vr_invocation :: string        \<comment> \<open>\<open>uuid4().hex\<close>\<close>
  vr_lock_before :: "string option"
  vr_lock_after :: "string option"
  vr_disk :: disk
  vr_unlinkable :: bool
  vr_exports_written :: bool
  vr_summary_written :: bool

text \<open>The body of the \<open>try\<close>: whether the project was acquired, and the result so far.\<close>

definition run_command ::
  "daemon \<Rightarrow> (string \<Rightarrow> json option) \<Rightarrow> launcher \<Rightarrow> verification \<Rightarrow> string option \<Rightarrow> variables \<Rightarrow> string list \<Rightarrow>
   ownership \<Rightarrow> ownership \<times> bool \<times> int" where
  "run_command dm loads launch vr project env command s =
     (case project of
        None \<Rightarrow> (let (s1, r) = launch command env s in (s1, False, outcome_code r))
      | Some p \<Rightarrow>
          (case acquire dm loads (vr_disk vr) p (vr_invocation vr) s of
             (s1, Inl e) \<Rightarrow> (s1, False, 1)
           | (s1, Inr u) \<Rightarrow>
               let env1 = claimed_environment (vr_tempdir vr) (vr_invocation vr) env
               in if exports env1 \<noteq> None \<and> \<not> vr_exports_written vr then (s1, True, 1)
                  else (let (s2, r) = launch command env1 s1 in (s2, True, outcome_code r))))"

text \<open>The \<open>finally\<close>: the cleanup of an acquired project and the comparison of the lock file.\<close>

definition cleaned_result ::
  "daemon \<Rightarrow> (string \<Rightarrow> json option) \<Rightarrow> verification \<Rightarrow> string option \<Rightarrow> bool \<Rightarrow> int \<Rightarrow> ownership \<Rightarrow> ownership \<times> int" where
  "cleaned_result dm loads vr project acquired n s =
     (case (acquired, project) of
        (True, Some p) \<Rightarrow>
          (case cleanup_owned dm loads (vr_unlinkable vr) p (vr_invocation vr) True s of
             (s1, x) \<Rightarrow> (s1, if x = Inr True then n else or_failed n))
      | _ \<Rightarrow> (s, n))"

definition lock_result :: "(string \<Rightarrow> string) \<Rightarrow> verification \<Rightarrow> string \<Rightarrow> int \<Rightarrow> int" where
  "lock_result sha256 vr before n =
     (case vr_lock_after vr of
        None \<Rightarrow> or_failed n
      | Some lock \<Rightarrow> if sha256 lock \<noteq> before then or_failed n else n)"

definition summarised :: "verification \<Rightarrow> variables \<Rightarrow> int \<Rightarrow> int result" where
  "summarised vr environ n =
     (case environ ''GITHUB_STEP_SUMMARY'' of
        Some (c # cs) \<Rightarrow> if vr_summary_written vr then Inr n else Inl OSError
      | _ \<Rightarrow> Inr n)"

text \<open>\<open>main\<close>: a usage error is the exit code 2 of \<open>argparse\<close>.\<close>

definition verify ::
  "(string \<Rightarrow> string) \<Rightarrow> daemon \<Rightarrow> (string \<Rightarrow> json option) \<Rightarrow> launcher \<Rightarrow> verification \<Rightarrow> variables \<Rightarrow>
   string \<Rightarrow> string list \<Rightarrow> ownership \<Rightarrow> ownership \<times> int result" where
  "verify sha256 dm loads launch vr environ task arguments s =
     (let command = strip_separator arguments
      in if command = [] \<or> task = ''audit'' \<and> command \<noteq> audit_command then (s, Inr 2)
         else (case vr_lock_before vr of
                 None \<Rightarrow> (s, Inr 2)
               | Some lock \<Rightarrow>
                   let (project, env) = task_project task (command_environment environ) (vr_project_id vr);
                       (s1, acquired, n) = run_command dm loads launch vr project env command s;
                       (s2, m) = cleaned_result dm loads vr project acquired n s1
                   in (s2, summarised vr environ (lock_result sha256 vr (sha256 lock) m))))"

section \<open>What a passed task has done\<close>

lemma or_failed_nonzero [simp]: "or_failed n \<noteq> 0"
  by (simp add: or_failed_def)

lemma outcome_code_zero [simp]: "outcome_code r = 0 \<longleftrightarrow> r = Returned 0"
  by (simp add: outcome_code_def split: run_outcome.split)

lemma lock_result_zero:
  "lock_result sha256 vr before n = 0 \<longleftrightarrow> n = 0 \<and> (\<exists>lock. vr_lock_after vr = Some lock \<and> sha256 lock = before)"
  by (auto simp: lock_result_def split: option.split)

lemma summarised_result: "summarised vr environ n = Inr m \<Longrightarrow> m = n"
  by (auto simp: summarised_def split: option.splits list.splits if_splits)

text \<open>
  The variables that could narrow what a command checks: the settings of uv beside the choice of the
  interpreter and of the cache, an activated environment, and options of pytest.
\<close>

definition narrowing_variable :: "string \<Rightarrow> bool" where
  "narrowing_variable k \<longleftrightarrow>
     (\<exists>setting. k = ''UV_'' @ setting \<and> setting \<noteq> ''PYTHON'' \<and> setting \<noteq> ''PYTHON_DOWNLOADS'' \<and> setting \<noteq> ''CACHE_DIR'') \<or>
     k = ''VIRTUAL_ENV'' \<or> k = ''PYTEST_ADDOPTS'' \<or> k = ''PYTEST_PLUGINS''"

lemma kept_variable_iff: "kept_variable k \<longleftrightarrow> \<not> narrowing_variable k"
proof (cases "prefix ''UV_'' k")
  case True
  then obtain setting where "k = ''UV_'' @ setting"
    by (auto simp: prefix_def)
  then show ?thesis
    by (simp add: kept_variable_def narrowing_variable_def)
next
  case False
  then have "\<not> (\<exists>setting. k = ''UV_'' @ setting)"
    by (simp add: prefix_def)
  with False show ?thesis
    unfolding kept_variable_def narrowing_variable_def by blast
qed

lemma task_project_environment:
  assumes "task_project task (command_environment environ) fresh = (project, env)"
  shows "env k = (if narrowing_variable k then None
    else if k = project_variable \<and> project \<noteq> None then project else environ k)"
proof -
  have "\<not> narrowing_variable project_variable"
    by (simp add: narrowing_variable_def project_variable_def)
  with assms show ?thesis
    by (auto simp: task_project_def command_environment_def kept_variable_iff Let_def split: if_splits option.splits)
qed

text \<open>What the command and, for an isolated task, the acquisition before it and the cleanup after it did.\<close>

definition completed ::
  "daemon \<Rightarrow> (string \<Rightarrow> json option) \<Rightarrow> launcher \<Rightarrow> verification \<Rightarrow> string option \<Rightarrow> variables \<Rightarrow> string list \<Rightarrow>
   ownership \<Rightarrow> ownership \<Rightarrow> bool" where
  "completed dm loads launch vr project env command s s3 \<longleftrightarrow>
     (case project of
        None \<Rightarrow> launch command env s = (s3, Returned 0)
      | Some p \<Rightarrow>
          (\<exists>s1 s2. acquire dm loads (vr_disk vr) p (vr_invocation vr) s = (s1, Inr ()) \<and>
             launch command (claimed_environment (vr_tempdir vr) (vr_invocation vr) env) s1 = (s2, Returned 0) \<and>
             cleanup_owned dm loads (vr_unlinkable vr) p (vr_invocation vr) True s2 = (s3, Inr True)))"

lemma run_command_completed:
  assumes "run_command dm loads launch vr project env command s = (s1, acquired, n)"
    and "cleaned_result dm loads vr project acquired n s1 = (s3, 0)"
  shows "completed dm loads launch vr project env command s s3"
proof (cases project)
  case None
  then show ?thesis
    using assms by (auto simp: run_command_def cleaned_result_def completed_def split: prod.splits bool.splits)
next
  case (Some p)
  then show ?thesis
    using assms
    by (auto simp: run_command_def cleaned_result_def completed_def Let_def split: prod.splits sum.splits bool.splits if_splits)
qed

text \<open>
  C25: a task only passes when its command, the complete audit command for \<open>audit\<close>, has returned 0, the
  lock file is there with the digest it had before, and, for an isolated task, the project was acquired
  before the command and its cleanup succeeded after it.  The environment of the command is the inherited
  one, with the project of an isolated task, without the variables that could narrow what it checks:
  every setting of uv but \<open>UV_PYTHON\<close>, \<open>UV_PYTHON_DOWNLOADS\<close> and \<open>UV_CACHE_DIR\<close>, \<open>VIRTUAL_ENV\<close>,
  \<open>PYTEST_ADDOPTS\<close> and \<open>PYTEST_PLUGINS\<close>.
\<close>

theorem verification_passes:
  assumes "verify sha256 dm loads launch vr environ task arguments s = (s3, Inr 0)"
  shows "strip_separator arguments \<noteq> [] \<and> (task = ''audit'' \<longrightarrow> strip_separator arguments = audit_command) \<and>
         (\<exists>lock lock'. vr_lock_before vr = Some lock \<and> vr_lock_after vr = Some lock' \<and> sha256 lock' = sha256 lock) \<and>
         (\<exists>project env. task_project task (command_environment environ) (vr_project_id vr) = (project, env) \<and>
            (\<forall>k. env k = (if narrowing_variable k then None
               else if k = project_variable \<and> project \<noteq> None then project else environ k)) \<and>
            completed dm loads launch vr project env (strip_separator arguments) s s3)"
proof -
  obtain project env where project: "task_project task (command_environment environ) (vr_project_id vr) = (project, env)"
    by (cases "task_project task (command_environment environ) (vr_project_id vr)")
  obtain s1 acquired n where run: "run_command dm loads launch vr project env (strip_separator arguments) s = (s1, acquired, n)"
    using prod_cases3 by blast
  obtain s2 m where clean: "cleaned_result dm loads vr project acquired n s1 = (s2, m)"
    by (cases "cleaned_result dm loads vr project acquired n s1")
  have facts: "strip_separator arguments \<noteq> []" "task = ''audit'' \<longrightarrow> strip_separator arguments = audit_command"
      "\<exists>lock. vr_lock_before vr = Some lock \<and> s2 = s3 \<and> lock_result sha256 vr (sha256 lock) m = 0"
    using assms by (auto simp: verify_def Let_def project run clean dest!: summarised_result split: if_splits option.splits)
  then have "m = 0" "s2 = s3" "\<exists>lock lock'. vr_lock_before vr = Some lock \<and> vr_lock_after vr = Some lock' \<and> sha256 lock' = sha256 lock"
    by (auto simp: lock_result_zero)
  moreover from this have "completed dm loads launch vr project env (strip_separator arguments) s s3"
    using run_command_completed [OF run] clean by simp
  moreover have "\<forall>k. env k = (if narrowing_variable k then None
      else if k = project_variable \<and> project \<noteq> None then project else environ k)"
    using task_project_environment [OF project] by blast
  ultimately show ?thesis
    using facts project by blast
qed

end
