(* ===== verification/WitnessesPlatform.thy ===== *)
theory WitnessesPlatform
  imports WitnessesIngress SchemaRows Logging VerificationRun
begin

text \<open>
  The properties of the schema, of the log lines and of the verification scripts, applied at concrete
  inputs.
\<close>

section \<open>The schema\<close>

lemma demo_first_revision: "run_all (rv_upgrade (hd revisions)) empty_schema \<noteq> None"
  by code_simp

theorem downgrade_undoes_upgrade_witness:
  "\<exists>s'. run_all (rv_upgrade (hd revisions)) empty_schema = Some s' \<and> run_all (rv_downgrade (hd revisions)) s' = Some empty_schema"
proof -
  obtain s' where up: "run_all (rv_upgrade (hd revisions)) empty_schema = Some s'"
    using demo_first_revision by blast
  have "hd revisions \<in> set revisions" "schema_ok empty_schema" by code_simp+
  from downgrade_undoes_upgrade [OF this up] up show ?thesis by blast
qed

theorem written_rows_accepted_witness:
  "\<exists>w' v row. demo_processed = (w', Inr v) \<and> row \<in> set (w_audit w') \<and>
     row_accepted (migrated_table ''incident_events'') (audit_cells row) \<and>
     (\<forall>r \<in> set (w_incidents w').
        row_accepted (migrated_table ''incidents'') (incident_cells (\<lambda>t. ''now'') r) \<longleftrightarrow> representable (\<lambda>t. ''now'') r)"
proof -
  obtain w' v r' where r: "demo_processed = (w', Inr v)" and one: "length (w_audit w') = 1"
    by (rule demo_request_run)
  obtain row where row: "w_audit w' = [row]"
    using one by (cases "w_audit w'") auto
  have "table_inv (w_incidents demo_world)" and none: "w_audit demo_world = []"
    using demo_world_inv(1) by (simp_all add: demo_world_def)
  from written_rows_accepted [OF r this(1), where time_text = "\<lambda>t. ''now''"] row none
  have "row_accepted (migrated_table ''incident_events'') (audit_cells row) \<and>
     (\<forall>r \<in> set (w_incidents w').
        row_accepted (migrated_table ''incidents'') (incident_cells (\<lambda>t. ''now'') r) \<longleftrightarrow> representable (\<lambda>t. ''now'') r)"
    by simp
  with r row show ?thesis by auto
qed

section \<open>A log line\<close>

definition demo_log_fields :: log_fields where
  "demo_log_fields = [(''event'', Lg_str ''audit_write''), (''outcome'', Lg_str ''success''), (''password'', Lg_str ''secret'')]"

definition demo_log_record :: log_record where
  "demo_log_record =
     \<lparr>lg_created = demo_start, lg_levelname = ''INFO'', lg_name = ''app'', lg_message = ''written'',
      lg_dict = [(''name'', Lg_str ''app'')]\<rparr>"

definition demo_log_extra :: log_fields where
  "demo_log_extra = [(''event'', Lg_str ''audit_write''), (''outcome'', Lg_str ''success'')]"

theorem log_line_closed_witness:
  "safe_log_extra demo_log_fields = Inr demo_log_extra \<and>
   log_payload (demo_log_record\<lparr>lg_dict := [(''name'', Lg_str ''app'')] @ demo_log_extra\<rparr>) =
     Inr ([(''ts'', Lg_str (log_timestamp demo_start)), (''level'', Lg_str ''INFO''), (''logger'', Lg_str ''app''),
           (''msg'', Lg_str ''written'')] @ demo_log_extra)"
proof -
  have extra: "safe_log_extra demo_log_fields = Inr demo_log_extra"
    by code_simp
  have made: "make_record demo_log_record demo_log_extra =
      Inr (demo_log_record\<lparr>lg_dict := [(''name'', Lg_str ''app'')] @ demo_log_extra\<rparr>)"
    by (simp add: make_record_def demo_log_record_def demo_log_extra_def)
  have wf: "dict_wf demo_log_fields" "set (dict_keys (lg_dict demo_log_record)) \<inter> set safe_log_keys = {}"
    by (simp_all add: dict_wf_def demo_log_fields_def demo_log_record_def safe_log_keys_def)
  have "safe_log_extra demo_log_fields = Inr demo_log_extra \<or> operational_log_extra demo_log_fields = Inr demo_log_extra"
    using extra by simp
  from log_line_closed [OF this wf(1) made wf(2)] extra show ?thesis
    by (simp add: demo_log_record_def)
qed

section \<open>A verification task\<close>

text \<open>A daemon that gives every name to one container, and lists nothing else.\<close>

definition demo_marker :: string where
  "demo_marker = replicate 64 (CHR ''a'')"

definition demo_invocation :: string where
  "demo_invocation = replicate 32 (CHR ''b'')"

definition demo_project :: string where
  "demo_project = ''correlia-verify-demo''"

fun demo_daemon :: daemon where
  "demo_daemon t Compose_config = Completed 0 ''config''"
| "demo_daemon t (Create_claim n p v img) =
     (if held n None t \<noteq> None then Completed 1 [] else Completed 0 (demo_marker @ [CHR 0x0A]))"
| "demo_daemon t (Inspect_claim n) = Completed 0 ''marker''"
| "demo_daemon t c = Completed 0 []"

lemma demo_daemon_exclusive: "names_exclusive demo_daemon"
  by (simp add: names_exclusive_def succeeded_def)

definition demo_loads :: "string \<Rightarrow> json option" where
  "demo_loads s =
     (if s = ''config'' then Some (JObj [(''services'', JObj [(''postgres'', JObj [(''image'', JStr ''postgres:16'')])])])
      else Some (JObj [(''Id'', JStr demo_marker), (''Name'', JStr (CHR ''/'' # claim_name demo_project)),
        (''Config'', JObj [(''Labels'', JObj [(''correlia.verification.invocation'', JStr demo_invocation),
           (''correlia.verification.project'', JStr demo_project)])])]))"

lemma demo_marker_hex: "hex_string 64 demo_marker"
  by code_simp

lemma demo_acquired:
  "case acquire demo_daemon demo_loads Writes demo_project demo_invocation \<lparr>ow_trace = [], ow_receipt = No_receipt\<rparr> of
     (s1, Inr u) \<Rightarrow> ow_receipt s1 = Json_receipt (receipt_json demo_project demo_invocation demo_marker) | _ \<Rightarrow> False"
  by code_simp

theorem acquire_exclusive_witness:
  "\<exists>s1. acquire demo_daemon demo_loads Writes demo_project demo_invocation \<lparr>ow_trace = [], ow_receipt = No_receipt\<rparr> = (s1, Inr ()) \<and>
     removes_nothing (ow_trace s1) \<and> all_clear demo_project resources (ow_trace s1) \<and>
     refused s1 (acquire demo_daemon demo_loads Writes demo_project (replicate 32 (CHR ''c'')) s1)"
proof -
  obtain s1 where r: "acquire demo_daemon demo_loads Writes demo_project demo_invocation \<lparr>ow_trace = [], ow_receipt = No_receipt\<rparr> = (s1, Inr ())"
    using demo_acquired by (auto split: prod.splits sum.splits)
  then have "ow_receipt s1 = Json_receipt (receipt_json demo_project demo_invocation demo_marker)"
    using demo_acquired by simp
  then have "receipt_claim demo_project demo_invocation (ow_receipt s1) = Some demo_marker"
    using demo_marker_hex by (simp add: receipt_claim_written)
  moreover have "leaves_marker (claim_name demo_project) demo_marker []"
    by (simp add: leaves_marker_def)
  ultimately have "refused \<lparr>ow_trace = ow_trace s1 @ [], ow_receipt = ow_receipt s1\<rparr>
      (acquire demo_daemon demo_loads Writes demo_project (replicate 32 (CHR ''c''))
         \<lparr>ow_trace = ow_trace s1 @ [], ow_receipt = ow_receipt s1\<rparr>)"
    using acquire_exclusive [OF r] demo_daemon_exclusive by blast
  moreover have "\<lparr>ow_trace = ow_trace s1 @ [], ow_receipt = ow_receipt s1\<rparr> = s1"
    by (cases s1) simp
  ultimately have "refused s1 (acquire demo_daemon demo_loads Writes demo_project (replicate 32 (CHR ''c'')) s1)"
    by metis
  moreover have "removes_nothing (ow_trace s1)" "all_clear demo_project resources (ow_trace s1)"
    using acquire_exclusive [OF r] by (auto simp: acquired_or_released_def)
  ultimately show ?thesis using r by blast
qed



definition demo_verification :: verification where
  "demo_verification =
     \<lparr>vr_tempdir = ''/tmp'', vr_project_id = ''demo'', vr_invocation = demo_invocation, vr_lock_before = Some ''lock'',
      vr_lock_after = Some ''lock'', vr_disk = Writes, vr_unlinkable = True, vr_exports_written = True, vr_summary_written = True\<rparr>"

definition demo_launch :: launcher where
  "demo_launch command env s = (s, Returned 0)"

lemma demo_verified:
  "case verify id demo_daemon demo_loads demo_launch demo_verification Map.empty ''test'' [''--'', ''pytest'']
          \<lparr>ow_trace = [], ow_receipt = No_receipt\<rparr> of
     (s3, Inr n) \<Rightarrow> n = 0 | _ \<Rightarrow> False"
  by code_simp

theorem verification_passes_witness:
  "\<exists>s3 env. verify id demo_daemon demo_loads demo_launch demo_verification Map.empty ''test'' [''--'', ''pytest'']
          \<lparr>ow_trace = [], ow_receipt = No_receipt\<rparr> = (s3, Inr 0) \<and>
     completed demo_daemon demo_loads demo_launch demo_verification (Some demo_project) env [''pytest'']
       \<lparr>ow_trace = [], ow_receipt = No_receipt\<rparr> s3"
proof -
  obtain s3 where r: "verify id demo_daemon demo_loads demo_launch demo_verification Map.empty ''test'' [''--'', ''pytest'']
          \<lparr>ow_trace = [], ow_receipt = No_receipt\<rparr> = (s3, Inr 0)"
    using demo_verified by (auto split: prod.splits sum.splits)
  have project: "fst (task_project ''test'' (command_environment Map.empty) ''demo'') = Some demo_project"
    by code_simp
  have command: "strip_separator [''--'', ''pytest''] = [''pytest'']"
    by code_simp
  from verification_passes [OF r] project obtain env where
    "completed demo_daemon demo_loads demo_launch demo_verification (Some demo_project) env [''pytest'']
       \<lparr>ow_trace = [], ow_receipt = No_receipt\<rparr> s3"
    unfolding command by (auto simp: demo_verification_def)
  with r show ?thesis by blast
qed

end
