(* ===== verification/Collectors.thy ===== *)
theory Collectors
  imports Health MigrationReport
begin

text \<open>
  The time series of \<open>app/processing/metrics.py\<close>: the name and the label values under which each
  increment is counted, and the declared domain of every label.  A scrape has finitely many series,
  whatever the requests contain.
\<close>

section \<open>Label values\<close>

fun lifecycle_effect_value :: "lifecycle_effect \<Rightarrow> string" where
  "lifecycle_effect_value Affected_set_shrunk = ''affected_set_shrunk''"
| "lifecycle_effect_value Resolved_effect = ''resolved''"
| "lifecycle_effect_value Noop = ''noop''"
| "lifecycle_effect_value Closed_effect = ''closed''"
| "lifecycle_effect_value Acknowledged = ''acknowledged''"
| "lifecycle_effect_value Expired = ''expired''"

fun incident_effect_value :: "incident_effect \<Rightarrow> string" where
  "incident_effect_value (Aggregation_effect e) = aggregation_effect_value e"
| "incident_effect_value (Lifecycle_effect e) = lifecycle_effect_value e"

fun submission_value :: "submission_outcome \<Rightarrow> string" where
  "submission_value Accepted = ''accepted''"
| "submission_value Missing_runner = ''missing_runner''"
| "submission_value Missing_plugin_outcome = ''missing_plugin''"
| "submission_value Submit_failed = ''submit_failed''"

fun operation_value :: "compatibility_operation \<Rightarrow> string" where
  "operation_value Patch = ''patch''"
| "operation_value Patch_acknowledge = ''patch_acknowledge''"
| "operation_value Patch_close = ''patch_close''"
| "operation_value Delete_close = ''delete_close''"

fun mutation_value :: "compatibility_outcome \<Rightarrow> string" where
  "mutation_value Mutation_success = ''success''"
| "mutation_value Not_found = ''not_found''"
| "mutation_value Invalid_status = ''invalid_status''"
| "mutation_value Invalid_transition = ''invalid_transition''"

fun category_value :: "notification_category \<Rightarrow> string" where
  "category_value Dispatched = ''dispatched''"
| "category_value Missing_plugin = ''missing_plugin''"
| "category_value Missing_incident = ''missing_incident''"
| "category_value Plugin_exception = ''plugin_exception''"
| "category_value Dispatch_failed = ''dispatch_failed''"

definition outcome_value :: "bool \<Rightarrow> string" where
  "outcome_value ok = (if ok then ''success'' else ''failure'')"

section \<open>Series\<close>

type_synonym series = "string \<times> (string \<times> string) list"

fun series_of :: "metric \<Rightarrow> series" where
  "series_of (Compatibility_mutations op res) =
     (''correlia_compatibility_mutations'', [(''operation'', operation_value op), (''outcome'', mutation_value res)])"
| "series_of (Audit_writes ok) = (''correlia_audit_writes'', [(''outcome'', outcome_value ok)])"
| "series_of (Events_accepted ty) = (''correlia_events_accepted'', [(''event_type'', event_type_value ty)])"
| "series_of Events_rejected = (''correlia_events_rejected'', [(''reason'', ''rejected'')])"
| "series_of Matched_rules = (''correlia_matched_rules'', [])"
| "series_of (Incident_effects e) = (''correlia_incident_effects'', [(''effect'', incident_effect_value e)])"
| "series_of (Notification_submissions res) =
     (''correlia_notification_submissions'', [(''outcome'', submission_value res)])"
| "series_of (Notification_deliveries ok cat) =
     (''correlia_notification_deliveries'', [(''category'', category_value cat), (''outcome'', outcome_value ok)])"
| "series_of Task_failures = (''correlia_task_failures'', [(''task_category'', ''handler'')])"

definition readiness_state_values :: "string list" where
  "readiness_state_values = [''ready'', ''not_ready'', ''not_configured'']"

definition migration_report_statuses :: "string list" where
  "migration_report_statuses =
     [''disabled'', ''absent'', ''valid'', ''malformed'', ''oversized'', ''unsupported_version'', ''future_timestamp'',
      ''invalid_summary'', ''unsafe_file'', ''read_error'']"

definition collector_label_domains :: "(string \<times> (string \<times> string list) list) list" where
  "collector_label_domains =
     [(''correlia_compatibility_mutations'',
        [(''operation'', [''patch'', ''patch_acknowledge'', ''patch_close'', ''delete_close'']),
         (''outcome'', [''success'', ''not_found'', ''invalid_status'', ''invalid_transition''])]),
      (''correlia_audit_writes'', [(''outcome'', [''success'', ''failure''])]),
      (''correlia_vigilo_migration_report_status'', [(''status'', migration_report_statuses)]),
      (''correlia_vigilo_migration_report_outcome'', [(''outcome'', migration_outcomes)]),
      (''correlia_vigilo_migration_report_failure_code'', [(''code'', migration_failure_codes)]),
      (''correlia_vigilo_migration_report_completed_timestamp_seconds'', []),
      (''correlia_events_accepted'', [(''event_type'', [''PROBLEM'', ''RECOVERY''])]),
      (''correlia_events_rejected'', [(''reason'', [''rejected''])]),
      (''correlia_matched_rules'', []),
      (''correlia_incident_effects'',
        [(''effect'', [''acknowledged'', ''affected_set_shrunk'', ''closed'', ''expired'', ''inserted'', ''noop'',
           ''resolved'', ''updated''])]),
      (''correlia_plugin_loads'', [(''category'', [''email'', ''unknown'']), (''outcome'', [''success''])]),
      (''correlia_notification_submissions'',
        [(''outcome'', [''accepted'', ''missing_runner'', ''missing_plugin'', ''submit_failed''])]),
      (''correlia_notification_deliveries'',
        [(''category'', [''dispatched'', ''missing_plugin'', ''missing_incident'', ''plugin_exception'', ''dispatch_failed'']),
         (''outcome'', [''success'', ''failure''])]),
      (''correlia_task_failures'', [(''task_category'', [''handler''])]),
      (''correlia_lifecycle_worker_healthy'', []),
      (''correlia_readiness_dependencies'',
        [(''dependency'', readiness_dependency_keys), (''state'', readiness_state_values)]),
      (''correlia_output_plugin_readiness'',
        [(''category'', output_plugin_category_keys), (''state'', readiness_state_values)])]"

text \<open>A series is declared when its labels are those of its collector, each with a value of its domain.\<close>

definition declared_series :: "series \<Rightarrow> bool" where
  "declared_series s =
     (case map_of collector_label_domains (fst s) of
        None \<Rightarrow> False
      | Some ds \<Rightarrow> list_all2 (\<lambda>(k, v) (l, vs). k = l \<and> v \<in> set vs) (snd s) ds)"

text \<open>The loads of a registry, one increment for the category of each entry.\<close>

fun plugin_category_value :: "plugin_category \<Rightarrow> string" where
  "plugin_category_value Email_category = ''email''"
| "plugin_category_value Unknown_category = ''unknown''"

definition plugin_load_series :: "plugin_category \<Rightarrow> series" where
  "plugin_load_series c =
     (''correlia_plugin_loads'', [(''category'', plugin_category_value c), (''outcome'', ''success'')])"

definition registry_loads :: "'p registry \<Rightarrow> series list" where
  "registry_loads g = map plugin_load_series (categories g)"

fun readiness_value :: "plugin_readiness \<Rightarrow> string" where
  "readiness_value Not_configured = ''not_configured''"
| "readiness_value Plugin_ready = ''ready''"
| "readiness_value Plugin_not_ready = ''not_ready''"

definition readiness_series :: "plugin_readiness \<Rightarrow> series list" where
  "readiness_series st =
     map (\<lambda>d. (''correlia_readiness_dependencies'', [(''dependency'', d), (''state'', readiness_value st)])) readiness_dependency_keys @
     map (\<lambda>c. (''correlia_output_plugin_readiness'', [(''category'', c), (''state'', readiness_value st)])) output_plugin_category_keys"

text \<open>The gauge \<open>correlia_lifecycle_worker_healthy\<close>, from the flag a sweep gives.\<close>

definition set_lifecycle_worker_healthy :: "bool \<Rightarrow> int" where
  "set_lifecycle_worker_healthy healthy = (if healthy then 1 else 0)"

section \<open>All series\<close>

definition all_metrics :: "metric list" where
  "all_metrics =
     [Compatibility_mutations op res. op \<leftarrow> [Patch, Patch_acknowledge, Patch_close, Delete_close],
        res \<leftarrow> [Mutation_success, Not_found, Invalid_status, Invalid_transition]] @
     map Audit_writes [True, False] @ map Events_accepted [PROBLEM, RECOVERY] @ [Events_rejected, Matched_rules, Task_failures] @
     map (Incident_effects \<circ> Aggregation_effect) [Inserted, Updated] @
     map (Incident_effects \<circ> Lifecycle_effect) [Affected_set_shrunk, Resolved_effect, Noop, Closed_effect, Acknowledged, Expired] @
     map Notification_submissions [Accepted, Missing_runner, Missing_plugin_outcome, Submit_failed] @
     [Notification_deliveries ok cat. ok \<leftarrow> [True, False],
        cat \<leftarrow> [Dispatched, Missing_plugin, Missing_incident, Plugin_exception, Dispatch_failed]]"

lemma all_metrics: "m \<in> set all_metrics"
proof (cases m)
  case (Compatibility_mutations op res)
  then show ?thesis by (cases op; cases res) (simp_all add: all_metrics_def)
next
  case (Audit_writes ok)
  then show ?thesis by (cases ok) (simp_all add: all_metrics_def)
next
  case (Events_accepted ty)
  then show ?thesis by (cases ty) (simp_all add: all_metrics_def)
next
  case (Incident_effects e)
  show ?thesis
  proof (cases e)
    case (Aggregation_effect a)
    with Incident_effects show ?thesis by (cases a) (simp_all add: all_metrics_def)
  next
    case (Lifecycle_effect l)
    with Incident_effects show ?thesis by (cases l) (simp_all add: all_metrics_def)
  qed
next
  case (Notification_submissions res)
  then show ?thesis by (cases res) (simp_all add: all_metrics_def)
next
  case (Notification_deliveries ok cat)
  then show ?thesis by (cases ok; cases cat) (simp_all add: all_metrics_def)
qed (simp_all add: all_metrics_def)

text \<open>Different increments are different series, each in the declared domain of its collector.\<close>

lemma all_series: "list_all (\<lambda>m. declared_series (series_of m)) all_metrics \<and> distinct (map series_of all_metrics)"
  by code_simp

lemma series_declared: "declared_series (series_of m)"
  using all_series all_metrics [of m] by (simp add: list_all_iff)

lemma series_inj: "series_of m = series_of m' \<Longrightarrow> m = m'"
  using all_series all_metrics [of m] all_metrics [of m'] by (auto simp: distinct_map inj_on_def)

lemma finite_series: "finite (range series_of)"
proof -
  have "range series_of \<subseteq> series_of ` set all_metrics" using all_metrics by blast
  then show ?thesis by (rule finite_subset) simp
qed

lemma registry_loads_declared: "s \<in> set (registry_loads g) \<Longrightarrow> declared_series s"
proof -
  have "declared_series (plugin_load_series Email_category)" "declared_series (plugin_load_series Unknown_category)"
    by code_simp+
  then have "declared_series (plugin_load_series c)" for c
    by (cases c) simp_all
  then show "s \<in> set (registry_loads g) \<Longrightarrow> declared_series s"
    by (auto simp: registry_loads_def)
qed

lemma readiness_series_declared: "s \<in> set (readiness_series st) \<Longrightarrow> declared_series s"
proof -
  have "list_all declared_series (readiness_series Not_configured)" "list_all declared_series (readiness_series Plugin_ready)"
    "list_all declared_series (readiness_series Plugin_not_ready)"
    by code_simp+
  then show "s \<in> set (readiness_series st) \<Longrightarrow> declared_series s"
    by (cases st) (auto simp: list_all_iff)
qed

end
