(* ===== verification/Spec2Isabelle.thy ===== *)
theory Spec2Isabelle
  imports Witnesses WitnessesConfig WitnessesStore WitnessesIngress WitnessesApi WitnessesService WitnessesMigration WitnessesPlatform Collectors
begin

text \<open>
  Correlia turns monitoring webhooks into incidents and notifications.  This development models
  the service of \<open>src/app\<close>, its migrations and its scripts as functions on explicit states and proves what makes it correct.

  \<^bold>\<open>Flow.\<close>  An Icinga2 webhook passes the middleware (\<open>RateLimit\<close>) and the bearer token
  (\<open>Access\<close>), is validated and normalised (\<open>Icinga2\<close>, \<open>Events\<close>), enriched with topology tags
  (\<open>Topology\<close>) and matched against the rules (\<open>Rules\<close>).  One transaction (\<open>Ingress\<close>) applies it to
  the incident table (\<open>Manager\<close>, \<open>Aggregation\<close>, \<open>LifecycleRepo\<close>) and inserts an audit row (\<open>Redaction\<close>,
  \<open>AuditStore\<close>); after the commit, \<open>Processor\<close> submits a task per plugin to the runner (\<open>Tasks\<close>), whose
  handler is the dispatcher (\<open>Notify\<close>) that calls an output plugin (\<open>Plugins\<close>, \<open>Email\<close>).  Operators read
  and change incidents through \<open>IncidentApi\<close>, read lists by cursor (\<open>Cursor\<close>, \<open>Paging\<close>,
  \<open>IncidentListing\<close>, \<open>AuditStore\<close>), and stale incidents expire in batches (\<open>LifecycleRepo\<close>), which a
  background worker runs (\<open>Worker\<close>).  \<open>create_app\<close> and its lifespan put the parts together (\<open>Wiring\<close>,
  \<open>Startup\<close>), readiness looks at them (\<open>Health\<close>).  Beside the service, a command line tool migrates
  an older configuration into the three files the service loads (the theories \<open>Migrate\<dots>\<close>), and the
  service shows the outcome of its last run (\<open>MigrationReport\<close>).  The database schema comes from
  migrations (\<open>Schema\<close>, \<open>SchemaRows\<close>), log lines from one formatter (\<open>Logging\<close>).  The verification
  scripts own a project on a Docker daemon while a task runs (\<open>Ownership\<close>, \<open>VerificationRun\<close>).

  \<^bold>\<open>Conventions.\<close>  A result is \<open>error + 'a\<close>, where \<open>Inl\<close> is a Python exception.  A dict is an
  association list with distinct keys in insertion order; a row of a table is a record and a table
  the list of its rows in insertion order.  A repository operation takes the time of its
  transaction, its arguments and the table, and returns the table with its result; a service
  function also returns the counters of \<open>Metrics\<close>; a rolled back transaction returns an error and
  its caller keeps the old table.  Timestamps are integers of microseconds since the epoch,
  UUIDs are \<open>128 word\<close>, bytes are \<open>8 word\<close>, Python integers are \<open>int\<close>.  Definitions compute, so that
  the witnesses evaluate them.

  \<^bold>\<open>Parameters.\<close>  Code outside the repository is an argument: SHA-256 and HMAC, regular
  expressions, YAML and JSON parsing, \<open>datetime.fromisoformat\<close>, the parsing of addresses, the text
  form PostgreSQL gives a \<open>jsonb\<close> value, the import and construction of a plugin, the SMTP client,
  whether the database accepts a commit, and what the framework makes of the body of a request, which
  it reads before it checks a token; for the migration also \<open>argparse\<close>, \<open>fnmatch.translate\<close>,
  \<open>str\<close> of a value that is no string, and which steps of the file system succeed (\<open>argparse\<close> may end the run for
  \<open>--help\<close>, and compiling a regex may give another exception than \<open>re.error\<close>); for the scripts a
  Docker daemon that may answer anything, also output that is no UTF-8, whether the receipt can be
  unlinked, and the command of a task.

  \<^bold>\<open>Theories.\<close>
  \<^item> \<open>Prelude\<close>, \<open>PyJson\<close>, \<open>PyTime\<close>: the error monad, dictionaries, strings, JSON text, datetimes.
  \<^item> \<open>Events\<close> (\<open>domain/events.py\<close>), \<open>IncidentDomain\<close> (\<open>domain/incidents.py\<close>, \<open>domain/notifications.py\<close>),
    \<open>IncidentTable\<close> (\<open>persistence/models.py\<close>): the data, with the invariant \<open>table_inv\<close> of the incident
    table: unique ids, one open incident per rule and group key, consistent windows.
  \<^item> \<open>Aggregation\<close>, \<open>LifecycleRepo\<close> (\<open>persistence/incidents.py\<close>): every write of the repository.
    \<open>AggregationFacts\<close>, \<open>LifecycleFacts\<close>, \<open>LifecycleProps\<close>: the sliding window refines a set of
    timed fingerprints, recoveries refine the removal of objects from a set, expiration closes exactly
    the stale incidents.
  \<^item> \<open>Rules\<close>, \<open>Topology\<close> (\<open>config\<close>, \<open>processing/rule_engine.py\<close>, \<open>processing/enrichment.py\<close>): what a
    loaded configuration guarantees, and what evaluation and enrichment return.
  \<^item> \<open>Metrics\<close>, \<open>Manager\<close>, \<open>System\<close>, \<open>ManagerProps\<close> (\<open>processing/incident_manager.py\<close>,
    \<open>processing/lifecycle.py\<close>): the managers and the step relation \<open>db_step\<close> of all transactions, with
    its reachable states: invariant, monotone history, at most one planned dispatch per incident.
  \<^item> \<open>Redaction\<close>, \<open>AuditStore\<close>, \<open>Cursor\<close>, \<open>Paging\<close>, \<open>IncidentListing\<close> (\<open>persistence/audit.py\<close>,
    \<open>domain/audit.py\<close>, \<open>api/routers/audit.py\<close>): redaction and size caps, projection, cursors as base64
    JSON, and the locale \<open>keyset_pages\<close>: a client that follows cursors reads every row once, in order.
  \<^item> \<open>Icinga2\<close>, \<open>Plugins\<close>, \<open>Tasks\<close>, \<open>Notify\<close>, \<open>Email\<close> (\<open>plugins\<close>, \<open>processing/task_runner.py\<close>,
    \<open>processing/notification_dispatcher.py\<close>): normalisation of a webhook, the plugin registry, the task
    queue, the dispatcher and the mail plugin.
  \<^item> \<open>Ingress\<close>, \<open>Processor\<close> (\<open>processing/ingress.py\<close>, \<open>api/routers/ingress.py\<close>) with \<open>IngressProps\<close>,
    \<open>IngressDelivery\<close>, \<open>AuditServing\<close>: a request is atomic, refines the step relation, is audited
    completely; a submitted task reaches its plugin; an inserted audit row can be served.
  \<^item> \<open>RateLimit\<close> (\<open>middleware\<close>), \<open>Access\<close> (\<open>config/settings.py\<close>, \<open>api/security.py\<close>), \<open>IncidentApi\<close>
    (\<open>api/routers/incidents.py\<close>): the limiter admits its limit within one window and at most twice the
    limit in any interval of a window's length; the tokens; the operator routes.
  \<^item> \<open>Wiring\<close> (\<open>main.py\<close>: \<open>create_app\<close>, the order of the middleware, the guards), \<open>Worker\<close>
    (\<open>processing/lifecycle_worker.py\<close> and the sweep worker of the limiter), \<open>Health\<close>
    (\<open>api/routers/health.py\<close>), \<open>Startup\<close> (lifespan, \<open>api/routers/config_status.py\<close>, \<open>plugins.py\<close>): the
    guards of the routes, the invariant of the worker beside the other transactions, readiness and
    its log, and that a started service delivers.
  \<^item> \<open>MigrateSource\<close>, \<open>MigratePreflight\<close>, \<open>MigrateTransform\<close>, \<open>MigrateRun\<close>
    (\<open>scripts/migrate_vigilo_config.py\<close>): source documents and their issues, the preflight checks, the
    generated documents and how the loaders read them, a run from its arguments to its exit code.
    \<open>MigrateSound\<close>: a clean preflight is transformed, in the order of the old priorities.
    \<open>MigratePromotion\<close>, \<open>MigrationProps\<close>: promotion is all or nothing, the report is accepted, Correlia
    starts on exactly the plugins, rules and topology that were promoted.
  \<^item> \<open>MigrationReport\<close> (\<open>processing/metrics.py\<close>): reading, validating and showing the report file: the
    gauges show the last good report of a history of scrapes.
    \<open>Collectors\<close>: the time series behind each increment; they are finitely many, distinct, and their
    labels lie in the declared domains.
  \<^item> \<open>Schema\<close> (\<open>migrations/versions\<close>, \<open>persistence/models.py\<close>), \<open>SchemaRows\<close>: the DDL of each revision
    and its inverse, the declared columns, and the rows of the two tables as values of columns, their
    JSON documents included: an upgrade from nothing gives the declared tables, a downgrade restores the
    schema before, the migrated tables accept every stored audit row, and an incident exactly when
    PostgreSQL can represent it.
  \<^item> \<open>AsciiJson\<close>, \<open>Logging\<close> (\<open>processing/logging.py\<close>): ASCII JSON, the closed vocabularies of the
    operational events, the builders of an extra and the formatter: a line shows allowlisted scalars.
  \<^item> \<open>Ownership\<close>, \<open>OwnershipProps\<close> (\<open>scripts/cleanup_verification.py\<close>), \<open>VerificationRun\<close>
    (\<open>scripts/verification.py\<close>): programs over the trace of Docker commands with proof rules for what
    they may issue; nothing is removed that is not owned, an acquisition excludes every later one while
    its marker is there, and a task passes only when its command, its cleanup and the lock file do.
  \<^item> \<open>DemoData\<close> and the theories \<open>Witnesses\<dots>\<close>: concrete values at which the properties are applied.

  \<^bold>\<open>Interfaces.\<close>  The locale \<open>open_table\<close> holds the laws of a table with a partial unique index
  (interpreted on the incident table), \<open>row_loop\<close> those of a loop of conditional row updates
  (interpreted on both recoveries and on expiration), \<open>keyset_pages\<close> those of a page query
  (interpreted on both lists).

  \<^bold>\<open>Bounds.\<close>  The only fuel is that of \<open>walk_pages\<close>, the client that follows cursors; one unit per row
  and one more is enough, which the two listing properties state.  The size of a migration report is
  proved for a path of the output directory of at most 3000 characters and a time of completion of at
  most 100, far above what a path and \<open>isoformat\<close> give.

  \<^bold>\<open>Not modelled.\<close>  The handlers of the standard \<open>logging\<close> module, the creation of the database engine,
  the environment of Alembic, the benchmark \<open>scripts/qualify_audit_bounds.py\<close>, which measures durations, row locks (transactions are
  atomic steps; interleavings are runs of \<open>db_step\<close>), cancellation of asyncio tasks, and the parts
  that the manifest lists as not modelled.
\<close>

end
